(* ===== verification/Prelude.thy ===== *)
theory Prelude
  imports Main "HOL-Library.Word" "HOL-Library.Multiset" "HOL-Library.AList"
begin

text \<open>
  What every theory of the development shares: the types of Go values, machine integers with
  their wrap-around written out, errors and panics as values, loops with an early return, slices
  indexed with Go's bounds check, and the per-shard buckets (\<open>make([][]T, shardNum)\<close> filled by
  \<open>append\<close>) that every component uses to route transactions.
\<close>

section \<open>Go values\<close>

text \<open>
  A byte slice is a list of bytes. An \<open>account.Address\<close>, the array \<open>[20]byte\<close>, is the 160-bit
  word of its bytes in big-endian order. Times are nanoseconds since the epoch.
\<close>

type_synonym bytes = "8 word list"
type_synonym address = "160 word"
type_synonym time = int

text \<open>The zero value of \<open>time.Time\<close> is the first of January of the year 1.\<close>

definition zero_time :: time where
  "zero_time = - 62135596800000000000"

named_theorems go_int \<open>machine integers: wrapping is the identity in range\<close>
named_theorems result_simps \<open>equations of results and of loops with an early return\<close>
named_theorems bucket_simps \<open>contents of the per-shard buckets\<close>

subsection \<open>Machine integers\<close>

definition i64 :: "int \<Rightarrow> int" where
  "i64 x = (x + 2 ^ 63) mod 2 ^ 64 - 2 ^ 63"

definition u64 :: "int \<Rightarrow> int" where
  "u64 x = x mod 2 ^ 64"

definition u256 :: "int \<Rightarrow> int" where
  "u256 x = x mod 2 ^ 256"

definition in_i64 :: "int \<Rightarrow> bool" where
  "in_i64 x \<longleftrightarrow> - (2 ^ 63) \<le> x \<and> x < 2 ^ 63"

text \<open>Go's integer division truncates towards zero.\<close>

definition quot :: "int \<Rightarrow> int \<Rightarrow> int" where
  "quot a b = sgn a * sgn b * (\<bar>a\<bar> div \<bar>b\<bar>)"

lemma i64_id [go_int]: "in_i64 x \<Longrightarrow> i64 x = x"
  by (simp add: i64_def in_i64_def)

lemma in_i64_i64 [simp]: "in_i64 (i64 x)"
proof -
  have "(x + 2 ^ 63) mod 2 ^ 64 < (2 ^ 64 :: int)" by simp
  moreover have "(0 :: int) \<le> (x + 2 ^ 63) mod 2 ^ 64" by simp
  ultimately show ?thesis by (simp add: i64_def in_i64_def)
qed

lemma u64_id [go_int]: "0 \<le> x \<Longrightarrow> x < 2 ^ 64 \<Longrightarrow> u64 x = x"
  by (simp add: u64_def)

lemma u256_id [go_int]: "0 \<le> x \<Longrightarrow> x < 2 ^ 256 \<Longrightarrow> u256 x = x"
  by (simp add: u256_def)

lemma u256_range [simp]: "0 \<le> u256 x" "u256 x < 2 ^ 256"
  by (simp_all add: u256_def)

lemma quot_nonneg [go_int]: "0 \<le> a \<Longrightarrow> 0 < b \<Longrightarrow> quot a b = a div b"
  by (cases "a = 0") (simp_all add: quot_def)

section \<open>Errors, panics and loops that stop early\<close>

text \<open>
  An \<open>error\<close> is the innermost error of a Go chain (\<open>%w\<close> wrapping only prefixes text) or a
  panic, which no caller recovers from. A fallible function returns \<open>error + 'a\<close>.
\<close>

datatype error = Errorf string | Panic string

type_synonym 'a result = "error + 'a"

fun fatal :: "'a result \<Rightarrow> bool" where
  "fatal (Inl (Panic m)) = True"
| "fatal _ = False"

definition bindR :: "'a result \<Rightarrow> ('a \<Rightarrow> 'b result) \<Rightarrow> 'b result" where
  "bindR r f = (case r of Inl e \<Rightarrow> Inl e | Inr x \<Rightarrow> f x)"

lemma bindR_simps [simp, result_simps]:
  "bindR (Inl e) f = Inl e"
  "bindR (Inr x) f = f x"
  by (simp_all add: bindR_def)

lemma bindR_Inr_iff [result_simps]: "bindR r f = Inr y \<longleftrightarrow> (\<exists>x. r = Inr x \<and> f x = Inr y)"
  by (cases r) simp_all

lemma bindR_Inl_iff: "bindR r f = Inl e \<longleftrightarrow> r = Inl e \<or> (\<exists>x. r = Inr x \<and> f x = Inl e)"
  by (cases r) simp_all

text \<open>A loop that computes one value per element, and returns at the first error.\<close>

primrec mapR :: "('a \<Rightarrow> 'b result) \<Rightarrow> 'a list \<Rightarrow> 'b list result" where
  "mapR f [] = Inr []"
| "mapR f (x # xs) = bindR (f x) (\<lambda>y. bindR (mapR f xs) (\<lambda>ys. Inr (y # ys)))"

text \<open>A loop that threads a state, and returns at the first error.\<close>

primrec foldR :: "('s \<Rightarrow> 'a \<Rightarrow> 's result) \<Rightarrow> 's \<Rightarrow> 'a list \<Rightarrow> 's result" where
  "foldR f s [] = Inr s"
| "foldR f s (x # xs) = bindR (f s x) (\<lambda>s'. foldR f s' xs)"

lemma mapR_length: "mapR f xs = Inr ys \<Longrightarrow> length ys = length xs"
  by (induction xs arbitrary: ys) (auto simp: bindR_Inr_iff)

lemma mapR_total: "(\<And>x. x \<in> set xs \<Longrightarrow> f x = Inr (g x)) \<Longrightarrow> mapR f xs = Inr (map g xs)"
  by (induction xs) auto

lemma mapR_nth: "mapR f xs = Inr ys \<Longrightarrow> i < length xs \<Longrightarrow> f (xs ! i) = Inr (ys ! i)"
  by (induction xs arbitrary: ys i) (auto simp: bindR_Inr_iff nth_Cons split: nat.splits)

lemma mapR_set: "mapR f xs = Inr ys \<Longrightarrow> y \<in> set ys \<Longrightarrow> \<exists>x \<in> set xs. f x = Inr y"
  by (induction xs arbitrary: ys) (auto simp: bindR_Inr_iff)

lemma foldR_append:
  "foldR f s (xs @ ys) = bindR (foldR f s xs) (\<lambda>s'. foldR f s' ys)"
proof (induction xs arbitrary: s)
  case (Cons x xs)
  then show ?case by (cases "f s x") simp_all
qed simp

lemma foldR_invariant:
  assumes "foldR f s xs = Inr s'" and "I s"
    and "\<And>s x s'. x \<in> set xs \<Longrightarrow> I s \<Longrightarrow> f s x = Inr s' \<Longrightarrow> I s'"
  shows "I s'"
  using assms
proof (induction xs arbitrary: s)
  case (Cons x xs)
  from Cons.prems(1) obtain t where t: "f s x = Inr t" "foldR f t xs = Inr s'"
    by (auto simp: bindR_Inr_iff)
  have "I t" using Cons.prems(2,3) t(1) by auto
  moreover have "\<And>y s s'. y \<in> set xs \<Longrightarrow> I s \<Longrightarrow> f s y = Inr s' \<Longrightarrow> I s'"
    using Cons.prems(3) by (meson list.set_intros(2))
  ultimately show ?case using Cons.IH [OF t(2)] by blast
qed simp

text \<open>A loop whose body cannot fail while the invariant holds.\<close>

lemma foldR_total:
  assumes "\<And>s x. x \<in> set xs \<Longrightarrow> I s \<Longrightarrow> \<exists>s'. f s x = Inr s' \<and> I s'" and "I s"
  shows "\<exists>s'. foldR f s xs = Inr s' \<and> I s'"
  using assms
proof (induction xs arbitrary: s)
  case (Cons x xs)
  obtain t where "f s x = Inr t" "I t" using Cons.prems by (meson list.set_intros(1))
  then show ?case using Cons.IH [of t] Cons.prems(1) by (metis bindR_simps(2) foldR.simps(2) list.set_intros(2))
qed simp

section \<open>Slices\<close>

definition index :: "'a list \<Rightarrow> int \<Rightarrow> 'a result" where
  "index xs i = (if 0 \<le> i \<and> i < int (length xs) then Inr (xs ! nat i)
                 else Inl (Panic ''index out of range''))"

text \<open>An assignment \<open>xs[i] op= ...\<close>; an index out of range panics.\<close>

definition modify_at :: "'a list \<Rightarrow> int \<Rightarrow> ('a \<Rightarrow> 'a) \<Rightarrow> 'a list result" where
  "modify_at xs i g = (if 0 \<le> i \<and> i < int (length xs) then Inr (xs[nat i := g (xs ! nat i)])
                       else Inl (Panic ''index out of range''))"

lemma modify_at_in: "0 \<le> i \<Longrightarrow> i < int (length xs) \<Longrightarrow> modify_at xs i g = Inr (xs[nat i := g (xs ! nat i)])"
  by (simp add: modify_at_def)

lemma modify_at_length: "modify_at xs i g = Inr ys \<Longrightarrow> length ys = length xs"
  by (auto simp: modify_at_def split: if_splits)

lemma modify_at_nth:
  "modify_at xs i g = Inr ys \<Longrightarrow> k < length xs \<Longrightarrow> ys ! k = (if int k = i then g (xs ! k) else xs ! k)"
  by (auto simp: modify_at_def nth_list_update split: if_splits)

text \<open>
  \<open>buckets[i] = append(buckets[i], x)\<close> on a slice of slices; an index out of range panics.
\<close>

definition bucket_add :: "'a list list \<Rightarrow> int \<Rightarrow> 'a \<Rightarrow> 'a list list result" where
  "bucket_add bs i x =
     (if 0 \<le> i \<and> i < int (length bs) then Inr (bs[nat i := bs ! nat i @ [x]])
      else Inl (Panic ''index out of range''))"

definition empty_buckets :: "int \<Rightarrow> 'a list list" where
  "empty_buckets n = replicate (nat n) []"

lemma length_empty_buckets [simp, bucket_simps]: "length (empty_buckets n) = nat n"
  by (simp add: empty_buckets_def)

lemma concat_empty_buckets [simp, bucket_simps]: "concat (empty_buckets n) = []"
  by (simp add: empty_buckets_def)

lemma nth_empty_buckets [simp, bucket_simps]: "i < nat n \<Longrightarrow> empty_buckets n ! i = []"
  by (simp add: empty_buckets_def)

lemma bucket_add_length [bucket_simps]: "bucket_add bs i x = Inr cs \<Longrightarrow> length cs = length bs"
  by (auto simp: bucket_add_def split: if_splits)

lemma mset_concat_update:
  "i < length bs \<Longrightarrow> mset (concat (bs[i := bs ! i @ [x]])) = mset (concat bs) + {#x#}"
proof (induction bs arbitrary: i)
  case (Cons b bs)
  then show ?case by (cases i) simp_all
qed simp

lemma bucket_add_mset [bucket_simps]:
  "bucket_add bs i x = Inr cs \<Longrightarrow> mset (concat cs) = mset (concat bs) + {#x#}"
  by (auto simp: bucket_add_def mset_concat_update split: if_splits)

lemma bucket_add_nth:
  "bucket_add bs i x = Inr cs \<Longrightarrow> k < length bs \<Longrightarrow>
     cs ! k = (if int k = i then bs ! k @ [x] else bs ! k)"
  by (auto simp: bucket_add_def nth_list_update split: if_splits)

lemma bucket_add_total [bucket_simps]:
  "0 \<le> i \<Longrightarrow> i < int (length bs) \<Longrightarrow> bucket_add bs i x = Inr (bs[nat i := bs ! nat i @ [x]])"
  by (simp add: bucket_add_def)

section \<open>Go maps\<close>

text \<open>
  A Go map is an association list with distinct keys: \<open>map_of\<close> looks up, \<open>AList.update\<close> and
  \<open>AList.delete\<close> are \<open>m[k] = v\<close> and \<open>delete(m, k)\<close>, \<open>length\<close> is \<open>len\<close>. Go leaves the order of
  an iteration open; here it is the order of the list, so a theorem about all lists covers
  every order.
\<close>

type_synonym ('k, 'v) gomap = "('k \<times> 'v) list"

definition gomap :: "('k, 'v) gomap \<Rightarrow> bool" where
  "gomap m \<longleftrightarrow> distinct (map fst m)"

definition get_or :: "'v \<Rightarrow> ('k, 'v) gomap \<Rightarrow> 'k \<Rightarrow> 'v" where
  "get_or d m k = (case map_of m k of None \<Rightarrow> d | Some v \<Rightarrow> v)"

definition keys_of :: "('k, 'v) gomap \<Rightarrow> 'k list" where
  "keys_of m = map fst m"

lemma gomap_empty [simp]: "gomap []"
  by (simp add: gomap_def)

lemma gomap_update [simp]: "gomap m \<Longrightarrow> gomap (AList.update k v m)"
  by (simp add: gomap_def distinct_update)

lemma gomap_delete [simp]: "gomap m \<Longrightarrow> gomap (AList.delete k m)"
  by (simp add: gomap_def distinct_delete)

lemma map_of_update [simp]: "map_of (AList.update k v m) k' = (if k' = k then Some v else map_of m k')"
  by (simp add: update_conv')

lemma map_of_delete [simp]: "map_of (AList.delete k m) k' = (if k' = k then None else map_of m k')"
  by (simp add: delete_conv')

lemma get_or_update [simp]: "get_or d (AList.update k v m) k' = (if k' = k then v else get_or d m k')"
  by (simp add: get_or_def)

lemma gomap_map_of: "gomap m \<Longrightarrow> map_of m k = Some v \<longleftrightarrow> (k, v) \<in> set m"
  by (simp add: gomap_def map_of_eq_Some_iff)

lemma keys_of_iff: "k \<in> set (keys_of m) \<longleftrightarrow> map_of m k \<noteq> None"
  by (auto simp: keys_of_def map_of_eq_None_iff)

lemma length_update_new: "map_of m k = None \<Longrightarrow> length (AList.update k v m) = Suc (length m)"
  by (induction m) (auto split: if_splits)

lemma length_update_old: "map_of m k \<noteq> None \<Longrightarrow> length (AList.update k v m) = length m"
  by (induction m) (auto split: if_splits)

section \<open>Lists\<close>

lemma mset_filter_partition:
  "mset (filter P xs) + mset (filter (\<lambda>x. \<not> P x) xs) = mset xs"
  by (induction xs) auto

lemma filter_eq_self_iff: "filter P xs = xs \<longleftrightarrow> (\<forall>x \<in> set xs. P x)"
  by (metis filter_id_conv)

end
