(* ===== verification/Format.thy ===== *)
theory Format
  imports Prelude "HOL-Library.Char_ord"
begin

text \<open>
  Text and bytes: Go strings are byte strings (\<open>string\<close>), hexadecimal and decimal notation as
  \<open>encoding/hex\<close>, \<open>fmt\<close> and \<open>math/big\<close> read and write them, and the address helpers of
  \<open>pkg/utils/hex2byte.go\<close>. The lemmas are the round trips and the exact length conditions under
  which an address survives its textual form.
\<close>

section \<open>Bytes and addresses\<close>

text \<open>\<open>binary.BigEndian\<close>: the number a byte string denotes.\<close>

definition be_uint :: "bytes \<Rightarrow> int" where
  "be_uint bs = fold (\<lambda>b a. a * 256 + uint b) bs 0"

text \<open>
  The address whose array holds the given bytes, \<open>copy(addr[:], b)\<close>: a short slice is padded with
  zero bytes at the end, a long one is cut off.
\<close>

definition addr_of_bytes :: "bytes \<Rightarrow> address" where
  "addr_of_bytes bs = word_of_int (be_uint (take 20 (bs @ replicate 20 0)))"

text \<open>The slice \<open>addr[:]\<close>.\<close>

definition bytes_of_addr :: "address \<Rightarrow> bytes" where
  "bytes_of_addr a = map (\<lambda>i. word_of_int (uint a div 256 ^ (19 - i))) [0..<20]"

lemma length_bytes_of_addr [simp]: "length (bytes_of_addr a) = 20"
  by (simp add: bytes_of_addr_def)

lemma be_uint_append: "be_uint (bs @ [b]) = be_uint bs * 256 + uint b"
  by (simp add: be_uint_def)

lemma be_uint_range: "0 \<le> be_uint bs \<and> be_uint bs < 256 ^ length bs"
proof (induction bs rule: rev_induct)
  case Nil
  then show ?case by (simp add: be_uint_def)
next
  case (snoc b bs)
  have "uint b < 256" "0 \<le> uint b" using uint_lt2p [of b] by simp_all
  then show ?case using snoc by (simp add: be_uint_append)
qed

lemma be_uint_digits:
  "0 \<le> x \<Longrightarrow> be_uint (map (\<lambda>i. word_of_int (x div 256 ^ (n - 1 - i))) [0..<n]) = x mod 256 ^ n"
proof (induction n arbitrary: x)
  case 0
  then show ?case by (simp add: be_uint_def)
next
  case (Suc n)
  have step: "x div 256 ^ (Suc n - 1 - i) = (x div 256) div 256 ^ (n - 1 - i)" if "i < n" for i
  proof -
    have e: "Suc n - 1 - i = Suc (n - 1 - i)" using that by simp
    show ?thesis unfolding e by (simp add: zdiv_zmult2_eq)
  qed
  let ?d = "\<lambda>y m i. word_of_int (y div 256 ^ (m - 1 - i)) :: 8 word"
  have "map (?d x (Suc n)) [0..<Suc n] = map (?d x (Suc n)) [0..<n] @ [word_of_int x]" by simp
  also have "map (?d x (Suc n)) [0..<n] = map (?d (x div 256) n) [0..<n]"
    by (rule map_cong [OF refl], simp only: set_upt atLeastLessThan_iff, simp only: step)
  finally have "be_uint (map (?d x (Suc n)) [0..<Suc n]) =
      be_uint (map (?d (x div 256) n) [0..<n]) * 256 + x mod 256"
    by (simp only: be_uint_append) (simp add: uint_word_of_int)
  also have "\<dots> = ((x div 256) mod 256 ^ n) * 256 + x mod 256"
    using Suc by (simp only: pos_imp_zdiv_nonneg_iff)
  also have "\<dots> = x mod 256 ^ Suc n"
    using zmod_zmult2_eq [of "256 ^ n" x 256] by (simp add: mult.commute)
  finally show ?case .
qed

lemma be_uint_bytes_of_addr [simp]: "be_uint (bytes_of_addr a) = uint a"
proof -
  have "uint a < 256 ^ 20" using uint_lt2p [of a] by simp
  then show ?thesis
    using be_uint_digits [of "uint a" 20] by (simp add: bytes_of_addr_def)
qed

lemma addr_of_bytes_of_addr [simp]: "addr_of_bytes (bytes_of_addr a) = a"
  by (simp add: addr_of_bytes_def)

section \<open>Hexadecimal\<close>

definition hex_digit :: "nat \<Rightarrow> char" where
  "hex_digit n = ''0123456789abcdef'' ! n"

text \<open>\<open>hex.EncodeToString\<close>.\<close>

definition EncodeToString :: "bytes \<Rightarrow> string" where
  "EncodeToString bs = concat (map (\<lambda>b. [hex_digit (unat b div 16), hex_digit (unat b mod 16)]) bs)"

definition from_hex_char :: "char \<Rightarrow> nat option" where
  "from_hex_char c =
     (if CHR ''0'' \<le> c \<and> c \<le> CHR ''9'' then Some (of_char c - of_char (CHR ''0''))
      else if CHR ''a'' \<le> c \<and> c \<le> CHR ''f'' then Some (of_char c - of_char (CHR ''a'') + 10)
      else if CHR ''A'' \<le> c \<and> c \<le> CHR ''F'' then Some (of_char c - of_char (CHR ''A'') + 10)
      else None)"

text \<open>\<open>hex.DecodeString\<close>: an odd length or a byte that is no digit is an error.\<close>

fun DecodeString :: "string \<Rightarrow> bytes result" where
  "DecodeString [] = Inr []"
| "DecodeString [c] = Inl (Errorf ''encoding/hex: odd length hex string'')"
| "DecodeString (c # d # cs) =
     (case (from_hex_char c, from_hex_char d) of
        (Some h, Some l) \<Rightarrow>
          bindR (DecodeString cs) (\<lambda>bs. Inr (word_of_nat (16 * h + l) # bs))
      | _ \<Rightarrow> Inl (Errorf ''encoding/hex: invalid byte''))"

definition has_prefix :: "string \<Rightarrow> string \<Rightarrow> bool" where
  "has_prefix s p \<longleftrightarrow> take (length p) s = p"

definition trim_prefix :: "string \<Rightarrow> string \<Rightarrow> string" where
  "trim_prefix s p = (if has_prefix s p then drop (length p) s else s)"

text \<open>\<open>utils.Hex2Bytes\<close> and \<open>utils.Hex2Addr\<close>.\<close>

definition Hex2Bytes :: "string \<Rightarrow> bytes result" where
  "Hex2Bytes s =
     DecodeString (if has_prefix s ''0x'' \<or> has_prefix s ''0X'' then drop 2 s else s)"

definition Hex2Addr :: "string \<Rightarrow> address result" where
  "Hex2Addr s = bindR (Hex2Bytes s) (\<lambda>b. Inr (addr_of_bytes b))"

lemma hex_digit_small: "n < 16 \<Longrightarrow> from_hex_char (hex_digit n) = Some n"
proof -
  have "\<forall>n \<in> set [0..<16]. from_hex_char (hex_digit n) = Some n" by code_simp
  then show "n < 16 \<Longrightarrow> ?thesis" by simp
qed

lemma length_EncodeToString [simp]: "length (EncodeToString bs) = 2 * length bs"
  by (induction bs) (simp_all add: EncodeToString_def)

lemma DecodeString_EncodeToString: "DecodeString (EncodeToString bs) = Inr bs"
proof (induction bs)
  case Nil
  then show ?case by (simp add: EncodeToString_def)
next
  case (Cons b bs)
  have b: "unat b < 256" using unsigned_less [of b, where 'a = nat] by simp
  have "from_hex_char (hex_digit (unat b div 16)) = Some (unat b div 16)"
    "from_hex_char (hex_digit (unat b mod 16)) = Some (unat b mod 16)"
    using b by (auto intro!: hex_digit_small)
  moreover have "word_of_nat (16 * (unat b div 16) + unat b mod 16) = b" by simp
  ultimately show ?case using Cons by (simp add: EncodeToString_def)
qed

lemma DecodeString_length: "DecodeString s = Inr bs \<Longrightarrow> length s = 2 * length bs"
  by (induction s arbitrary: bs rule: DecodeString.induct)
    (auto simp: bindR_Inr_iff split: option.splits)

text \<open>A hexadecimal string starts with a digit, never with the prefix \<open>0x\<close>.\<close>

lemma hex_digit_not_x: "n < 16 \<Longrightarrow> hex_digit n \<noteq> CHR ''x'' \<and> hex_digit n \<noteq> CHR ''X''"
proof -
  have "\<forall>n \<in> set [0..<16]. hex_digit n \<noteq> CHR ''x'' \<and> hex_digit n \<noteq> CHR ''X''" by code_simp
  then show "n < 16 \<Longrightarrow> ?thesis" by simp
qed

lemma EncodeToString_no_prefix:
  "\<not> has_prefix (EncodeToString bs) ''0x'' \<and> \<not> has_prefix (EncodeToString bs) ''0X''"
proof (cases bs)
  case Nil
  then show ?thesis by (simp add: EncodeToString_def has_prefix_def)
next
  case (Cons b bs')
  then show ?thesis
    using hex_digit_not_x [of "unat b mod 16"] by (simp add: EncodeToString_def has_prefix_def)
qed

lemma Hex2Bytes_roundtrip: "Hex2Bytes (''0x'' @ EncodeToString bs) = Inr bs"
  by (simp add: Hex2Bytes_def has_prefix_def DecodeString_EncodeToString)

lemma Hex2Bytes_roundtrip_bare: "Hex2Bytes (EncodeToString bs) = Inr bs"
  using EncodeToString_no_prefix [of bs] by (simp add: Hex2Bytes_def DecodeString_EncodeToString)

lemma Hex2Addr_roundtrip: "Hex2Addr (''0x'' @ EncodeToString (bytes_of_addr a)) = Inr a"
  by (simp add: Hex2Addr_def Hex2Bytes_roundtrip [simplified])

section \<open>Decimal\<close>

definition dec_digit :: "nat \<Rightarrow> char" where
  "dec_digit n = ''0123456789'' ! n"

fun show_nat :: "nat \<Rightarrow> string" where
  "show_nat n = (if n < 10 then [dec_digit n] else show_nat (n div 10) @ [dec_digit (n mod 10)])"

declare show_nat.simps [simp del]

text \<open>\<open>%d\<close> of \<open>fmt\<close>.\<close>

definition show_int :: "int \<Rightarrow> string" where
  "show_int i = (if i < 0 then CHR ''-'' # show_nat (nat (- i)) else show_nat (nat i))"

definition from_dec_char :: "char \<Rightarrow> nat option" where
  "from_dec_char c =
     (if CHR ''0'' \<le> c \<and> c \<le> CHR ''9'' then Some (of_char c - of_char (CHR ''0'')) else None)"

fun parse_nat :: "string \<Rightarrow> nat \<Rightarrow> nat option" where
  "parse_nat [] acc = Some acc"
| "parse_nat (c # cs) acc =
     (case from_dec_char c of None \<Rightarrow> None | Some d \<Rightarrow> parse_nat cs (10 * acc + d))"

text \<open>\<open>SetString(s, 10)\<close> of \<open>math/big\<close>: an optional sign and at least one digit.\<close>

definition parse_int :: "string \<Rightarrow> int option" where
  "parse_int s =
     (case s of
        [] \<Rightarrow> None
      | c # cs \<Rightarrow>
          if c = CHR ''-'' then (if cs = [] then None else map_option (\<lambda>n. - int n) (parse_nat cs 0))
          else if c = CHR ''+'' then (if cs = [] then None else map_option int (parse_nat cs 0))
          else map_option int (parse_nat s 0))"

lemma dec_digit_facts: "n < 10 \<Longrightarrow>
    from_dec_char (dec_digit n) = Some n \<and> dec_digit n \<noteq> CHR ''-'' \<and> dec_digit n \<noteq> CHR ''+''"
proof -
  have "\<forall>n \<in> set [0..<10]. from_dec_char (dec_digit n) = Some n \<and> dec_digit n \<noteq> CHR ''-'' \<and>
      dec_digit n \<noteq> CHR ''+''" by code_simp
  then show "n < 10 \<Longrightarrow> ?thesis" by simp
qed

lemma parse_nat_append:
  "parse_nat (cs @ ds) acc = (case parse_nat cs acc of None \<Rightarrow> None | Some a \<Rightarrow> parse_nat ds a)"
  by (induction cs acc rule: parse_nat.induct) (auto split: option.splits)

lemma parse_nat_show_nat: "parse_nat (show_nat n) 0 = Some n"
proof (induction n rule: show_nat.induct)
  case (1 n)
  show ?case
  proof (cases "n < 10")
    case True
    then show ?thesis by (subst show_nat.simps) (simp add: dec_digit_facts)
  next
    case False
    then show ?thesis using 1
      by (subst show_nat.simps) (simp add: parse_nat_append dec_digit_facts)
  qed
qed

lemma show_nat_head: "\<exists>c cs. show_nat n = c # cs \<and> c \<noteq> CHR ''-'' \<and> c \<noteq> CHR ''+''"
proof (induction n rule: show_nat.induct)
  case (1 n)
  show ?case
  proof (cases "n < 10")
    case True
    then show ?thesis by (subst show_nat.simps) (simp add: dec_digit_facts)
  next
    case False
    then show ?thesis using 1 by (subst show_nat.simps) auto
  qed
qed

lemma parse_int_show_int: "parse_int (show_int i) = Some i"
proof (cases "i < 0")
  case True
  then show ?thesis
    using show_nat_head [of "nat (- i)"] parse_nat_show_nat [of "nat (- i)"]
    by (auto simp: show_int_def parse_int_def)
next
  case False
  then show ?thesis
    using show_nat_head [of "nat i"] parse_nat_show_nat [of "nat i"]
    by (auto simp: show_int_def parse_int_def split: list.splits)
qed

end
