(* ===== verification/CoreTypes.thy ===== *)
theory CoreTypes
  imports Format
begin

text \<open>
  The data of \<open>pkg/core\<close>: account states, transactions and their type, block headers and blocks,
  and the bloom filter of a block header. An embedded struct is a record extension (\<open>block\<close>
  extends \<open>header\<close>) or, where a struct embeds several, the flattened fields. Third-party code
  (hash functions, RLP, gob, the Merkle-Patricia trie, the bit set of the bloom filter) is the
  record \<open>lib\<close> of parameters that the operations take as their first argument.
\<close>

section \<open>Accounts\<close>

text \<open>\<open>NormalInitBalanceStr\<close> and \<open>BrokerInitBalanceStr\<close>; \<open>EmptyAccountAddr\<close> is the zero address.\<close>

definition NormalInitBalance :: int where
  "NormalInitBalance = 1000000000000000000000000000000000000"

definition BrokerInitBalance :: int where
  "BrokerInitBalance = 1000000000000000000000000000000000000"

definition EmptyAccountAddr :: address where
  "EmptyAccountAddr = 0"

record state =
  st_Address :: address
  st_Nonce :: int
  st_Balance :: int
  st_StorageRoot :: bytes
  st_Code :: bytes
  ShardLocation :: int

definition NewState :: "address \<Rightarrow> int \<Rightarrow> state" where
  "NewState addr loc =
     \<lparr>st_Address = addr, st_Nonce = 0, st_Balance = NormalInitBalance, st_StorageRoot = [],
      st_Code = [], ShardLocation = loc\<rparr>"

definition Credit :: "state \<Rightarrow> int \<Rightarrow> state" where
  "Credit s v = s\<lparr>st_Balance := st_Balance s + v\<rparr>"

definition Debit :: "state \<Rightarrow> int \<Rightarrow> state result" where
  "Debit s v =
     (if st_Balance s < v then Inl (Errorf ''not enough balance'')
      else Inr (s\<lparr>st_Balance := st_Balance s - v\<rparr>))"

section \<open>Transactions\<close>

datatype tx_type =
  NormalTxType | RelayTxType | BrokerTxType | CreateContractTxType | CallContractTxType

abbreviation (input) "UndeterminedRelayTx \<equiv> 0 :: int"
abbreviation (input) "Relay1Tx \<equiv> 1 :: int"
abbreviation (input) "Relay2Tx \<equiv> 2 :: int"
abbreviation (input) "RawTxBrokerStage \<equiv> 0 :: int"
abbreviation (input) "Sigma1BrokerStage \<equiv> 1 :: int"
abbreviation (input) "Sigma2BrokerStage \<equiv> 2 :: int"

record transaction =
  Sender :: address
  Recipient :: address
  Value :: int
  PriorityFee :: int
  Nonce :: int
  Signature :: bytes
  CreateTime :: time
  Data :: bytes
  GasLimit :: int
  RelayStage :: int
  ROriginalHash :: bytes
  BrokerStage :: int
  Broker :: address
  BOriginalHash :: bytes
  OriginalTxCreateTime :: time
  NonceBroker :: int
  HeightLock :: int
  HeightCurrent :: int

definition NewTransaction ::
    "address \<Rightarrow> address \<Rightarrow> int \<Rightarrow> int \<Rightarrow> int \<Rightarrow> time \<Rightarrow> transaction" where
  "NewTransaction sender recipient val priorityFee nonce proposeTime =
     \<lparr>Sender = sender, Recipient = recipient, Value = val, PriorityFee = priorityFee,
      Nonce = nonce, Signature = [], CreateTime = proposeTime, Data = [], GasLimit = 1000000,
      RelayStage = 0, ROriginalHash = [],
      BrokerStage = 0, Broker = 0, BOriginalHash = [], OriginalTxCreateTime = zero_time,
      NonceBroker = 0, HeightLock = 0, HeightCurrent = 0\<rparr>"

definition TxType :: "transaction \<Rightarrow> tx_type" where
  "TxType tx =
     (if BOriginalHash tx \<noteq> [] then BrokerTxType
      else if ROriginalHash tx \<noteq> [] then RelayTxType
      else if Data tx = [] then NormalTxType
      else if Recipient tx = EmptyAccountAddr then CreateContractTxType
      else CallContractTxType)"

section \<open>Blocks\<close>

record Filter =
  B :: "bool list"
  FilterHashFs :: "string list"

record header =
  ParentBlockHash :: bytes
  StateRoot :: bytes
  Number :: int
  Type :: int
  Miner :: address
  h_CreateTime :: time
  LocationRoot :: bytes
  TxRoot :: bytes
  Bloom :: Filter
  MigratedAccountsRoot :: bytes

record block = header +
  TxList :: "transaction list"
  MigratedAddrs :: "address list"
  MigratedStates :: "state list"

abbreviation (input) "TxBlockType \<equiv> 1 :: int"
abbreviation (input) "MigrationBlockType \<equiv> 2 :: int"

definition NewBlock :: "header \<Rightarrow> transaction list \<Rightarrow> address list \<Rightarrow> state list \<Rightarrow> block" where
  "NewBlock h txs addrs states =
     header.extend h (block.fields txs addrs states)"

lemma NewBlock_simps [simp]:
  "Number (NewBlock h txs as ss) = Number h"
  "ParentBlockHash (NewBlock h txs as ss) = ParentBlockHash h"
  "StateRoot (NewBlock h txs as ss) = StateRoot h"
  "Type (NewBlock h txs as ss) = Type h"
  "h_CreateTime (NewBlock h txs as ss) = h_CreateTime h"
  "Miner (NewBlock h txs as ss) = Miner h"
  "LocationRoot (NewBlock h txs as ss) = LocationRoot h"
  "TxRoot (NewBlock h txs as ss) = TxRoot h"
  "Bloom (NewBlock h txs as ss) = Bloom h"
  "MigratedAccountsRoot (NewBlock h txs as ss) = MigratedAccountsRoot h"
  "TxList (NewBlock h txs as ss) = txs"
  "MigratedAddrs (NewBlock h txs as ss) = as"
  "MigratedStates (NewBlock h txs as ss) = ss"
  by (simp_all add: NewBlock_def header.defs block.defs)

section \<open>Third-party code\<close>

text \<open>
  The functions of other packages that the core calls. An encoder returns \<open>None\<close> where the
  package returns an error. \<open>mpt_root\<close> is the root hash of a fresh Merkle-Patricia trie after
  the given updates; the \<open>bs_\<close> functions are those of \<open>bits-and-blooms/bitset\<close>, whose value is
  the sequence of its bits.
\<close>

record lib =
  sha256 :: "bytes \<Rightarrow> bytes"
  sha512 :: "bytes \<Rightarrow> bytes"
  sha1 :: "bytes \<Rightarrow> bytes"
  rlp_tx :: "transaction \<Rightarrow> bytes option"
  rlp_header :: "header \<Rightarrow> bytes option"
  rlp_block :: "block \<Rightarrow> bytes option"
  gob_state :: "state \<Rightarrow> bytes option"
  gob_block :: "block \<Rightarrow> bytes option"
  gob_unblock :: "bytes \<Rightarrow> block option"
  gob_loc :: "int \<Rightarrow> bytes option"
  gob_unloc :: "bytes \<Rightarrow> int option"
  mpt_root :: "(bytes \<times> bytes) list \<Rightarrow> bytes option"
  bs_new :: "int \<Rightarrow> bool list"
  bs_set :: "bool list \<Rightarrow> int \<Rightarrow> bool list"
  bs_test :: "bool list \<Rightarrow> int \<Rightarrow> bool"
  bs_len :: "bool list \<Rightarrow> int"
  bs_equal :: "bool list \<Rightarrow> bool list \<Rightarrow> bool"

definition orErr :: "string \<Rightarrow> 'a option \<Rightarrow> 'a result" where
  "orErr msg x = (case x of None \<Rightarrow> Inl (Errorf msg) | Some y \<Rightarrow> Inr y)"

lemma orErr_simps [simp, result_simps]:
  "orErr msg None = Inl (Errorf msg)"
  "orErr msg (Some y) = Inr y"
  by (simp_all add: orErr_def)

lemma orErr_eq_Inr [simp]: "orErr msg x = Inr y \<longleftrightarrow> x = Some y"
  by (cases x) simp_all

definition tx_Encode :: "lib \<Rightarrow> transaction \<Rightarrow> bytes result" where
  "tx_Encode L tx = orErr ''rlp'' (rlp_tx L tx)"

definition tx_Hash :: "lib \<Rightarrow> transaction \<Rightarrow> bytes result" where
  "tx_Hash L tx = bindR (tx_Encode L tx) (\<lambda>b. Inr (sha256 L b))"

definition header_Encode :: "lib \<Rightarrow> header \<Rightarrow> bytes result" where
  "header_Encode L h = orErr ''rlp'' (rlp_header L h)"

definition header_Hash :: "lib \<Rightarrow> header \<Rightarrow> bytes result" where
  "header_Hash L h = bindR (header_Encode L h) (\<lambda>b. Inr (sha256 L b))"

text \<open>The method \<open>Hash\<close> of a block is that of its embedded header.\<close>

definition block_Hash :: "lib \<Rightarrow> block \<Rightarrow> bytes result" where
  "block_Hash L b = header_Hash L (header.truncate b)"

definition block_Encode :: "lib \<Rightarrow> block \<Rightarrow> bytes result" where
  "block_Encode L b = orErr ''encode block failed'' (gob_block L b)"

definition DecodeBlock :: "lib \<Rightarrow> bytes \<Rightarrow> block result" where
  "DecodeBlock L d = orErr ''decode block failed'' (gob_unblock L d)"

definition state_Encode :: "lib \<Rightarrow> state \<Rightarrow> bytes result" where
  "state_Encode L s = orErr ''encode state failed'' (gob_state L s)"

text \<open>\<open>utils.GenerateRootByGivenBytes\<close>.\<close>

definition GenerateRootByGivenBytes :: "lib \<Rightarrow> bytes list \<Rightarrow> bytes list \<Rightarrow> bytes result" where
  "GenerateRootByGivenBytes L keys vals =
     (if length keys \<noteq> length vals then Inl (Errorf ''bad input, len(keys) != len(values)'')
      else orErr ''update trie db failed'' (mpt_root L (zip keys vals)))"

text \<open>\<open>utils.BigToUInt256\<close>: a number that is negative or has more than 256 bits is refused.\<close>

definition BigToUInt256 :: "int \<Rightarrow> int result" where
  "BigToUInt256 b =
     (if b < 0 then Inl (Errorf ''the input big int is a negative number'')
      else if 2 ^ 256 \<le> b then Inl (Errorf ''call FromBig overflow'')
      else Inr b)"

lemma BigToUInt256_Inr [simp]: "BigToUInt256 b = Inr u \<longleftrightarrow> u = b \<and> 0 \<le> b \<and> b < 2 ^ 256"
  by (auto simp: BigToUInt256_def)

text \<open>
  \<open>block.ConvertBlock2Line\<close>: the CSV line of a block; \<open>fmt_time\<close> is the RFC 3339 layout of
  \<open>utils.ConvertTime2Str\<close>.
\<close>

definition ConvertBlock2Line :: "lib \<Rightarrow> (time \<Rightarrow> string) \<Rightarrow> block \<Rightarrow> string list result" where
  "ConvertBlock2Line L fmt_time b = bindR (block_Hash L b) (\<lambda>blockHash. Inr
     [EncodeToString (ParentBlockHash b), EncodeToString blockHash, EncodeToString (StateRoot b),
      show_int (Number b), fmt_time (h_CreateTime b), EncodeToString (LocationRoot b),
      EncodeToString (TxRoot b), show_int (int (length (TxList b))),
      EncodeToString (MigratedAccountsRoot b), show_int (int (length (MigratedAddrs b)))])"

section \<open>Bloom filter\<close>

definition NewFilter :: "lib \<Rightarrow> int \<Rightarrow> string list \<Rightarrow> Filter result" where
  "NewFilter L bitsetLen hashFunc =
     (if 2 ^ 24 < bitsetLen then Inl (Errorf ''length of Bitset must be <= 16777216'')
      else Inr \<lparr>B = bs_new L (u64 bitsetLen), FilterHashFs = hashFunc\<rparr>)"

definition filterFuncRegistry :: "lib \<Rightarrow> string \<Rightarrow> (bytes \<Rightarrow> bytes) option" where
  "filterFuncRegistry L name =
     (if name = ''sha256'' then Some (sha256 L) else if name = ''sha512'' then Some (sha512 L)
      else if name = ''sha1'' then Some (sha1 L) else None)"

definition defaultFilterFs :: "lib \<Rightarrow> (bytes \<Rightarrow> bytes) list" where
  "defaultFilterFs L = [sha256 L, sha512 L, sha1 L]"

text \<open>One unknown name makes the filter fall back to the default functions.\<close>

definition getFilterHashFs :: "lib \<Rightarrow> Filter \<Rightarrow> (bytes \<Rightarrow> bytes) list" where
  "getFilterHashFs L f =
     (let fs = map (filterFuncRegistry L) (FilterHashFs f)
      in if None \<in> set fs then defaultFilterFs L else map the fs)"

definition byte2uint :: "bytes \<Rightarrow> int" where
  "byte2uint b =
     (let b' = (if length b < 8 then replicate (8 - length b) 0 @ b else b)
      in be_uint (drop (length b' - 8) b'))"

definition set_bit_of :: "lib \<Rightarrow> bytes \<Rightarrow> bool list \<Rightarrow> (bytes \<Rightarrow> bytes) \<Rightarrow> bool list result" where
  "set_bit_of L element bits h =
     (if bs_len L bits = 0 then Inl (Panic ''integer divide by zero'')
      else Inr (bs_set L bits (byte2uint (h element) mod bs_len L bits)))"

definition bloom_Add :: "lib \<Rightarrow> bytes list \<Rightarrow> Filter \<Rightarrow> Filter result" where
  "bloom_Add L elements f =
     bindR (foldR (\<lambda>bits element. foldR (set_bit_of L element) bits (getFilterHashFs L f))
             (B f) elements)
       (\<lambda>bits. Inr (f\<lparr>B := bits\<rparr>))"

text \<open>\<open>Contains\<close> stops at the first bit that is not set.\<close>

fun all_bits :: "lib \<Rightarrow> bool list \<Rightarrow> bytes \<Rightarrow> (bytes \<Rightarrow> bytes) list \<Rightarrow> bool result" where
  "all_bits L bits hash [] = Inr True"
| "all_bits L bits hash (h # hs) =
     (if bs_len L bits = 0 then Inl (Panic ''integer divide by zero'')
      else if \<not> bs_test L bits (byte2uint (h hash) mod bs_len L bits) then Inr False
      else all_bits L bits hash hs)"

definition bloom_Contains :: "lib \<Rightarrow> Filter \<Rightarrow> bytes \<Rightarrow> bool result" where
  "bloom_Contains L f hash = all_bits L (B f) hash (getFilterHashFs L f)"

definition bloom_Equal :: "lib \<Rightarrow> Filter \<Rightarrow> Filter \<Rightarrow> bool" where
  "bloom_Equal L f other = bs_equal L (B f) (B other)"

text \<open>What the documentation of the bit set promises.\<close>

definition bitset_laws :: "lib \<Rightarrow> bool" where
  "bitset_laws L \<longleftrightarrow>
     (\<forall>b i. 0 \<le> i \<longrightarrow> i < bs_len L b \<longrightarrow> bs_len L (bs_set L b i) = bs_len L b) \<and>
     (\<forall>b i j. 0 \<le> i \<longrightarrow> i < bs_len L b \<longrightarrow>
        bs_test L (bs_set L b i) j = (j = i \<or> bs_test L b j)) \<and>
     (\<forall>b. 0 \<le> bs_len L b)"

lemma bitset_lawsD:
  assumes "bitset_laws L"
  shows "0 \<le> i \<Longrightarrow> i < bs_len L b \<Longrightarrow> bs_len L (bs_set L b i) = bs_len L b"
    and "0 \<le> i \<Longrightarrow> i < bs_len L b \<Longrightarrow> bs_test L (bs_set L b i) j = (j = i \<or> bs_test L b j)"
    and "0 \<le> bs_len L b"
  using assms by (auto simp: bitset_laws_def)

definition covered :: "lib \<Rightarrow> bytes \<Rightarrow> (bytes \<Rightarrow> bytes) list \<Rightarrow> bool list \<Rightarrow> bool" where
  "covered L e hs bits \<longleftrightarrow>
     (\<forall>h \<in> set hs. bs_test L bits (byte2uint (h e) mod bs_len L bits))"

lemma set_bit_of_keeps:
  assumes "bitset_laws L" "set_bit_of L e bits h = Inr bits'"
  shows "bs_len L bits' = bs_len L bits \<and> bs_len L bits \<noteq> 0 \<and>
     (\<forall>j. bs_test L bits j \<longrightarrow> bs_test L bits' j) \<and>
     bs_test L bits' (byte2uint (h e) mod bs_len L bits)"
proof -
  let ?i = "byte2uint (h e) mod bs_len L bits"
  have ne: "bs_len L bits \<noteq> 0" and b': "bits' = bs_set L bits ?i"
    using assms(2) by (auto simp: set_bit_of_def split: if_splits)
  have pos: "0 < bs_len L bits" using ne bitset_lawsD(3) [OF assms(1), of bits] by simp
  have "0 \<le> ?i" "?i < bs_len L bits" using pos by simp_all
  then show ?thesis using bitset_lawsD [OF assms(1)] ne b' by simp
qed

lemma set_bits_of_keeps:
  assumes L: "bitset_laws L"
  shows "foldR (set_bit_of L e) bits hs = Inr bits' \<Longrightarrow>
     bs_len L bits' = bs_len L bits \<and> (\<forall>j. bs_test L bits j \<longrightarrow> bs_test L bits' j) \<and>
     (hs \<noteq> [] \<longrightarrow> bs_len L bits \<noteq> 0) \<and> covered L e hs bits'"
proof (induction hs arbitrary: bits)
  case (Cons h hs)
  from Cons.prems obtain b where b: "set_bit_of L e bits h = Inr b"
    "foldR (set_bit_of L e) b hs = Inr bits'" by (auto simp: bindR_Inr_iff)
  show ?case using set_bit_of_keeps [OF L b(1)] Cons.IH [OF b(2)] by (auto simp: covered_def)
qed (simp add: covered_def)

lemma bloom_Add_keeps:
  assumes L: "bitset_laws L"
  shows "foldR (\<lambda>bits e. foldR (set_bit_of L e) bits hs) bits es = Inr bits' \<Longrightarrow>
     bs_len L bits' = bs_len L bits \<and> (\<forall>j. bs_test L bits j \<longrightarrow> bs_test L bits' j) \<and>
     (hs \<noteq> [] \<longrightarrow> es \<noteq> [] \<longrightarrow> bs_len L bits \<noteq> 0) \<and> (\<forall>e \<in> set es. covered L e hs bits')"
proof (induction es arbitrary: bits)
  case (Cons e es)
  from Cons.prems obtain b where b: "foldR (set_bit_of L e) bits hs = Inr b"
    "foldR (\<lambda>bits e. foldR (set_bit_of L e) bits hs) b es = Inr bits'"
    by (auto simp: bindR_Inr_iff)
  show ?case using set_bits_of_keeps [OF L b(1)] Cons.IH [OF b(2)] by (auto simp: covered_def)
qed simp

lemma all_bits_covered:
  "covered L e hs bits \<Longrightarrow> hs = [] \<or> bs_len L bits \<noteq> 0 \<Longrightarrow> all_bits L bits e hs = Inr True"
  by (induction hs) (auto simp: covered_def)

lemma getFilterHashFs_bits [simp]: "getFilterHashFs L (f\<lparr>B := bits\<rparr>) = getFilterHashFs L f"
  by (simp add: getFilterHashFs_def)

end
