(* ===== verification/StateExec.thy ===== *)
theory StateExec
  imports CoreTypes
begin

text \<open>
  Executing transactions (\<open>pkg/chain/txexecute.go\<close>, \<open>stateio.go\<close>, \<open>evmcontractexecutor.go\<close> and
  \<open>pkg/vm/vm.go\<close>) on the state database of go-ethereum, which is the record \<open>geth\<close> of the calls
  the code makes. Amounts are 256-bit unsigned numbers. The refinement below shows that the
  balances a transaction leaves are those of an abstract ledger.
\<close>

section \<open>The state database\<close>

text \<open>\<open>'d\<close> is an open state, \<open>'db\<close> the database it is read from and committed to.\<close>

record BlockContext =
  Coinbase :: address
  BlockNumber :: int
  Time :: int
  ctx_GasLimit :: int

record ('db, 'd) geth =
  state_New :: "bytes \<Rightarrow> 'db \<Rightarrow> 'd option"
  Exist :: "'d \<Rightarrow> address \<Rightarrow> bool"
  GetBalance :: "'d \<Rightarrow> address \<Rightarrow> int"
  GetNonce :: "'d \<Rightarrow> address \<Rightarrow> int"
  SetBalance :: "'d \<Rightarrow> address \<Rightarrow> int \<Rightarrow> 'd"
  SetNonce :: "'d \<Rightarrow> address \<Rightarrow> int \<Rightarrow> 'd"
  AddBalance :: "'d \<Rightarrow> address \<Rightarrow> int \<Rightarrow> 'd"
  SubBalance :: "'d \<Rightarrow> address \<Rightarrow> int \<Rightarrow> 'd"
  CanTransfer :: "'d \<Rightarrow> address \<Rightarrow> int \<Rightarrow> bool"
  IntermediateRoot :: "'d \<Rightarrow> bytes"
  state_Commit :: "'d \<Rightarrow> int \<Rightarrow> 'db \<Rightarrow> bytes option \<times> 'db"
  trie_Commit :: "bytes \<Rightarrow> 'db \<Rightarrow> bool \<times> 'db"
  evm_Create :: "BlockContext \<Rightarrow> address \<Rightarrow> bytes \<Rightarrow> int \<Rightarrow> int \<Rightarrow> 'd \<Rightarrow> (address \<times> int) option \<times> 'd"
  evm_Call :: "BlockContext \<Rightarrow> address \<Rightarrow> address \<Rightarrow> bytes \<Rightarrow> int \<Rightarrow> int \<Rightarrow> 'd \<Rightarrow>
                (bytes \<times> int) option \<times> 'd"

text \<open>
  What the documentation of \<open>StateDB\<close> promises of these calls: an account exists once it was
  written; a write changes only its account; 256-bit arithmetic wraps.
\<close>

definition geth_laws :: "('db, 'd) geth \<Rightarrow> bool" where
  "geth_laws G \<longleftrightarrow>
     (\<forall>s a. 0 \<le> GetBalance G s a \<and> GetBalance G s a < 2 ^ 256) \<and>
     (\<forall>s a v. CanTransfer G s a v = (v \<le> GetBalance G s a)) \<and>
     (\<forall>s a v b. 0 \<le> v \<longrightarrow> v < 2 ^ 256 \<longrightarrow>
        Exist G (SetBalance G s a v) b = (b = a \<or> Exist G s b) \<and>
        GetBalance G (SetBalance G s a v) b = (if b = a then v else GetBalance G s b) \<and>
        GetNonce G (SetBalance G s a v) b = GetNonce G s b) \<and>
     (\<forall>s a v b. 0 \<le> v \<longrightarrow> v < 2 ^ 256 \<longrightarrow> Exist G s a \<longrightarrow>
        Exist G (AddBalance G s a v) b = Exist G s b \<and>
        GetBalance G (AddBalance G s a v) b =
          (if b = a then u256 (GetBalance G s b + v) else GetBalance G s b)) \<and>
     (\<forall>s a v b. 0 \<le> v \<longrightarrow> v < 2 ^ 256 \<longrightarrow> Exist G s a \<longrightarrow>
        Exist G (SubBalance G s a v) b = Exist G s b \<and>
        GetBalance G (SubBalance G s a v) b =
          (if b = a then u256 (GetBalance G s b - v) else GetBalance G s b)) \<and>
     (\<forall>s a n b. 0 \<le> n \<longrightarrow> n < 2 ^ 64 \<longrightarrow>
        Exist G (SetNonce G s a n) b = (b = a \<or> Exist G s b) \<and>
        GetBalance G (SetNonce G s a n) b = GetBalance G s b \<and>
        GetNonce G (SetNonce G s a n) b = (if b = a then n else GetNonce G s b))"

lemma geth_lawsD:
  assumes "geth_laws G"
  shows "0 \<le> GetBalance G s a" "GetBalance G s a < 2 ^ 256"
    and "CanTransfer G s a v = (v \<le> GetBalance G s a)"
    and "0 \<le> v \<Longrightarrow> v < 2 ^ 256 \<Longrightarrow> Exist G (SetBalance G s a v) b = (b = a \<or> Exist G s b)"
    and "0 \<le> v \<Longrightarrow> v < 2 ^ 256 \<Longrightarrow>
           GetBalance G (SetBalance G s a v) b = (if b = a then v else GetBalance G s b)"
    and "0 \<le> v \<Longrightarrow> v < 2 ^ 256 \<Longrightarrow> Exist G s a \<Longrightarrow> Exist G (AddBalance G s a v) b = Exist G s b"
    and "0 \<le> v \<Longrightarrow> v < 2 ^ 256 \<Longrightarrow> Exist G s a \<Longrightarrow> GetBalance G (AddBalance G s a v) b =
           (if b = a then u256 (GetBalance G s b + v) else GetBalance G s b)"
    and "0 \<le> v \<Longrightarrow> v < 2 ^ 256 \<Longrightarrow> Exist G s a \<Longrightarrow> Exist G (SubBalance G s a v) b = Exist G s b"
    and "0 \<le> v \<Longrightarrow> v < 2 ^ 256 \<Longrightarrow> Exist G s a \<Longrightarrow> GetBalance G (SubBalance G s a v) b =
           (if b = a then u256 (GetBalance G s b - v) else GetBalance G s b)"
    and "0 \<le> n \<Longrightarrow> n < 2 ^ 64 \<Longrightarrow> Exist G (SetNonce G s a n) b = (b = a \<or> Exist G s b)"
    and "0 \<le> n \<Longrightarrow> n < 2 ^ 64 \<Longrightarrow> GetBalance G (SetNonce G s a n) b = GetBalance G s b"
    and "0 \<le> n \<Longrightarrow> n < 2 ^ 64 \<Longrightarrow>
           GetNonce G (SetNonce G s a n) b = (if b = a then n else GetNonce G s b)"
    and "0 \<le> v \<Longrightarrow> v < 2 ^ 256 \<Longrightarrow> GetNonce G (SetBalance G s a v) b = GetNonce G s b"
  using assms by (auto simp: geth_laws_def)

section \<open>The executor\<close>

definition blockNumBias :: int where
  "blockNumBias = 20000000"

definition blockGasLimit :: int where
  "blockGasLimit = 1000000000000"

text \<open>\<open>uint64(b.CreateTime.Unix())\<close>: seconds since the epoch, rounded down.\<close>

definition getBlockCtxByBlock :: "block \<Rightarrow> BlockContext" where
  "getBlockCtxByBlock b =
     \<lparr>Coinbase = Miner b, BlockNumber = u64 (Number b + blockNumBias),
      Time = u64 (h_CreateTime b div 1000000000), ctx_GasLimit = blockGasLimit\<rparr>"

definition DeployContract ::
    "('db, 'd) geth \<Rightarrow> BlockContext \<Rightarrow> transaction \<Rightarrow> 'd \<Rightarrow> (address \<times> int) result \<times> 'd" where
  "DeployContract G bctx tx s =
     (if TxType tx \<noteq> CreateContractTxType then (Inl (Errorf ''not a create contract tx''), s)
      else case BigToUInt256 (Value tx) of
        Inl e \<Rightarrow> (Inl e, s)
      | Inr uValue \<Rightarrow>
          (case evm_Create G bctx (Sender tx) (Data tx) (GasLimit tx) uValue s of
             (None, s') \<Rightarrow> (Inl (Errorf ''failed to create contract''), s')
           | (Some r, s') \<Rightarrow> (Inr r, s')))"

definition CallContract ::
    "('db, 'd) geth \<Rightarrow> BlockContext \<Rightarrow> transaction \<Rightarrow> 'd \<Rightarrow> (bytes \<times> int) result \<times> 'd" where
  "CallContract G bctx tx s =
     (if TxType tx \<noteq> CallContractTxType then (Inl (Errorf ''not a call contract tx''), s)
      else case BigToUInt256 (Value tx) of
        Inl e \<Rightarrow> (Inl e, s)
      | Inr uValue \<Rightarrow>
          (case evm_Call G bctx (Sender tx) (Recipient tx) (Data tx) (GasLimit tx) uValue s of
             (None, s') \<Rightarrow> (Inl (Errorf ''evm call failed''), s')
           | (Some r, s') \<Rightarrow> (Inr r, s')))"

definition CreateContractTxExecute ::
    "('db, 'd) geth \<Rightarrow> BlockContext \<Rightarrow> transaction \<Rightarrow> 'd \<Rightarrow> (address \<times> int) result \<times> 'd" where
  "CreateContractTxExecute G bctx tx s = DeployContract G bctx tx s"

definition CallContractTxExecute ::
    "('db, 'd) geth \<Rightarrow> BlockContext \<Rightarrow> transaction \<Rightarrow> 'd \<Rightarrow> (bytes \<times> int) result \<times> 'd" where
  "CallContractTxExecute G bctx tx s = CallContract G bctx tx s"

section \<open>Transfers\<close>

definition setInitBalanceIfNotExist :: "('db, 'd) geth \<Rightarrow> address list \<Rightarrow> 'd \<Rightarrow> 'd" where
  "setInitBalanceIfNotExist G addresses s =
     fold (\<lambda>a s. if \<not> Exist G s a then SetBalance G s a NormalInitBalance else s) addresses s"

definition setBrokerInitBalanceIfNotExist :: "('db, 'd) geth \<Rightarrow> address list \<Rightarrow> 'd \<Rightarrow> 'd" where
  "setBrokerInitBalanceIfNotExist G addresses s =
     fold (\<lambda>a s. if \<not> Exist G s a then SetBalance G s a BrokerInitBalance else s) addresses s"

definition normalTxExecute :: "('db, 'd) geth \<Rightarrow> transaction \<Rightarrow> 'd \<Rightarrow> 'd result" where
  "normalTxExecute G tx s =
     bindR (BigToUInt256 (Value tx)) (\<lambda>uVal.
     let s1 = setInitBalanceIfNotExist G [Sender tx, Recipient tx] s
     in if \<not> CanTransfer G s1 (Sender tx) uVal
        then Inl (Errorf ''transfer failed: the balance is not enough'')
        else Inr (AddBalance G (SubBalance G s1 (Sender tx) uVal) (Recipient tx) uVal))"

text \<open>A missing key of \<open>addrLoc\<close> reads as 0.\<close>

definition relayTxExecute ::
    "('db, 'd) geth \<Rightarrow> (address, int) gomap \<Rightarrow> int \<Rightarrow> transaction \<Rightarrow> 'd \<Rightarrow> 'd result" where
  "relayTxExecute G addrLoc shard tx s =
     bindR (BigToUInt256 (Value tx)) (\<lambda>uVal.
     if RelayStage tx = Relay1Tx then
       (if get_or 0 addrLoc (Sender tx) \<noteq> shard then Inr s
        else let s1 = setInitBalanceIfNotExist G [Sender tx] s
             in if \<not> CanTransfer G s1 (Sender tx) uVal
                then Inl (Errorf ''transfer failed: the balance is not enough'')
                else Inr (SubBalance G s1 (Sender tx) uVal))
     else if RelayStage tx = Relay2Tx then
       (if get_or 0 addrLoc (Recipient tx) \<noteq> shard then Inr s
        else let s1 = setInitBalanceIfNotExist G [Recipient tx] s
             in Inr (AddBalance G s1 (Recipient tx) uVal))
     else Inl (Errorf ''unknown relay transaction type''))"

definition brokerTxExecute ::
    "('db, 'd) geth \<Rightarrow> (address, int) gomap \<Rightarrow> int \<Rightarrow> transaction \<Rightarrow> 'd \<Rightarrow> 'd result" where
  "brokerTxExecute G addrLoc shard tx s =
     bindR (BigToUInt256 (Value tx)) (\<lambda>uVal.
     if BrokerStage tx = Sigma1BrokerStage then
       (if get_or 0 addrLoc (Sender tx) \<noteq> shard then Inr s
        else let s1 = setBrokerInitBalanceIfNotExist G [Broker tx]
                        (setInitBalanceIfNotExist G [Sender tx] s)
             in if \<not> CanTransfer G s1 (Sender tx) uVal
                then Inl (Errorf ''transfer failed: the balance is not enough'')
                else Inr (AddBalance G (SubBalance G s1 (Sender tx) uVal) (Broker tx) uVal))
     else if BrokerStage tx = Sigma2BrokerStage then
       (if get_or 0 addrLoc (Recipient tx) \<noteq> shard then Inr s
        else let s1 = setBrokerInitBalanceIfNotExist G [Broker tx]
                        (setInitBalanceIfNotExist G [Recipient tx] s)
             in Inr (AddBalance G (SubBalance G s1 (Broker tx) uVal) (Recipient tx) uVal))
     else Inl (Errorf ''unknown broker transaction type''))"

text \<open>\<open>Chain.txExecute\<close>.\<close>

definition txExecute ::
    "('db, 'd) geth \<Rightarrow> BlockContext \<Rightarrow> (address, int) gomap \<Rightarrow> int \<Rightarrow> transaction \<Rightarrow> 'd \<Rightarrow> 'd result" where
  "txExecute G bctx addrLoc shard tx s =
     (case TxType tx of
        NormalTxType \<Rightarrow> normalTxExecute G tx s
      | RelayTxType \<Rightarrow> relayTxExecute G addrLoc shard tx s
      | BrokerTxType \<Rightarrow> brokerTxExecute G addrLoc shard tx s
      | CreateContractTxType \<Rightarrow>
          (case CreateContractTxExecute G bctx tx s of (Inl e, _) \<Rightarrow> Inl e | (Inr _, s') \<Rightarrow> Inr s')
      | CallContractTxType \<Rightarrow>
          (case CallContractTxExecute G bctx tx s of (Inl e, _) \<Rightarrow> Inl e | (Inr _, s') \<Rightarrow> Inr s'))"

section \<open>Reading and migrating accounts\<close>

definition readStateFromVMExecutor :: "('db, 'd) geth \<Rightarrow> address \<Rightarrow> 'd \<Rightarrow> int \<Rightarrow> state" where
  "readStateFromVMExecutor G a s location =
     (if \<not> Exist G s a then NewState a location
      else \<lparr>st_Address = a, st_Nonce = GetNonce G s a, st_Balance = GetBalance G s a,
            st_StorageRoot = [], st_Code = [], ShardLocation = location\<rparr>)"

definition setMigratedStates2VMTrie :: "('db, 'd) geth \<Rightarrow> address \<Rightarrow> state \<Rightarrow> 'd \<Rightarrow> 'd result" where
  "setMigratedStates2VMTrie G a st s =
     bindR (BigToUInt256 (st_Balance st)) (\<lambda>b.
     Inr (SetNonce G (SetBalance G s a b) a (st_Nonce st)))"

section \<open>The abstract ledger\<close>

text \<open>
  The balance an account is treated as having: its own, or the initial one while it does not
  exist. Every transfer is an update of this function.
\<close>

definition balance :: "('db, 'd) geth \<Rightarrow> 'd \<Rightarrow> address \<Rightarrow> int" where
  "balance G s a = (if Exist G s a then GetBalance G s a else NormalInitBalance)"

definition debit :: "address \<Rightarrow> int \<Rightarrow> (address \<Rightarrow> int) \<Rightarrow> (address \<Rightarrow> int)" where
  "debit a v L = L(a := u256 (L a - v))"

definition credit :: "address \<Rightarrow> int \<Rightarrow> (address \<Rightarrow> int) \<Rightarrow> (address \<Rightarrow> int)" where
  "credit a v L = L(a := u256 (L a + v))"

text \<open>
  What a transfer transaction does to the ledger of a shard: \<open>None\<close> for the transactions the
  shard refuses.
\<close>

definition ledger_step ::
    "(address, int) gomap \<Rightarrow> int \<Rightarrow> transaction \<Rightarrow> (address \<Rightarrow> int) \<Rightarrow> (address \<Rightarrow> int) option" where
  "ledger_step addrLoc shard tx L =
     (let v = Value tx; a = Sender tx; b = Recipient tx; k = Broker tx in
      if v < 0 \<or> 2 ^ 256 \<le> v then None
      else case TxType tx of
        NormalTxType \<Rightarrow> if v \<le> L a then Some (credit b v (debit a v L)) else None
      | RelayTxType \<Rightarrow>
          if RelayStage tx = Relay1Tx then
            (if get_or 0 addrLoc a \<noteq> shard then Some L
             else if v \<le> L a then Some (debit a v L) else None)
          else if RelayStage tx = Relay2Tx then
            (if get_or 0 addrLoc b \<noteq> shard then Some L else Some (credit b v L))
          else None
      | BrokerTxType \<Rightarrow>
          if BrokerStage tx = Sigma1BrokerStage then
            (if get_or 0 addrLoc a \<noteq> shard then Some L
             else if v \<le> L a then Some (credit k v (debit a v L)) else None)
          else if BrokerStage tx = Sigma2BrokerStage then
            (if get_or 0 addrLoc b \<noteq> shard then Some L
             else Some (credit b v (debit k v L)))
          else None
      | _ \<Rightarrow> None)"

lemma init_balances: "0 \<le> NormalInitBalance" "NormalInitBalance < 2 ^ 256"
  "BrokerInitBalance = NormalInitBalance"
  by (simp_all add: NormalInitBalance_def BrokerInitBalance_def)

lemma setInit_spec:
  assumes G: "geth_laws G"
  shows "Exist G (setInitBalanceIfNotExist G as s) b = (b \<in> set as \<or> Exist G s b)"
    and "balance G (setInitBalanceIfNotExist G as s) = balance G s"
proof -
  have "(Exist G (setInitBalanceIfNotExist G as s) b = (b \<in> set as \<or> Exist G s b)) \<and>
      balance G (setInitBalanceIfNotExist G as s) = balance G s"
  proof (induction as arbitrary: s)
    case (Cons a as)
    let ?s = "if \<not> Exist G s a then SetBalance G s a NormalInitBalance else s"
    have "balance G ?s = balance G s"
      using geth_lawsD(4,5) [OF G init_balances(1,2)] by (auto simp: balance_def fun_eq_iff)
    moreover have "Exist G ?s c = (c = a \<or> Exist G s c)" for c
      using geth_lawsD(4) [OF G init_balances(1,2)] by auto
    ultimately show ?case using Cons.IH [of ?s] by (auto simp: setInitBalanceIfNotExist_def)
  qed (simp add: setInitBalanceIfNotExist_def)
  then show "Exist G (setInitBalanceIfNotExist G as s) b = (b \<in> set as \<or> Exist G s b)"
    "balance G (setInitBalanceIfNotExist G as s) = balance G s" by auto
qed

lemma setBrokerInit_eq: "setBrokerInitBalanceIfNotExist = setInitBalanceIfNotExist"
  unfolding fun_eq_iff setBrokerInitBalanceIfNotExist_def setInitBalanceIfNotExist_def init_balances(3)
  by simp

lemma balance_Add:
  assumes "geth_laws G" "Exist G s a" "0 \<le> v" "v < 2 ^ 256"
  shows "balance G (AddBalance G s a v) = credit a v (balance G s)"
    and "Exist G (AddBalance G s a v) b = Exist G s b"
  using geth_lawsD(6,7) [OF assms(1,3,4,2)] assms(2) by (auto simp: balance_def credit_def fun_eq_iff)

lemma balance_Sub:
  assumes "geth_laws G" "Exist G s a" "0 \<le> v" "v < 2 ^ 256"
  shows "balance G (SubBalance G s a v) = debit a v (balance G s)"
    and "Exist G (SubBalance G s a v) b = Exist G s b"
  using geth_lawsD(8,9) [OF assms(1,3,4,2)] assms(2) by (auto simp: balance_def debit_def fun_eq_iff)

lemma CanTransfer_balance:
  "geth_laws G \<Longrightarrow> Exist G s a \<Longrightarrow> CanTransfer G s a v = (v \<le> balance G s a)"
  by (simp add: geth_lawsD(3) balance_def)

lemma BigToUInt256_refused: "v < 0 \<or> 2 ^ 256 \<le> v \<Longrightarrow> \<exists>e. BigToUInt256 v = Inl e"
  by (auto simp: BigToUInt256_def)

lemma ledger_facts:
  assumes "geth_laws G" "0 \<le> v" "v < 2 ^ 256"
  shows "BigToUInt256 v = Inr v" "Exist G s a \<Longrightarrow> balance G (AddBalance G s a v) = credit a v (balance G s)"
    "Exist G s a \<Longrightarrow> Exist G (AddBalance G s a v) b = Exist G s b"
    "Exist G s a \<Longrightarrow> balance G (SubBalance G s a v) = debit a v (balance G s)"
    "Exist G s a \<Longrightarrow> Exist G (SubBalance G s a v) b = Exist G s b"
    "Exist G s a \<Longrightarrow> CanTransfer G s a v = (v \<le> balance G s a)"
    "Exist G (setInitBalanceIfNotExist G as s) b = (b \<in> set as \<or> Exist G s b)"
    "balance G (setInitBalanceIfNotExist G as s) = balance G s"
  using assms by (simp_all add: balance_Add balance_Sub CanTransfer_balance setInit_spec)

section \<open>Properties\<close>

text \<open>C7: executing a transfer, relay or broker transaction refines the abstract ledger: it succeeds
  exactly when the ledger allows it, and the balances it leaves are those of the ledger.\<close>

theorem txExecute_refines_ledger:
  assumes G: "geth_laws G" and ty: "TxType tx \<in> {NormalTxType, RelayTxType, BrokerTxType}"
  shows "ledger_step addrLoc shard tx (balance G s) =
    (case txExecute G bctx addrLoc shard tx s of Inl _ \<Rightarrow> None | Inr s' \<Rightarrow> Some (balance G s'))"
proof (cases "Value tx < 0 \<or> 2 ^ 256 \<le> Value tx")
  case True
  then obtain e where "BigToUInt256 (Value tx) = Inl e" using BigToUInt256_refused by blast
  then show ?thesis
    using True ty
    by (auto simp: ledger_step_def txExecute_def normalTxExecute_def relayTxExecute_def brokerTxExecute_def)
next
  case False
  then have v: "0 \<le> Value tx" "Value tx < 2 ^ 256" by auto
  note ledger = ledger_facts [OF G v] setBrokerInit_eq
  from ty consider "TxType tx = NormalTxType" | "TxType tx = RelayTxType" | "TxType tx = BrokerTxType"
    by blast
  then show ?thesis
  proof cases
    case 1
    then show ?thesis
      using False v by (simp add: ledger_step_def txExecute_def normalTxExecute_def Let_def ledger)
  next
    case 2
    then show ?thesis
      using False v by (simp add: ledger_step_def txExecute_def relayTxExecute_def Let_def ledger)
  next
    case 3
    then show ?thesis
      using False v by (simp add: ledger_step_def txExecute_def brokerTxExecute_def Let_def ledger)
  qed
qed

text \<open>C8: a cross-shard transfer by relay moves the amount: the first stage in the sender's shard and
  the second in the recipient's leave the sum of the two balances as it was, and touch no other.\<close>

theorem relay_pair_conserves:
  assumes G: "geth_laws G"
    and r1: "TxType tx1 = RelayTxType" "RelayStage tx1 = 1" "get_or 0 loc1 (Sender tx1) = sh1"
    and r2: "tx2 = tx1\<lparr>RelayStage := 2\<rparr>" "get_or 0 loc2 (Recipient tx1) = sh2"
    and run: "txExecute G ctx1 loc1 sh1 tx1 s = Inr s'" "txExecute G ctx2 loc2 sh2 tx2 t = Inr t'"
    and room: "balance G t (Recipient tx1) + Value tx1 < 2 ^ 256"
  shows "balance G s' (Sender tx1) + balance G t' (Recipient tx1) =
           balance G s (Sender tx1) + balance G t (Recipient tx1) \<and>
         (\<forall>a. a \<noteq> Sender tx1 \<longrightarrow> balance G s' a = balance G s a) \<and>
         (\<forall>a. a \<noteq> Recipient tx1 \<longrightarrow> balance G t' a = balance G t a)"
proof -
  have v: "0 \<le> Value tx1" "Value tx1 < 2 ^ 256"
    using run(1) r1(1) by (auto simp: txExecute_def relayTxExecute_def bindR_Inr_iff)
  have ty2: "TxType tx2 = RelayTxType" using r1(1) by (auto simp: r2 TxType_def split: if_splits)
  note facts = ledger_facts [OF G v]
  have s': "Value tx1 \<le> balance G s (Sender tx1)" "balance G s' = debit (Sender tx1) (Value tx1) (balance G s)"
    using run(1) r1 facts by (auto simp: txExecute_def relayTxExecute_def Let_def split: if_splits)
  have t': "balance G t' = credit (Recipient tx1) (Value tx1) (balance G t)"
    using run(2) ty2 by (auto simp: r2 txExecute_def relayTxExecute_def Let_def facts)
  have "balance G s (Sender tx1) < 2 ^ 256" "0 \<le> balance G t (Recipient tx1)"
    using geth_lawsD(1,2) [OF G] init_balances by (auto simp: balance_def)
  then show ?thesis
    using s' t' v room by (auto simp: debit_def credit_def u256_id)
qed

text \<open>A transaction inside a shard conserves the sum of the two balances.\<close>

theorem normal_tx_conserves:
  assumes G: "geth_laws G" and ty: "TxType tx = NormalTxType" and ne: "Sender tx \<noteq> Recipient tx"
    and run: "txExecute G bctx loc sh tx s = Inr s'"
    and room: "balance G s (Recipient tx) + Value tx < 2 ^ 256"
  shows "balance G s' (Sender tx) = balance G s (Sender tx) - Value tx \<and>
         balance G s' (Recipient tx) = balance G s (Recipient tx) + Value tx \<and> 0 \<le> balance G s' (Sender tx) \<and>
         (\<forall>a. a \<noteq> Sender tx \<longrightarrow> a \<noteq> Recipient tx \<longrightarrow> balance G s' a = balance G s a)"
proof -
  have v: "0 \<le> Value tx" "Value tx < 2 ^ 256"
    using run ty by (auto simp: txExecute_def normalTxExecute_def bindR_Inr_iff)
  note facts = ledger_facts [OF G v]
  have s': "Value tx \<le> balance G s (Sender tx)"
    "balance G s' = credit (Recipient tx) (Value tx) (debit (Sender tx) (Value tx) (balance G s))"
    using run ty facts by (auto simp: txExecute_def normalTxExecute_def Let_def split: if_splits)
  have "balance G s (Sender tx) < 2 ^ 256" "0 \<le> balance G s (Recipient tx)"
    using geth_lawsD(1,2) [OF G] init_balances by (auto simp: balance_def)
  then show ?thesis
    using s' v room ne by (auto simp: debit_def credit_def u256_id)
qed

text \<open>C9: the second stage of a broker transaction debits the broker without checking its balance:
  a broker with less than the amount ends with a balance that has wrapped below zero.\<close>

theorem broker2_debit_wraps:
  assumes G: "geth_laws G" and ty: "TxType tx = BrokerTxType" "BrokerStage tx = 2"
    and here: "get_or 0 loc (Recipient tx) = sh" and ne: "Broker tx \<noteq> Recipient tx"
    and v: "0 \<le> Value tx" "Value tx < 2 ^ 256" and poor: "balance G s (Broker tx) < Value tx"
  shows "\<exists>s'. txExecute G bctx loc sh tx s = Inr s' \<and>
    balance G s' (Broker tx) = balance G s (Broker tx) - Value tx + 2 ^ 256"
proof -
  note facts = ledger_facts [OF G v] setBrokerInit_eq
  obtain s' where s': "txExecute G bctx loc sh tx s = Inr s'"
    "balance G s' = credit (Recipient tx) (Value tx) (debit (Broker tx) (Value tx) (balance G s))"
    using ty here by (simp add: txExecute_def brokerTxExecute_def Let_def facts)
  have "0 \<le> balance G s (Broker tx)"
    using geth_lawsD(1) [OF G] init_balances by (auto simp: balance_def)
  then have "u256 (balance G s (Broker tx) - Value tx) = balance G s (Broker tx) - Value tx + 2 ^ 256"
    using poor v mod_pos_pos_trivial [of "balance G s (Broker tx) - Value tx + 2 ^ 256" "2 ^ 256"]
    by (simp add: u256_def)
  then show ?thesis using s' ne by (auto simp: debit_def credit_def)
qed


section \<open>Examples\<close>

text \<open>A state database whose state is a map from accounts to balance and nonce.\<close>

type_synonym example_state = "address \<Rightarrow> (int \<times> int) option"

definition example_read :: "example_state \<Rightarrow> address \<Rightarrow> int \<times> int" where
  "example_read s a = (case s a of None \<Rightarrow> (0, 0) | Some p \<Rightarrow> p)"

definition example_write :: "example_state \<Rightarrow> address \<Rightarrow> int \<Rightarrow> example_state" where
  "example_write s a v = s(a \<mapsto> (u256 v, snd (example_read s a)))"

definition example_geth :: "(unit, example_state) geth" where
  "example_geth =
     \<lparr>state_New = (\<lambda>root db. Some Map.empty), Exist = (\<lambda>s a. s a \<noteq> None),
      GetBalance = (\<lambda>s a. u256 (fst (example_read s a))), GetNonce = (\<lambda>s a. snd (example_read s a)),
      SetBalance = example_write,
      SetNonce = (\<lambda>s a n. s(a \<mapsto> (fst (example_read s a), n))),
      AddBalance = (\<lambda>s a v. example_write s a (u256 (fst (example_read s a)) + v)),
      SubBalance = (\<lambda>s a v. example_write s a (u256 (fst (example_read s a)) - v)),
      CanTransfer = (\<lambda>s a v. v \<le> u256 (fst (example_read s a))),
      IntermediateRoot = (\<lambda>s. replicate 32 0), state_Commit = (\<lambda>s n db. (Some (replicate 32 0), db)),
      trie_Commit = (\<lambda>root db. (True, db)),
      evm_Create = (\<lambda>ctx a code gas v s. (None, s)),
      evm_Call = (\<lambda>ctx a b code gas v s. (None, s))\<rparr>"

lemma u256_u256 [simp]: "u256 (u256 x) = u256 x"
  by (simp add: u256_def)

lemma example_geth_laws: "geth_laws example_geth"
proof -
  have "u256 x < 115792089237316195423570985008687907853269984665640564039457584007913129639936" for x
    using u256_range(2) [of x] by simp
  then show ?thesis
    by (auto simp: geth_laws_def example_geth_def example_write_def example_read_def u256_id
        split: option.splits)
qed

definition example_tx :: transaction where
  "example_tx = (NewTransaction 1 2 5 0 0 0)\<lparr>ROriginalHash := [7], RelayStage := 1\<rparr>"

definition example_ctx :: BlockContext where
  "example_ctx = \<lparr>Coinbase = 0, BlockNumber = 0, Time = 0, ctx_GasLimit = 0\<rparr>"

theorem txExecute_refines_ledger_witness:
  "ledger_step [] 0 example_tx (balance example_geth Map.empty) =
    (case txExecute example_geth example_ctx [] 0 example_tx Map.empty of
       Inl _ \<Rightarrow> None | Inr s' \<Rightarrow> Some (balance example_geth s'))"
  by (rule txExecute_refines_ledger [OF example_geth_laws])
    (simp add: example_tx_def TxType_def NewTransaction_def)

lemmas example_run = BigToUInt256_def txExecute_def relayTxExecute_def normalTxExecute_def brokerTxExecute_def TxType_def
  example_tx_def NewTransaction_def example_geth_def example_read_def example_write_def
  setInitBalanceIfNotExist_def setBrokerInitBalanceIfNotExist_def NormalInitBalance_def
  BrokerInitBalance_def u256_def get_or_def balance_def

theorem relay_pair_conserves_witness:
  "\<exists>s' t'. txExecute example_geth example_ctx [] 0 example_tx Map.empty = Inr s' \<and>
     txExecute example_geth example_ctx [(2, 1)] 1 (example_tx\<lparr>RelayStage := 2\<rparr>) Map.empty = Inr t' \<and>
     balance example_geth s' (Sender example_tx) + balance example_geth t' (Recipient example_tx) =
     balance example_geth Map.empty (Sender example_tx) + balance example_geth Map.empty (Recipient example_tx)"
proof -
  obtain s' where s': "txExecute example_geth example_ctx [] 0 example_tx Map.empty = Inr s'"
    by (simp add: example_run)
  obtain t' where t': "txExecute example_geth example_ctx [(2, 1)] 1 (example_tx\<lparr>RelayStage := 2\<rparr>) Map.empty = Inr t'"
    by (simp add: example_run)
  have "balance example_geth s' (Sender example_tx) + balance example_geth t' (Recipient example_tx) =
     balance example_geth Map.empty (Sender example_tx) + balance example_geth Map.empty (Recipient example_tx)"
    by (rule conjunct1 [OF relay_pair_conserves [OF example_geth_laws _ _ _ refl _ s' t']])
      (simp_all add: example_run)
  then show ?thesis using s' t' by blast
qed

theorem normal_tx_conserves_witness:
  "\<exists>s'. txExecute example_geth example_ctx [] 0 (NewTransaction 1 2 5 0 0 0) Map.empty = Inr s' \<and>
     balance example_geth s' 2 = balance example_geth Map.empty 2 + 5"
proof -
  obtain s' where s': "txExecute example_geth example_ctx [] 0 (NewTransaction 1 2 5 0 0 0) Map.empty = Inr s'"
    by (simp add: example_run)
  show ?thesis
    using normal_tx_conserves [OF example_geth_laws _ _ s'] s' by (simp add: example_run)
qed

theorem broker2_debit_wraps_witness:
  "\<exists>s'. txExecute example_geth example_ctx [] 0
       (example_tx\<lparr>BOriginalHash := [7], BrokerStage := 2, Broker := 9\<rparr>)
       (Map.empty(9 \<mapsto> (3, 0))) = Inr s' \<and>
     balance example_geth s' 9 = 3 - 5 + 2 ^ 256"
  using broker2_debit_wraps [OF example_geth_laws,
      of "example_tx\<lparr>BOriginalHash := [7], BrokerStage := 2, Broker := 9\<rparr>" "[]" 0 "Map.empty(9 \<mapsto> (3, 0))"
      example_ctx]
  by (simp add: example_run)


end
