(* ===== verification/Storage.thy ===== *)
theory Storage
  imports CoreTypes
begin

text \<open>
  Storage: the block store on bbolt (\<open>pkg/storage/block/blot_db.go\<close>) and the location store on a
  Merkle-Patricia trie of go-ethereum (\<open>pkg/storage/trie/eth_db.go\<close>). bbolt runs an update as a
  transaction: when the closure returns an error nothing is written.
\<close>

section \<open>The block store\<close>

type_synonym bucket = "(bytes, bytes) gomap"

record BoltStore =
  bucketBlock :: "bucket option"
  bucketBlockHeader :: "bucket option"
  bucketNewestBlock :: "bucket option"

text \<open>\<open>Bucket.Put\<close> of bbolt, which returns an error for some keys and values.\<close>

type_synonym bolt_put = "bytes \<Rightarrow> bytes \<Rightarrow> bucket \<Rightarrow> bucket option"

definition bolt_laws :: "bolt_put \<Rightarrow> bool" where
  "bolt_laws put \<longleftrightarrow> (\<forall>k v b b'. put k v b = Some b' \<longrightarrow> map_of b' = (map_of b)(k \<mapsto> v))"

definition newestBlockKey :: bytes where
  "newestBlockKey = map of_char ''newest_block''"

text \<open>\<open>NewBoltStore\<close> creates the buckets that do not exist.\<close>

definition CreateBucketIfNotExists :: "bucket option \<Rightarrow> bucket option" where
  "CreateBucketIfNotExists b = (case b of None \<Rightarrow> Some [] | Some c \<Rightarrow> Some c)"

definition NewBoltStore :: "BoltStore \<Rightarrow> BoltStore" where
  "NewBoltStore db =
     \<lparr>bucketBlock = CreateBucketIfNotExists (bucketBlock db),
      bucketBlockHeader = CreateBucketIfNotExists (bucketBlockHeader db),
      bucketNewestBlock = CreateBucketIfNotExists (bucketNewestBlock db)\<rparr>"

text \<open>Fetch a bucket and put into it, in an open transaction.\<close>

definition put_in ::
    "bolt_put \<Rightarrow> (BoltStore \<Rightarrow> bucket option) \<Rightarrow> (bucket option \<Rightarrow> BoltStore \<Rightarrow> BoltStore) \<Rightarrow>
     bytes \<Rightarrow> bytes \<Rightarrow> BoltStore \<Rightarrow> BoltStore result" where
  "put_in put get upd k v db =
     bindR (orErr ''bucket is nil'' (get db)) (\<lambda>b.
     bindR (orErr ''put err'' (put k v b)) (\<lambda>b'.
     Inr (upd (Some b') db)))"

abbreviation "put_block put \<equiv> put_in put bucketBlock (\<lambda>b db. db\<lparr>bucketBlock := b\<rparr>)"
abbreviation "put_header put \<equiv> put_in put bucketBlockHeader (\<lambda>b db. db\<lparr>bucketBlockHeader := b\<rparr>)"
abbreviation "put_newest put \<equiv> put_in put bucketNewestBlock (\<lambda>b db. db\<lparr>bucketNewestBlock := b\<rparr>)"

text \<open>\<open>db.Update\<close>: the closure's changes are kept only if it returns no error.\<close>

definition bolt_Update :: "(BoltStore \<Rightarrow> BoltStore result) \<Rightarrow> BoltStore \<Rightarrow> unit result \<times> BoltStore" where
  "bolt_Update h db = (case h db of Inl e \<Rightarrow> (Inl e, db) | Inr db' \<Rightarrow> (Inr (), db'))"

definition UpdateNewestBlockHash :: "bolt_put \<Rightarrow> bytes \<Rightarrow> BoltStore \<Rightarrow> unit result \<times> BoltStore" where
  "UpdateNewestBlockHash put newBlockHash = bolt_Update (put_newest put newestBlockKey newBlockHash)"

definition GetNewestBlockHash :: "BoltStore \<Rightarrow> bytes result" where
  "GetNewestBlockHash db =
     bindR (orErr ''bucket is nil'' (bucketNewestBlock db)) (\<lambda>b.
     orErr ''get newest blockHash failed'' (map_of b newestBlockKey))"

definition AddBlockHeader :: "bolt_put \<Rightarrow> bytes \<Rightarrow> bytes \<Rightarrow> BoltStore \<Rightarrow> unit result \<times> BoltStore" where
  "AddBlockHeader put blockHash encodedBlockHeader = bolt_Update (\<lambda>db.
     bindR (put_header put blockHash encodedBlockHeader db) (put_newest put newestBlockKey blockHash))"

definition GetBlockHeaderByHash :: "bytes \<Rightarrow> BoltStore \<Rightarrow> bytes result" where
  "GetBlockHeaderByHash blockHash db =
     bindR (orErr ''bucket is nil'' (bucketBlockHeader db)) (\<lambda>b.
     orErr ''get blockHash in the bucketBlockHeader failed'' (map_of b blockHash))"

definition bolt_AddBlock :: "bolt_put \<Rightarrow> bytes \<Rightarrow> bytes \<Rightarrow> bytes \<Rightarrow> BoltStore \<Rightarrow> unit result \<times> BoltStore" where
  "bolt_AddBlock put blockHash encodedBlock encodedBlockHeader = bolt_Update (\<lambda>db.
     bindR (put_block put blockHash encodedBlock db) (\<lambda>db1.
     bindR (put_header put blockHash encodedBlockHeader db1)
     (put_newest put newestBlockKey blockHash)))"

definition GetBlockByHash :: "bytes \<Rightarrow> BoltStore \<Rightarrow> bytes result" where
  "GetBlockByHash h db =
     bindR (orErr ''bucket is nil'' (bucketBlock db)) (\<lambda>b.
     orErr ''get block by hash in bucketBlock failed'' (map_of b h))"

section \<open>The location store\<close>

text \<open>
  The trie and its database in go-ethereum: \<open>trie.New\<close>, \<open>Get\<close>, \<open>Update\<close>, \<open>Hash\<close>, \<open>Commit\<close> (the
  new root and the dirty nodes, if any), and \<open>Update\<close> and \<open>Commit\<close> of the database.
\<close>

record ('tdb, 't, 'ns) eth_trie =
  trie_New :: "bytes \<Rightarrow> 'tdb \<Rightarrow> 't option"
  trie_Get :: "'t \<Rightarrow> bytes \<Rightarrow> bytes option option"
  trie_Update :: "'t \<Rightarrow> bytes \<Rightarrow> bytes \<Rightarrow> 't option"
  trie_Hash :: "'t \<Rightarrow> bytes"
  trie_CommitNodes :: "'t \<Rightarrow> bytes \<times> 'ns option"
  triedb_Update :: "bytes \<Rightarrow> bytes \<Rightarrow> 'ns \<Rightarrow> 'tdb \<Rightarrow> bool \<times> 'tdb"
  triedb_Commit :: "bytes \<Rightarrow> 'tdb \<Rightarrow> bool \<times> 'tdb"

record 'tdb LocStore =
  trieDB :: 'tdb
  curStateRoot :: bytes

definition GetCurrentRoot :: "'tdb LocStore \<Rightarrow> bytes" where
  "GetCurrentRoot e = curStateRoot e"

definition check_lengths :: "bytes list \<Rightarrow> bytes list \<Rightarrow> unit result" where
  "check_lengths keys values =
     (if length keys \<noteq> length values then Inl (Errorf ''bad input, len(keys) != len(values)'')
      else Inr ())"

text \<open>The loop \<open>for i := range keys { curTrie.Update(keys[i], values[i]) }\<close>.\<close>

definition update_all ::
    "('tdb, 't, 'ns) eth_trie \<Rightarrow> 't \<Rightarrow> bytes list \<Rightarrow> bytes list \<Rightarrow> 't result" where
  "update_all T t keys values =
     foldR (\<lambda>t (k, v). orErr ''update trie failed'' (trie_Update T t k v)) t (zip keys values)"

definition MAddKeyValuesPreview ::
    "('tdb, 't, 'ns) eth_trie \<Rightarrow> bytes list \<Rightarrow> bytes list \<Rightarrow> 'tdb LocStore \<Rightarrow> bytes result" where
  "MAddKeyValuesPreview T keys values e =
     bindR (check_lengths keys values) (\<lambda>_.
     bindR (orErr ''new trie failed'' (trie_New T (curStateRoot e) (trieDB e))) (\<lambda>t.
     bindR (update_all T t keys values) (\<lambda>t'. Inr (trie_Hash T t'))))"

definition MAddKeyValuesAndCommit ::
    "('tdb, 't, 'ns) eth_trie \<Rightarrow> bytes list \<Rightarrow> bytes list \<Rightarrow> 'tdb LocStore \<Rightarrow> bytes result \<times> 'tdb LocStore" where
  "MAddKeyValuesAndCommit T keys values e =
     (case bindR (check_lengths keys values) (\<lambda>_.
           bindR (orErr ''new trie failed'' (trie_New T (curStateRoot e) (trieDB e))) (\<lambda>t.
           update_all T t keys values)) of
        Inl err \<Rightarrow> (Inl err, e)
      | Inr t \<Rightarrow>
          (case trie_CommitNodes T t of
             (newRoot, None) \<Rightarrow> (Inr (curStateRoot e), e)
           | (newRoot, Some nodeSet) \<Rightarrow>
               (case triedb_Update T newRoot (curStateRoot e) nodeSet (trieDB e) of
                  (False, db) \<Rightarrow> (Inl (Errorf ''update trie db failed''), e\<lparr>trieDB := db\<rparr>)
                | (True, db) \<Rightarrow>
                    (case triedb_Commit T newRoot db of
                       (False, db') \<Rightarrow> (Inl (Errorf ''commit trie db failed''), \<lparr>trieDB = db', curStateRoot = newRoot\<rparr>)
                     | (True, db') \<Rightarrow> (Inr newRoot, \<lparr>trieDB = db', curStateRoot = newRoot\<rparr>)))))"

definition MGetValsByKeys ::
    "('tdb, 't, 'ns) eth_trie \<Rightarrow> bytes list \<Rightarrow> 'tdb LocStore \<Rightarrow> bytes option list result" where
  "MGetValsByKeys T keys e =
     bindR (orErr ''new trie failed'' (trie_New T (curStateRoot e) (trieDB e))) (\<lambda>t.
     mapR (\<lambda>key. orErr ''get trie failed'' (trie_Get T t key)) keys)"

definition SetStateRoot :: "('tdb, 't, 'ns) eth_trie \<Rightarrow> bytes \<Rightarrow> 'tdb LocStore \<Rightarrow> 'tdb LocStore result" where
  "SetStateRoot T root e =
     (if trie_New T root (trieDB e) = None then Inl (Errorf ''new trie failed'')
      else Inr (e\<lparr>curStateRoot := root\<rparr>))"

text \<open>
  What a trie is documented to be, for a function \<open>content\<close> that gives the map a trie holds: an
  update with an empty value deletes; a committed root opens as the trie that was committed; a
  commit without dirty nodes changed nothing.
\<close>

definition put_map :: "(bytes \<Rightarrow> bytes option) \<Rightarrow> bytes \<times> bytes \<Rightarrow> (bytes \<Rightarrow> bytes option)" where
  "put_map m kv = m(fst kv := (if snd kv = [] then None else Some (snd kv)))"

definition trie_laws :: "('tdb, 't, 'ns) eth_trie \<Rightarrow> ('t \<Rightarrow> bytes \<Rightarrow> bytes option) \<Rightarrow> bool" where
  "trie_laws T content \<longleftrightarrow>
     (\<forall>t k x. trie_Get T t k = Some x \<longrightarrow> x = content t k) \<and>
     (\<forall>t k v t'. trie_Update T t k v = Some t' \<longrightarrow> content t' = put_map (content t) (k, v)) \<and>
     (\<forall>t root old ns db db1 db2. trie_CommitNodes T t = (root, Some ns) \<longrightarrow>
        triedb_Update T root old ns db = (True, db1) \<longrightarrow> triedb_Commit T root db1 = (True, db2) \<longrightarrow>
        (\<exists>t'. trie_New T root db2 = Some t' \<and> content t' = content t)) \<and>
     (\<forall>t0 kvs t root. foldR (\<lambda>t (k, v). orErr ''update trie failed'' (trie_Update T t k v)) t0 kvs = Inr t \<longrightarrow>
        trie_CommitNodes T t = (root, None) \<longrightarrow> content t = content t0)"

lemma trie_lawsD:
  assumes "trie_laws T content"
  shows "trie_Get T t k = Some x \<Longrightarrow> x = content t k"
    and "trie_Update T t k v = Some t' \<Longrightarrow> content t' = put_map (content t) (k, v)"
    and "trie_CommitNodes T t = (root, Some ns) \<Longrightarrow> triedb_Update T root old ns db = (True, db1) \<Longrightarrow>
      triedb_Commit T root db1 = (True, db2) \<Longrightarrow> \<exists>t'. trie_New T root db2 = Some t' \<and> content t' = content t"
    and "foldR (\<lambda>t (k, v). orErr ''update trie failed'' (trie_Update T t k v)) t0 kvs = Inr t \<Longrightarrow>
      trie_CommitNodes T t = (root, None) \<Longrightarrow> content t = content t0"
  using assms unfolding trie_laws_def by blast+

lemma update_all_content:
  assumes "trie_laws T content" "update_all T t ks vs = Inr t'"
  shows "content t' = fold (\<lambda>kv m. put_map m kv) (zip ks vs) (content t)"
proof -
  have upd: "content t' = put_map (content t) (k, v)" if "trie_Update T t k v = Some t'" for t k v t'
    using trie_lawsD(2) [OF assms(1) that] .
  have "foldR (\<lambda>t (k, v). orErr ''update trie failed'' (trie_Update T t k v)) t kvs = Inr t' \<Longrightarrow>
      content t' = fold (\<lambda>kv m. put_map m kv) kvs (content t)" for kvs
    by (induction kvs arbitrary: t) (auto simp: bindR_Inr_iff upd)
  then show ?thesis using assms(2) by (simp add: update_all_def)
qed

text \<open>The map the location store holds.\<close>

definition stored :: "('tdb, 't, 'ns) eth_trie \<Rightarrow> ('t \<Rightarrow> bytes \<Rightarrow> bytes option) \<Rightarrow> 'tdb LocStore \<Rightarrow> bytes \<Rightarrow> bytes option" where
  "stored T content e = (case trie_New T (curStateRoot e) (trieDB e) of None \<Rightarrow> Map.empty | Some t \<Rightarrow> content t)"

section \<open>Properties\<close>

text \<open>What a commit does to the map, and what reads see afterwards.\<close>

lemma LocStore_commit:
  assumes L: "trie_laws T content"
    and run: "MAddKeyValuesAndCommit T keys values e = (Inr root, e')"
  shows "stored T content e' = fold (\<lambda>kv m. put_map m kv) (zip keys values) (stored T content e) \<and>
    root = curStateRoot e' \<and>
    (\<forall>ks vs. MGetValsByKeys T ks e' = Inr vs \<longrightarrow> vs = map (stored T content e') ks)"
proof -
  obtain t0 t where t0: "trie_New T (curStateRoot e) (trieDB e) = Some t0"
    and t: "update_all T t0 keys values = Inr t"
    using run by (auto simp: MAddKeyValuesAndCommit_def bindR_Inr_iff split: sum.splits)
  have con: "content t = fold (\<lambda>kv m. put_map m kv) (zip keys values) (stored T content e)"
    using update_all_content [OF L t] by (simp add: stored_def t0)
  have bound: "check_lengths keys values = Inr ()"
    using run by (cases "check_lengths keys values") (auto simp: MAddKeyValuesAndCommit_def)
  have "\<exists>t'. trie_New T (curStateRoot e') (trieDB e') = Some t' \<and> content t' = content t \<and> root = curStateRoot e'"
  proof (cases "snd (trie_CommitNodes T t)")
    case None
    then have "e' = e \<and> root = curStateRoot e"
      using run t0 t bound by (auto simp: MAddKeyValuesAndCommit_def split: prod.splits)
    moreover have "content t = content t0"
      using trie_lawsD(4) [OF L t [unfolded update_all_def]] None
      by (cases "trie_CommitNodes T t") simp
    ultimately show ?thesis using t0 by auto
  next
    case (Some ns)
    then obtain r where c: "trie_CommitNodes T t = (r, Some ns)" by (cases "trie_CommitNodes T t") simp
    obtain ok1 db1 where u: "triedb_Update T r (curStateRoot e) ns (trieDB e) = (ok1, db1)"
      by (cases "triedb_Update T r (curStateRoot e) ns (trieDB e)")
    obtain ok2 db2 where v: "triedb_Commit T r db1 = (ok2, db2)" by (cases "triedb_Commit T r db1")
    have fin: "ok1 \<and> ok2 \<and> e' = \<lparr>trieDB = db2, curStateRoot = r\<rparr> \<and> root = r"
      using run [symmetric] by (cases ok1; cases ok2) (simp_all add: MAddKeyValuesAndCommit_def t0 t bound c u v)
    then have "\<exists>t'. trie_New T r db2 = Some t' \<and> content t' = content t"
      using trie_lawsD(3) [OF L c, of "curStateRoot e" "trieDB e" db1 db2] u v by simp
    then show ?thesis using fin by simp
  qed
  then obtain t' where t': "trie_New T (curStateRoot e') (trieDB e') = Some t'"
    "content t' = content t" "root = curStateRoot e'" by blast
  have get: "x = content t' k" if "trie_Get T t' k = Some x" for k x
    using trie_lawsD(1) [OF L that] .
  have "vs = map (content t') ks" if "MGetValsByKeys T ks e' = Inr vs" for ks vs
  proof -
    have m: "mapR (\<lambda>key. orErr ''get trie failed'' (trie_Get T t' key)) ks = Inr vs"
      using that t'(1) by (simp add: MGetValsByKeys_def)
    have len: "length vs = length ks" using mapR_length [OF m] .
    show ?thesis
    proof (rule nth_equalityI)
      fix i assume "i < length vs"
      then have i: "i < length ks" using len by simp
      have "trie_Get T t' (ks ! i) = Some (vs ! i)" using mapR_nth [OF m i] by simp
      then show "vs ! i = map (content t') ks ! i" using get i by simp
    qed (simp add: len)
  qed
  then show ?thesis using t' con by (simp add: stored_def)
qed

text \<open>Committing keys and values to the location store updates the map it holds, in the order
  given, and what is then read is that map.\<close>

theorem LocStore_commit_updates:
  assumes L: "trie_laws T content"
    and run: "MAddKeyValuesAndCommit T keys values e = (Inr root, e')"
  shows "stored T content e' = fold (\<lambda>kv m. put_map m kv) (zip keys values) (stored T content e) \<and>
    root = curStateRoot e' \<and>
    (\<forall>ks vs. MGetValsByKeys T ks e' = Inr vs \<longrightarrow> vs = map (stored T content e') ks)"
  using LocStore_commit [OF L run] .

lemma bolt_AddBlock_outcome:
  assumes put: "bolt_laws put" and run: "bolt_AddBlock put h blk hdr db = (r, db')"
  shows "(\<forall>e. r = Inl e \<longrightarrow> db' = db) \<and>
    (r = Inr () \<longrightarrow>
       GetBlockByHash h db' = Inr blk \<and> GetBlockHeaderByHash h db' = Inr hdr \<and>
       GetNewestBlockHash db' = Inr h \<and>
       (\<forall>h'. h' \<noteq> h \<longrightarrow> GetBlockByHash h' db' = GetBlockByHash h' db \<and>
                          GetBlockHeaderByHash h' db' = GetBlockHeaderByHash h' db))"
proof (cases r)
  case (Inl e)
  then show ?thesis using run by (auto simp: bolt_AddBlock_def bolt_Update_def split: sum.splits)
next
  case (Inr u)
  have law: "map_of b' = (map_of b)(k \<mapsto> v)" if "put k v b = Some b'" for k v b b'
    using put that by (auto simp: bolt_laws_def)
  show ?thesis
    using run Inr
    by (auto simp: bolt_AddBlock_def bolt_Update_def put_in_def bindR_Inr_iff law
        GetBlockByHash_def GetBlockHeaderByHash_def GetNewestBlockHash_def split: sum.splits)
qed

text \<open>Adding a block to the block store is atomic: on an error the store is as before; otherwise
  the block and its header are found under its hash, which is the newest, and every other entry
  is as before.\<close>

theorem bolt_AddBlock_atomic:
  assumes put: "bolt_laws put" and run: "bolt_AddBlock put h blk hdr db = (r, db')"
  shows "(\<forall>e. r = Inl e \<longrightarrow> db' = db) \<and>
    (r = Inr () \<longrightarrow>
       GetBlockByHash h db' = Inr blk \<and> GetBlockHeaderByHash h db' = Inr hdr \<and>
       GetNewestBlockHash db' = Inr h \<and>
       (\<forall>h'. h' \<noteq> h \<longrightarrow> GetBlockByHash h' db' = GetBlockByHash h' db \<and>
                          GetBlockHeaderByHash h' db' = GetBlockHeaderByHash h' db))"
  using bolt_AddBlock_outcome [OF put run] .

section \<open>Examples\<close>

text \<open>A trie that is an association list, in a database of committed tries.\<close>

type_synonym example_trie = "(bytes, bytes) gomap"

definition example_update :: "example_trie \<Rightarrow> bytes \<Rightarrow> bytes \<Rightarrow> example_trie" where
  "example_update t k v = (if v = [] then AList.delete k t else AList.update k v t)"

definition example_eth :: "(bytes \<Rightarrow> example_trie, example_trie, example_trie) eth_trie" where
  "example_eth =
     \<lparr>trie_New = (\<lambda>root db. Some (db root)), trie_Get = (\<lambda>t k. Some (map_of t k)),
      trie_Update = (\<lambda>t k v. Some (example_update t k v)), trie_Hash = (\<lambda>t. concat (map fst t)),
      trie_CommitNodes = (\<lambda>t. (concat (map fst t), Some t)),
      triedb_Update = (\<lambda>root old ns db. (True, db(root := ns))),
      triedb_Commit = (\<lambda>root db. (True, db))\<rparr>"

lemma example_eth_laws: "trie_laws example_eth map_of"
  by (auto simp: trie_laws_def example_eth_def put_map_def example_update_def fun_eq_iff)

theorem LocStore_commit_updates_witness:
  "\<exists>root e'. MAddKeyValuesAndCommit example_eth [[1], [2]] [[5], [6]] \<lparr>trieDB = (\<lambda>_. []), curStateRoot = []\<rparr> =
       (Inr root, e') \<and> stored example_eth map_of e' [1] = Some [5]"
proof -
  let ?e = "\<lparr>trieDB = (\<lambda>_. []), curStateRoot = []\<rparr> :: (bytes \<Rightarrow> example_trie) LocStore"
  obtain root e' where run: "MAddKeyValuesAndCommit example_eth [[1], [2]] [[5], [6]] ?e = (Inr root, e')"
    by (simp add: MAddKeyValuesAndCommit_def check_lengths_def update_all_def example_eth_def example_update_def)
  have "stored example_eth map_of ?e = Map.empty" by (simp add: stored_def example_eth_def)
  then show ?thesis
    using LocStore_commit_updates [OF example_eth_laws run] run by (simp add: put_map_def)
qed

definition example_put :: bolt_put where
  "example_put k v b = (if k = [] then None else Some (AList.update k v b))"

theorem bolt_AddBlock_atomic_witness:
  "\<exists>db'. bolt_AddBlock example_put [1] [2] [3]
       (NewBoltStore \<lparr>bucketBlock = None, bucketBlockHeader = None, bucketNewestBlock = None\<rparr>) = (Inr (), db') \<and>
     GetBlockByHash [1] db' = Inr [2] \<and> GetNewestBlockHash db' = Inr [1]"
proof -
  let ?db = "NewBoltStore \<lparr>bucketBlock = None, bucketBlockHeader = None, bucketNewestBlock = None\<rparr>"
  have put: "bolt_laws example_put" by (auto simp: bolt_laws_def example_put_def split: if_splits)
  obtain db' where run: "bolt_AddBlock example_put [1] [2] [3] ?db = (Inr (), db')"
    by (simp add: bolt_AddBlock_def bolt_Update_def put_in_def NewBoltStore_def
        CreateBucketIfNotExists_def example_put_def newestBlockKey_def)
  show ?thesis using bolt_AddBlock_atomic [OF put run] run by simp
qed

end
