(* ===== verification/Partition.thy ===== *)
theory Partition
  imports CoreTypes
begin

text \<open>
  Account placement (\<open>pkg/partition\<close>): the default shard of an account, the transaction graph,
  and the constrained label propagation algorithm. Floating-point arithmetic is the record
  \<open>floats\<close>: every fact below holds for whatever the scores are. A map iterated in Go is iterated
  in an order that is an argument.
\<close>

section \<open>The default location\<close>

definition DefaultAccountLoc :: "address \<Rightarrow> int \<Rightarrow> int result" where
  "DefaultAccountLoc a shardNum =
     (if shardNum = 0 then Inl (Panic ''integer divide by zero'')
      else Inr ((uint a mod 2 ^ 32) mod \<bar>shardNum\<bar>))"

lemma DefaultAccountLoc_range:
  "DefaultAccountLoc a n = Inr loc \<Longrightarrow> 0 < n \<Longrightarrow> 0 \<le> loc \<and> loc < n"
  by (auto simp: DefaultAccountLoc_def)

lemma DefaultAccountLoc_total: "0 < n \<Longrightarrow> \<exists>loc. DefaultAccountLoc a n = Inr loc"
  by (simp add: DefaultAccountLoc_def)

section \<open>The graph\<close>

type_synonym vertex = address

record Graph =
  VertexSet :: "(vertex, unit) gomap"
  EdgeSet :: "(vertex, vertex list) gomap"

definition NewGraph :: Graph where
  "NewGraph = \<lparr>VertexSet = [], EdgeSet = []\<rparr>"

definition AddVertex :: "vertex \<Rightarrow> Graph \<Rightarrow> Graph" where
  "AddVertex v g = g\<lparr>VertexSet := AList.update v () (VertexSet g)\<rparr>"

definition append_edge :: "vertex \<Rightarrow> vertex \<Rightarrow> Graph \<Rightarrow> Graph" where
  "append_edge u v g = g\<lparr>EdgeSet := AList.update u (get_or [] (EdgeSet g) u @ [v]) (EdgeSet g)\<rparr>"

definition graph_AddEdge :: "vertex \<Rightarrow> vertex \<Rightarrow> Graph \<Rightarrow> Graph" where
  "graph_AddEdge u v g = append_edge v u (append_edge u v (AddVertex v (AddVertex u g)))"

definition neighbors :: "Graph \<Rightarrow> vertex \<Rightarrow> vertex list" where
  "neighbors g v = get_or [] (EdgeSet g) v"

section \<open>CLPA\<close>

record 'f floats =
  f_of_int :: "int \<Rightarrow> 'f"
  f_add :: "'f \<Rightarrow> 'f \<Rightarrow> 'f"
  f_sub :: "'f \<Rightarrow> 'f \<Rightarrow> 'f"
  f_mul :: "'f \<Rightarrow> 'f \<Rightarrow> 'f"
  f_div :: "'f \<Rightarrow> 'f \<Rightarrow> 'f"
  f_less :: "'f \<Rightarrow> 'f \<Rightarrow> bool"
  f_minimum :: "'f list \<Rightarrow> 'f"

definition updateThreshold :: int where
  "updateThreshold = 50"

record 'f CLPAState =
  netGraph :: Graph
  partitionMap :: "(vertex, int) gomap"
  shardWeight :: "'f list"
  vertexNumInShard :: "int list"
  minShardWeight :: 'f
  crossShardEdgeNum :: 'f
  maxIterations :: int
  weightPenalty :: 'f
  shardNum :: int

definition NewCLPAState :: "'f floats \<Rightarrow> 'f \<Rightarrow> int \<Rightarrow> int \<Rightarrow> 'f CLPAState result" where
  "NewCLPAState F wp maxIter n =
     (if n < 0 then Inl (Panic ''makeslice: len out of range'')
      else Inr \<lparr>netGraph = NewGraph, partitionMap = [], shardWeight = replicate (nat n) (f_of_int F 0),
             vertexNumInShard = replicate (nat n) 0, minShardWeight = f_of_int F 0,
             crossShardEdgeNum = f_of_int F 0, maxIterations = maxIter, weightPenalty = wp,
             shardNum = n\<rparr>)"

definition getVertexLocation :: "'f CLPAState \<Rightarrow> vertex \<Rightarrow> int result" where
  "getVertexLocation cs v =
     (case map_of (partitionMap cs) v of
        Some val \<Rightarrow> Inr val
      | None \<Rightarrow> DefaultAccountLoc v (shardNum cs))"

definition addVertex :: "vertex \<Rightarrow> 'f CLPAState \<Rightarrow> 'f CLPAState result" where
  "addVertex v cs =
     (let cs1 = cs\<lparr>netGraph := AddVertex v (netGraph cs)\<rparr>
      in if map_of (partitionMap cs1) v \<noteq> None then Inr cs1
         else bindR (DefaultAccountLoc v (shardNum cs1)) (\<lambda>loc.
              bindR (modify_at (vertexNumInShard cs1) loc (\<lambda>n. i64 (n + 1))) (\<lambda>nums.
              Inr (cs1\<lparr>partitionMap := AList.update v loc (partitionMap cs1),
                       vertexNumInShard := nums\<rparr>))))"

definition AddEdge :: "vertex \<Rightarrow> vertex \<Rightarrow> 'f CLPAState \<Rightarrow> 'f CLPAState result" where
  "AddEdge u v cs =
     bindR (if map_of (VertexSet (netGraph cs)) u = None then addVertex u cs else Inr cs) (\<lambda>cs1.
     bindR (if map_of (VertexSet (netGraph cs1)) v = None then addVertex v cs1 else Inr cs1) (\<lambda>cs2.
     Inr (cs2\<lparr>netGraph := graph_AddEdge u v (netGraph cs2)\<rparr>)))"

text \<open>\<open>computeEdges2Shard\<close>: the counts of crossing and inner edges of each shard.\<close>

definition count_edge ::
    "'f CLPAState \<Rightarrow> int \<Rightarrow> int list \<times> int list \<Rightarrow> vertex \<Rightarrow> (int list \<times> int list) result" where
  "count_edge cs vShard cnt u =
     (case cnt of (cross, inner) \<Rightarrow>
        bindR (getVertexLocation cs u) (\<lambda>uShard.
        if vShard \<noteq> uShard
        then bindR (modify_at cross vShard (\<lambda>n. i64 (n + 1))) (\<lambda>c. Inr (c, inner))
        else bindR (modify_at inner vShard (\<lambda>n. i64 (n + 1))) (\<lambda>c. Inr (cross, c))))"

definition count_vertex ::
    "'f CLPAState \<Rightarrow> int list \<times> int list \<Rightarrow> vertex \<times> vertex list \<Rightarrow> (int list \<times> int list) result" where
  "count_vertex cs cnt entry =
     (case entry of (v, lst) \<Rightarrow>
        bindR (getVertexLocation cs v) (\<lambda>vShard. foldR (count_edge cs vShard) cnt lst))"

definition slices_Min :: "'f floats \<Rightarrow> 'f list \<Rightarrow> 'f result" where
  "slices_Min F xs = (if xs = [] then Inl (Panic ''slices.Min: empty list'') else Inr (f_minimum F xs))"

definition computeEdges2Shard :: "'f floats \<Rightarrow> 'f CLPAState \<Rightarrow> 'f CLPAState result" where
  "computeEdges2Shard F cs =
     (let zeros = replicate (nat (shardNum cs)) 0
      in bindR (foldR (count_vertex cs) (zeros, zeros) (EdgeSet (netGraph cs))) (\<lambda>(cross, inner).
         let two = f_of_int F 2;
             num = foldl (\<lambda>s val. f_add F s (f_div F (f_of_int F val) two)) (f_of_int F 0) cross;
             weight = map2 (\<lambda>c i. f_add F (f_of_int F c) (f_div F (f_of_int F i) two)) cross inner
         in bindR (slices_Min F weight) (\<lambda>m.
            Inr (cs\<lparr>shardWeight := weight, crossShardEdgeNum := num, minShardWeight := m\<rparr>))))"

text \<open>One neighbour in \<open>changeShardRecompute\<close>.\<close>

definition reweigh ::
    "'f floats \<Rightarrow> 'f CLPAState \<Rightarrow> int \<Rightarrow> int \<Rightarrow> 'f list \<Rightarrow> vertex \<Rightarrow> 'f list result" where
  "reweigh F cs newShard old ws u =
     bindR (getVertexLocation cs u) (\<lambda>uShard.
     let inc = (\<lambda>ws. modify_at ws newShard (\<lambda>x. f_add F x (f_of_int F 1)));
         dec = (\<lambda>ws. modify_at ws old (\<lambda>x. f_sub F x (f_of_int F 1)))
     in if uShard \<noteq> newShard \<and> uShard \<noteq> old then bindR (inc ws) dec
        else if uShard = newShard then dec ws
        else inc ws)"

definition changeShardRecompute :: "'f floats \<Rightarrow> vertex \<Rightarrow> int \<Rightarrow> 'f CLPAState \<Rightarrow> 'f CLPAState result" where
  "changeShardRecompute F v old cs =
     bindR (getVertexLocation cs v) (\<lambda>newShard.
     bindR (foldR (reweigh F cs newShard old) (shardWeight cs) (neighbors (netGraph cs) v)) (\<lambda>ws.
     bindR (slices_Min F ws) (\<lambda>m.
     Inr (cs\<lparr>shardWeight := ws, minShardWeight := m\<rparr>))))"

definition getShardScore :: "'f floats \<Rightarrow> 'f CLPAState \<Rightarrow> vertex \<Rightarrow> int \<Rightarrow> 'f result" where
  "getShardScore F cs v uShard =
     (let ns = neighbors (netGraph cs) v
      in bindR (foldR (\<lambda>n item. bindR (getVertexLocation cs item)
                  (\<lambda>l. Inr (if l = uShard then i64 (n + 1) else n))) 0 ns) (\<lambda>edge2uShard.
         bindR (index (shardWeight cs) uShard) (\<lambda>w.
         Inr (f_mul F (f_div F (f_of_int F edge2uShard) (f_of_int F (int (length ns))))
                (f_sub F (f_of_int F 1)
                  (f_div F (f_mul F (weightPenalty cs) w) (minShardWeight cs)))))))"

text \<open>The best shard among those of the neighbours; \<open>scores\<close> is \<open>neighborShardScore\<close>.\<close>

definition score_neighbor ::
    "'f floats \<Rightarrow> 'f CLPAState \<Rightarrow> vertex \<Rightarrow> int \<Rightarrow> (int, 'f) gomap \<times> 'f \<times> int \<Rightarrow> vertex \<Rightarrow>
     ((int, 'f) gomap \<times> 'f \<times> int) result" where
  "score_neighbor F cs v vNowShard acc u =
     (case acc of (scores, maxScore, maxScoreShard) \<Rightarrow>
        bindR (getVertexLocation cs u) (\<lambda>uShard.
        if uShard = vNowShard \<or> map_of scores uShard \<noteq> None then Inr acc
        else bindR (getShardScore F cs v uShard) (\<lambda>score.
          if f_less F maxScore score
          then Inr (AList.update uShard score scores, score, uShard)
          else Inr (AList.update uShard score scores, maxScore, maxScoreShard))))"

text \<open>The body of the inner loop: the state, \<open>ret\<close> and \<open>updateTimes\<close>.\<close>

type_synonym 'f clpa_acc = "'f CLPAState \<times> (vertex, int) gomap \<times> (vertex, int) gomap"

definition move_vertex ::
    "'f floats \<Rightarrow> vertex \<Rightarrow> int \<Rightarrow> int \<Rightarrow> 'f clpa_acc \<Rightarrow> 'f clpa_acc result" where
  "move_vertex F v old new acc =
     (case acc of (cs, ret, updateTimes) \<Rightarrow>
        bindR (modify_at (vertexNumInShard cs) old (\<lambda>n. i64 (n - 1))) (\<lambda>nums1.
        bindR (modify_at nums1 new (\<lambda>n. i64 (n + 1))) (\<lambda>nums2.
        bindR (changeShardRecompute F v old
          (cs\<lparr>partitionMap := AList.update v new (partitionMap cs), vertexNumInShard := nums2\<rparr>)) (\<lambda>cs'.
        Inr (cs', AList.update v new ret, AList.update v (i64 (get_or 0 updateTimes v + 1)) updateTimes)))))"

definition clpa_vertex :: "'f floats \<Rightarrow> 'f clpa_acc \<Rightarrow> vertex \<Rightarrow> 'f clpa_acc result" where
  "clpa_vertex F acc v =
     (case acc of (cs, ret, updateTimes) \<Rightarrow>
        if updateThreshold \<le> get_or 0 updateTimes v then Inr acc
        else bindR (getVertexLocation cs v) (\<lambda>vNowShard.
          bindR (foldR (score_neighbor F cs v vNowShard) ([], f_of_int F (- 9999), vNowShard)
                  (neighbors (netGraph cs) v)) (\<lambda>(_, _, maxScoreShard).
          if vNowShard = maxScoreShard then Inr acc
          else bindR (index (vertexNumInShard cs) vNowShard) (\<lambda>n.
            if 1 < n then move_vertex F v vNowShard maxScoreShard acc else Inr acc))))"

text \<open>
  \<open>CLPAPartition\<close>. \<open>orders\<close> holds one iteration order of the vertices for each of the
  \<open>maxIterations\<close> rounds.
\<close>

definition prune :: "(vertex, int) gomap \<Rightarrow> (vertex, int) gomap \<Rightarrow> (vertex, int) gomap" where
  "prune originalLoc ret =
     fold (\<lambda>(acc, loc) ret. if get_or 0 ret acc = loc then AList.delete acc ret else ret) originalLoc ret"

definition CLPAPartition ::
    "'f floats \<Rightarrow> vertex list list \<Rightarrow> 'f CLPAState \<Rightarrow> ((vertex, int) gomap \<times> 'f \<times> 'f CLPAState) result" where
  "CLPAPartition F orders cs =
     bindR (computeEdges2Shard F cs) (\<lambda>cs1.
     bindR (mapR (\<lambda>v. bindR (getVertexLocation cs1 v) (\<lambda>l. Inr (v, l)))
             (keys_of (VertexSet (netGraph cs1)))) (\<lambda>originalLoc.
     bindR (foldR (foldR (clpa_vertex F)) (cs1, [], []) orders) (\<lambda>(cs2, ret, _).
     bindR (computeEdges2Shard F cs2) (\<lambda>cs3.
     Inr (prune originalLoc ret, crossShardEdgeNum cs3, cs3)))))"

section \<open>The state's invariant\<close>

text \<open>How many vertices the map places in a shard.\<close>

definition located :: "(vertex, int) gomap \<Rightarrow> int \<Rightarrow> nat" where
  "located m k = length (filter (\<lambda>e. snd e = k) m)"

definition clpa_ok :: "'f CLPAState \<Rightarrow> bool" where
  "clpa_ok cs \<longleftrightarrow>
     0 < shardNum cs \<and> length (shardWeight cs) = nat (shardNum cs) \<and>
     length (vertexNumInShard cs) = nat (shardNum cs) \<and>
     gomap (partitionMap cs) \<and> gomap (VertexSet (netGraph cs)) \<and>
     (\<forall>v. map_of (VertexSet (netGraph cs)) v \<noteq> None \<longleftrightarrow> map_of (partitionMap cs) v \<noteq> None) \<and>
     (\<forall>v loc. map_of (partitionMap cs) v = Some loc \<longrightarrow> 0 \<le> loc \<and> loc < shardNum cs) \<and>
     length (partitionMap cs) < 2 ^ 62 \<and>
     (\<forall>k < nat (shardNum cs). vertexNumInShard cs ! k = int (located (partitionMap cs) (int k)))"

lemma clpa_okD:
  assumes "clpa_ok cs"
  shows "0 < shardNum cs" "length (shardWeight cs) = nat (shardNum cs)"
    "length (vertexNumInShard cs) = nat (shardNum cs)" "gomap (partitionMap cs)"
    "gomap (VertexSet (netGraph cs))"
    "map_of (VertexSet (netGraph cs)) v \<noteq> None \<longleftrightarrow> map_of (partitionMap cs) v \<noteq> None"
    "map_of (partitionMap cs) v = Some loc \<Longrightarrow> 0 \<le> loc \<and> loc < shardNum cs"
    "length (partitionMap cs) < 2 ^ 62"
    "k < nat (shardNum cs) \<Longrightarrow> vertexNumInShard cs ! k = int (located (partitionMap cs) (int k))"
  using assms by (auto simp: clpa_ok_def)

lemma located_le: "located m k \<le> length m"
  by (simp add: located_def)

lemma located_update_new:
  "map_of m v = None \<Longrightarrow> located (AList.update v l m) k = located m k + (if k = l then 1 else 0)"
  by (induction m) (auto simp: located_def split: if_splits)

lemma located_update_old:
  "gomap m \<Longrightarrow> map_of m v = Some l0 \<Longrightarrow> l0 \<noteq> l \<Longrightarrow>
     int (located (AList.update v l m) k) =
     int (located m k) + (if k = l then 1 else 0) - (if k = l0 then 1 else 0)"
proof (induction m)
  case (Cons e m)
  show ?case
  proof (cases "fst e = v")
    case True
    then show ?thesis using Cons.prems by (cases e) (auto simp: located_def)
  next
    case False
    then show ?thesis using Cons by (cases e) (auto simp: located_def gomap_def)
  qed
qed simp

lemma getVertexLocation_total:
  assumes "clpa_ok cs"
  shows "\<exists>l. getVertexLocation cs v = Inr l \<and> 0 \<le> l \<and> l < shardNum cs"
  using clpa_okD(1,7) [OF assms] DefaultAccountLoc_total DefaultAccountLoc_range
  by (fastforce simp: getVertexLocation_def split: option.splits)

section \<open>The computation never fails\<close>

lemma count_edge_total:
  assumes "clpa_ok cs" "0 \<le> l" "l < shardNum cs"
    and "length (fst cnt) = nat (shardNum cs) \<and> length (snd cnt) = nat (shardNum cs)"
  shows "\<exists>cnt'. count_edge cs l cnt u = Inr cnt' \<and>
      length (fst cnt') = nat (shardNum cs) \<and> length (snd cnt') = nat (shardNum cs)"
  using getVertexLocation_total [OF assms(1), of u] assms(2-4)
  by (auto simp: count_edge_def modify_at_in split: prod.splits)

lemma computeEdges2Shard_total:
  assumes ok: "clpa_ok cs"
  shows "\<exists>ws num m. computeEdges2Shard F cs =
      Inr (cs\<lparr>shardWeight := ws, crossShardEdgeNum := num, minShardWeight := m\<rparr>) \<and>
      length ws = nat (shardNum cs)"
proof -
  let ?I = "\<lambda>cnt. length (fst cnt) = nat (shardNum cs) \<and> length (snd cnt) = nat (shardNum cs)"
  let ?z = "replicate (nat (shardNum cs)) (0 :: int)"
  have body: "\<exists>cnt'. count_vertex cs cnt e = Inr cnt' \<and> ?I cnt'" if I: "?I cnt" for cnt e
  proof -
    obtain v lst where e: "e = (v, lst)" by (cases e)
    obtain l where l: "getVertexLocation cs v = Inr l" "0 \<le> l" "l < shardNum cs"
      using getVertexLocation_total [OF ok] by blast
    have "\<exists>cnt'. foldR (count_edge cs l) cnt lst = Inr cnt' \<and> ?I cnt'"
      using foldR_total [of lst ?I "count_edge cs l" cnt] count_edge_total [OF ok l(2,3)] I by blast
    then show ?thesis by (simp add: count_vertex_def e l)
  qed
  have "\<exists>cnt. foldR (count_vertex cs) (?z, ?z) (EdgeSet (netGraph cs)) = Inr cnt \<and> ?I cnt"
    by (rule foldR_total) (use body in auto)
  then obtain c i where c: "foldR (count_vertex cs) (?z, ?z) (EdgeSet (netGraph cs)) = Inr (c, i)"
    "length c = nat (shardNum cs)" "length i = nat (shardNum cs)" by force
  let ?w = "map2 (\<lambda>c i. f_add F (f_of_int F c) (f_div F (f_of_int F i) (f_of_int F 2))) c i"
  have len: "length ?w = nat (shardNum cs)" using c by simp
  then have "?w \<noteq> []" using clpa_okD(1) [OF ok] by auto
  then have "computeEdges2Shard F cs = Inr (cs\<lparr>shardWeight := ?w,
      crossShardEdgeNum := foldl (\<lambda>s val. f_add F s (f_div F (f_of_int F val) (f_of_int F 2))) (f_of_int F 0) c,
      minShardWeight := f_minimum F ?w\<rparr>)"
    using c by (simp add: computeEdges2Shard_def Let_def slices_Min_def)
  then show ?thesis using len by blast
qed

lemma getVertexLocation_weights [simp]:
  "getVertexLocation (cs\<lparr>shardWeight := ws\<rparr>) = getVertexLocation cs"
  "getVertexLocation (cs\<lparr>minShardWeight := m\<rparr>) = getVertexLocation cs"
  "getVertexLocation (cs\<lparr>crossShardEdgeNum := x\<rparr>) = getVertexLocation cs"
  by (simp_all add: getVertexLocation_def fun_eq_iff split: option.splits)

lemma clpa_ok_weights:
  "clpa_ok cs \<Longrightarrow> length ws = nat (shardNum cs) \<Longrightarrow>
     clpa_ok (cs\<lparr>shardWeight := ws, crossShardEdgeNum := x, minShardWeight := m\<rparr>)"
  "clpa_ok cs \<Longrightarrow> length ws = nat (shardNum cs) \<Longrightarrow> clpa_ok (cs\<lparr>shardWeight := ws, minShardWeight := m\<rparr>)"
  by (auto simp: clpa_ok_def)

lemma reweigh_total:
  assumes "clpa_ok cs" "0 \<le> new" "new < shardNum cs" "0 \<le> old" "old < shardNum cs"
    and "length ws = nat (shardNum cs)"
  shows "\<exists>ws'. reweigh F cs new old ws u = Inr ws' \<and> length ws' = nat (shardNum cs)"
  using getVertexLocation_total [OF assms(1), of u] assms(2-6)
  by (auto simp: reweigh_def Let_def modify_at_in)

lemma changeShardRecompute_total:
  assumes ok: "clpa_ok cs" and old: "0 \<le> old" "old < shardNum cs"
  shows "\<exists>ws m. changeShardRecompute F v old cs = Inr (cs\<lparr>shardWeight := ws, minShardWeight := m\<rparr>) \<and>
      length ws = nat (shardNum cs)"
proof -
  obtain new where new: "getVertexLocation cs v = Inr new" "0 \<le> new" "new < shardNum cs"
    using getVertexLocation_total [OF ok] by blast
  obtain ws where ws: "foldR (reweigh F cs new old) (shardWeight cs) (neighbors (netGraph cs) v) = Inr ws"
    "length ws = nat (shardNum cs)"
    using foldR_total [of _ "\<lambda>ws. length ws = nat (shardNum cs)" "reweigh F cs new old" "shardWeight cs"]
      reweigh_total [OF ok new(2,3) old] clpa_okD(2) [OF ok] by blast
  have "ws \<noteq> []" using ws(2) clpa_okD(1) [OF ok] by auto
  then show ?thesis using ws by (auto simp: changeShardRecompute_def new slices_Min_def)
qed

lemma getShardScore_total:
  assumes ok: "clpa_ok cs" and "0 \<le> l" "l < shardNum cs"
  shows "\<exists>x. getShardScore F cs v l = Inr x"
proof -
  have "\<exists>n. foldR (\<lambda>n item. bindR (getVertexLocation cs item)
      (\<lambda>l'. Inr (if l' = l then i64 (n + 1) else n))) 0 (neighbors (netGraph cs) v) = Inr n \<and> True"
  proof (rule foldR_total)
    fix n item
    obtain l' where "getVertexLocation cs item = Inr l'" using getVertexLocation_total [OF ok] by blast
    then show "\<exists>n'. bindR (getVertexLocation cs item)
        (\<lambda>l'. Inr (if l' = l then i64 (n + 1) else n)) = Inr n' \<and> True" by simp
  qed simp
  then show ?thesis
    using clpa_okD(1,2) [OF ok] assms(2,3) by (auto simp: getShardScore_def Let_def index_def)
qed

section \<open>A round moves vertices and keeps the books\<close>

lemma score_neighbor_total:
  assumes ok: "clpa_ok cs" and "0 \<le> snd (snd acc)" "snd (snd acc) < shardNum cs"
  shows "\<exists>acc'. score_neighbor F cs v now acc u = Inr acc' \<and>
      0 \<le> snd (snd acc') \<and> snd (snd acc') < shardNum cs"
proof -
  obtain scores best shard where acc: "acc = (scores, best, shard)" by (cases acc) auto
  obtain l where l: "getVertexLocation cs u = Inr l" "0 \<le> l" "l < shardNum cs"
    using getVertexLocation_total [OF ok] by blast
  obtain x where "getShardScore F cs v l = Inr x" using getShardScore_total [OF ok l(2,3)] by blast
  then show ?thesis using assms(2,3) l by (simp add: score_neighbor_def acc)
qed

text \<open>
  What a round keeps, relative to the placement \<open>pm0\<close> at the start: the graph, the placed
  vertices, the populated shards, and that \<open>ret\<close> records exactly the moves.
\<close>

definition round_inv :: "'f CLPAState \<Rightarrow> 'f clpa_acc \<Rightarrow> bool" where
  "round_inv cs0 acc \<longleftrightarrow>
     (case acc of (cs, ret, updateTimes) \<Rightarrow>
        clpa_ok cs \<and> netGraph cs = netGraph cs0 \<and> shardNum cs = shardNum cs0 \<and> gomap ret \<and>
        (\<forall>v. map_of (partitionMap cs) v \<noteq> None \<longleftrightarrow> map_of (partitionMap cs0) v \<noteq> None) \<and>
        (\<forall>v. map_of (partitionMap cs) v =
           (case map_of ret v of None \<Rightarrow> map_of (partitionMap cs0) v | Some l \<Rightarrow> Some l)) \<and>
        (\<forall>k < nat (shardNum cs0). 1 \<le> vertexNumInShard cs0 ! k \<longrightarrow> 1 \<le> vertexNumInShard cs ! k))"

lemma move_vertex_inv:
  assumes I: "round_inv cs0 (cs, ret, updateTimes)"
    and at: "map_of (partitionMap cs) v = Some old" "1 < vertexNumInShard cs ! nat old"
    and new: "0 \<le> new" "new < shardNum cs" "new \<noteq> old"
  shows "\<exists>acc'. move_vertex F v old new (cs, ret, updateTimes) = Inr acc' \<and> round_inv cs0 acc'"
proof -
  let ?nums = "vertexNumInShard cs" and ?pm = "AList.update v new (partitionMap cs)"
  have ok: "clpa_ok cs" using I by (simp add: round_inv_def)
  note c = clpa_okD [OF ok]
  have old: "0 \<le> old" "old < shardNum cs" using c(7) at(1) by auto
  have cnt: "?nums ! k = int (located (partitionMap cs) (int k))" if "k < nat (shardNum cs)" for k
    using c(9) that by blast
  have le: "int (located (partitionMap cs) k) < 2 ^ 62" for k
    using order.strict_trans1 [OF located_le [of "partitionMap cs" k] c(8)] by simp
  have i64s: "i64 (?nums ! nat old - 1) = ?nums ! nat old - 1" "i64 (?nums ! nat new + 1) = ?nums ! nat new + 1"
    using le [of old] le [of new] cnt [of "nat old"] cnt [of "nat new"] old new
    by (auto intro!: i64_id simp: in_i64_def)
  let ?nums' = "?nums[nat old := ?nums ! nat old - 1, nat new := ?nums ! nat new + 1]"
  let ?cs' = "cs\<lparr>partitionMap := ?pm, vertexNumInShard := ?nums'\<rparr>"
  have nums': "?nums' ! k = ?nums ! k + (if int k = new then 1 else 0) - (if int k = old then 1 else 0)"
    if "k < nat (shardNum cs)" for k
    using that old new c(3) by (auto simp: nth_list_update)
  have located': "int (located ?pm (int k)) = ?nums' ! k" if "k < nat (shardNum cs)" for k
    using located_update_old [OF c(4) at(1), of new "int k"] new(3) nums' [OF that] cnt [OF that] by auto
  have ok': "clpa_ok ?cs'"
    using ok at(1) new located' length_update_old [of "partitionMap cs" v new]
    by (auto simp: clpa_ok_def)
  obtain ws m where ws: "changeShardRecompute F v old ?cs' =
      Inr (?cs'\<lparr>shardWeight := ws, minShardWeight := m\<rparr>)" "length ws = nat (shardNum cs)"
    using changeShardRecompute_total [OF ok', of old F v] old by auto
  have "move_vertex F v old new (cs, ret, updateTimes) = Inr (?cs'\<lparr>shardWeight := ws, minShardWeight := m\<rparr>,
      AList.update v new ret, AList.update v (i64 (get_or 0 updateTimes v + 1)) updateTimes)"
    using old new c(3) ws(1) i64s by (simp add: move_vertex_def modify_at_in)
  moreover have "round_inv cs0 (?cs'\<lparr>shardWeight := ws, minShardWeight := m\<rparr>,
      AList.update v new ret, AList.update v (i64 (get_or 0 updateTimes v + 1)) updateTimes)"
  proof -
    have "1 \<le> ?nums' ! k" if "k < nat (shardNum cs0)" "1 \<le> vertexNumInShard cs0 ! k" for k
      using I that at(2) nums' [of k] by (auto simp: round_inv_def)
    moreover have "map_of (partitionMap cs0) v \<noteq> None" using I at(1) by (auto simp: round_inv_def)
    ultimately show ?thesis
      using I at(1) clpa_ok_weights(2) [OF ok'] ws(2) by (auto simp: round_inv_def)
  qed
  ultimately show ?thesis by blast
qed

lemma clpa_vertex_inv:
  assumes I: "round_inv cs0 acc" and v: "map_of (VertexSet (netGraph cs0)) v \<noteq> None"
  shows "\<exists>acc'. clpa_vertex F acc v = Inr acc' \<and> round_inv cs0 acc'"
proof -
  obtain cs ret updateTimes where acc: "acc = (cs, ret, updateTimes)" by (cases acc)
  have ok: "clpa_ok cs" and g: "netGraph cs = netGraph cs0" using I by (auto simp: round_inv_def acc)
  obtain now where now: "map_of (partitionMap cs) v = Some now"
    using clpa_okD(6) [OF ok, of v] v g by auto
  have range: "0 \<le> now" "now < shardNum cs" using clpa_okD(7) [OF ok now] by auto
  have loc: "getVertexLocation cs v = Inr now" using now by (simp add: getVertexLocation_def)
  let ?J = "\<lambda>acc. 0 \<le> snd (snd acc) \<and> snd (snd acc) < shardNum cs"
  have "\<exists>a. foldR (score_neighbor F cs v now) ([], f_of_int F (- 9999), now)
      (neighbors (netGraph cs) v) = Inr a \<and> ?J a"
    by (rule foldR_total) (use score_neighbor_total [OF ok] range in auto)
  then obtain sc b best where best: "foldR (score_neighbor F cs v now) ([], f_of_int F (- 9999), now)
      (neighbors (netGraph cs) v) = Inr (sc, b, best)" "0 \<le> best" "best < shardNum cs" by force
  have idx: "index (vertexNumInShard cs) now = Inr (vertexNumInShard cs ! nat now)"
    using range clpa_okD(3) [OF ok] by (simp add: index_def)
  show ?thesis
  proof (cases "updateThreshold \<le> get_or 0 updateTimes v \<or> now = best \<or> vertexNumInShard cs ! nat now \<le> 1")
    case True
    then have "clpa_vertex F acc v = Inr acc" by (auto simp: clpa_vertex_def acc loc best idx)
    then show ?thesis using I by blast
  next
    case False
    then have "clpa_vertex F acc v = move_vertex F v now best (cs, ret, updateTimes)"
      by (simp add: clpa_vertex_def acc loc best idx)
    then show ?thesis
      using move_vertex_inv [OF I [unfolded acc] now, of best F] False best by auto
  qed
qed

text \<open>Dropping the accounts that came back to where they started.\<close>

lemma prune_map_of:
  assumes "gomap ret" "distinct (map fst orig)"
  shows "map_of (prune orig ret) v =
     (if (\<exists>l. map_of orig v = Some l \<and> map_of ret v = Some l) then None else map_of ret v)"
  using assms
proof (induction orig arbitrary: ret)
  case Nil
  then show ?case by (simp add: prune_def)
next
  case (Cons e orig)
  obtain a l where e: "e = (a, l)" by (cases e)
  let ?ret = "if get_or 0 ret a = l then AList.delete a ret else ret"
  have step: "prune (e # orig) ret = prune orig ?ret" by (simp add: prune_def e)
  have g: "gomap ?ret" using Cons.prems(1) by simp
  have a: "map_of orig a = None" using Cons.prems(2) by (simp add: e map_of_eq_None_iff)
  have IH: "map_of (prune orig ?ret) v =
      (if (\<exists>l. map_of orig v = Some l \<and> map_of ?ret v = Some l) then None else map_of ?ret v)"
    using Cons.IH [OF g] Cons.prems(2) by simp
  show ?case
    unfolding step IH using a by (auto simp: e get_or_def split: option.splits)
qed

lemma addVertex_ok:
  assumes ok: "clpa_ok cs" and room: "length (partitionMap cs) + 1 < 2 ^ 62"
    and new: "map_of (VertexSet (netGraph cs)) v = None"
  shows "\<exists>cs'. addVertex v cs = Inr cs' \<and> clpa_ok cs' \<and> map_of (VertexSet (netGraph cs')) v \<noteq> None \<and>
    length (partitionMap cs') \<le> length (partitionMap cs) + 1 \<and>
    (\<forall>u. map_of (VertexSet (netGraph cs)) u \<noteq> None \<longrightarrow> map_of (VertexSet (netGraph cs')) u \<noteq> None)"
proof -
  note c = clpa_okD [OF ok]
  have none: "map_of (partitionMap cs) v = None" using c(6) [of v] new by simp
  obtain l where l: "DefaultAccountLoc v (shardNum cs) = Inr l" "0 \<le> l" "l < shardNum cs"
    using DefaultAccountLoc_total [OF c(1)] DefaultAccountLoc_range [OF _ c(1)] by blast
  let ?n = "vertexNumInShard cs ! nat l"
  have "?n = int (located (partitionMap cs) l)" using c(9) [of "nat l"] l by simp
  then have "0 \<le> ?n \<and> ?n < 2 ^ 62"
    using order.strict_trans1 [OF located_le [of "partitionMap cs" l] c(8)] by simp
  then have i64: "i64 (?n + 1) = ?n + 1" by (intro i64_id) (simp add: in_i64_def)
  let ?cs' = "cs\<lparr>netGraph := AddVertex v (netGraph cs), partitionMap := AList.update v l (partitionMap cs),
      vertexNumInShard := (vertexNumInShard cs)[nat l := ?n + 1]\<rparr>"
  have "addVertex v cs = Inr ?cs'"
    using none l c(3) i64 by (simp add: addVertex_def Let_def modify_at_in)
  moreover have "clpa_ok ?cs'"
    using c l none room length_update_new [OF none, of l] located_update_new [OF none, of l]
    by (auto simp: clpa_ok_def AddVertex_def nth_list_update)
  ultimately show ?thesis
    using length_update_new [OF none, of l] by (auto simp: AddVertex_def)
qed

lemma graph_AddEdge_vertices:
  "map_of (VertexSet (graph_AddEdge u v g)) w =
     (if w = u \<or> w = v then Some () else map_of (VertexSet g) w)"
  by (simp add: graph_AddEdge_def append_edge_def AddVertex_def)

lemma graph_AddEdge_gomap: "gomap (VertexSet g) \<Longrightarrow> gomap (VertexSet (graph_AddEdge u v g))"
  by (simp add: graph_AddEdge_def append_edge_def AddVertex_def)

lemma CLPA_rounds:
  assumes "round_inv cs0 acc"
    and "\<And>ord v. ord \<in> set orders \<Longrightarrow> v \<in> set ord \<Longrightarrow> map_of (VertexSet (netGraph cs0)) v \<noteq> None"
  shows "\<exists>acc'. foldR (foldR (clpa_vertex F)) acc orders = Inr acc' \<and> round_inv cs0 acc'"
proof (rule foldR_total)
  show "round_inv cs0 acc" by (rule assms(1))
next
  fix a ord assume "ord \<in> set orders" "round_inv cs0 a"
  then show "\<exists>a'. foldR (clpa_vertex F) a ord = Inr a' \<and> round_inv cs0 a'"
    using clpa_vertex_inv assms(2) by (intro foldR_total) blast+
qed

section \<open>Properties\<close>

text \<open>C12: adding a transaction edge succeeds and keeps the books of the partition state: every
  vertex is placed in a shard in range, and the count of each shard is the number of its vertices.\<close>

theorem AddEdge_keeps_books:
  assumes ok: "clpa_ok cs" and room: "length (partitionMap cs) + 2 < 2 ^ 62"
  shows "\<exists>cs'. AddEdge u v cs = Inr cs' \<and> clpa_ok cs' \<and>
    v \<in> set (neighbors (netGraph cs') u) \<and> u \<in> set (neighbors (netGraph cs') v)"
proof -
  have step: "\<exists>cs'. (if map_of (VertexSet (netGraph cs)) w = None then addVertex w cs else Inr cs) = Inr cs' \<and>
      clpa_ok cs' \<and> map_of (VertexSet (netGraph cs')) w \<noteq> None \<and>
      length (partitionMap cs') \<le> length (partitionMap cs) + 1 \<and>
      (\<forall>x. map_of (VertexSet (netGraph cs)) x \<noteq> None \<longrightarrow> map_of (VertexSet (netGraph cs')) x \<noteq> None)"
    if "clpa_ok cs" "length (partitionMap cs) + 1 < 2 ^ 62" for w and cs :: "'a CLPAState"
    using addVertex_ok [OF that] that(1) by auto
  obtain cs1 where cs1: "(if map_of (VertexSet (netGraph cs)) u = None then addVertex u cs else Inr cs) = Inr cs1"
    "clpa_ok cs1" "map_of (VertexSet (netGraph cs1)) u \<noteq> None"
    "length (partitionMap cs1) \<le> length (partitionMap cs) + 1"
    using step [OF ok, of u] room by auto
  obtain cs2 where cs2: "(if map_of (VertexSet (netGraph cs1)) v = None then addVertex v cs1 else Inr cs1) = Inr cs2"
    "clpa_ok cs2" "map_of (VertexSet (netGraph cs2)) v \<noteq> None" "map_of (VertexSet (netGraph cs2)) u \<noteq> None"
    using step [OF cs1(2), of v] cs1(3,4) room by auto
  let ?cs' = "cs2\<lparr>netGraph := graph_AddEdge u v (netGraph cs2)\<rparr>"
  have "AddEdge u v cs = Inr ?cs'" by (simp add: AddEdge_def cs1(1) cs2(1))
  moreover have "clpa_ok ?cs'"
    using cs2(2-4) clpa_okD(6) [OF cs2(2)] graph_AddEdge_gomap [OF clpa_okD(5) [OF cs2(2)]]
    by (auto simp: clpa_ok_def graph_AddEdge_vertices)
  moreover have "v \<in> set (neighbors (netGraph ?cs') u)" "u \<in> set (neighbors (netGraph ?cs') v)"
    by (auto simp: neighbors_def graph_AddEdge_def append_edge_def AddVertex_def)
  ultimately show ?thesis by blast
qed

text \<open>C11: a run of CLPA never fails, and the map it returns is exactly the difference of the new
  and the old placement; no vertex is lost, every location is in range, the counts remain right,
  and no populated shard is emptied. This holds for every score and every iteration order.\<close>

theorem CLPAPartition_moves:
  assumes ok: "clpa_ok cs"
    and orders: "\<And>ord v. ord \<in> set orders \<Longrightarrow> v \<in> set ord \<Longrightarrow> map_of (VertexSet (netGraph cs)) v \<noteq> None"
  shows "\<exists>ret w cs'. CLPAPartition F orders cs = Inr (ret, w, cs') \<and> clpa_ok cs' \<and>
    shardNum cs' = shardNum cs \<and>
    (\<forall>v. map_of ret v = (if map_of (partitionMap cs') v = map_of (partitionMap cs) v then None
                         else map_of (partitionMap cs') v)) \<and>
    (\<forall>v. map_of (partitionMap cs') v \<noteq> None \<longleftrightarrow> map_of (partitionMap cs) v \<noteq> None) \<and>
    (\<forall>k < nat (shardNum cs). 1 \<le> vertexNumInShard cs ! k \<longrightarrow> 1 \<le> vertexNumInShard cs' ! k)"
proof -
  obtain ws num m where c1: "computeEdges2Shard F cs =
      Inr (cs\<lparr>shardWeight := ws, crossShardEdgeNum := num, minShardWeight := m\<rparr>)"
    "length ws = nat (shardNum cs)" using computeEdges2Shard_total [OF ok] by blast
  let ?cs1 = "cs\<lparr>shardWeight := ws, crossShardEdgeNum := num, minShardWeight := m\<rparr>"
  have ok1: "clpa_ok ?cs1" using clpa_ok_weights(1) [OF ok c1(2)] .
  let ?keys = "keys_of (VertexSet (netGraph cs))"
  let ?at = "\<lambda>v. the (map_of (partitionMap cs) v)"
  have at: "getVertexLocation ?cs1 v = Inr (?at v)" "map_of (partitionMap cs) v = Some (?at v)"
    if "v \<in> set ?keys" for v
    using that clpa_okD(6) [OF ok, of v] by (auto simp: keys_of_iff getVertexLocation_def)
  let ?orig = "map (\<lambda>v. (v, ?at v)) ?keys"
  have orig: "mapR (\<lambda>v. bindR (getVertexLocation ?cs1 v) (\<lambda>l. Inr (v, l))) ?keys = Inr ?orig"
    by (rule mapR_total) (simp only: at(1) bindR_simps)
  have "round_inv cs (?cs1, [], [])" using ok1 by (simp add: round_inv_def)
  from CLPA_rounds [OF this, of orders F] orders
  obtain acc where acc: "foldR (foldR (clpa_vertex F)) (?cs1, [], []) orders = Inr acc"
    "round_inv cs acc" by blast
  obtain cs2 ret upd where "acc = (cs2, ret, upd)" by (cases acc)
  then have r: "foldR (foldR (clpa_vertex F)) (?cs1, [], []) orders = Inr (cs2, ret, upd)"
    and inv: "round_inv cs (cs2, ret, upd)" using acc by simp_all
  have ok2: "clpa_ok cs2" and sn: "shardNum cs2 = shardNum cs" using inv by (auto simp: round_inv_def)
  obtain ws' num' m' where c3: "computeEdges2Shard F cs2 =
      Inr (cs2\<lparr>shardWeight := ws', crossShardEdgeNum := num', minShardWeight := m'\<rparr>)"
    "length ws' = nat (shardNum cs2)" using computeEdges2Shard_total [OF ok2] by blast
  let ?cs3 = "cs2\<lparr>shardWeight := ws', crossShardEdgeNum := num', minShardWeight := m'\<rparr>"
  have run: "CLPAPartition F orders cs = Inr (prune ?orig ret, crossShardEdgeNum ?cs3, ?cs3)"
    using orig by (simp add: CLPAPartition_def c1(1) r c3(1))
  have dist: "distinct (map fst ?orig)"
    using clpa_okD(5) [OF ok] by (simp add: comp_def keys_of_def gomap_def)
  have orig_of: "map_of ?orig v = map_of (partitionMap cs) v" for v
  proof (cases "v \<in> set ?keys")
    case True
    then show ?thesis using at(2) [OF True] by (simp add: map_of_map_restrict)
  next
    case False
    then show ?thesis using clpa_okD(6) [OF ok, of v] by (auto simp: keys_of_iff map_of_map_restrict)
  qed
  have g: "gomap ret" using inv by (simp add: round_inv_def)
  have "map_of (prune ?orig ret) v = (if map_of (partitionMap ?cs3) v = map_of (partitionMap cs) v then None
      else map_of (partitionMap ?cs3) v)" for v
  proof -
    have "map_of (partitionMap cs2) v = (case map_of ret v of None \<Rightarrow> map_of (partitionMap cs) v | Some l \<Rightarrow> Some l)"
      using inv by (simp add: round_inv_def)
    then show ?thesis
      unfolding prune_map_of [OF g dist] orig_of
      by (cases "map_of ret v"; cases "map_of (partitionMap cs) v") auto
  qed
  then show ?thesis
    using run inv clpa_ok_weights(1) [OF ok2 c3(2)] sn by (auto simp: round_inv_def)
qed

text \<open>Two shards, three vertices, one edge, and whole numbers as scores.\<close>

definition example_floats :: "int floats" where
  "example_floats =
     \<lparr>f_of_int = id, f_add = (+), f_sub = (-), f_mul = (*), f_div = (div), f_less = (<),
      f_minimum = (\<lambda>xs. fold min xs (hd xs))\<rparr>"

definition example_clpa :: "int CLPAState" where
  "example_clpa =
     \<lparr>netGraph = \<lparr>VertexSet = [(1, ()), (2, ()), (3, ())], EdgeSet = [(1, [2]), (2, [1])]\<rparr>,
      partitionMap = [(1, 1), (2, 0), (3, 1)], shardWeight = [0, 0], vertexNumInShard = [1, 2],
      minShardWeight = 0, crossShardEdgeNum = 0, maxIterations = 1, weightPenalty = 1, shardNum = 2\<rparr>"

lemma example_clpa_ok: "clpa_ok example_clpa"
proof -
  have "k = 0 \<or> k = Suc 0" if "k < 2" for k :: nat using that by auto
  note this [dest!]
  show ?thesis
    by (auto simp: clpa_ok_def example_clpa_def gomap_def located_def split: if_splits)
qed

theorem AddEdge_keeps_books_witness:
  "\<exists>cs'. AddEdge 4 1 example_clpa = Inr cs' \<and> clpa_ok cs' \<and>
     1 \<in> set (neighbors (netGraph cs') 4) \<and> 4 \<in> set (neighbors (netGraph cs') 1)"
  by (rule AddEdge_keeps_books [OF example_clpa_ok]) (simp add: example_clpa_def)

theorem CLPAPartition_moves_witness:
  "\<exists>ret w cs'. CLPAPartition example_floats [[1, 2, 3]] example_clpa = Inr (ret, w, cs') \<and> clpa_ok cs' \<and>
    shardNum cs' = shardNum example_clpa \<and>
    (\<forall>v. map_of ret v = (if map_of (partitionMap cs') v = map_of (partitionMap example_clpa) v then None
                         else map_of (partitionMap cs') v)) \<and>
    (\<forall>v. map_of (partitionMap cs') v \<noteq> None \<longleftrightarrow> map_of (partitionMap example_clpa) v \<noteq> None) \<and>
    (\<forall>k < nat (shardNum example_clpa). 1 \<le> vertexNumInShard example_clpa ! k \<longrightarrow>
       1 \<le> vertexNumInShard cs' ! k)"
  by (rule CLPAPartition_moves [OF example_clpa_ok]) (auto simp: example_clpa_def split: if_splits)

end
