(* ===== verification/Chain.thy ===== *)
theory Chain
  imports StateExec Storage Partition
begin

text \<open>
  The blockchain of one node (\<open>pkg/chain/chain.go\<close>): generating, validating and adding blocks,
  reading accounts and their locations, and handing out blocks to replicas that catch up. The
  mutex makes every operation atomic.
\<close>

section \<open>State\<close>

record ('db, 'd, 'tdb, 't, 'ns) chain_env =
  c_lib :: lib
  c_geth :: "('db, 'd) geth"
  c_trie :: "('tdb, 't, 'ns) eth_trie"
  c_put :: bolt_put

record ('db, 'tdb) chain =
  StateStorage :: 'db
  LocStorage :: "'tdb LocStore"
  BlockStorage :: BoltStore
  curHeader :: header
  shardID :: int
  epochID :: int
  cfg_ShardNum :: int
  cfg_BitsetLen :: int
  cfg_FilterHashFunc :: "string list"

definition blocksFetchLimit :: int where
  "blocksFetchLimit = 100"

definition zero_Filter :: Filter where
  "zero_Filter = \<lparr>B = [], FilterHashFs = []\<rparr>"

definition zero_header :: header where
  "zero_header =
     \<lparr>ParentBlockHash = [], StateRoot = [], Number = 0, Type = 0, Miner = 0, h_CreateTime = zero_time,
      LocationRoot = [], TxRoot = [], Bloom = zero_Filter, MigratedAccountsRoot = []\<rparr>"

section \<open>Headers of the body and of the migration\<close>

definition calcTxHeaderOpt ::
    "('db, 'd, 'tdb, 't, 'ns) chain_env \<Rightarrow> ('db, 'tdb) chain \<Rightarrow> transaction list \<Rightarrow> (bytes \<times> Filter) result" where
  "calcTxHeaderOpt E c txs =
     (if txs = [] then Inr ([], zero_Filter)
      else
        bindR (NewFilter (c_lib E) (cfg_BitsetLen c) (cfg_FilterHashFunc c)) (\<lambda>bf.
        bindR (mapR (\<lambda>tx. bindR (tx_Hash (c_lib E) tx) (\<lambda>k.
                          bindR (tx_Encode (c_lib E) tx) (\<lambda>v. Inr (k, v)))) txs) (\<lambda>kvs.
        bindR (bloom_Add (c_lib E) (map fst kvs) bf) (\<lambda>bf'.
        bindR (GenerateRootByGivenBytes (c_lib E) (map fst kvs) (map snd kvs)) (\<lambda>root.
        Inr (root, bf'))))))"

text \<open>\<open>sList[i]\<close> panics when there are fewer states than accounts.\<close>

definition getMigrationAccountBytes ::
    "lib \<Rightarrow> address list \<Rightarrow> state list \<Rightarrow> (bytes \<times> bytes) list result" where
  "getMigrationAccountBytes L accList sList =
     mapR (\<lambda>(i, acc). bindR (index sList (int i)) (\<lambda>st.
                      bindR (state_Encode L st) (\<lambda>v. Inr (bytes_of_addr acc, v))))
       (enumerate 0 accList)"

definition calcMigrationHeaderOpt ::
    "('db, 'd, 'tdb, 't, 'ns) chain_env \<Rightarrow> address list \<Rightarrow> state list \<Rightarrow> bytes result" where
  "calcMigrationHeaderOpt E addrs states =
     (if addrs = [] then Inr []
      else bindR (getMigrationAccountBytes (c_lib E) addrs states) (\<lambda>kvs.
           GenerateRootByGivenBytes (c_lib E) (map fst kvs) (map snd kvs)))"

section \<open>Reading accounts\<close>

definition getAccountLocations ::
    "('db, 'd, 'tdb, 't, 'ns) chain_env \<Rightarrow> ('db, 'tdb) chain \<Rightarrow> address list \<Rightarrow> int list result" where
  "getAccountLocations E c addresses =
     bindR (MGetValsByKeys (c_trie E) (map bytes_of_addr addresses) (LocStorage c)) (\<lambda>locBytes.
     mapR (\<lambda>(addr, locByte).
             case locByte of
               None \<Rightarrow> DefaultAccountLoc addr (cfg_ShardNum c)
             | Some b \<Rightarrow> bindR (orErr ''decode location err'' (gob_unloc (c_lib E) b)) (\<lambda>uintLoc.
                          Inr (i64 uintLoc)))
       (zip addresses locBytes))"

text \<open>
  The keys of the map are asked for in its order; each is then overwritten with its location.
\<close>

definition getAccountLocationsInTxs ::
    "('db, 'd, 'tdb, 't, 'ns) chain_env \<Rightarrow> ('db, 'tdb) chain \<Rightarrow> transaction list \<Rightarrow> (address, int) gomap result" where
  "getAccountLocationsInTxs E c txs =
     (let m = fold (\<lambda>tx m. AList.update (Recipient tx) (- 1) (AList.update (Sender tx) (- 1) m)) txs [];
          requestAccounts = keys_of m
      in bindR (getAccountLocations E c requestAccounts) (\<lambda>locations.
         Inr (fold (\<lambda>(a, l) m. AList.update a l m) (zip requestAccounts locations) m)))"

text \<open>The conversion \<open>common.Hash(slice)\<close> panics on a slice shorter than 32 bytes.\<close>

definition getVMExecutor :: "('db, 'd, 'tdb, 't, 'ns) chain_env \<Rightarrow> ('db, 'tdb) chain \<Rightarrow> 'd result" where
  "getVMExecutor E c =
     (if length (StateRoot (curHeader c)) < 32
      then Inl (Panic ''cannot convert slice to array'')
      else orErr ''failed to new a state database''
             (state_New (c_geth E) (take 32 (StateRoot (curHeader c))) (StateStorage c)))"

definition getAccountStates ::
    "('db, 'd, 'tdb, 't, 'ns) chain_env \<Rightarrow> ('db, 'tdb) chain \<Rightarrow> address list \<Rightarrow> state list result" where
  "getAccountStates E c addresses =
     bindR (getAccountLocations E c addresses) (\<lambda>locations.
     bindR (getVMExecutor E c) (\<lambda>vme.
     Inr (map (\<lambda>(addr, l). readStateFromVMExecutor (c_geth E) addr vme (u64 l))
           (zip addresses locations))))"

section \<open>Executing a block\<close>

text \<open>The loop over the migrated accounts: the executor and the bytes collected.\<close>

definition migrate_in ::
    "('db, 'd, 'tdb, 't, 'ns) chain_env \<Rightarrow> int \<Rightarrow> state list \<Rightarrow> 'd \<times> bytes list \<times> bytes list \<Rightarrow>
     nat \<times> address \<Rightarrow> ('d \<times> bytes list \<times> bytes list) result" where
  "migrate_in E shard states acc it =
     (case acc of (v, as, ls) \<Rightarrow> case it of (i, a) \<Rightarrow>
        bindR (index states (int i)) (\<lambda>st.
        bindR (if ShardLocation st = u64 shard then setMigratedStates2VMTrie (c_geth E) a st v else Inr v) (\<lambda>v'.
        bindR (orErr ''encode state err'' (gob_loc (c_lib E) (ShardLocation st))) (\<lambda>b.
        Inr (v', as @ [bytes_of_addr a], ls @ [b])))))"

definition calcStateModification ::
    "('db, 'd, 'tdb, 't, 'ns) chain_env \<Rightarrow> ('db, 'tdb) chain \<Rightarrow> 'd \<Rightarrow> block \<Rightarrow>
     ('d \<times> bytes list \<times> bytes list) result" where
  "calcStateModification E c v b =
     bindR (getAccountLocationsInTxs E c (TxList b)) (\<lambda>accountLocMap.
     bindR (foldR (\<lambda>s tx. txExecute (c_geth E) (getBlockCtxByBlock b) accountLocMap (shardID c) tx s)
              v (TxList b)) (\<lambda>v1.
     foldR (migrate_in E (shardID c) (MigratedStates b)) (v1, [], []) (enumerate 0 (MigratedAddrs b))))"

definition previewStateRootByBlock ::
    "('db, 'd, 'tdb, 't, 'ns) chain_env \<Rightarrow> ('db, 'tdb) chain \<Rightarrow> block \<Rightarrow> (bytes \<times> bytes) result" where
  "previewStateRootByBlock E c b =
     bindR (getVMExecutor E c) (\<lambda>vme.
     bindR (calcStateModification E c vme b) (\<lambda>(v, accountBytes, locationBytes).
     bindR (MAddKeyValuesPreview (c_trie E) accountBytes locationBytes (LocStorage c)) (\<lambda>locRoot.
     Inr (IntermediateRoot (c_geth E) v, locRoot))))"

definition updateTrieByBlock ::
    "('db, 'd, 'tdb, 't, 'ns) chain_env \<Rightarrow> block \<Rightarrow> ('db, 'tdb) chain \<Rightarrow>
     (bytes \<times> bytes) result \<times> ('db, 'tdb) chain" where
  "updateTrieByBlock E b c =
     (case bindR (getVMExecutor E c) (\<lambda>vme. calcStateModification E c vme b) of
        Inl e \<Rightarrow> (Inl e, c)
      | Inr (v, accountBytes, locationBytes) \<Rightarrow>
          (case state_Commit (c_geth E) v (BlockNumber (getBlockCtxByBlock b)) (StateStorage c) of
             (None, db) \<Rightarrow> (Inl (Errorf ''vme commit err''), c\<lparr>StateStorage := db\<rparr>)
           | (Some stateRoot, db) \<Rightarrow>
               let c1 = c\<lparr>StateStorage := db\<rparr> in
               (case MAddKeyValuesAndCommit (c_trie E) accountBytes locationBytes (LocStorage c1) of
                  (Inl e, loc) \<Rightarrow> (Inl e, c1\<lparr>LocStorage := loc\<rparr>)
                | (Inr locRoot, loc) \<Rightarrow>
                    let c2 = c1\<lparr>LocStorage := loc\<rparr> in
                    (case trie_Commit (c_geth E) stateRoot (StateStorage c2) of
                       (False, db') \<Rightarrow> (Inl (Errorf ''commit state-db trie err''), c2\<lparr>StateStorage := db'\<rparr>)
                     | (True, db') \<Rightarrow> (Inr (stateRoot, locRoot), c2\<lparr>StateStorage := db'\<rparr>)))))"

section \<open>Blocks\<close>

definition GenerateBlock ::
    "('db, 'd, 'tdb, 't, 'ns) chain_env \<Rightarrow> ('db, 'tdb) chain \<Rightarrow> time \<Rightarrow> address \<Rightarrow> int \<Rightarrow>
     transaction list \<Rightarrow> address list \<Rightarrow> state list \<Rightarrow> block result" where
  "GenerateBlock E c now miner blockType txs addrs states =
     bindR (header_Hash (c_lib E) (curHeader c)) (\<lambda>parent.
     bindR (calcTxHeaderOpt E c txs) (\<lambda>(txRoot, bf).
     bindR (calcMigrationHeaderOpt E addrs states) (\<lambda>mRoot.
     let h = \<lparr>ParentBlockHash = parent, StateRoot = [], Number = u64 (Number (curHeader c) + 1),
              Type = blockType, Miner = miner, h_CreateTime = now, LocationRoot = [],
              TxRoot = txRoot, Bloom = bf, MigratedAccountsRoot = mRoot\<rparr>;
         b = NewBlock h txs addrs states
     in bindR (previewStateRootByBlock E c b) (\<lambda>(stateRoot, locRoot).
        Inr (b\<lparr>StateRoot := stateRoot, LocationRoot := locRoot\<rparr>)))))"

definition chain_AddBlock ::
    "('db, 'd, 'tdb, 't, 'ns) chain_env \<Rightarrow> block \<Rightarrow> ('db, 'tdb) chain \<Rightarrow> unit result \<times> ('db, 'tdb) chain" where
  "chain_AddBlock E b c =
     (case bindR (block_Hash (c_lib E) b) (\<lambda>blockHash.
           bindR (block_Encode (c_lib E) b) (\<lambda>blockByte.
           bindR (header_Encode (c_lib E) (header.truncate b)) (\<lambda>headerByte.
           Inr (blockHash, blockByte, headerByte)))) of
        Inl e \<Rightarrow> (Inl e, c)
      | Inr (blockHash, blockByte, headerByte) \<Rightarrow>
          (case updateTrieByBlock E b c of
             (Inl e, c1) \<Rightarrow> (Inl e, c1)
           | (Inr _, c1) \<Rightarrow>
               (case bolt_AddBlock (c_put E) blockHash blockByte headerByte (BlockStorage c1) of
                  (Inl e, st) \<Rightarrow> (Inl e, c1\<lparr>BlockStorage := st\<rparr>)
                | (Inr _, st) \<Rightarrow> (Inr (), c1\<lparr>BlockStorage := st, curHeader := header.truncate b\<rparr>))))"

definition ValidateBlock ::
    "('db, 'd, 'tdb, 't, 'ns) chain_env \<Rightarrow> ('db, 'tdb) chain \<Rightarrow> block \<Rightarrow> unit result" where
  "ValidateBlock E c b =
     bindR (calcTxHeaderOpt E c (TxList b)) (\<lambda>(txRoot, bf).
     if txRoot \<noteq> TxRoot b then Inl (Errorf ''tx root mismatch'')
     else if \<not> bloom_Equal (c_lib E) bf (Bloom b) then Inl (Errorf ''bloom mismatch'')
     else bindR (calcMigrationHeaderOpt E (MigratedAddrs b) (MigratedStates b)) (\<lambda>mRoot.
       if mRoot \<noteq> MigratedAccountsRoot b then Inl (Errorf ''migration root mismatch'')
       else Inr ()))"

text \<open>The loop of \<open>GetBlocksAfterHeight\<close>, from the newest block backwards along the parents.\<close>

fun fetch_blocks ::
    "('db, 'd, 'tdb, 't, 'ns) chain_env \<Rightarrow> BoltStore \<Rightarrow> nat \<Rightarrow> bytes \<Rightarrow> block list \<Rightarrow> block list result" where
  "fetch_blocks E st 0 bHash blocks = Inr blocks"
| "fetch_blocks E st (Suc i) bHash blocks =
     bindR (GetBlockByHash bHash st) (\<lambda>bByte.
     bindR (DecodeBlock (c_lib E) bByte) (\<lambda>b.
     fetch_blocks E st i (ParentBlockHash b) (b # blocks)))"

definition chain_GetBlocksAfterHeight ::
    "('db, 'd, 'tdb, 't, 'ns) chain_env \<Rightarrow> int \<Rightarrow> ('db, 'tdb) chain \<Rightarrow> block list result" where
  "chain_GetBlocksAfterHeight E beginHeight c =
     (if beginHeight \<le> 0 then Inl (Errorf ''beginHeight must be > 0'')
      else
        let cnt = i64 (i64 (i64 (Number (curHeader c)) - beginHeight) + 1)
        in if blocksFetchLimit < cnt then Inl (Errorf ''too many blocks to return'')
           else
             bindR (header_Hash (c_lib E) (curHeader c)) (\<lambda>bHash.
             fetch_blocks E (BlockStorage c) (nat (if cnt < 0 then 0 else cnt)) bHash []))"

definition UpdateEpoch :: "int \<Rightarrow> ('db, 'tdb) chain \<Rightarrow> ('db, 'tdb) chain" where
  "UpdateEpoch epoch c = c\<lparr>epochID := epoch\<rparr>"

definition initWithGenesisBlock ::
    "('db, 'd, 'tdb, 't, 'ns) chain_env \<Rightarrow> time \<Rightarrow> ('db, 'tdb) chain \<Rightarrow> block result \<times> ('db, 'tdb) chain" where
  "initWithGenesisBlock E now c =
     (case GenerateBlock E c now 0 TxBlockType [] [] [] of
        Inl e \<Rightarrow> (Inl e, c)
      | Inr b \<Rightarrow> (case chain_AddBlock E b c of (Inl e, c') \<Rightarrow> (Inl e, c') | (Inr _, c') \<Rightarrow> (Inr b, c')))"

text \<open>\<open>NewChain\<close>, given the opened stores; \<open>emptyRoot\<close> is \<open>types.EmptyRootHash\<close>.\<close>

definition NewChain ::
    "('db, 'd, 'tdb, 't, 'ns) chain_env \<Rightarrow> time \<Rightarrow> bytes \<Rightarrow> 'db \<Rightarrow> 'tdb LocStore \<Rightarrow> BoltStore \<Rightarrow>
     int \<Rightarrow> int \<Rightarrow> int \<Rightarrow> string list \<Rightarrow> ('db, 'tdb) chain result" where
  "NewChain E now emptyRoot db loc st shard nShards bitsetLen hashFuncs =
     (let c = \<lparr>StateStorage = db, LocStorage = loc, BlockStorage = st,
               curHeader = zero_header\<lparr>StateRoot := emptyRoot\<rparr>, shardID = shard, epochID = 0,
               cfg_ShardNum = nShards, cfg_BitsetLen = bitsetLen, cfg_FilterHashFunc = hashFuncs\<rparr>
      in case initWithGenesisBlock E now c of
           (Inl e, _) \<Rightarrow> Inl e
         | (Inr b, c') \<Rightarrow> Inr (c'\<lparr>curHeader := header.truncate b\<rparr>))"

section \<open>Locations\<close>

text \<open>
  The location of an account in a chain is what \<open>getAccountLocations\<close> gives for it alone; asking
  for many accounts gives each its own.
\<close>

lemma getAccountLocations_nth:
  assumes "getAccountLocations E c addrs = Inr ls"
  shows "length ls = length addrs \<and> (\<forall>i < length addrs. getAccountLocations E c [addrs ! i] = Inr [ls ! i])"
proof -
  obtain vs where vs: "MGetValsByKeys (c_trie E) (map bytes_of_addr addrs) (LocStorage c) = Inr vs"
    "mapR (\<lambda>(addr, locByte). case locByte of None \<Rightarrow> DefaultAccountLoc addr (cfg_ShardNum c)
        | Some b \<Rightarrow> bindR (orErr ''decode location err'' (gob_unloc (c_lib E) b)) (\<lambda>uintLoc. Inr (i64 uintLoc)))
      (zip addrs vs) = Inr ls" (is "mapR ?dec _ = _")
    using assms by (auto simp: getAccountLocations_def bindR_Inr_iff)
  obtain t where t: "trie_New (c_trie E) (curStateRoot (LocStorage c)) (trieDB (LocStorage c)) = Some t"
    and get: "mapR (\<lambda>key. orErr ''get trie failed'' (trie_Get (c_trie E) t key)) (map bytes_of_addr addrs) = Inr vs"
    using vs(1) by (auto simp: MGetValsByKeys_def bindR_Inr_iff)
  have len: "length vs = length addrs" "length ls = length addrs"
    using mapR_length [OF get] mapR_length [OF vs(2)] by simp_all
  have "getAccountLocations E c [addrs ! i] = Inr [ls ! i]" if i: "i < length addrs" for i
  proof -
    have "trie_Get (c_trie E) t (bytes_of_addr (addrs ! i)) = Some (vs ! i)"
      using mapR_nth [OF get, of i] i by simp
    moreover have "?dec (addrs ! i, vs ! i) = Inr (ls ! i)"
      using mapR_nth [OF vs(2), of i] i len by simp
    ultimately show ?thesis by (simp add: getAccountLocations_def MGetValsByKeys_def t)
  qed
  then show ?thesis using len by simp
qed

lemma fold_update_zip:
  "length ks = length vs \<Longrightarrow> map_of (fold (\<lambda>(a, l) m. AList.update a l m) (zip ks vs) m) k = Some v \<Longrightarrow>
     (\<exists>i < length ks. ks ! i = k \<and> vs ! i = v) \<or> k \<notin> set ks \<and> map_of m k = Some v"
proof (induction ks vs arbitrary: m rule: list_induct2)
  case (Cons x xs y ys)
  have "map_of (fold (\<lambda>(a, l) m. AList.update a l m) (zip xs ys) (AList.update x y m)) k = Some v"
    using Cons.prems by simp
  from Cons.IH [OF this] show ?case
    by (auto split: if_splits intro: exI [of _ 0] exI [of _ "Suc _"])
qed simp

lemma fold_update_zip_None:
  "length ks = length vs \<Longrightarrow> map_of (fold (\<lambda>(a, l) m. AList.update a l m) (zip ks vs) m) k = None \<Longrightarrow>
     k \<notin> set ks \<and> map_of m k = None"
proof (induction ks vs arbitrary: m rule: list_induct2)
  case (Cons x xs y ys)
  have "map_of (fold (\<lambda>(a, l) m. AList.update a l m) (zip xs ys) (AList.update x y m)) k = None"
    using Cons.prems by simp
  from Cons.IH [OF this] show ?case by (auto split: if_splits)
qed simp

text \<open>
  \<open>getAccountLocationsInTxs\<close> knows the sender and the recipient of every transaction, each with
  its location in the chain.
\<close>

lemma tx_accounts_keys:
  "map_of m k \<noteq> None \<or> (\<exists>tx \<in> set txs. k = Sender tx \<or> k = Recipient tx) \<longleftrightarrow>
     map_of (fold (\<lambda>tx m. AList.update (Recipient tx) (- 1) (AList.update (Sender tx) (- 1) m)) txs m) k \<noteq> None"
proof (induction txs arbitrary: m)
  case (Cons tx txs)
  show ?case unfolding fold_simps comp_apply Cons.IH [symmetric] by auto
qed simp

lemma getAccountLocationsInTxs_spec:
  assumes run: "getAccountLocationsInTxs E c txs = Inr locs"
  shows "tx \<in> set txs \<Longrightarrow> map_of locs (Sender tx) \<noteq> None"
    and "tx \<in> set txs \<Longrightarrow> map_of locs (Recipient tx) \<noteq> None"
    and "map_of locs a = Some l \<Longrightarrow> getAccountLocations E c [a] = Inr [l]"
proof -
  let ?m = "fold (\<lambda>tx m. AList.update (Recipient tx) (- 1) (AList.update (Sender tx) (- 1) m)) txs []
      :: (address, int) gomap"
  obtain ls where ls: "getAccountLocations E c (keys_of ?m) = Inr ls"
    and locs: "locs = fold (\<lambda>(a, l) m. AList.update a l m) (zip (keys_of ?m) ls) ?m"
    using run by (auto simp: getAccountLocationsInTxs_def Let_def bindR_Inr_iff)
  note nth = getAccountLocations_nth [OF ls]
  have known: "map_of locs k \<noteq> None" if "map_of ?m k \<noteq> None" for k
    using fold_update_zip_None [of "keys_of ?m" ls ?m k] nth that unfolding locs by metis
  show "map_of locs (Sender tx) \<noteq> None" "map_of locs (Recipient tx) \<noteq> None" if "tx \<in> set txs"
    using known tx_accounts_keys [of "[]" _ txs] that by blast+
  show "getAccountLocations E c [a] = Inr [l]" if a: "map_of locs a = Some l"
  proof -
    have "(\<exists>i < length (keys_of ?m). keys_of ?m ! i = a \<and> ls ! i = l) \<or> a \<notin> set (keys_of ?m) \<and> map_of ?m a = Some l"
      using fold_update_zip [of "keys_of ?m" ls ?m a l] a nth unfolding locs by auto
    then show ?thesis using nth by (auto simp: keys_of_iff)
  qed
qed

section \<open>The accounts a block migrates\<close>

lemma migrate_in_Inr:
  assumes "migrate_in E sh states (v, as, ls) (k, a) = Inr acc"
  obtains v1 b where "k < length states" "gob_loc (c_lib E) (ShardLocation (states ! k)) = Some b"
    "acc = (v1, as @ [bytes_of_addr a], ls @ [b])"
  using assms by (auto simp: migrate_in_def bindR_Inr_iff index_def split: if_splits)

lemma migrate_in_loop:
  "foldR (migrate_in E sh states) (v, as, ls) (enumerate k addrs) = Inr (v', as', ls') \<Longrightarrow>
     as' = as @ map bytes_of_addr addrs \<and>
     (\<exists>ls1. ls' = ls @ ls1 \<and> length ls1 = length addrs \<and>
        (\<forall>i < length addrs. k + i < length states \<and>
           gob_loc (c_lib E) (ShardLocation (states ! (k + i))) = Some (ls1 ! i)))"
proof (induction addrs arbitrary: k v as ls)
  case (Cons a addrs)
  then obtain acc where acc: "migrate_in E sh states (v, as, ls) (k, a) = Inr acc"
    "foldR (migrate_in E sh states) acc (enumerate (Suc k) addrs) = Inr (v', as', ls')"
    by (auto simp: bindR_Inr_iff)
  obtain v1 b where st: "k < length states" and b: "gob_loc (c_lib E) (ShardLocation (states ! k)) = Some b"
    and rest: "foldR (migrate_in E sh states) (v1, as @ [bytes_of_addr a], ls @ [b]) (enumerate (Suc k) addrs) = Inr (v', as', ls')"
    using migrate_in_Inr [OF acc(1)] acc(2) by metis
  obtain ls1 where ls1: "as' = (as @ [bytes_of_addr a]) @ map bytes_of_addr addrs" "ls' = (ls @ [b]) @ ls1"
    "length ls1 = length addrs" "\<forall>i < length addrs. Suc k + i < length states \<and>
       gob_loc (c_lib E) (ShardLocation (states ! (Suc k + i))) = Some (ls1 ! i)"
    using Cons.IH [OF rest] by blast
  have "k + i < length states \<and> gob_loc (c_lib E) (ShardLocation (states ! (k + i))) = Some ((b # ls1) ! i)"
    if "i < length (a # addrs)" for i
    using that st b ls1(4) by (cases i) auto
  then show ?case using ls1(1-3) by (intro conjI exI [of _ "b # ls1"]) simp_all
qed simp

lemma put_map_apply: "put_map m (k, v) k' = (if k' = k then (if v = [] then None else Some v) else m k')"
  by (simp add: put_map_def)

lemma fold_put_map:
  "length ks = length vs \<Longrightarrow> distinct ks \<Longrightarrow> [] \<notin> set vs \<Longrightarrow>
     (\<forall>i < length ks. fold (\<lambda>kv m. put_map m kv) (zip ks vs) m (ks ! i) = Some (vs ! i)) \<and>
     (\<forall>k. k \<notin> set ks \<longrightarrow> fold (\<lambda>kv m. put_map m kv) (zip ks vs) m k = m k)"
proof (induction ks vs arbitrary: m rule: list_induct2)
  case (Cons x xs y ys)
  let ?m = "put_map m (x, y)"
  have IH: "\<forall>i < length xs. fold (\<lambda>kv m. put_map m kv) (zip xs ys) ?m (xs ! i) = Some (ys ! i)"
    "\<forall>k. k \<notin> set xs \<longrightarrow> fold (\<lambda>kv m. put_map m kv) (zip xs ys) ?m k = ?m k"
    using Cons.IH [of ?m] Cons.prems by auto
  have "fold (\<lambda>kv m. put_map m kv) (zip (x # xs) (y # ys)) m ((x # xs) ! i) = Some ((y # ys) ! i)"
    if "i < length (x # xs)" for i
    using that IH Cons.prems by (cases i) (auto simp: put_map_apply)
  moreover have "fold (\<lambda>kv m. put_map m kv) (zip (x # xs) (y # ys)) m k = m k" if "k \<notin> set (x # xs)" for k
    using that IH(2) by (auto simp: put_map_apply)
  ultimately show ?case by blast
qed simp

text \<open>The steps of \<open>AddBlock\<close> that succeeded.\<close>

lemma updateTrieByBlock_InrE:
  assumes "updateTrieByBlock E b c = (Inr roots, c1)"
  obtains vme v as ls db root loc where "getVMExecutor E c = Inr vme"
    "calcStateModification E c vme b = Inr (v, as, ls)"
    "MAddKeyValuesAndCommit (c_trie E) as ls (LocStorage c) = (Inr root, loc)"
    "c1 = c\<lparr>LocStorage := loc, StateStorage := db\<rparr>"
  using assms
  by (auto simp: updateTrieByBlock_def bindR_Inr_iff Let_def
      split: sum.splits prod.splits option.splits bool.splits)

lemma chain_AddBlock_InrE:
  assumes "chain_AddBlock E b c = (Inr (), c')"
  obtains bHash blk hdr vme v as ls db root loc st where
    "block_Hash (c_lib E) b = Inr bHash" "block_Encode (c_lib E) b = Inr blk"
    "header_Encode (c_lib E) (header.truncate b) = Inr hdr"
    "getVMExecutor E c = Inr vme" "calcStateModification E c vme b = Inr (v, as, ls)"
    "MAddKeyValuesAndCommit (c_trie E) as ls (LocStorage c) = (Inr root, loc)"
    "bolt_AddBlock (c_put E) bHash blk hdr (BlockStorage c) = (Inr (), st)"
    "c' = c\<lparr>LocStorage := loc, StateStorage := db, BlockStorage := st, curHeader := header.truncate b\<rparr>"
proof -
  obtain bHash blk hdr roots c1 st where hdrs: "block_Hash (c_lib E) b = Inr bHash"
    "block_Encode (c_lib E) b = Inr blk" "header_Encode (c_lib E) (header.truncate b) = Inr hdr"
    and upd: "updateTrieByBlock E b c = (Inr roots, c1)"
    and bolt: "bolt_AddBlock (c_put E) bHash blk hdr (BlockStorage c1) = (Inr (), st)"
    and c': "c' = c1\<lparr>BlockStorage := st, curHeader := header.truncate b\<rparr>"
    using assms by (auto simp: chain_AddBlock_def bindR_Inr_iff split: sum.splits prod.splits)
  obtain vme v as ls db root loc where "getVMExecutor E c = Inr vme"
    "calcStateModification E c vme b = Inr (v, as, ls)"
    "MAddKeyValuesAndCommit (c_trie E) as ls (LocStorage c) = (Inr root, loc)"
    "c1 = c\<lparr>LocStorage := loc, StateStorage := db\<rparr>"
    using updateTrieByBlock_InrE [OF upd] .
  then show ?thesis using that hdrs bolt c' by simp
qed

lemma chain_AddBlock_InlE:
  assumes "chain_AddBlock E b c = (Inl e, c')" "bolt_laws (c_put E)"
  shows "curHeader c' = curHeader c \<and> BlockStorage c' = BlockStorage c \<and>
     shardID c' = shardID c \<and> epochID c' = epochID c"
  using assms(1) bolt_AddBlock_outcome [OF assms(2)]
  by (fastforce simp: chain_AddBlock_def updateTrieByBlock_def bindR_Inr_iff Let_def
      split: sum.splits prod.splits option.splits bool.splits)

section \<open>The history of a chain\<close>

text \<open>
  The blocks of a chain, newest first: each is stored under its hash and decodes to itself, and
  the hash of the next is its parent hash.
\<close>

fun stored_chain :: "lib \<Rightarrow> BoltStore \<Rightarrow> bytes \<Rightarrow> block list \<Rightarrow> bool" where
  "stored_chain L st h [] = True"
| "stored_chain L st h (b # bs) =
     (block_Hash L b = Inr h \<and>
      (\<exists>d. GetBlockByHash h st = Inr d \<and> DecodeBlock L d = Inr b) \<and>
      stored_chain L st (ParentBlockHash b) bs)"

text \<open>The newest block is the current one, and the heights count down to 1.\<close>

definition history :: "('db, 'd, 'tdb, 't, 'ns) chain_env \<Rightarrow> ('db, 'tdb) chain \<Rightarrow> block list \<Rightarrow> bool" where
  "history E c bs \<longleftrightarrow>
     (\<exists>h. header_Hash (c_lib E) (curHeader c) = Inr h \<and> stored_chain (c_lib E) (BlockStorage c) h bs) \<and>
     bs \<noteq> [] \<and> curHeader c = header.truncate (hd bs) \<and>
     (\<forall>i < length bs. Number (bs ! i) = int (length bs) - int i)"

lemma fetch_stored:
  "stored_chain (c_lib E) st h bs \<Longrightarrow> n \<le> length bs \<Longrightarrow>
     fetch_blocks E st n h acc = Inr (rev (take n bs) @ acc)"
proof (induction bs arbitrary: n h acc)
  case (Cons b bs)
  then show ?case by (cases n) auto
qed simp

lemma stored_chain_kept:
  "stored_chain L st h bs \<Longrightarrow>
     (\<And>b h'. b \<in> set bs \<Longrightarrow> block_Hash L b = Inr h' \<Longrightarrow> GetBlockByHash h' st' = GetBlockByHash h' st) \<Longrightarrow>
     stored_chain L st' h bs"
proof (induction bs arbitrary: h)
  case (Cons b bs)
  have "GetBlockByHash h st' = GetBlockByHash h st" using Cons.prems(1) Cons.prems(2) [of b h] by simp
  moreover have "stored_chain L st' (ParentBlockHash b) bs"
    by (rule Cons.IH) (use Cons.prems in auto)
  ultimately show ?case using Cons.prems(1) by simp
qed simp

section \<open>Properties\<close>

text \<open>C16: adding a block either makes it the current header, found under its hash in the block store
  with every older block kept, or returns an error and leaves the header and the block store as
  they were.\<close>

theorem chain_AddBlock_outcome:
  assumes put: "bolt_laws (c_put E)" and run: "chain_AddBlock E b c = (r, c')"
  shows "(r = Inr () \<and> curHeader c' = header.truncate b \<and>
      (\<exists>h blk. block_Hash (c_lib E) b = Inr h \<and> block_Encode (c_lib E) b = Inr blk \<and>
         GetBlockByHash h (BlockStorage c') = Inr blk \<and> GetNewestBlockHash (BlockStorage c') = Inr h \<and>
         (\<forall>h'. h' \<noteq> h \<longrightarrow> GetBlockByHash h' (BlockStorage c') = GetBlockByHash h' (BlockStorage c)))) \<or>
    ((\<exists>e. r = Inl e) \<and> curHeader c' = curHeader c \<and> BlockStorage c' = BlockStorage c)"
proof (cases r)
  case (Inl e)
  then show ?thesis using chain_AddBlock_InlE [OF _ put] run by blast
next
  case (Inr u)
  have "chain_AddBlock E b c = (Inr (), c')" using run Inr by simp
  then show ?thesis
  proof (cases rule: chain_AddBlock_InrE)
    case (1 bHash blk hdr vme v as ls db root loc st)
    then show ?thesis using bolt_AddBlock_outcome [OF put 1(7)] Inr by auto
  qed
qed

text \<open>What a generated block is made of, and that it is valid for a chain with the same Bloom filter.\<close>

lemma GenerateBlock_InrE:
  assumes "GenerateBlock E c now miner ty txs addrs states = Inr b"
  obtains parent txRoot bf mRoot sr lr where "header_Hash (c_lib E) (curHeader c) = Inr parent"
    "calcTxHeaderOpt E c txs = Inr (txRoot, bf)" "calcMigrationHeaderOpt E addrs states = Inr mRoot"
    "b = (NewBlock \<lparr>ParentBlockHash = parent, StateRoot = [], Number = u64 (Number (curHeader c) + 1),
              Type = ty, Miner = miner, h_CreateTime = now, LocationRoot = [],
              TxRoot = txRoot, Bloom = bf, MigratedAccountsRoot = mRoot\<rparr> txs addrs states)
            \<lparr>StateRoot := sr, LocationRoot := lr\<rparr>"
  using assms that by (auto simp: GenerateBlock_def bindR_Inr_iff Let_def)

lemma generated_valid:
  assumes run: "GenerateBlock E c now miner ty txs addrs states = Inr b"
    and cfg: "cfg_BitsetLen c' = cfg_BitsetLen c" "cfg_FilterHashFunc c' = cfg_FilterHashFunc c"
    and refl: "\<And>bits. bs_equal (c_lib E) bits bits"
  shows "ValidateBlock E c' b = Inr ()"
proof (cases rule: GenerateBlock_InrE [OF run])
  case (1 parent txRoot bf mRoot sr lr)
  have "calcTxHeaderOpt E c' txs = calcTxHeaderOpt E c txs" by (simp add: calcTxHeaderOpt_def cfg)
  then show ?thesis using 1 refl by (simp add: ValidateBlock_def bloom_Equal_def)
qed

text \<open>C14: the block a node generates passes the validation of every node with the same bloom-filter
  configuration, whatever state that node is in.\<close>

theorem GenerateBlock_validates:
  assumes run: "GenerateBlock E c now miner ty txs addrs states = Inr b"
    and cfg: "cfg_BitsetLen c' = cfg_BitsetLen c" "cfg_FilterHashFunc c' = cfg_FilterHashFunc c"
    and refl: "\<And>bits. bs_equal (c_lib E) bits bits"
  shows "ValidateBlock E c' b = Inr () \<and> TxList b = txs \<and> MigratedAddrs b = addrs \<and> MigratedStates b = states \<and>
    Number b = u64 (Number (curHeader c) + 1) \<and> header_Hash (c_lib E) (curHeader c) = Inr (ParentBlockHash b)"
  using generated_valid [OF run cfg refl] by (cases rule: GenerateBlock_InrE [OF run]) simp


text \<open>A replica that asks for the blocks from a height gets exactly the blocks of the chain from
  that height to the newest, oldest first.\<close>

lemma GetBlocksAfterHeight_history:
  assumes H: "history E c bs" and small: "length bs < 2 ^ 62"
    and h: "0 < h" "h \<le> int (length bs) + 1" "int (length bs) - h + 1 \<le> blocksFetchLimit"
  shows "chain_GetBlocksAfterHeight E h c = Inr (drop (nat (h - 1)) (rev bs))"
proof -
  obtain hash where hash: "header_Hash (c_lib E) (curHeader c) = Inr hash"
    "stored_chain (c_lib E) (BlockStorage c) hash bs" using H unfolding history_def by blast
  have num: "Number (curHeader c) = int (length bs)"
    using H by (cases bs) (auto simp: history_def header.defs)
  let ?cnt = "int (length bs) - h + 1"
  have "in_i64 (int (length bs))" "in_i64 (int (length bs) - h)" "in_i64 ?cnt"
    using small h by (simp_all add: in_i64_def)
  then have cnt: "i64 (i64 (i64 (Number (curHeader c)) - h) + 1) = ?cnt" by (simp add: num go_int)
  have "nat ?cnt \<le> length bs" using h by simp
  then have "fetch_blocks E (BlockStorage c) (nat ?cnt) hash [] = Inr (rev (take (nat ?cnt) bs))"
    using fetch_stored [OF hash(2)] by simp
  moreover have "rev (take (nat ?cnt) bs) = drop (nat (h - 1)) (rev bs)"
  proof -
    have "length bs - nat ?cnt = nat (h - 1)" using h by arith
    then show ?thesis by (simp add: rev_take)
  qed
  ultimately show ?thesis
    using h hash(1) cnt by (simp add: chain_GetBlocksAfterHeight_def Let_def)
qed

text \<open>A block that names the current header as its parent and the next height extends the history
  of the chain when it is added, unless its hash is that of an older block.\<close>

lemma chain_AddBlock_extends_history:
  assumes H: "history E c bs" and put: "bolt_laws (c_put E)"
    and run: "chain_AddBlock E b c = (Inr (), c')"
    and b: "header_Hash (c_lib E) (curHeader c) = Inr (ParentBlockHash b)" "Number b = Number (curHeader c) + 1"
    and gob: "\<And>d. gob_block (c_lib E) b = Some d \<Longrightarrow> gob_unblock (c_lib E) d = Some b"
    and fresh: "\<And>b'. b' \<in> set bs \<Longrightarrow> block_Hash (c_lib E) b' \<noteq> block_Hash (c_lib E) b"
  shows "history E c' (b # bs)"
  using run
proof (cases rule: chain_AddBlock_InrE)
  case (1 bHash blk hdr vme v as ls db root loc st)
  note store = bolt_AddBlock_outcome [OF put 1(7)]
  have "DecodeBlock (c_lib E) blk = Inr b"
    using gob 1(2) by (simp add: DecodeBlock_def block_Encode_def)
  moreover have "stored_chain (c_lib E) st (ParentBlockHash b) bs"
  proof (rule stored_chain_kept)
    show "stored_chain (c_lib E) (BlockStorage c) (ParentBlockHash b) bs"
      using H b(1) by (auto simp: history_def)
    show "GetBlockByHash h' st = GetBlockByHash h' (BlockStorage c)"
      if "b' \<in> set bs" "block_Hash (c_lib E) b' = Inr h'" for b' h'
      using fresh [OF that(1)] that(2) store 1(1) by auto
  qed
  moreover have "Number (curHeader c) = int (length bs)"
    using H by (cases bs) (auto simp: history_def header.defs)
  ultimately show ?thesis
    using 1(1) store b(2) H unfolding history_def
    by (auto simp: 1(8) block_Hash_def nth_Cons split: nat.splits)
qed

section \<open>Examples\<close>

text \<open>
  A library whose encodings are short: a header and a block are encoded by their number, of which
  the hash is the identity. The chain below holds the two blocks \<open>example_genesis\<close> and
  \<open>example_next\<close>.
\<close>

definition example_block :: "int \<Rightarrow> bytes \<Rightarrow> address list \<Rightarrow> state list \<Rightarrow> block" where
  "example_block n parent addrs states =
     NewBlock \<lparr>ParentBlockHash = parent, StateRoot = replicate 32 0, Number = n, Type = 1, Miner = 0,
       h_CreateTime = 0, LocationRoot = [], TxRoot = [], Bloom = zero_Filter, MigratedAccountsRoot = []\<rparr> [] addrs states"

definition example_genesis :: block where
  "example_genesis = example_block 1 [0] [] []"

definition example_next :: block where
  "example_next = example_block 2 [1] [] []"

definition example_lib :: lib where
  "example_lib =
     \<lparr>sha256 = (\<lambda>b. b), sha512 = (\<lambda>b. b), sha1 = (\<lambda>b. b),
      rlp_tx = (\<lambda>tx. Some [word_of_int (Nonce tx)]), rlp_header = (\<lambda>h. Some [word_of_int (Number h)]),
      rlp_block = (\<lambda>b. Some [word_of_int (Number b)]), gob_state = (\<lambda>s. Some [word_of_int (st_Nonce s)]),
      gob_block = (\<lambda>b. Some [word_of_int (Number b)]),
      gob_unblock = (\<lambda>d. if d = [1] then Some example_genesis else if d = [2] then Some example_next else None),
      gob_loc = (\<lambda>l. if 0 \<le> l \<and> l < 256 then Some [word_of_int l] else None),
      gob_unloc = (\<lambda>d. if length d = 1 then Some (uint (hd d)) else None),
      mpt_root = (\<lambda>kvs. Some (concat (map fst kvs))),
      bs_new = (\<lambda>n. replicate (nat n) False), bs_set = (\<lambda>b i. b[nat i := True]),
      bs_test = (\<lambda>b i. 0 \<le> i \<and> i < int (length b) \<and> b ! nat i), bs_len = (\<lambda>b. int (length b)), bs_equal = (=)\<rparr>"

definition example_env ::
    "(unit, example_state, bytes \<Rightarrow> example_trie, example_trie, example_trie) chain_env" where
  "example_env = \<lparr>c_lib = example_lib, c_geth = example_geth, c_trie = example_eth, c_put = example_put\<rparr>"

definition example_chain :: "(unit, bytes \<Rightarrow> example_trie) chain" where
  "example_chain =
     \<lparr>StateStorage = (), LocStorage = \<lparr>trieDB = (\<lambda>_. []), curStateRoot = []\<rparr>,
      BlockStorage = \<lparr>bucketBlock = Some [([1], [1])], bucketBlockHeader = Some [([1], [1])], bucketNewestBlock = Some []\<rparr>,
      curHeader = header.truncate example_genesis, shardID = 0, epochID = 0, cfg_ShardNum = 2,
      cfg_BitsetLen = 8, cfg_FilterHashFunc = []\<rparr>"

lemmas example_chain_defs = example_block_def example_genesis_def example_next_def example_lib_def
  example_env_def example_chain_def example_geth_def example_eth_def example_put_def zero_Filter_def

lemmas chain_run = block_Hash_def header_Hash_def header_Encode_def block_Encode_def DecodeBlock_def
  chain_AddBlock_def updateTrieByBlock_def getVMExecutor_def calcStateModification_def
  getAccountLocationsInTxs_def getAccountLocations_def MGetValsByKeys_def keys_of_def Let_def
  migrate_in_def index_def MAddKeyValuesAndCommit_def check_lengths_def update_all_def
  bolt_AddBlock_def bolt_Update_def put_in_def newestBlockKey_def GetBlockByHash_def

lemma truncate_NewBlock [simp]: "header.truncate (NewBlock h txs as ss) = h"
  by (simp add: NewBlock_def header.defs block.defs)

lemma example_put_laws: "bolt_laws example_put"
  by (auto simp: bolt_laws_def example_put_def split: if_splits)

lemma example_history: "history example_env example_chain [example_genesis]"
  by (simp add: history_def example_chain_defs chain_run)

lemma example_add: "\<exists>c'. chain_AddBlock example_env example_next example_chain = (Inr (), c')"
  by (simp add: example_chain_defs chain_run)

theorem chain_AddBlock_outcome_witness:
  "\<exists>c'. chain_AddBlock example_env example_next example_chain = (Inr (), c') \<and>
     curHeader c' = header.truncate example_next"
proof -
  obtain c' where run: "chain_AddBlock example_env example_next example_chain = (Inr (), c')"
    using example_add by blast
  have "bolt_laws (c_put example_env)" using example_put_laws by (simp add: example_env_def)
  then show ?thesis using chain_AddBlock_outcome [OF _ run] run by auto
qed

theorem GenerateBlock_validates_witness:
  "\<exists>b. GenerateBlock example_env example_chain 0 0 1 [] [] [] = Inr b \<and>
     ValidateBlock example_env example_chain b = Inr ()"
proof -
  obtain b where run: "GenerateBlock example_env example_chain 0 0 1 [] [] [] = Inr b"
    by (simp add: GenerateBlock_def example_chain_defs chain_run calcTxHeaderOpt_def
        calcMigrationHeaderOpt_def previewStateRootByBlock_def MAddKeyValuesPreview_def)
  have "bs_equal (c_lib example_env) bits bits" for bits by (simp add: example_env_def example_lib_def)
  from GenerateBlock_validates [OF run refl refl this] run show ?thesis by blast
qed


lemma example_add_history:
  "\<exists>c'. chain_AddBlock example_env example_next example_chain = (Inr (), c') \<and>
     history example_env c' [example_next, example_genesis]"
proof -
  obtain c' where run: "chain_AddBlock example_env example_next example_chain = (Inr (), c')"
    using example_add by blast
  have put: "bolt_laws (c_put example_env)" using example_put_laws by (simp add: example_env_def)
  have "history example_env c' (example_next # [example_genesis])"
    by (rule chain_AddBlock_extends_history [OF example_history put run])
      (auto simp: example_chain_defs chain_run)
  then show ?thesis using run by blast
qed

end
