(* ===== verification/TxPool.thy ===== *)
theory TxPool
  imports CoreTypes
begin

text \<open>
  The transaction pool (\<open>pkg/core/txpool/queue/queue.go\<close>): a queue from which blocks pack a
  prefix, limited by the number of transactions or by encoded bytes. The mutex makes every
  operation atomic.
\<close>

record TxPool =
  queue :: "transaction list"
  pool_type :: string

definition NewTxPool :: "string \<Rightarrow> TxPool result" where
  "NewTxPool ty =
     (if ty = ''byte'' \<or> ty = ''number'' then Inr \<lparr>queue = [], pool_type = ty\<rparr>
      else Inl (Errorf ''unknown tx pool type''))"

definition AddTxs :: "transaction list \<Rightarrow> TxPool \<Rightarrow> TxPool" where
  "AddTxs txs t = t\<lparr>queue := queue t @ txs\<rparr>"

text \<open>\<open>make\<close> panics on a negative length.\<close>

definition packTxsByGivenNum ::
    "transaction list \<Rightarrow> int \<Rightarrow> (transaction list \<times> transaction list) result" where
  "packTxsByGivenNum q n =
     (let len = (if n < int (length q) then n else int (length q))
      in if len < 0 then Inl (Panic ''makeslice: len out of range'')
         else Inr (take (nat len) q, drop (nat len) q))"

text \<open>The loop of \<open>packTxsByGivenBytes\<close>: it returns \<open>endIdx\<close>.\<close>

fun bytes_end :: "lib \<Rightarrow> transaction list \<Rightarrow> int \<Rightarrow> nat \<Rightarrow> nat result" where
  "bytes_end L [] n endIdx = Inr endIdx"
| "bytes_end L (tx # q) n endIdx =
     bindR (tx_Encode L tx) (\<lambda>b.
       let size = int (length b)
       in if size < n then Inr endIdx
          else bytes_end L q (i64 (n - size)) (Suc endIdx))"

definition packTxsByGivenBytes ::
    "lib \<Rightarrow> transaction list \<Rightarrow> int \<Rightarrow> (transaction list \<times> transaction list) result" where
  "packTxsByGivenBytes L q n =
     bindR (bytes_end L q n 0) (\<lambda>endIdx. Inr (take endIdx q, drop endIdx q))"

definition PackTxs :: "lib \<Rightarrow> int \<Rightarrow> TxPool \<Rightarrow> transaction list result \<times> TxPool" where
  "PackTxs L limit t =
     (case (if pool_type t = ''byte'' then packTxsByGivenBytes L (queue t) limit
            else packTxsByGivenNum (queue t) limit) of
        Inl e \<Rightarrow> (Inl e, t)
      | Inr (packed, q) \<Rightarrow> (Inr packed, t\<lparr>queue := q\<rparr>))"

definition getCurSizeOfNum :: "transaction list \<Rightarrow> int result" where
  "getCurSizeOfNum txs = Inr (int (length txs))"

definition getCurSizeOfByte :: "lib \<Rightarrow> transaction list \<Rightarrow> int result" where
  "getCurSizeOfByte L txs =
     foldR (\<lambda>cnt tx. bindR (tx_Encode L tx) (\<lambda>b. Inr (i64 (cnt + int (length b))))) 0 txs"

definition GetTxListSize :: "lib \<Rightarrow> TxPool \<Rightarrow> transaction list \<Rightarrow> int result" where
  "GetTxListSize L t txs =
     (if pool_type t = ''byte'' then getCurSizeOfByte L txs
      else if pool_type t = ''number'' then getCurSizeOfNum txs
      else Inl (Errorf ''unknown tx pool type''))"

section \<open>Packing takes a prefix\<close>

lemma packTxsByGivenNum_split:
  "packTxsByGivenNum q n = Inr (packed, rest) \<Longrightarrow>
     q = packed @ rest \<and> int (length packed) = min n (int (length q))"
  by (auto simp: packTxsByGivenNum_def Let_def min_def split: if_splits)

lemma bytes_end_le: "bytes_end L q n i = Inr k \<Longrightarrow> i \<le> k \<and> k \<le> i + length q"
  by (induction q arbitrary: n i) (fastforce simp: bindR_Inr_iff Let_def split: if_splits)+

lemma packTxsByGivenBytes_split:
  "packTxsByGivenBytes L q n = Inr (packed, rest) \<Longrightarrow> q = packed @ rest"
  by (auto simp: packTxsByGivenBytes_def bindR_Inr_iff)

lemma PackTxs_split:
  assumes "PackTxs L limit t = (Inr packed, t')"
  shows "queue t = packed @ queue t' \<and> pool_type t' = pool_type t"
  using assms packTxsByGivenBytes_split packTxsByGivenNum_split
  by (auto simp: PackTxs_def split: sum.splits if_splits)

lemma PackTxs_error: "PackTxs L limit t = (Inl e, t') \<Longrightarrow> t' = t"
  by (auto simp: PackTxs_def split: sum.splits)

lemma PackTxs_pool_type: "PackTxs L limit t = (r, t') \<Longrightarrow> pool_type t' = pool_type t"
  by (auto simp: PackTxs_def split: sum.splits if_splits)

text \<open>
  A queue of the number type packs exactly the limit, or everything.
\<close>

lemma PackTxs_number:
  assumes "pool_type t = ''number''" "0 \<le> limit"
  shows "PackTxs L limit t =
    (Inr (take (nat limit) (queue t)), t\<lparr>queue := drop (nat limit) (queue t)\<rparr>)"
proof -
  have "packTxsByGivenNum (queue t) limit = Inr (take (nat limit) (queue t), drop (nat limit) (queue t))"
    using assms(2) by (auto simp: packTxsByGivenNum_def Let_def not_less)
  then show ?thesis using assms(1) by (simp add: PackTxs_def)
qed

text \<open>
  In the byte mode the comparison is inverted: the loop stops at a transaction that is smaller
  than what is left of the limit, so a queue whose first transaction fits packs nothing.
\<close>

lemma packTxsByGivenBytes_fits_packs_nothing:
  assumes "rlp_tx L tx = Some b" "int (length b) < n"
  shows "packTxsByGivenBytes L (tx # q) n = Inr ([], tx # q)"
  using assms by (simp add: packTxsByGivenBytes_def tx_Encode_def Let_def)

end
