(* ===== verification/Message.thy ===== *)
theory Message
  imports CoreTypes
begin

text \<open>
  The messages of \<open>pkg/message\<close>, their wrapping (type tag and gob payload), the node topology of
  \<open>pkg/nodetopo\<close>, and the routine that sends every shard its transactions. What the connection
  is asked to send is a value: a list of destinations and wrapped messages.
\<close>

section \<open>Node topology\<close>

datatype NodeInfo = NodeInfo (NodeID: int) (ShardID: int)

record TopoGetter =
  leaders :: "(int, NodeInfo) gomap"
  shard2nodes :: "(int, NodeInfo list) gomap"

definition SupervisorShardID :: int where
  "SupervisorShardID = 0x7fffffff"

definition NewTopoGetter :: "(int, NodeInfo) gomap \<Rightarrow> (int, NodeInfo list) gomap \<Rightarrow> TopoGetter" where
  "NewTopoGetter l s = \<lparr>leaders = l, shard2nodes = s\<rparr>"

text \<open>The body of the inner loop: one node of one shard.\<close>

definition set_topo_node :: "int \<Rightarrow> TopoGetter \<Rightarrow> int \<times> string \<Rightarrow> TopoGetter" where
  "set_topo_node shard t nd =
     (let node = fst nd;
          info = NodeInfo node shard;
          t1 = t\<lparr>shard2nodes := AList.update shard (get_or [] (shard2nodes t) shard @ [info])
                                 (shard2nodes t)\<rparr>
      in if node = 0 then t1\<lparr>leaders := AList.update shard info (leaders t1)\<rparr> else t1)"

definition SetTopoGetter :: "(int, (int, string) gomap) gomap \<Rightarrow> TopoGetter" where
  "SetTopoGetter infoSet =
     (let t0 = \<lparr>leaders = [], shard2nodes = []\<rparr>;
          t = foldl (\<lambda>t (shard, shardInfo). foldl (set_topo_node shard) t shardInfo) t0 infoSet;
          spv = NodeInfo 0 SupervisorShardID
      in t\<lparr>leaders := AList.update SupervisorShardID spv (leaders t),
           shard2nodes := AList.update SupervisorShardID
             (get_or [] (shard2nodes t) SupervisorShardID @ [spv]) (shard2nodes t)\<rparr>)"

definition GetSupervisor :: "TopoGetter \<Rightarrow> NodeInfo result" where
  "GetSupervisor t = orErr ''no supervisor found'' (map_of (leaders t) SupervisorShardID)"

definition GetNodesInShard :: "TopoGetter \<Rightarrow> int \<Rightarrow> NodeInfo list result" where
  "GetNodesInShard t shardID = orErr ''shard not found'' (map_of (shard2nodes t) shardID)"

definition GetLeader :: "TopoGetter \<Rightarrow> int \<Rightarrow> NodeInfo result" where
  "GetLeader t shardID = orErr ''shard not found'' (map_of (leaders t) shardID)"

definition ChangeLeader :: "TopoGetter \<Rightarrow> int \<Rightarrow> NodeInfo \<Rightarrow> TopoGetter result" where
  "ChangeLeader t shardID info =
     (if map_of (leaders t) shardID = None then Inl (Errorf ''shard not found'')
      else Inr (t\<lparr>leaders := AList.update shardID info (leaders t)\<rparr>))"

definition GetAllLeaders :: "TopoGetter \<Rightarrow> NodeInfo list" where
  "GetAllLeaders t = filter (\<lambda>v. ShardID v \<noteq> SupervisorShardID) (map snd (leaders t))"

section \<open>Messages\<close>

record PreprepareMsg =
  pp_P :: block
  pp_Digest :: bytes
  pp_Seq :: int
  pp_View :: int
  pp_ShardID :: int
  pp_NodeID :: int

record PrepareMsg =
  p_Digest :: bytes
  p_Seq :: int
  p_View :: int
  p_ShardID :: int
  p_NodeID :: int

record CommitMsg =
  c_Digest :: bytes
  c_Seq :: int
  c_View :: int
  c_ShardID :: int
  c_NodeID :: int

record CatchupReqMsg =
  crq_StartBlockHeight :: int
  crq_ShardID :: int
  crq_NodeID :: int

record CatchupRespMsg =
  crs_Proposals :: "block list"
  crs_NextSeq :: int
  crs_NextView :: int
  crs_ShardID :: int
  crs_NodeID :: int

record RelayBlockInfoMsg =
  rb_InnerShardTxs :: "transaction list"
  rb_Relay1Txs :: "transaction list"
  rb_Relay2Txs :: "transaction list"
  rb_Epoch :: int
  rb_BlockProposeTime :: time
  rb_BlockCommitTime :: time
  rb_ShardID :: int

record BrokerBlockInfoMsg =
  bb_InnerShardTxs :: "transaction list"
  bb_Broker1Txs :: "transaction list"
  bb_Broker2Txs :: "transaction list"
  bb_Relay1Txs :: "transaction list"
  bb_Relay2Txs :: "transaction list"
  bb_Epoch :: int
  bb_BlockProposeTime :: time
  bb_BlockCommitTime :: time
  bb_ShardID :: int

record CLPARepartitionStartMsg =
  cr_Epoch :: int
  cr_ModifiedMap :: "(address, int) gomap"

record AccountMigrationMsg =
  at_SrcShard :: int
  at_DestShard :: int
  at_Epoch :: int
  at_AccountStates :: "(address, state) gomap"

text \<open>The dynamic types that \<open>WrapMsg\<close> accepts.\<close>

datatype message =
    MStopConsensus
  | MPreprepare PreprepareMsg
  | MPrepare PrepareMsg
  | MCommit CommitMsg
  | MReceiveTxs "transaction list"
  | MCatchupReq CatchupReqMsg
  | MCatchupResp CatchupRespMsg
  | MRelayBlockInfo RelayBlockInfoMsg
  | MBrokerBlockInfo BrokerBlockInfoMsg
  | MBrokerCLPATxSendAgain "transaction list"
  | MCLPARepartitionStart CLPARepartitionStartMsg
  | MAccountMigration AccountMigrationMsg

record WrappedMsg =
  MsgType :: string
  Payload :: bytes

type_synonym sends = "(NodeInfo \<times> WrappedMsg) list"

text \<open>
  gob: one encoder, and one decoder per message type; a decoder returns \<open>None\<close> for a payload it
  refuses. The documented law is that a decoder reads back what the encoder wrote.
\<close>

record codec =
  enc :: "message \<Rightarrow> bytes option"
  dec_preprepare :: "bytes \<Rightarrow> PreprepareMsg option"
  dec_prepare :: "bytes \<Rightarrow> PrepareMsg option"
  dec_commit :: "bytes \<Rightarrow> CommitMsg option"
  dec_receive_txs :: "bytes \<Rightarrow> transaction list option"
  dec_catchup_req :: "bytes \<Rightarrow> CatchupReqMsg option"
  dec_catchup_resp :: "bytes \<Rightarrow> CatchupRespMsg option"
  dec_relay_block_info :: "bytes \<Rightarrow> RelayBlockInfoMsg option"
  dec_broker_block_info :: "bytes \<Rightarrow> BrokerBlockInfoMsg option"
  dec_tx_send_again :: "bytes \<Rightarrow> transaction list option"
  dec_repartition_start :: "bytes \<Rightarrow> CLPARepartitionStartMsg option"
  dec_account_migration :: "bytes \<Rightarrow> AccountMigrationMsg option"

definition codec_laws :: "codec \<Rightarrow> bool" where
  "codec_laws K \<longleftrightarrow> (\<forall>m b. enc K m = Some b \<longrightarrow>
     (case m of
        MStopConsensus \<Rightarrow> True
      | MPreprepare x \<Rightarrow> dec_preprepare K b = Some x
      | MPrepare x \<Rightarrow> dec_prepare K b = Some x
      | MCommit x \<Rightarrow> dec_commit K b = Some x
      | MReceiveTxs x \<Rightarrow> dec_receive_txs K b = Some x
      | MCatchupReq x \<Rightarrow> dec_catchup_req K b = Some x
      | MCatchupResp x \<Rightarrow> dec_catchup_resp K b = Some x
      | MRelayBlockInfo x \<Rightarrow> dec_relay_block_info K b = Some x
      | MBrokerBlockInfo x \<Rightarrow> dec_broker_block_info K b = Some x
      | MBrokerCLPATxSendAgain x \<Rightarrow> dec_tx_send_again K b = Some x
      | MCLPARepartitionStart x \<Rightarrow> dec_repartition_start K b = Some x
      | MAccountMigration x \<Rightarrow> dec_account_migration K b = Some x))"

lemma codec_lawsD:
  assumes "codec_laws K"
  shows "enc K (MPreprepare a) = Some b \<Longrightarrow> dec_preprepare K b = Some a"
    and "enc K (MPrepare p) = Some b \<Longrightarrow> dec_prepare K b = Some p"
    and "enc K (MCommit c) = Some b \<Longrightarrow> dec_commit K b = Some c"
    and "enc K (MReceiveTxs txs) = Some b \<Longrightarrow> dec_receive_txs K b = Some txs"
    and "enc K (MCatchupReq q) = Some b \<Longrightarrow> dec_catchup_req K b = Some q"
    and "enc K (MCatchupResp s) = Some b \<Longrightarrow> dec_catchup_resp K b = Some s"
    and "enc K (MRelayBlockInfo r) = Some b \<Longrightarrow> dec_relay_block_info K b = Some r"
    and "enc K (MBrokerBlockInfo i) = Some b \<Longrightarrow> dec_broker_block_info K b = Some i"
    and "enc K (MBrokerCLPATxSendAgain txs) = Some b \<Longrightarrow> dec_tx_send_again K b = Some txs"
    and "enc K (MCLPARepartitionStart s') = Some b \<Longrightarrow> dec_repartition_start K b = Some s'"
    and "enc K (MAccountMigration m) = Some b \<Longrightarrow> dec_account_migration K b = Some m"
  using assms by (auto simp: codec_laws_def split: message.splits)

definition getMsgType :: "message \<Rightarrow> string" where
  "getMsgType msg =
     (case msg of
        MStopConsensus \<Rightarrow> ''StopConsensus''
      | MPreprepare _ \<Rightarrow> ''Preprepare''
      | MPrepare _ \<Rightarrow> ''Prepare''
      | MCommit _ \<Rightarrow> ''Commit''
      | MReceiveTxs _ \<Rightarrow> ''ReceiveTxs''
      | MCatchupReq _ \<Rightarrow> ''CatchupReq''
      | MCatchupResp _ \<Rightarrow> ''CatchupResp''
      | MRelayBlockInfo _ \<Rightarrow> ''RelayBlockInfo''
      | MBrokerBlockInfo _ \<Rightarrow> ''BrokerBlockInfo''
      | MBrokerCLPATxSendAgain _ \<Rightarrow> ''BrokerCLPATxSendAgain''
      | MCLPARepartitionStart _ \<Rightarrow> ''CLPARepartitionStart''
      | MAccountMigration _ \<Rightarrow> ''AccountMigration'')"

definition WrapMsg :: "codec \<Rightarrow> message \<Rightarrow> WrappedMsg result" where
  "WrapMsg K msg =
     bindR (orErr ''encoder failed'' (enc K msg))
       (\<lambda>buf. Inr \<lparr>MsgType = getMsgType msg, Payload = buf\<rparr>)"

lemma WrapMsg_Inr [simp]:
  "WrapMsg K msg = Inr w \<longleftrightarrow>
     (\<exists>b. enc K msg = Some b \<and> w = \<lparr>MsgType = getMsgType msg, Payload = b\<rparr>)"
  by (auto simp: WrapMsg_def bindR_Inr_iff)

text \<open>\<open>Proposal.Hash\<close>: the hash of the RLP encoding of the whole block.\<close>

definition proposal_Hash :: "lib \<Rightarrow> block \<Rightarrow> bytes result" where
  "proposal_Hash L p = bindR (orErr ''rlp'' (rlp_block L p)) (\<lambda>b. Inr (sha256 L b))"

section \<open>Sending every shard its transactions\<close>

text \<open>
  One message per shard with at least one transaction, to the shard's leader. Nothing is sent
  before every message is built, so an error sends nothing.
\<close>

definition wrap_txs_for ::
    "codec \<Rightarrow> TopoGetter \<Rightarrow> (NodeInfo, WrappedMsg) gomap \<Rightarrow> nat \<times> transaction list \<Rightarrow>
     (NodeInfo, WrappedMsg) gomap result" where
  "wrap_txs_for K r node2Msg it =
     (case it of (i, txs2Shard) \<Rightarrow>
        if txs2Shard = [] then Inr node2Msg
        else bindR (GetLeader r (int i)) (\<lambda>l.
             bindR (WrapMsg K (MReceiveTxs txs2Shard)) (\<lambda>w.
             Inr (AList.update l w node2Msg))))"

definition SendWrappedTxs2Shards ::
    "codec \<Rightarrow> transaction list list \<Rightarrow> TopoGetter \<Rightarrow> sends result" where
  "SendWrappedTxs2Shards K txs r = foldR (wrap_txs_for K r) [] (enumerate 0 txs)"

text \<open>The topology knows a distinct leader for each of the first \<open>n\<close> shards.\<close>

definition leaders_ok :: "TopoGetter \<Rightarrow> nat \<Rightarrow> bool" where
  "leaders_ok r n \<longleftrightarrow>
     (\<forall>i < n. map_of (leaders r) (int i) \<noteq> None) \<and>
     (\<forall>i < n. \<forall>j < n. map_of (leaders r) (int i) = map_of (leaders r) (int j) \<longrightarrow> i = j)"

lemma leaders_okD:
  assumes "leaders_ok r n"
  shows "i < n \<Longrightarrow> \<exists>l. map_of (leaders r) (int i) = Some l"
    and "i < n \<Longrightarrow> j < n \<Longrightarrow> map_of (leaders r) (int i) = map_of (leaders r) (int j) \<Longrightarrow> i = j"
  using assms unfolding leaders_ok_def by blast+

lemma send_loop_spec:
  assumes K: "codec_laws K" and r: "leaders_ok r (k + length txs)"
    and "foldR (wrap_txs_for K r) m (enumerate k txs) = Inr m'"
    and "\<forall>i < length txs. map_of m (the (map_of (leaders r) (int (k + i)))) = None"
  shows "(\<forall>i < length txs. case map_of m' (the (map_of (leaders r) (int (k + i)))) of
            None \<Rightarrow> txs ! i = []
          | Some w \<Rightarrow> txs ! i \<noteq> [] \<and> MsgType w = ''ReceiveTxs'' \<and>
                      dec_receive_txs K (Payload w) = Some (txs ! i)) \<and>
         (\<forall>d. (\<forall>i < length txs. d \<noteq> the (map_of (leaders r) (int (k + i)))) \<longrightarrow> map_of m' d = map_of m d)"
  using assms(2-4)
proof (induction txs arbitrary: k m)
  case (Cons t txs)
  let ?ld = "\<lambda>i. the (map_of (leaders r) (int i))"
  have ne: "?ld k \<noteq> ?ld (Suc k + i)" if "i < length txs" for i
  proof -
    have k: "k < k + length (t # txs)" "Suc k + i < k + length (t # txs)" using that by auto
    obtain l l' where "map_of (leaders r) (int k) = Some l"
      "map_of (leaders r) (int (Suc k + i)) = Some l'"
      using leaders_okD(1) [OF Cons.prems(1) k(1)] leaders_okD(1) [OF Cons.prems(1) k(2)] by blast
    moreover have "map_of (leaders r) (int k) \<noteq> map_of (leaders r) (int (Suc k + i))"
      using leaders_okD(2) [OF Cons.prems(1) k] by auto
    ultimately show ?thesis by auto
  qed
  from Cons.prems(2) obtain m1 where m1: "wrap_txs_for K r m (k, t) = Inr m1"
    "foldR (wrap_txs_for K r) m1 (enumerate (Suc k) txs) = Inr m'"
    by (auto simp: bindR_Inr_iff)
  have m1_eq: "map_of m1 d = map_of m d" if "d \<noteq> ?ld k" for d
    using m1(1) that by (auto simp: wrap_txs_for_def bindR_Inr_iff GetLeader_def split: if_splits)
  have m1_k: "case map_of m1 (?ld k) of None \<Rightarrow> t = []
      | Some w \<Rightarrow> t \<noteq> [] \<and> MsgType w = ''ReceiveTxs'' \<and> dec_receive_txs K (Payload w) = Some t"
    using m1(1) Cons.prems(3) codec_lawsD(4) [OF K]
    by (force simp: wrap_txs_for_def bindR_Inr_iff GetLeader_def getMsgType_def split: if_splits)
  have pre: "\<forall>i < length txs. map_of m1 (?ld (Suc k + i)) = None"
  proof (intro allI impI)
    fix i assume i: "i < length txs"
    have "map_of m (?ld (Suc k + i)) = None" using Cons.prems(3) [rule_format, of "Suc i"] i by simp
    then show "map_of m1 (?ld (Suc k + i)) = None" using m1_eq ne [OF i] by metis
  qed
  have r': "leaders_ok r (Suc k + length txs)" using Cons.prems(1) by simp
  note IH = Cons.IH [OF r' m1(2) pre]
  have keep: "map_of m' (?ld k) = map_of m1 (?ld k)" using IH ne by blast
  have "case map_of m' (?ld (k + i)) of None \<Rightarrow> (t # txs) ! i = []
      | Some w \<Rightarrow> (t # txs) ! i \<noteq> [] \<and> MsgType w = ''ReceiveTxs'' \<and>
                  dec_receive_txs K (Payload w) = Some ((t # txs) ! i)" if "i < length (t # txs)" for i
  proof (cases i)
    case 0
    then show ?thesis using m1_k keep by (simp split: option.splits)
  next
    case (Suc j)
    then have "j < length txs" using that by simp
    then show ?thesis using IH [THEN conjunct1, rule_format, of j] Suc by (simp split: option.splits)
  qed
  moreover have "map_of m' d = map_of m d" if d: "\<forall>i < length (t # txs). d \<noteq> ?ld (k + i)" for d
  proof -
    have "d \<noteq> ?ld k" using d [rule_format, of 0] by simp
    moreover have "\<forall>i < length txs. d \<noteq> ?ld (Suc k + i)"
    proof (intro allI impI)
      fix i assume "i < length txs"
      then show "d \<noteq> ?ld (Suc k + i)" using d [rule_format, of "Suc i"] by simp
    qed
    ultimately show ?thesis using IH m1_eq by metis
  qed
  ultimately show ?case by blast
qed simp

lemma SendWrappedTxs2Shards_total:
  assumes "leaders_ok r (length txs)" "\<And>m. enc K m \<noteq> None"
  shows "\<exists>s. SendWrappedTxs2Shards K txs r = Inr s"
proof -
  have "\<exists>s. foldR (wrap_txs_for K r) m (enumerate k ts) = Inr s" if "k + length ts \<le> length txs" for m k ts
    using that
  proof (induction ts arbitrary: k m)
    case (Cons t ts)
    have "\<exists>m1. wrap_txs_for K r m (k, t) = Inr m1"
    proof (cases "t = []")
      case False
      obtain l where "map_of (leaders r) (int k) = Some l"
        using leaders_okD(1) [OF assms(1), of k] Cons.prems by auto
      moreover obtain b where "enc K (MReceiveTxs t) = Some b" using assms(2) by blast
      ultimately show ?thesis by (auto simp: wrap_txs_for_def GetLeader_def WrapMsg_def)
    qed (simp add: wrap_txs_for_def)
    then show ?case using Cons by auto
  qed simp
  then show ?thesis by (simp add: SendWrappedTxs2Shards_def)
qed

end
