(* ===== verification/Act.thy ===== *)
theory Act
  imports Message
begin

text \<open>
  Methods with effects. A Go method that changes its receiver, may ask the connection to send
  messages and may return an error is a function from the state to a result, the new state and
  the messages sent, in order. The changes made before an error remain, as in Go.
\<close>

type_synonym ('s, 'a) act = "'s \<Rightarrow> 'a result \<times> 's \<times> sends"

definition retA :: "'a \<Rightarrow> ('s, 'a) act" where
  "retA x = (\<lambda>s. (Inr x, s, []))"

definition errA :: "string \<Rightarrow> ('s, 'a) act" where
  "errA msg = (\<lambda>s. (Inl (Errorf msg), s, []))"

definition panicA :: "string \<Rightarrow> ('s, 'a) act" where
  "panicA msg = (\<lambda>s. (Inl (Panic msg), s, []))"

definition bindA :: "('s, 'a) act \<Rightarrow> ('a \<Rightarrow> ('s, 'b) act) \<Rightarrow> ('s, 'b) act" where
  "bindA m k = (\<lambda>s. case m s of
       (Inl e, s', o1) \<Rightarrow> (Inl e, s', o1)
     | (Inr x, s', o1) \<Rightarrow> (case k x s' of (r, s'', o2) \<Rightarrow> (r, s'', o1 @ o2)))"

abbreviation thenA :: "('s, 'a) act \<Rightarrow> ('s, 'b) act \<Rightarrow> ('s, 'b) act" where
  "thenA m k \<equiv> bindA m (\<lambda>_. k)"

definition liftA :: "'a result \<Rightarrow> ('s, 'a) act" where
  "liftA r = (\<lambda>s. (r, s, []))"

definition getA :: "('s \<Rightarrow> 'a) \<Rightarrow> ('s, 'a) act" where
  "getA g = (\<lambda>s. (Inr (g s), s, []))"

definition modA :: "('s \<Rightarrow> 's) \<Rightarrow> ('s, unit) act" where
  "modA g = (\<lambda>s. (Inr (), g s, []))"

definition sendA :: "sends \<Rightarrow> ('s, unit) act" where
  "sendA ms = (\<lambda>s. (Inr (), s, ms))"

text \<open>A method of a component, called by the object that holds it.\<close>

definition zoomA :: "('s \<Rightarrow> 't) \<Rightarrow> ('t \<Rightarrow> 's \<Rightarrow> 's) \<Rightarrow> ('t, 'a) act \<Rightarrow> ('s, 'a) act" where
  "zoomA g p m = (\<lambda>s. case m (g s) of (r, t, ms) \<Rightarrow> (r, p t s, ms))"

text \<open>A call whose error is logged and dropped; a panic is not caught.\<close>

definition logA :: "('s, unit) act \<Rightarrow> ('s, unit) act" where
  "logA m = (\<lambda>s. case m s of (r, s', ms) \<Rightarrow> (if fatal r then r else Inr (), s', ms))"

fun forA :: "('x \<Rightarrow> ('s, unit) act) \<Rightarrow> 'x list \<Rightarrow> ('s, unit) act" where
  "forA body [] = retA ()"
| "forA body (x # xs) = bindA (body x) (\<lambda>_. forA body xs)"

text \<open>A loop that threads local variables.\<close>

fun foldA :: "('a \<Rightarrow> 'x \<Rightarrow> ('s, 'a) act) \<Rightarrow> 'a \<Rightarrow> 'x list \<Rightarrow> ('s, 'a) act" where
  "foldA body a [] = retA a"
| "foldA body a (x # xs) = bindA (body a x) (\<lambda>a'. foldA body a' xs)"

lemmas act_defs = retA_def errA_def panicA_def bindA_def liftA_def getA_def modA_def sendA_def
  zoomA_def logA_def

subsection \<open>Running an action\<close>

named_theorems act_simps \<open>the result of running an action\<close>

lemma run_simps [act_simps]:
  "retA x s = (Inr x, s, [])"
  "errA msg s = (Inl (Errorf msg), s, [])"
  "panicA msg s = (Inl (Panic msg), s, [])"
  "liftA r s = (r, s, [])"
  "getA g s = (Inr (g s), s, [])"
  "modA h s = (Inr (), h s, [])"
  "sendA ms s = (Inr (), s, ms)"
  by (simp_all add: act_defs)

lemma run_bindA: "bindA m k s = (case m s of
       (Inl e, s', o1) \<Rightarrow> (Inl e, s', o1)
     | (Inr x, s', o1) \<Rightarrow> (case k x s' of (r, s'', o2) \<Rightarrow> (r, s'', o1 @ o2)))"
  by (simp add: bindA_def)

lemma run_bindA_det [act_simps]:
  "bindA (retA x) k s = k x s"
  "bindA (errA msg) k s = (Inl (Errorf msg), s, [])"
  "bindA (panicA msg) k s = (Inl (Panic msg), s, [])"
  "bindA (getA g) k s = k (g s) s"
  "bindA (liftA (Inl e)) k s = (Inl e, s, [])"
  "bindA (liftA (Inr x)) k s = k x s"
  by (simp_all add: act_defs split: prod.splits)

lemma run_bindA_unit [act_simps]:
  "bindA (modA h) k s = k () (h s)"
  "bindA (sendA ms) k s = (case k () s of (r, s', o2) \<Rightarrow> (r, s', ms @ o2))"
  by (simp_all add: act_defs split: prod.splits)

lemma bindA_cases:
  assumes "bindA m k s = (r, s', ms)"
  obtains e where "m s = (Inl e, s', ms)" "r = Inl e"
  | x s1 o1 o2 where "m s = (Inr x, s1, o1)" "k x s1 = (r, s', o2)" "ms = o1 @ o2"
  using assms by (auto simp: bindA_def split: prod.splits sum.splits)

lemma bindA_InrE:
  assumes "bindA m k s = (Inr y, s', ms)"
  obtains x s1 o1 o2 where "m s = (Inr x, s1, o1)" "k x s1 = (Inr y, s', o2)" "ms = o1 @ o2"
  using assms by (rule bindA_cases) auto

lemma liftA_bind_InrE:
  assumes "bindA (liftA r) k s = (Inr y, s', ms)"
  obtains x where "r = Inr x" "k x s = (Inr y, s', ms)"
  using assms by (cases r) (simp_all add: act_simps)

subsection \<open>Postconditions and invariants\<close>

text \<open>
  \<open>postA P m Q\<close>: from a state satisfying \<open>P\<close>, the result, the new state and the messages
  satisfy \<open>Q\<close>, whatever the result is. \<open>keeps I m\<close>: the invariant survives.
\<close>

definition postA :: "('s \<Rightarrow> bool) \<Rightarrow> ('s, 'a) act \<Rightarrow> ('a result \<Rightarrow> 's \<Rightarrow> sends \<Rightarrow> bool) \<Rightarrow> bool" where
  "postA P m Q \<longleftrightarrow> (\<forall>s r s' ms. P s \<longrightarrow> m s = (r, s', ms) \<longrightarrow> Q r s' ms)"

definition keeps :: "('s \<Rightarrow> bool) \<Rightarrow> ('s, 'a) act \<Rightarrow> bool" where
  "keeps I m \<longleftrightarrow> (\<forall>s r s' ms. I s \<longrightarrow> m s = (r, s', ms) \<longrightarrow> I s')"

named_theorems keeps_intros \<open>actions that keep an invariant\<close>

lemma keepsI: "(\<And>s r s' ms. I s \<Longrightarrow> m s = (r, s', ms) \<Longrightarrow> I s') \<Longrightarrow> keeps I m"
  by (simp add: keeps_def)

lemma keepsD: "keeps I m \<Longrightarrow> m s = (r, s', ms) \<Longrightarrow> I s \<Longrightarrow> I s'"
  unfolding keeps_def by blast

lemma keeps_pure [keeps_intros]:
  "keeps I (retA x)" "keeps I (errA msg)" "keeps I (panicA msg)" "keeps I (liftA r)"
  "keeps I (getA g)" "keeps I (sendA ms)"
  by (simp_all add: keeps_def act_defs)

lemma keeps_modA: "(\<And>s. I s \<Longrightarrow> I (h s)) \<Longrightarrow> keeps I (modA h)"
  by (simp add: keeps_def act_defs)

lemma keeps_bindA [keeps_intros]:
  assumes "keeps I m" and "\<And>x. keeps I (k x)"
  shows "keeps I (bindA m k)"
proof (rule keepsI)
  fix s r s' ms assume I: "I s" and run: "bindA m k s = (r, s', ms)"
  from run show "I s'"
  proof (cases rule: bindA_cases)
    case 1
    then show ?thesis using keepsD [OF assms(1)] I by blast
  next
    case (2 x s1 o1 o2)
    then show ?thesis using keepsD [OF assms(1)] keepsD [OF assms(2)] I by blast
  qed
qed

lemma keeps_forA [keeps_intros]: "(\<And>x. keeps I (body x)) \<Longrightarrow> keeps I (forA body xs)"
  by (induction xs) (simp_all add: keeps_intros)

lemma keeps_foldA [keeps_intros]: "(\<And>a x. keeps I (body a x)) \<Longrightarrow> keeps I (foldA body a xs)"
  by (induction xs arbitrary: a) (simp_all add: keeps_intros)

lemma keeps_logA [keeps_intros]: "keeps I m \<Longrightarrow> keeps I (logA m)"
  by (auto simp: keeps_def logA_def split: prod.splits)

lemma keeps_if [keeps_intros]:
  "keeps I m \<Longrightarrow> keeps I m' \<Longrightarrow> keeps I (if c then m else m')"
  by simp

lemma keeps_zoomA:
  assumes "\<And>s r t ms. I s \<Longrightarrow> m (g s) = (r, t, ms) \<Longrightarrow> I (p t s)"
  shows "keeps I (zoomA g p m)"
  using assms by (auto simp: keeps_def zoomA_def split: prod.splits)

end
