(* ===== verification/Migration.thy ===== *)
theory Migration
  imports Act
begin

text \<open>
  The account-migration metadata of a node (\<open>consensus/pbft/migration/migration.go\<close>): the epoch, the
  accounts that move in it, and the states received from the other shards, with a buffer for
  the messages of epochs that have not started here yet. The maps of the messages hold pointers
  to states; a decoded message owns its states, so a write through such a pointer is a write to
  the entry of the map that holds it.
\<close>

section \<open>State\<close>

record AccMigrateMetadata =
  am_Epoch :: int
  CurModifiedMap :: "(address, int) gomap"
  MigratedAccountStates :: "(int, (address, state) gomap) gomap"
  MigrationReady :: bool
  unhandledStateMsg :: "(int, AccountMigrationMsg list) gomap"
  am_ShardNum :: int
  am_ShardID :: int

definition NewAccMigrateMetadata :: "int \<Rightarrow> int \<Rightarrow> AccMigrateMetadata" where
  "NewAccMigrateMetadata nShards shard =
     \<lparr>am_Epoch = 0, CurModifiedMap = [], MigratedAccountStates = [], MigrationReady = False,
      unhandledStateMsg = [], am_ShardNum = nShards, am_ShardID = shard\<rparr>"

section \<open>Operations\<close>

definition MigrationStatusReset :: "AccMigrateMetadata \<Rightarrow> AccMigrateMetadata" where
  "MigrationStatusReset am = am\<lparr>MigratedAccountStates := [], CurModifiedMap := [], MigrationReady := False,
     unhandledStateMsg := AList.update (am_Epoch am) [] (unhandledStateMsg am)\<rparr>"

definition CollectStatesByMsg ::
    "AccountMigrationMsg \<Rightarrow> AccMigrateMetadata \<Rightarrow> unit result \<times> AccMigrateMetadata" where
  "CollectStatesByMsg atMsg am =
     (if at_DestShard atMsg \<noteq> am_ShardID am then (Inl (Errorf ''wrong dest shard ID''), am)
      else if am_ShardNum am \<le> at_SrcShard atMsg \<or> at_SrcShard atMsg < 0
      then (Inl (Errorf ''invalid src shard ID''), am)
      else if at_Epoch atMsg < am_Epoch am
      then (Inl (Errorf ''out-of-date epoch ID in AccountMigrationMsg''), am)
      else if am_Epoch am < at_Epoch atMsg
      then (Inr (), am\<lparr>unhandledStateMsg := AList.update (at_Epoch atMsg)
              (get_or [] (unhandledStateMsg am) (at_Epoch atMsg) @ [atMsg]) (unhandledStateMsg am)\<rparr>)
      else (Inr (), am\<lparr>MigratedAccountStates :=
              AList.update (at_SrcShard atMsg) (at_AccountStates atMsg) (MigratedAccountStates am)\<rparr>))"

text \<open>The errors of the buffered messages are logged and dropped.\<close>

definition UpdateByRepartitionStartMsg ::
    "CLPARepartitionStartMsg \<Rightarrow> AccMigrateMetadata \<Rightarrow> unit result \<times> AccMigrateMetadata" where
  "UpdateByRepartitionStartMsg cr am =
     (if cr_Epoch cr \<noteq> i64 (am_Epoch am + 1)
      then (Inl (Errorf ''wrong epoch ID in CLPARepartitionStartMsg''), am)
      else
        let am1 = am\<lparr>am_Epoch := cr_Epoch cr, CurModifiedMap := cr_ModifiedMap cr, MigrationReady := True\<rparr>;
            am2 = fold (\<lambda>m am. snd (CollectStatesByMsg m am)) (get_or [] (unhandledStateMsg am1) (am_Epoch am1)) am1
        in (Inr (), am2\<lparr>unhandledStateMsg := AList.update (am_Epoch am2) [] (unhandledStateMsg am2)\<rparr>))"

text \<open>
  \<open>accountMigratedIn\<close> maps an account to the last map that holds it, in the order of the outer
  map; the entry is the source shard and the state.
\<close>

definition merge_states ::
    "(int, (address, state) gomap) gomap \<Rightarrow> (address, int \<times> state) gomap" where
  "merge_states ms =
     fold (\<lambda>(src, m) acc. fold (\<lambda>(k, v) acc. AList.update k (src, v) acc) m acc) ms []"

text \<open>
  One entry of \<open>CurModifiedMap\<close>: the state to pack, and the maps after the write
  \<open>state.ShardLocation = uint64(destShardID)\<close> through the pointer.
\<close>

definition migrated_entry ::
    "(address, int \<times> state) gomap \<Rightarrow> (address \<times> int) \<Rightarrow>
     state list \<times> (int, (address, state) gomap) gomap \<Rightarrow>
     state list \<times> (int, (address, state) gomap) gomap" where
  "migrated_entry accountMigratedIn it acc =
     (case (it, acc) of ((a, dest), (states, ms)) \<Rightarrow>
        (case map_of accountMigratedIn a of
           None \<Rightarrow> (states @ [NewState a (u64 dest)], ms)
         | Some (src, st) \<Rightarrow>
             let st' = st\<lparr>ShardLocation := u64 dest\<rparr>
             in (states @ [st'], AList.update src (AList.update a st' (get_or [] ms src)) ms)))"

definition GetMigratedAddrStates ::
    "AccMigrateMetadata \<Rightarrow> (address list \<times> state list) result \<times> AccMigrateMetadata" where
  "GetMigratedAddrStates am =
     (if int (length (MigratedAccountStates am)) \<noteq> am_ShardNum am
      then (Inl (Errorf ''not all MigratedAccountStates is collected''), am)
      else
        case fold (migrated_entry (merge_states (MigratedAccountStates am))) (CurModifiedMap am)
               ([], MigratedAccountStates am) of
          (states, ms) \<Rightarrow>
            (Inr (keys_of (CurModifiedMap am), states), am\<lparr>MigratedAccountStates := ms\<rparr>))"

section \<open>The invariant\<close>

text \<open>
  The keys are distinct, every collected map is of a shard of the system, the buffered messages
  are addressed to this shard and stand under their own epoch, and nothing buffered is of the
  current epoch or an older one.
\<close>

definition amm_ok :: "AccMigrateMetadata \<Rightarrow> bool" where
  "amm_ok am \<longleftrightarrow>
     in_i64 (am_Epoch am) \<and> gomap (MigratedAccountStates am) \<and> gomap (unhandledStateMsg am) \<and>
     (\<forall>s \<in> set (keys_of (MigratedAccountStates am)). 0 \<le> s \<and> s < am_ShardNum am) \<and>
     (\<forall>e ms m. map_of (unhandledStateMsg am) e = Some ms \<longrightarrow> m \<in> set ms \<longrightarrow>
        at_Epoch m = e \<and> am_Epoch am < e \<and> at_DestShard m = am_ShardID am \<and>
        0 \<le> at_SrcShard m \<and> at_SrcShard m < am_ShardNum am)"

lemma amm_okD:
  assumes "amm_ok am"
  shows "in_i64 (am_Epoch am)" "gomap (MigratedAccountStates am)" "gomap (unhandledStateMsg am)"
    and "map_of (MigratedAccountStates am) s = Some m \<Longrightarrow> 0 \<le> s \<and> s < am_ShardNum am"
    and "map_of (unhandledStateMsg am) e = Some ms \<Longrightarrow> x \<in> set ms \<Longrightarrow>
        at_Epoch x = e \<and> am_Epoch am < e \<and> at_DestShard x = am_ShardID am \<and>
        0 \<le> at_SrcShard x \<and> at_SrcShard x < am_ShardNum am"
  using assms by (auto simp: amm_ok_def keys_of_iff)

lemma amm_ok_new: "amm_ok (NewAccMigrateMetadata n s)"
  by (simp add: amm_ok_def NewAccMigrateMetadata_def keys_of_def in_i64_def)

lemma amm_ok_reset: "amm_ok am \<Longrightarrow> amm_ok (MigrationStatusReset am)"
  by (auto simp: amm_ok_def MigrationStatusReset_def keys_of_def split: if_splits)

lemma get_or_cases: "x \<in> set (get_or [] m k) \<Longrightarrow> \<exists>ys. map_of m k = Some ys \<and> x \<in> set ys"
  by (cases "map_of m k") (simp_all add: get_or_def)

lemma amm_ok_collect:
  assumes ok: "amm_ok am" and run: "CollectStatesByMsg m am = (r, am')"
  shows "amm_ok am'"
proof -
  have newer: "amm_ok (am\<lparr>unhandledStateMsg := AList.update (at_Epoch m)
        (get_or [] (unhandledStateMsg am) (at_Epoch m) @ [m]) (unhandledStateMsg am)\<rparr>)"
    if "am_Epoch am < at_Epoch m" "at_DestShard m = am_ShardID am" "0 \<le> at_SrcShard m" "at_SrcShard m < am_ShardNum am"
    using ok that by (auto simp: amm_ok_def split: if_splits dest!: get_or_cases)
  have same: "amm_ok (am\<lparr>MigratedAccountStates :=
        AList.update (at_SrcShard m) (at_AccountStates m) (MigratedAccountStates am)\<rparr>)"
    if "0 \<le> at_SrcShard m" "at_SrcShard m < am_ShardNum am"
    using ok that by (auto simp: amm_ok_def keys_of_iff split: if_splits)
  show ?thesis using run ok newer same by (auto simp: CollectStatesByMsg_def split: if_splits)
qed

text \<open>What collecting leaves alone.\<close>

lemma collect_frame:
  assumes "CollectStatesByMsg m am = (r, am')"
  shows "am_Epoch am' = am_Epoch am" "CurModifiedMap am' = CurModifiedMap am"
    "MigrationReady am' = MigrationReady am" "am_ShardNum am' = am_ShardNum am"
    "am_ShardID am' = am_ShardID am"
  using assms by (auto simp: CollectStatesByMsg_def split: if_splits)

text \<open>
  Handling the messages that were buffered for the epoch that starts: all are collected, in
  order.
\<close>

lemma collect_all:
  assumes "\<forall>m \<in> set ms. at_Epoch m = am_Epoch am \<and> at_DestShard m = am_ShardID am \<and>
      0 \<le> at_SrcShard m \<and> at_SrcShard m < am_ShardNum am"
  shows "fold (\<lambda>m am. snd (CollectStatesByMsg m am)) ms am =
    am\<lparr>MigratedAccountStates := fold (\<lambda>m. AList.update (at_SrcShard m) (at_AccountStates m)) ms (MigratedAccountStates am)\<rparr>"
  using assms by (induction ms arbitrary: am) (simp_all add: CollectStatesByMsg_def)

lemma gomap_fold_update: "gomap m \<Longrightarrow> gomap (fold (\<lambda>x. AList.update (f x) (g x)) xs m)"
  by (induction xs arbitrary: m) simp_all

lemma map_of_fold_update:
  "map_of (fold (\<lambda>x. AList.update (f x) (g x)) xs m) k =
     fold (\<lambda>x m'. m'(f x \<mapsto> g x)) xs (map_of m) k"
  by (induction xs arbitrary: m) (simp_all add: update_conv' fun_upd_def)

lemma fold_upd_cases:
  "fold (\<lambda>x m'. m'(f x \<mapsto> g x)) xs m k = Some y \<Longrightarrow> m k = Some y \<or> (\<exists>x \<in> set xs. f x = k \<and> g x = y)"
  by (induction xs arbitrary: m) (fastforce split: if_splits)+

text \<open>The metadata after a valid start message, before the buffer is cleared.\<close>

definition started :: "CLPARepartitionStartMsg \<Rightarrow> AccMigrateMetadata \<Rightarrow> AccMigrateMetadata" where
  "started cr am = am\<lparr>am_Epoch := cr_Epoch cr, CurModifiedMap := cr_ModifiedMap cr, MigrationReady := True,
     MigratedAccountStates := fold (\<lambda>m. AList.update (at_SrcShard m) (at_AccountStates m))
       (get_or [] (unhandledStateMsg am) (cr_Epoch cr)) (MigratedAccountStates am),
     unhandledStateMsg := AList.update (cr_Epoch cr) [] (unhandledStateMsg am)\<rparr>"

lemma start_eq:
  assumes ok: "amm_ok am" and cr: "cr_Epoch cr = i64 (am_Epoch am + 1)"
  shows "UpdateByRepartitionStartMsg cr am = (Inr (), started cr am)"
proof -
  let ?am = "am\<lparr>am_Epoch := cr_Epoch cr, CurModifiedMap := cr_ModifiedMap cr, MigrationReady := True\<rparr>"
  let ?ms = "get_or [] (unhandledStateMsg am) (cr_Epoch cr)"
  have "\<forall>m \<in> set ?ms. at_Epoch m = am_Epoch ?am \<and> at_DestShard m = am_ShardID ?am \<and>
      0 \<le> at_SrcShard m \<and> at_SrcShard m < am_ShardNum ?am"
    using amm_okD(5) [OF ok] get_or_cases by fastforce
  from collect_all [OF this] show ?thesis
    using cr by (simp add: UpdateByRepartitionStartMsg_def Let_def started_def)
qed

lemma i64_Suc_le: "in_i64 a \<Longrightarrow> i64 (a + 1) \<le> a + 1"
  using in_i64_i64 [of "a + 1"] i64_id [of "a + 1"]
  by (cases "in_i64 (a + 1)") (auto simp: in_i64_def)

lemma amm_ok_start:
  assumes ok: "amm_ok am" and run: "UpdateByRepartitionStartMsg cr am = (r, am')"
  shows "amm_ok am'"
proof (cases "cr_Epoch cr = i64 (am_Epoch am + 1)")
  case False
  then show ?thesis using run ok by (simp add: UpdateByRepartitionStartMsg_def)
next
  case True
  let ?ms = "get_or [] (unhandledStateMsg am) (cr_Epoch cr)"
  let ?M = "fold (\<lambda>m. AList.update (at_SrcShard m) (at_AccountStates m)) ?ms (MigratedAccountStates am)"
  have src: "0 \<le> s \<and> s < am_ShardNum am" if s: "s \<in> set (keys_of ?M)" for s
  proof -
    obtain y where y: "map_of ?M s = Some y" using s by (auto simp: keys_of_iff)
    have "map_of (MigratedAccountStates am) s = Some y \<or> (\<exists>x \<in> set ?ms. at_SrcShard x = s \<and> at_AccountStates x = y)"
      using fold_upd_cases [OF y [unfolded map_of_fold_update]] .
    then show ?thesis using amm_okD(4,5) [OF ok] get_or_cases by metis
  qed
  have later: "cr_Epoch cr < e" if "am_Epoch am < e" "e \<noteq> cr_Epoch cr" for e
    using i64_Suc_le [OF amm_okD(1) [OF ok]] True that by linarith
  have e: "in_i64 (cr_Epoch cr)" using True by simp
  show ?thesis
    using run amm_okD(2,3,5) [OF ok] src later e
    unfolding start_eq [OF ok True]
    by (auto simp: amm_ok_def started_def gomap_fold_update split: if_splits)
qed

section \<open>What is packed\<close>

lemma migrated_entry_None:
  "map_of M a = None \<Longrightarrow> migrated_entry M (a, dest) (states, ms) = (states @ [NewState a (u64 dest)], ms)"
  by (simp add: migrated_entry_def)

lemma migrated_entry_Some:
  "map_of M a = Some (src, st) \<Longrightarrow> migrated_entry M (a, dest) (states, ms) =
     (states @ [st\<lparr>ShardLocation := u64 dest\<rparr>],
      AList.update src (AList.update a (st\<lparr>ShardLocation := u64 dest\<rparr>) (get_or [] ms src)) ms)"
  by (simp add: migrated_entry_def Let_def)

lemma migrated_entry_loop:
  "fold (migrated_entry M) cur (states, ms) = (states', ms') \<Longrightarrow>
     states' = states @ map (\<lambda>(a, dest). case map_of M a of
        None \<Rightarrow> NewState a (u64 dest) | Some (src, st) \<Rightarrow> st\<lparr>ShardLocation := u64 dest\<rparr>) cur"
proof (induction cur arbitrary: states ms)
  case (Cons it cur)
  obtain a dest where it: "it = (a, dest)" by (cases it)
  show ?case
  proof (cases "map_of M a")
    case None
    have run: "fold (migrated_entry M) cur (states @ [NewState a (u64 dest)], ms) = (states', ms')"
      using Cons.prems by (simp add: it migrated_entry_None [OF None])
    show ?thesis using Cons.IH [OF run] by (simp add: it None)
  next
    case (Some p)
    obtain src st where p: "map_of M a = Some (src, st)" using Some by (cases p) simp
    let ?st = "st\<lparr>ShardLocation := u64 dest\<rparr>"
    have run: "fold (migrated_entry M) cur
        (states @ [?st], AList.update src (AList.update a ?st (get_or [] ms src)) ms) = (states', ms')"
      using Cons.prems by (simp add: it migrated_entry_Some [OF p])
    show ?thesis using Cons.IH [OF run] by (simp add: it p)
  qed
qed simp

lemma migrated_entry_keys:
  "fold (migrated_entry M) cur (states, ms) = (states', ms') \<Longrightarrow> gomap ms \<Longrightarrow>
     (\<And>a src st. map_of M a = Some (src, st) \<Longrightarrow> map_of ms src \<noteq> None) \<Longrightarrow>
     gomap ms' \<and> keys_of ms' = keys_of ms"
proof (induction cur arbitrary: states ms)
  case (Cons it cur)
  obtain a dest where it: "it = (a, dest)" by (cases it)
  show ?case
  proof (cases "map_of M a")
    case None
    then show ?thesis using Cons by (simp add: it migrated_entry_None)
  next
    case (Some p)
    obtain src st where p: "map_of M a = Some (src, st)" using Some by (cases p) simp
    let ?st = "st\<lparr>ShardLocation := u64 dest\<rparr>"
    let ?ms = "AList.update src (AList.update a ?st (get_or [] ms src)) ms"
    have run: "fold (migrated_entry M) cur (states @ [?st], ?ms) = (states', ms')"
      using Cons.prems(1) by (simp add: it migrated_entry_Some [OF p])
    have "keys_of ?ms = keys_of ms"
      using Cons.prems(3) [OF p] by (simp add: keys_of_def update_keys map_of_eq_None_iff)
    moreover have "gomap ?ms" using Cons.prems(2) by simp
    moreover have "map_of ?ms src' \<noteq> None" if "map_of M a' = Some (src', st')" for a' src' st'
      using Cons.prems(3) [OF that] by auto
    ultimately show ?thesis using Cons.IH [OF run] by simp
  qed
qed simp

lemma merge_inner:
  "map_of (fold (\<lambda>(k, v) acc. AList.update k (src, v) acc) m acc) a = Some (src', st) \<Longrightarrow>
     src' = src \<and> (a, st) \<in> set m \<or> map_of acc a = Some (src', st)"
  by (induction m arbitrary: acc) (fastforce split: if_splits prod.splits)+

lemma merge_outer:
  "map_of (fold (\<lambda>(src, m) acc. fold (\<lambda>(k, v) acc. AList.update k (src, v) acc) m acc) ms acc) a = Some (src', st) \<Longrightarrow>
     (\<exists>m. (src', m) \<in> set ms \<and> (a, st) \<in> set m) \<or> map_of acc a = Some (src', st)"
proof (induction ms arbitrary: acc)
  case (Cons e ms)
  obtain src m where e: "e = (src, m)" by (cases e)
  show ?case using Cons.IH [of "fold (\<lambda>(k, v) acc. AList.update k (src, v) acc) m acc"] Cons.prems
      merge_inner [of src m acc a src' st] by (auto simp: e)
qed simp

lemma merge_states_from:
  "map_of (merge_states ms) a = Some (src, st) \<Longrightarrow> \<exists>m. (src, m) \<in> set ms \<and> (a, st) \<in> set m"
  using merge_outer [of ms "[]" a src st] by (simp add: merge_states_def)

lemma amm_ok_get:
  assumes ok: "amm_ok am" and run: "GetMigratedAddrStates am = (r, am')"
  shows "amm_ok am'"
proof -
  let ?M = "merge_states (MigratedAccountStates am)"
  obtain states ms where f: "fold (migrated_entry ?M) (CurModifiedMap am) ([], MigratedAccountStates am) = (states, ms)"
    by (cases "fold (migrated_entry ?M) (CurModifiedMap am) ([], MigratedAccountStates am)")
  have from_ms: "map_of (MigratedAccountStates am) src \<noteq> None" if "map_of ?M a = Some (src, st)" for a src st
    using merge_states_from [OF that] by (auto dest: weak_map_of_SomeI)
  have "gomap ms \<and> keys_of ms = keys_of (MigratedAccountStates am)"
    using migrated_entry_keys [OF f amm_okD(2) [OF ok] from_ms] .
  then show ?thesis using run ok f by (auto simp: GetMigratedAddrStates_def amm_ok_def split: if_splits)
qed

section \<open>Properties\<close>

text \<open>C18: every operation on the migration metadata keeps its invariant: the collected states are
  of shards of the system, and what is buffered is addressed to this shard, stands under its own
  epoch and is of an epoch still to come.\<close>

theorem migration_invariant:
  "amm_ok (NewAccMigrateMetadata n shard) \<and>
   (amm_ok am \<longrightarrow>
     amm_ok (MigrationStatusReset am) \<and>
     amm_ok (snd (CollectStatesByMsg m am)) \<and>
     amm_ok (snd (UpdateByRepartitionStartMsg cr am)) \<and>
     amm_ok (snd (GetMigratedAddrStates am)))"
  using amm_ok_new amm_ok_reset amm_ok_collect amm_ok_start amm_ok_get
  by (metis prod.exhaust_sel)

text \<open>C17: the network may deliver an account-migration message before or after the repartition start
  of its epoch: both orders leave the same epoch, modified map, readiness and collected states,
  and buffer the same messages for later epochs.\<close>

theorem migration_order_irrelevant:
  assumes ok: "amm_ok am" and epoch: "cr_Epoch cr = i64 (am_Epoch am + 1)" "am_Epoch am < cr_Epoch cr"
    and m: "at_Epoch m = cr_Epoch cr"
  shows "let early = snd (UpdateByRepartitionStartMsg cr (snd (CollectStatesByMsg m am)));
             late = snd (CollectStatesByMsg m (snd (UpdateByRepartitionStartMsg cr am)))
         in am_Epoch early = am_Epoch late \<and> CurModifiedMap early = CurModifiedMap late \<and>
            MigrationReady early = MigrationReady late \<and>
            MigratedAccountStates early = MigratedAccountStates late \<and>
            get_or [] (unhandledStateMsg early) = get_or [] (unhandledStateMsg late)"
proof -
  let ?am1 = "snd (CollectStatesByMsg m am)"
  have am1: "am_Epoch ?am1 = am_Epoch am" "amm_ok ?am1"
    using amm_ok_collect [OF ok] collect_frame(1) by (metis prod.exhaust_sel)+
  have early: "snd (UpdateByRepartitionStartMsg cr ?am1) = started cr ?am1"
    using start_eq [OF am1(2)] am1(1) epoch(1) by simp
  have late: "snd (UpdateByRepartitionStartMsg cr am) = started cr am"
    using start_eq [OF ok epoch(1)] by simp
  show ?thesis
    unfolding early late using m epoch(2)
    by (auto simp: CollectStatesByMsg_def started_def Let_def fun_eq_iff)
qed


text \<open>C20: a message of an epoch that ends here is still accepted after the reset that ends it, and the
  start of the next epoch keeps it: the source shard counts as collected in the new epoch, with
  states of the old one.\<close>

theorem late_migration_message_survives:
  assumes ok: "amm_ok am" and m: "at_DestShard m = am_ShardID am" "at_Epoch m = am_Epoch am"
      "0 \<le> at_SrcShard m" "at_SrcShard m < am_ShardNum am"
    and cr: "cr_Epoch cr = i64 (am_Epoch am + 1)"
    and none: "get_or [] (unhandledStateMsg am) (cr_Epoch cr) = []" and "cr_Epoch cr \<noteq> am_Epoch am"
  shows "map_of (MigratedAccountStates
      (snd (UpdateByRepartitionStartMsg cr (snd (CollectStatesByMsg m (MigrationStatusReset am)))))) (at_SrcShard m) =
    Some (at_AccountStates m)"
proof -
  let ?am = "snd (CollectStatesByMsg m (MigrationStatusReset am))"
  have am: "?am = (MigrationStatusReset am)\<lparr>MigratedAccountStates := [(at_SrcShard m, at_AccountStates m)]\<rparr>"
    using m by (simp add: CollectStatesByMsg_def MigrationStatusReset_def)
  have ok': "amm_ok ?am" using amm_ok_collect [OF amm_ok_reset [OF ok]] by (metis prod.exhaust_sel)
  have "cr_Epoch cr = i64 (am_Epoch ?am + 1)" using cr unfolding am by (simp add: MigrationStatusReset_def)
  from start_eq [OF ok' this] show ?thesis
    using none assms(8) unfolding am by (simp add: started_def MigrationStatusReset_def get_or_def)
qed

section \<open>Witnesses\<close>

definition example_amm :: AccMigrateMetadata where
  "example_amm = (NewAccMigrateMetadata 2 0)\<lparr>CurModifiedMap := [(1, 0), (2, 1)],
     MigratedAccountStates := [(0, [(2, NewState 2 0)]), (1, [(1, NewState 1 1)])], MigrationReady := True\<rparr>"

definition example_move :: "int \<Rightarrow> AccountMigrationMsg" where
  "example_move epoch = \<lparr>at_SrcShard = 1, at_DestShard = 0, at_Epoch = epoch, at_AccountStates = [(1, NewState 1 1)]\<rparr>"

definition example_start :: CLPARepartitionStartMsg where
  "example_start = \<lparr>cr_Epoch = 1, cr_ModifiedMap = [(1, 0)]\<rparr>"

lemma example_amm_ok: "amm_ok example_amm" "am_Epoch example_amm = 0" "am_ShardID example_amm = 0"
  "am_ShardNum example_amm = 2" "unhandledStateMsg example_amm = []"
  by (simp_all add: example_amm_def amm_ok_def NewAccMigrateMetadata_def in_i64_def keys_of_def gomap_def)

theorem migration_invariant_witness:
  "amm_ok (MigrationStatusReset example_amm) \<and> amm_ok (snd (CollectStatesByMsg (example_move 3) example_amm))"
  using migration_invariant [of 0 0 example_amm "example_move 3" example_start] example_amm_ok(1) by blast

theorem migration_order_irrelevant_witness:
  "MigratedAccountStates (snd (UpdateByRepartitionStartMsg example_start (snd (CollectStatesByMsg (example_move 1) example_amm)))) =
   MigratedAccountStates (snd (CollectStatesByMsg (example_move 1) (snd (UpdateByRepartitionStartMsg example_start example_amm))))"
  using migration_order_irrelevant [of example_amm example_start "example_move 1"] example_amm_ok(1,2)
  by (simp add: example_start_def example_move_def i64_def Let_def)


theorem late_migration_message_survives_witness:
  "map_of (MigratedAccountStates (snd (UpdateByRepartitionStartMsg example_start
      (snd (CollectStatesByMsg (example_move 0) (MigrationStatusReset example_amm)))))) 1 =
    Some [(1, NewState 1 1)]"
  using late_migration_message_survives [of example_amm "example_move 0" example_start] example_amm_ok
  by (simp add: example_start_def example_move_def i64_def get_or_def)

end
