(* ===== verification/TxBlockOp.thy ===== *)
theory TxBlockOp
  imports Chain TxPool Migration
begin

text \<open>
  The operations of a shard on transaction blocks and migration blocks:
  \<open>consensus/pbft/insideop/txblockop\<close> (relay and broker mode) and \<open>migrationblockop\<close>. They act on
  the chain, the transaction pool and the migration metadata of the node, the record
  \<open>shard_world\<close>; messages that a goroutine sends are sent at once.
\<close>

section \<open>State and environment\<close>

record ('db, 'tdb) shard_world =
  w_chain :: "('db, 'tdb) chain"
  w_pool :: TxPool
  w_amm :: AccMigrateMetadata

record ('db, 'd, 'tdb, 't, 'ns) shard_env =
  s_chain :: "('db, 'd, 'tdb, 't, 'ns) chain_env"
  s_codec :: codec
  s_resolver :: TopoGetter
  s_ConsensusType :: string
  s_ShardNum :: int
  s_NodeNum :: int
  s_BlockSizeLimit :: int
  s_ShardID :: int
  s_WalletAddr :: address

definition readA :: "('s \<Rightarrow> 'a result) \<Rightarrow> ('s, 'a) act" where
  "readA g = (\<lambda>s. (g s, s, []))"

definition stateA :: "('s \<Rightarrow> 'a result \<times> 's) \<Rightarrow> ('s, 'a) act" where
  "stateA g = (\<lambda>s. case g s of (r, s') \<Rightarrow> (r, s', []))"

abbreviation "chainA g \<equiv> zoomA w_chain (\<lambda>c w. w\<lparr>w_chain := c\<rparr>) (stateA g)"
abbreviation "poolA g \<equiv> zoomA w_pool (\<lambda>t w. w\<lparr>w_pool := t\<rparr>) (stateA g)"
abbreviation "ammA g \<equiv> zoomA w_amm (\<lambda>a w. w\<lparr>w_amm := a\<rparr>) (stateA g)"

lemma run_readA [act_simps]: "readA g s = (g s, s, [])"
  by (simp add: readA_def)

lemma run_bind_readA [act_simps]:
  "g s = Inr x \<Longrightarrow> bindA (readA g) k s = k x s"
  "g s = Inl e \<Longrightarrow> bindA (readA g) k s = (Inl e, s, [])"
  by (simp_all add: readA_def bindA_def split: prod.splits)

lemma readA_InrE:
  assumes "bindA (readA g) k s = (Inr y, s', ms)"
  obtains x where "g s = Inr x" "k x s = (Inr y, s', ms)"
  using assms by (cases "g s") (simp_all add: act_simps)

text \<open>An operation as the transaction-block interface has it.\<close>

record 'w tx_block_op =
  BuildTxBlockProposal :: "time \<Rightarrow> transaction list \<Rightarrow> ('w, block) act"
  BlockCommitAndDeliver :: "time \<Rightarrow> bool \<Rightarrow> block \<Rightarrow> ('w, unit) act"

section \<open>Relay mode\<close>

definition relay_opt_step ::
    "('db, 'd, 'tdb, 't, 'ns) shard_env \<Rightarrow> (address, int) gomap \<Rightarrow> int \<Rightarrow> transaction list \<Rightarrow> transaction \<Rightarrow>
     transaction list result" where
  "relay_opt_step E accountLocations shard modifiedTxs tx =
     (if RelayStage tx \<noteq> UndeterminedRelayTx then Inr (modifiedTxs @ [tx])
      else
        let senderID = get_or 0 accountLocations (Sender tx);
            recipientID = get_or 0 accountLocations (Recipient tx)
        in if senderID < 0 \<or> recipientID < 0
           then Inl (Errorf ''tx sender or recipient does not exist in the accountLocation map'')
           else if senderID \<noteq> shard then Inr modifiedTxs
           else if senderID = recipientID then Inr (modifiedTxs @ [tx])
           else bindR (tx_Hash (c_lib (s_chain E)) tx) (\<lambda>thash.
                Inr (modifiedTxs @ [tx\<lparr>RelayStage := Relay1Tx, ROriginalHash := thash\<rparr>])))"

definition modifyTxRelayOpt ::
    "('db, 'd, 'tdb, 't, 'ns) shard_env \<Rightarrow> transaction list \<Rightarrow> ('db, 'tdb) chain \<Rightarrow> transaction list result" where
  "modifyTxRelayOpt E txs c =
     bindR (getAccountLocationsInTxs (s_chain E) c txs) (\<lambda>accountLocations.
     foldR (relay_opt_step E accountLocations (shardID c)) [] txs)"

definition generateA ::
    "('db, 'd, 'tdb, 't, 'ns) shard_env \<Rightarrow> time \<Rightarrow> int \<Rightarrow> transaction list \<Rightarrow> address list \<Rightarrow> state list \<Rightarrow>
     (('db, 'tdb) shard_world, block) act" where
  "generateA E now blockType txs addrs states =
     readA (\<lambda>w. GenerateBlock (s_chain E) (w_chain w) now (s_WalletAddr E) blockType txs addrs states)"

definition relay_BuildTxBlockProposal ::
    "('db, 'd, 'tdb, 't, 'ns) shard_env \<Rightarrow> time \<Rightarrow> transaction list \<Rightarrow> (('db, 'tdb) shard_world, block) act" where
  "relay_BuildTxBlockProposal E now txs =
     bindA (readA (\<lambda>w. modifyTxRelayOpt E txs (w_chain w))) (\<lambda>mTxs.
     generateA E now TxBlockType mTxs [] [])"

definition relay_split_step ::
    "transaction \<Rightarrow> transaction list \<times> transaction list \<times> transaction list \<Rightarrow>
     transaction list \<times> transaction list \<times> transaction list" where
  "relay_split_step tx acc =
     (case acc of (innerTxs, r1txs, r2txs) \<Rightarrow>
        if RelayStage tx = UndeterminedRelayTx then (innerTxs @ [tx], r1txs, r2txs)
        else if RelayStage tx = Relay1Tx then (innerTxs, r1txs @ [tx], r2txs)
        else if RelayStage tx = Relay2Tx then (innerTxs, r1txs, r2txs @ [tx])
        else acc)"

definition relay_splitTxs ::
    "transaction list \<Rightarrow> transaction list \<times> transaction list \<times> transaction list" where
  "relay_splitTxs txs = fold relay_split_step txs ([], [], [])"

definition send_to_supervisor ::
    "('db, 'd, 'tdb, 't, 'ns) shard_env \<Rightarrow> message \<Rightarrow> (('db, 'tdb) shard_world, unit) act" where
  "send_to_supervisor E msg =
     bindA (liftA (WrapMsg (s_codec E) msg)) (\<lambda>w.
     bindA (liftA (GetSupervisor (s_resolver E))) (\<lambda>spv.
     sendA [(spv, w)]))"

definition relay_deliverBlockInfo2Supervisor ::
    "('db, 'd, 'tdb, 't, 'ns) shard_env \<Rightarrow> time \<Rightarrow> transaction list \<Rightarrow> transaction list \<Rightarrow> transaction list \<Rightarrow>
     block \<Rightarrow> (('db, 'tdb) shard_world, unit) act" where
  "relay_deliverBlockInfo2Supervisor E now innerTxs r1Txs r2Txs b =
     bindA (getA w_chain) (\<lambda>c.
     send_to_supervisor E (MRelayBlockInfo
       \<lparr>rb_InnerShardTxs = innerTxs, rb_Relay1Txs = r1Txs, rb_Relay2Txs = r2Txs, rb_Epoch = epochID c,
        rb_BlockProposeTime = h_CreateTime b, rb_BlockCommitTime = now, rb_ShardID = shardID c\<rparr>))"

text \<open>The bucket of a relay-1 transaction is the shard of its recipient.\<close>

definition relay_bucket ::
    "(address, int) gomap \<Rightarrow> transaction list list \<Rightarrow> transaction \<Rightarrow> transaction list list result" where
  "relay_bucket accountLocations relayedTxs tx =
     (case map_of accountLocations (Recipient tx) of
        None \<Rightarrow> Inr relayedTxs
      | Some shard \<Rightarrow> bucket_add relayedTxs shard (tx\<lparr>RelayStage := Relay2Tx\<rparr>))"

definition send_buckets ::
    "('db, 'd, 'tdb, 't, 'ns) shard_env \<Rightarrow> transaction list list \<Rightarrow> (('db, 'tdb) shard_world, unit) act" where
  "send_buckets E txs = bindA (liftA (SendWrappedTxs2Shards (s_codec E) txs (s_resolver E))) sendA"

definition relay_sendRelayedTxs ::
    "('db, 'd, 'tdb, 't, 'ns) shard_env \<Rightarrow> block \<Rightarrow> transaction list \<Rightarrow> (('db, 'tdb) shard_world, unit) act" where
  "relay_sendRelayedTxs E b r1Txs =
     bindA (readA (\<lambda>w. getAccountLocationsInTxs (s_chain E) (w_chain w) (TxList b))) (\<lambda>accountLocations.
     bindA (liftA (foldR (relay_bucket accountLocations) (empty_buckets (s_ShardNum E)) r1Txs)) (\<lambda>relayedTxs.
     send_buckets E relayedTxs))"

definition relay_BlockCommitAndDeliver ::
    "('db, 'd, 'tdb, 't, 'ns) shard_env \<Rightarrow> time \<Rightarrow> bool \<Rightarrow> block \<Rightarrow> (('db, 'tdb) shard_world, unit) act" where
  "relay_BlockCommitAndDeliver E now isLeader b =
     thenA (chainA (chain_AddBlock (s_chain E) b))
     (if \<not> isLeader then retA ()
      else case relay_splitTxs (TxList b) of (innerTxs, r1Txs, r2Txs) \<Rightarrow>
        thenA (relay_deliverBlockInfo2Supervisor E now innerTxs r1Txs r2Txs b)
        (relay_sendRelayedTxs E b r1Txs))"

section \<open>Broker mode\<close>

definition broker_BuildTxBlockProposal ::
    "('db, 'd, 'tdb, 't, 'ns) shard_env \<Rightarrow> time \<Rightarrow> transaction list \<Rightarrow> (('db, 'tdb) shard_world, block) act" where
  "broker_BuildTxBlockProposal E now txs = generateA E now TxBlockType txs [] []"

text \<open>The five lists: inner-shard, broker-1, broker-2, relay-1 and relay-2.\<close>

type_synonym split5 =
  "transaction list \<times> transaction list \<times> transaction list \<times> transaction list \<times> transaction list"

definition broker_split_step :: "transaction \<Rightarrow> split5 \<Rightarrow> split5" where
  "broker_split_step tx acc =
     (case acc of (innerTxs, b1Txs, b2Txs, r1Txs, r2Txs) \<Rightarrow>
        if TxType tx = RelayTxType then
          (if RelayStage tx = Relay1Tx then (innerTxs, b1Txs, b2Txs, r1Txs @ [tx], r2Txs)
           else (innerTxs, b1Txs, b2Txs, r1Txs, r2Txs @ [tx]))
        else if BrokerStage tx = RawTxBrokerStage then (innerTxs @ [tx], b1Txs, b2Txs, r1Txs, r2Txs)
        else if BrokerStage tx = Sigma1BrokerStage then (innerTxs, b1Txs @ [tx], b2Txs, r1Txs, r2Txs)
        else if BrokerStage tx = Sigma2BrokerStage then (innerTxs, b1Txs, b2Txs @ [tx], r1Txs, r2Txs)
        else acc)"

definition broker_splitTxs :: "transaction list \<Rightarrow> split5" where
  "broker_splitTxs txs = fold broker_split_step txs ([], [], [], [], [])"

definition broker_deliverBlockInfo2Supervisor ::
    "('db, 'd, 'tdb, 't, 'ns) shard_env \<Rightarrow> time \<Rightarrow> split5 \<Rightarrow> block \<Rightarrow> (('db, 'tdb) shard_world, unit) act" where
  "broker_deliverBlockInfo2Supervisor E now parts b =
     (case parts of (innerTxs, b1Txs, b2Txs, r1Txs, r2Txs) \<Rightarrow>
        bindA (getA w_chain) (\<lambda>c.
        send_to_supervisor E (MBrokerBlockInfo
          \<lparr>bb_InnerShardTxs = innerTxs, bb_Broker1Txs = b1Txs, bb_Broker2Txs = b2Txs,
           bb_Relay1Txs = r1Txs, bb_Relay2Txs = r2Txs, bb_Epoch = epochID c,
           bb_BlockProposeTime = h_CreateTime b, bb_BlockCommitTime = now, bb_ShardID = shardID c\<rparr>)))"

definition broker_sendRelayedTxs ::
    "('db, 'd, 'tdb, 't, 'ns) shard_env \<Rightarrow> block \<Rightarrow> transaction list \<Rightarrow> (('db, 'tdb) shard_world, unit) act" where
  "broker_sendRelayedTxs E b r1Txs =
     bindA (readA (\<lambda>w. getAccountLocationsInTxs (s_chain E) (w_chain w) (TxList b))) (\<lambda>accountLocations.
     bindA (liftA (foldR (relay_bucket accountLocations) (empty_buckets (s_ShardNum E)) r1Txs)) (\<lambda>relayedTxs.
     send_buckets E relayedTxs))"

definition broker_BlockCommitAndDeliver ::
    "('db, 'd, 'tdb, 't, 'ns) shard_env \<Rightarrow> time \<Rightarrow> bool \<Rightarrow> block \<Rightarrow> (('db, 'tdb) shard_world, unit) act" where
  "broker_BlockCommitAndDeliver E now isLeader b =
     thenA (chainA (chain_AddBlock (s_chain E) b))
     (if \<not> isLeader then retA ()
      else case broker_splitTxs (TxList b) of (innerTxs, b1Txs, b2Txs, r1Txs, r2Txs) \<Rightarrow>
        thenA (broker_deliverBlockInfo2Supervisor E now (innerTxs, b1Txs, b2Txs, r1Txs, r2Txs) b)
        (if r1Txs \<noteq> [] then broker_sendRelayedTxs E b r1Txs else retA ()))"

definition NewRelayTxBlockOp ::
    "('db, 'd, 'tdb, 't, 'ns) shard_env \<Rightarrow> ('db, 'tdb) shard_world tx_block_op" where
  "NewRelayTxBlockOp E =
     \<lparr>BuildTxBlockProposal = relay_BuildTxBlockProposal E,
      BlockCommitAndDeliver = relay_BlockCommitAndDeliver E\<rparr>"

definition NewBrokerTxBlockOp ::
    "('db, 'd, 'tdb, 't, 'ns) shard_env \<Rightarrow> ('db, 'tdb) shard_world tx_block_op" where
  "NewBrokerTxBlockOp E =
     \<lparr>BuildTxBlockProposal = broker_BuildTxBlockProposal E,
      BlockCommitAndDeliver = broker_BlockCommitAndDeliver E\<rparr>"

definition NewTxBlockOp ::
    "('db, 'd, 'tdb, 't, 'ns) shard_env \<Rightarrow> ('db, 'tdb) shard_world tx_block_op result" where
  "NewTxBlockOp E =
     (if s_ConsensusType E = ''static_relay'' \<or> s_ConsensusType E = ''clpa_relay'' then Inr (NewRelayTxBlockOp E)
      else if s_ConsensusType E = ''static_broker'' \<or> s_ConsensusType E = ''clpa_broker''
      then Inr (NewBrokerTxBlockOp E)
      else Inl (Errorf ''unknown consensus type''))"

section \<open>Migration blocks\<close>

definition BuildMigrationProposal ::
    "('db, 'd, 'tdb, 't, 'ns) shard_env \<Rightarrow> time \<Rightarrow> (('db, 'tdb) shard_world, block option) act" where
  "BuildMigrationProposal E now =
     bindA (getA w_amm) (\<lambda>am.
     if int (length (MigratedAccountStates am)) \<noteq> s_ShardNum E then retA None
     else
       bindA (ammA GetMigratedAddrStates) (\<lambda>(accounts, states).
       bindA (generateA E now MigrationBlockType [] accounts states) (\<lambda>b.
       retA (Some b))))"

text \<open>The state of a moving account goes into the message for its new shard.\<close>

definition migrate_out ::
    "('db, 'd, 'tdb, 't, 'ns) shard_env \<Rightarrow> AccMigrateMetadata \<Rightarrow> (address, state) gomap list \<Rightarrow>
     address \<times> state \<Rightarrow> (address, state) gomap list result" where
  "migrate_out E am maps it =
     (case it of (acc, st) \<Rightarrow>
        if ShardLocation st \<noteq> u64 (s_ShardID E) then Inr maps
        else modify_at maps (get_or 0 (CurModifiedMap am) acc) (AList.update acc st))"

definition wrap_migration ::
    "('db, 'd, 'tdb, 't, 'ns) shard_env \<Rightarrow> AccMigrateMetadata \<Rightarrow> (NodeInfo, WrappedMsg) gomap \<Rightarrow>
     nat \<times> (address, state) gomap \<Rightarrow> (NodeInfo, WrappedMsg) gomap result" where
  "wrap_migration E am sendMsgMap it =
     (case it of (i, states) \<Rightarrow>
        bindR (GetLeader (s_resolver E) (int i)) (\<lambda>l.
        bindR (WrapMsg (s_codec E) (MAccountMigration
          \<lparr>at_SrcShard = s_ShardID E, at_DestShard = int i, at_Epoch = am_Epoch am, at_AccountStates = states\<rparr>)) (\<lambda>w.
        Inr (AList.update l w sendMsgMap))))"

definition MigrateAccounts ::
    "('db, 'd, 'tdb, 't, 'ns) shard_env \<Rightarrow> (('db, 'tdb) shard_world, unit) act" where
  "MigrateAccounts E =
     bindA (getA w_amm) (\<lambda>am.
     let accountsMigratedOut = keys_of (CurModifiedMap am)
     in bindA (readA (\<lambda>w. getAccountStates (s_chain E) (w_chain w) accountsMigratedOut)) (\<lambda>states.
        bindA (liftA (foldR (migrate_out E am) (replicate (nat (s_ShardNum E)) [])
                        (zip accountsMigratedOut states))) (\<lambda>maps.
        bindA (liftA (foldR (wrap_migration E am) [] (enumerate 0 maps))) (\<lambda>sendMsgMap.
        sendA sendMsgMap))))"

definition MigrationBlockCommit ::
    "('db, 'd, 'tdb, 't, 'ns) shard_env \<Rightarrow> block \<Rightarrow> (('db, 'tdb) shard_world, unit) act" where
  "MigrationBlockCommit E b =
     thenA (chainA (chain_AddBlock (s_chain E) b))
     (modA (\<lambda>w. w\<lparr>w_chain := UpdateEpoch (am_Epoch (w_amm w)) (w_chain w),
                    w_amm := MigrationStatusReset (w_amm w)\<rparr>))"

end
