(* ===== verification/GoHeap.thy ===== *)
theory GoHeap
  imports Prelude
begin

text \<open>
  The priority queue of \<open>consensus/pbft/basicstructs/pq.go\<close>: a slice kept as a binary heap by
  Go's \<open>container/heap\<close> (\<open>up\<close>, \<open>down\<close>, \<open>Push\<close>, \<open>Pop\<close> as in the standard library), ordered by
  a comparison function. The contract of the queue is the locale \<open>prio_queue\<close>; the loop that
  drains a queue up to a bound is proved once inside it, and the heap is its interpretation.
\<close>

section \<open>The heap operations\<close>

definition parent :: "nat \<Rightarrow> nat" where
  "parent j = (j - 1) div 2"

lemma parent_less [simp]: "0 < j \<Longrightarrow> parent j < j"
  by (simp add: parent_def)

lemma parent_le: "parent j \<le> j"
  by (simp add: parent_def)

lemma parent_eq_iff: "0 < k \<Longrightarrow> parent k = i \<longleftrightarrow> k = 2 * i + 1 \<or> k = 2 * i + 2"
  by (auto simp: parent_def)

definition Swap :: "'a list \<Rightarrow> nat \<Rightarrow> nat \<Rightarrow> 'a list" where
  "Swap xs i j = xs[i := xs ! j, j := xs ! i]"

lemma length_Swap [simp]: "length (Swap xs i j) = length xs"
  by (simp add: Swap_def)

lemma mset_Swap [simp]: "i < length xs \<Longrightarrow> j < length xs \<Longrightarrow> mset (Swap xs i j) = mset xs"
  by (simp add: Swap_def mset_swap)

lemma nth_Swap: "i < length xs \<Longrightarrow> j < length xs \<Longrightarrow> k < length xs \<Longrightarrow>
    Swap xs i j ! k = (if k = i then xs ! j else if k = j then xs ! i else xs ! k)"
  by (auto simp: Swap_def nth_list_update)

text \<open>\<open>up\<close> and \<open>down\<close> of \<open>container/heap\<close>.\<close>

function heap_up :: "('a \<Rightarrow> 'a \<Rightarrow> bool) \<Rightarrow> 'a list \<Rightarrow> nat \<Rightarrow> 'a list" where
  "heap_up lt xs j =
     (if parent j = j \<or> \<not> lt (xs ! j) (xs ! parent j) then xs
      else heap_up lt (Swap xs (parent j) j) (parent j))"
  by pat_completeness auto
termination
  by (relation "measure (\<lambda>(_, _, j). j)") (auto simp: parent_def)

definition smaller_child :: "('a \<Rightarrow> 'a \<Rightarrow> bool) \<Rightarrow> 'a list \<Rightarrow> nat \<Rightarrow> nat \<Rightarrow> nat" where
  "smaller_child lt xs i n =
     (let j1 = 2 * i + 1; j2 = j1 + 1 in if j2 < n \<and> lt (xs ! j2) (xs ! j1) then j2 else j1)"

lemma smaller_child_bounds:
  "Suc (2 * i) < n \<Longrightarrow> smaller_child lt xs i n < n \<and> i < smaller_child lt xs i n"
  by (auto simp: smaller_child_def Let_def)

function heap_down :: "('a \<Rightarrow> 'a \<Rightarrow> bool) \<Rightarrow> 'a list \<Rightarrow> nat \<Rightarrow> nat \<Rightarrow> 'a list" where
  "heap_down lt xs i n =
     (if n \<le> 2 * i + 1 then xs
      else let j = smaller_child lt xs i n
           in if \<not> lt (xs ! j) (xs ! i) then xs else heap_down lt (Swap xs i j) j n)"
  by pat_completeness auto
termination
  by (relation "measure (\<lambda>(_, _, i, n). n - i)")
    (auto simp: not_le simp: smaller_child_bounds intro!: diff_less_mono2)

declare heap_up.simps [simp del] heap_down.simps [simp del]

lemma heap_up_mset: "j < length xs \<Longrightarrow>
    mset (heap_up lt xs j) = mset xs \<and> length (heap_up lt xs j) = length xs"
proof (induction lt xs j rule: heap_up.induct)
  case (1 lt xs j)
  have "parent j < length xs" using 1(2) parent_le [of j] by simp
  then show ?case using 1 by (subst (1 2) heap_up.simps) simp
qed

lemma heap_down_frame:
  "n \<le> length xs \<Longrightarrow>
     mset (heap_down lt xs i n) = mset xs \<and> length (heap_down lt xs i n) = length xs \<and>
     (\<forall>k. n \<le> k \<longrightarrow> k < length xs \<longrightarrow> heap_down lt xs i n ! k = xs ! k)"
proof (induction lt xs i n rule: heap_down.induct)
  case (1 lt xs i n)
  let ?j = "smaller_child lt xs i n"
  show ?case
  proof (cases "n \<le> 2 * i + 1 \<or> \<not> lt (xs ! ?j) (xs ! i)")
    case True
    then have "heap_down lt xs i n = xs"
      by (subst heap_down.simps) (auto simp: Let_def)
    then show ?thesis by simp
  next
    case False
    then have eq: "heap_down lt xs i n = heap_down lt (Swap xs i ?j) ?j n"
      by (subst heap_down.simps) (simp add: Let_def)
    have "?j < n" "i < n" using False smaller_child_bounds [of i n lt xs] by auto
    then show ?thesis using 1 False by (simp add: eq nth_Swap)
  qed
qed

section \<open>The heap order\<close>

text \<open>
  A comparison function that orders the queue: the relation "not greater" is a total preorder.
\<close>

locale weak_order =
  fixes lt :: "'a \<Rightarrow> 'a \<Rightarrow> bool"
  assumes asym: "lt a b \<Longrightarrow> \<not> lt b a"
    and le_trans: "\<not> lt b a \<Longrightarrow> \<not> lt c b \<Longrightarrow> \<not> lt c a"
begin

lemma irrefl: "\<not> lt a a"
  using asym by blast

definition heap_on :: "'a list \<Rightarrow> nat \<Rightarrow> bool" where
  "heap_on xs n \<longleftrightarrow> (\<forall>k. 0 < k \<and> k < n \<longrightarrow> \<not> lt (xs ! k) (xs ! parent k))"

definition heap_but_up :: "'a list \<Rightarrow> nat \<Rightarrow> nat \<Rightarrow> bool" where
  "heap_but_up xs n j \<longleftrightarrow>
     (\<forall>k. 0 < k \<and> k < n \<and> k \<noteq> j \<longrightarrow> \<not> lt (xs ! k) (xs ! parent k)) \<and>
     (\<forall>k. 0 < k \<and> k < n \<and> parent k = j \<and> 0 < j \<longrightarrow> \<not> lt (xs ! k) (xs ! parent j))"

definition heap_but_down :: "'a list \<Rightarrow> nat \<Rightarrow> nat \<Rightarrow> bool" where
  "heap_but_down xs n i \<longleftrightarrow>
     (\<forall>k. 0 < k \<and> k < n \<and> parent k \<noteq> i \<longrightarrow> \<not> lt (xs ! k) (xs ! parent k)) \<and>
     (\<forall>k. 0 < k \<and> k < n \<and> parent k = i \<and> 0 < i \<longrightarrow> \<not> lt (xs ! k) (xs ! parent i))"

lemma heap_but_up_swap:
  assumes h: "heap_but_up xs n j" and j: "0 < j" "j < n" "n \<le> length xs"
    and l: "lt (xs ! j) (xs ! parent j)"
  shows "heap_but_up (Swap xs (parent j) j) n (parent j)"
proof -
  let ?p = "parent j"
  have p: "?p < j" using j by simp
  have nth: "Swap xs ?p j ! k = (if k = ?p then xs ! j else if k = j then xs ! ?p else xs ! k)"
    if "k < n" for k using that j p by (simp add: nth_Swap)
  have h1: "\<not> lt (xs ! k) (xs ! parent k)" if "0 < k" "k < n" "k \<noteq> j" for k
    using h that by (simp add: heap_but_up_def)
  have h2: "\<not> lt (xs ! k) (xs ! ?p)" if "0 < k" "k < n" "parent k = j" for k
    using h that j by (simp add: heap_but_up_def)
  have le: "\<not> lt (xs ! ?p) (xs ! j)" using l by (rule asym)
  have sib: "\<not> lt (xs ! k) (xs ! j)" if "0 < k" "k < n" "k \<noteq> j" "parent k = ?p" for k
    using h1 [of k] that le le_trans by metis
  have pk: "parent k < n" if "k < n" for k using that parent_le [of k] by simp
  have "\<not> lt (Swap xs ?p j ! k) (Swap xs ?p j ! parent k)" if k: "0 < k" "k < n" "k \<noteq> ?p" for k
  proof (cases "k = j")
    case True
    then show ?thesis using le p nth [of j] nth [OF less_trans [OF p j(2)]] j(2) by auto
  next
    case False
    then have "parent k \<noteq> k" using k by (metis parent_less less_irrefl)
    then show ?thesis using False k h1 h2 sib by (simp add: nth pk)
  qed
  moreover have "\<not> lt (Swap xs ?p j ! k) (Swap xs ?p j ! parent ?p)"
    if k: "0 < k" "k < n" "parent k = ?p" "0 < ?p" for k
  proof -
    have q: "parent ?p < ?p" using k by simp
    have b: "\<not> lt (xs ! ?p) (xs ! parent ?p)"
      using h1 [of ?p] k(4) p less_trans [OF p j(2)] by simp
    have "k \<noteq> ?p" using k by (metis parent_less less_irrefl)
    moreover have "\<not> lt (xs ! k) (xs ! parent ?p)" if "k \<noteq> j"
      using h1 [of k] b k that le_trans by metis
    moreover have "parent ?p < n" using q less_trans [OF p j(2)] by simp
    ultimately show ?thesis using b k p q by (simp add: nth)
  qed
  ultimately show ?thesis by (simp add: heap_but_up_def)
qed

lemma heap_up_heap: "j < length xs \<Longrightarrow> heap_but_up xs (length xs) j \<Longrightarrow>
    heap_on (heap_up lt xs j) (length xs)"
proof (induction j arbitrary: xs rule: less_induct)
  case (less j)
  show ?case
  proof (cases "parent j = j \<or> \<not> lt (xs ! j) (xs ! parent j)")
    case True
    then have "j = 0 \<or> \<not> lt (xs ! j) (xs ! parent j)" by (metis parent_less less_irrefl not_gr0)
    then show ?thesis using True less.prems(2)
      by (subst heap_up.simps) (auto simp: heap_on_def heap_but_up_def)
  next
    case False
    then have j: "0 < j" by (cases j) (auto simp: parent_def)
    then have "heap_but_up (Swap xs (parent j) j) (length xs) (parent j)"
      using heap_but_up_swap [OF less.prems(2)] less.prems(1) False by simp
    moreover have "parent j < length xs" using less.prems(1) parent_le [of j] by simp
    ultimately have "heap_on (heap_up lt (Swap xs (parent j) j) (parent j)) (length xs)"
      using less.IH [of "parent j" "Swap xs (parent j) j"] j by simp
    then show ?thesis using False by (subst heap_up.simps) simp
  qed
qed

lemma heap_but_down_swap:
  assumes h: "heap_but_down xs n i" and n: "2 * i + 1 < n" "n \<le> length xs"
    and j: "j = smaller_child lt xs i n" and l: "lt (xs ! j) (xs ! i)"
  shows "heap_but_down (Swap xs i j) n j"
proof -
  have jn: "j < n" "i < j" using smaller_child_bounds n j by auto
  have pj: "parent j = i" using j jn by (auto simp: parent_eq_iff smaller_child_def Let_def)
  have nth: "Swap xs i j ! k = (if k = i then xs ! j else if k = j then xs ! i else xs ! k)"
    if "k < n" for k using that jn n by (simp add: nth_Swap)
  have h1: "\<not> lt (xs ! k) (xs ! parent k)" if "0 < k" "k < n" "parent k \<noteq> i" for k
    using h that by (simp add: heap_but_down_def)
  have h2: "\<not> lt (xs ! k) (xs ! parent i)" if "0 < k" "k < n" "parent k = i" "0 < i" for k
    using h that by (simp add: heap_but_down_def)
  have small: "\<not> lt (xs ! k) (xs ! j)" if "0 < k" "k < n" "parent k = i" for k
    using that irrefl asym unfolding j smaller_child_def Let_def
    by (auto simp: parent_eq_iff)
  have le: "\<not> lt (xs ! i) (xs ! j)" using l by (rule asym)
  have pk: "parent k < n" if "k < n" for k using that parent_le [of k] by simp
  have self: "parent k \<noteq> k" if "0 < k" for k using that by (metis parent_less less_irrefl)
  have "\<not> lt (Swap xs i j ! k) (Swap xs i j ! parent k)" if k: "0 < k" "k < n" "parent k \<noteq> j" for k
  proof (cases "k = i")
    case True
    then have "\<not> lt (xs ! j) (xs ! parent i)" using h2 [of j] jn pj k by simp
    then show ?thesis using True k self [of i] pk [of i] by (simp add: nth)
  next
    case ki: False
    show ?thesis
    proof (cases "parent k = i")
      case True
      then show ?thesis using k ki le small [of k] jn by (simp add: nth)
    next
      case False
      then have "k \<noteq> j" using pj by auto
      then show ?thesis using h1 [of k] False k ki pk by (simp add: nth)
    qed
  qed
  moreover have "\<not> lt (Swap xs i j ! k) (Swap xs i j ! parent j)"
    if k: "0 < k" "k < n" "parent k = j" for k
  proof -
    have ne: "k \<noteq> i" "k \<noteq> j" using k jn self [of k] parent_le [of k] by auto
    have "\<not> lt (xs ! k) (xs ! j)" using h1 [of k] k jn by auto
    then show ?thesis using ne k jn pj by (simp add: nth)
  qed
  ultimately show ?thesis by (simp add: heap_but_down_def)
qed

lemma heap_down_heap: "n \<le> length xs \<Longrightarrow> heap_but_down xs n i \<Longrightarrow> heap_on (heap_down lt xs i n) n"
proof (induction "n - i" arbitrary: xs i rule: less_induct)
  case less
  let ?j = "smaller_child lt xs i n"
  show ?case
  proof (cases "n \<le> 2 * i + 1 \<or> \<not> lt (xs ! ?j) (xs ! i)")
    case True
    then have eq: "heap_down lt xs i n = xs"
      by (subst heap_down.simps) (auto simp: Let_def)
    have "\<not> lt (xs ! k) (xs ! parent k)" if k: "0 < k" "k < n" for k
    proof (cases "parent k = i")
      case pi: True
      then have "k = 2 * i + 1 \<or> k = 2 * i + 2" using k by (simp add: parent_eq_iff)
      then have n: "\<not> n \<le> 2 * i + 1" using k by auto
      then have "\<not> lt (xs ! ?j) (xs ! i)" using True by simp
      moreover have "\<not> lt (xs ! k) (xs ! ?j)"
        using \<open>k = _ \<or> _\<close> k irrefl asym unfolding smaller_child_def Let_def by auto
      ultimately show ?thesis using pi le_trans by metis
    next
      case False
      then show ?thesis using less.prems(2) k by (simp add: heap_but_down_def)
    qed
    then show ?thesis by (simp add: eq heap_on_def)
  next
    case False
    then have eq: "heap_down lt xs i n = heap_down lt (Swap xs i ?j) ?j n"
      by (subst heap_down.simps) (simp add: Let_def)
    have j: "?j < n" "i < ?j" using False smaller_child_bounds [of i n lt xs] by auto
    have "heap_but_down (Swap xs i ?j) n ?j"
      using heap_but_down_swap [OF less.prems(2) _ less.prems(1) refl] False by simp
    then show ?thesis
      using less.hyps [of ?j "Swap xs i ?j"] less.prems(1) j unfolding eq by simp
  qed
qed

lemma heap_root_least: "heap_on xs n \<Longrightarrow> k < n \<Longrightarrow> \<not> lt (xs ! k) (xs ! 0)"
proof (induction k rule: less_induct)
  case (less k)
  show ?case
  proof (cases "k = 0")
    case True
    then show ?thesis by (simp add: irrefl)
  next
    case False
    then have "\<not> lt (xs ! k) (xs ! parent k)" using less.prems by (simp add: heap_on_def)
    moreover have "parent k < k" using False by simp
    then have "\<not> lt (xs ! parent k) (xs ! 0)"
      using less.IH [of "parent k"] less.prems by simp
    ultimately show ?thesis using le_trans by metis
  qed
qed

end

section \<open>The contract of the queue\<close>

text \<open>
  What \<open>MsgPool\<close> relies on: a queue is a multiset of items; \<open>push\<close> adds one, \<open>pop\<close> of a
  non-empty queue removes one that no other item precedes.
\<close>

locale prio_queue = weak_order lt
  for lt :: "'a \<Rightarrow> 'a \<Rightarrow> bool" +
  fixes push :: "'a \<Rightarrow> 'q \<Rightarrow> 'q" and pop :: "'q \<Rightarrow> 'a \<times> 'q" and size_of :: "'q \<Rightarrow> nat"
    and items :: "'q \<Rightarrow> 'a multiset" and invar :: "'q \<Rightarrow> bool"
  assumes size_of: "size_of q = size (items q)"
    and push_items: "invar q \<Longrightarrow> items (push x q) = items q + {#x#}"
    and push_invar: "invar q \<Longrightarrow> invar (push x q)"
    and pop_items: "invar q \<Longrightarrow> 0 < size_of q \<Longrightarrow> pop q = (x, r) \<Longrightarrow> items q = items r + {#x#}"
    and pop_least: "invar q \<Longrightarrow> 0 < size_of q \<Longrightarrow> pop q = (x, r) \<Longrightarrow> y \<in># items r \<Longrightarrow> \<not> lt y x"
    and pop_invar: "invar q \<Longrightarrow> 0 < size_of q \<Longrightarrow> pop q = (x, r) \<Longrightarrow> invar r"

text \<open>
  The loop of \<open>ReadPreprepareMsg\<close>, \<open>ReadPrepareMsg\<close> and \<open>ReadCommitMsg\<close>: pop while the queue
  is not empty; an item that comes after the bound is pushed back and ends the loop. Every
  iteration pops one item, so the length of the queue bounds the iterations.
\<close>

fun read_loop :: "('a \<Rightarrow> 'q \<Rightarrow> 'q) \<Rightarrow> ('q \<Rightarrow> 'a \<times> 'q) \<Rightarrow> ('q \<Rightarrow> nat) \<Rightarrow> ('a \<Rightarrow> bool) \<Rightarrow>
    nat \<Rightarrow> 'q \<Rightarrow> 'a list \<times> 'q" where
  "read_loop push pop size_of after 0 q = ([], q)"
| "read_loop push pop size_of after (Suc fuel) q =
     (if size_of q = 0 then ([], q)
      else let (top, r) = pop q
           in if after top then ([], push top r)
              else let (ret, q') = read_loop push pop size_of after fuel r in (top # ret, q'))"

context prio_queue
begin

lemma read_loop_spec:
  assumes "invar q" and "size_of q \<le> fuel"
    and mono: "\<And>x y. after x \<Longrightarrow> \<not> lt y x \<Longrightarrow> after y"
    and "read_loop push pop size_of after fuel q = (ret, q')"
  shows "mset ret = filter_mset (\<lambda>x. \<not> after x) (items q) \<and>
         items q' = filter_mset after (items q) \<and> invar q' \<and>
         sorted_wrt (\<lambda>x y. \<not> lt y x) ret"
  using assms(1,2,4)
proof (induction fuel arbitrary: q ret q')
  case 0
  then show ?case by (simp add: size_of)
next
  case (Suc fuel)
  show ?case
  proof (cases "size_of q = 0")
    case True
    then show ?thesis using Suc.prems by (auto simp: size_of)
  next
    case ne: False
    obtain top r where pop: "pop q = (top, r)" by force
    note facts = pop_items [OF Suc.prems(1) _ pop] pop_least [OF Suc.prems(1) _ pop]
      pop_invar [OF Suc.prems(1) _ pop]
    have items: "items q = items r + {#top#}" and inv: "invar r"
      and least: "\<And>y. y \<in># items r \<Longrightarrow> \<not> lt y top" using facts ne by auto
    show ?thesis
    proof (cases "after top")
      case True
      have all: "after y" if "y \<in># items q" for y
        using that True least mono items by auto
      have "filter_mset (\<lambda>x. \<not> after x) (items q) = {#}" using all by (metis (mono_tags, lifting) filter_mset_eq_conv multiset_nonemptyE set_mset_filter mem_Collect_eq)
      moreover have "filter_mset after (items q) = items q"
        using all by (simp add: filter_mset_eq_conv)
      ultimately show ?thesis
        using Suc.prems ne pop True items push_items [OF inv] push_invar [OF inv] by auto
    next
      case False
      obtain ret' where loop: "read_loop push pop size_of after fuel r = (ret', q')"
        and ret: "ret = top # ret'"
        using Suc.prems(3) ne pop False by (auto split: prod.splits)
      have "size_of r \<le> fuel" using Suc.prems(2) items by (simp add: size_of)
      then have IH: "mset ret' = filter_mset (\<lambda>x. \<not> after x) (items r)"
        "items q' = filter_mset after (items r)" "invar q'"
        "sorted_wrt (\<lambda>x y. \<not> lt y x) ret'" using Suc.IH [OF inv _ loop] by auto
      have "\<not> lt y top" if "y \<in> set ret'" for y
      proof -
        have "y \<in># mset ret'" using that by simp
        then show ?thesis using IH(1) least by simp
      qed
      then show ?thesis using IH ret items False by simp
    qed
  qed
qed

end

section \<open>The queue of the code\<close>

text \<open>\<open>PushItem\<close> and \<open>PopItem\<close>: \<open>heap.Push\<close> and \<open>heap.Pop\<close> on the slice of items.\<close>

definition PushItem :: "('a \<Rightarrow> 'a \<Rightarrow> bool) \<Rightarrow> 'a \<Rightarrow> 'a list \<Rightarrow> 'a list" where
  "PushItem lt x items = heap_up lt (items @ [x]) (length items)"

definition PopItem :: "('a \<Rightarrow> 'a \<Rightarrow> bool) \<Rightarrow> 'a list \<Rightarrow> 'a \<times> 'a list" where
  "PopItem lt items =
     (let n = length items - 1; xs = heap_down lt (Swap items 0 n) 0 n in (xs ! n, take n xs))"

definition NewPQ :: "'a list" where
  "NewPQ = []"

context weak_order
begin

lemma heap_on_cong: "(\<And>k. k < n \<Longrightarrow> xs ! k = ys ! k) \<Longrightarrow> heap_on xs n \<longleftrightarrow> heap_on ys n"
  unfolding heap_on_def using parent_le by (metis order.strict_trans1)

lemma PushItem_mset: "mset (PushItem lt x q) = mset q + {#x#}"
  using heap_up_mset [of "length q" "q @ [x]"] by (simp add: PushItem_def)

lemma PushItem_heap:
  assumes "heap_on q (length q)"
  shows "heap_on (PushItem lt x q) (length (PushItem lt x q))"
proof -
  have "heap_but_up (q @ [x]) (length (q @ [x])) (length q)"
    using assms parent_le [of _] parent_less
    by (auto simp: heap_but_up_def heap_on_def nth_append)
      (metis less_SucE less_irrefl order.strict_trans parent_less)+
  then show ?thesis
    using heap_up_heap [of "length q" "q @ [x]"] heap_up_mset [of "length q" "q @ [x]" lt]
    by (simp add: PushItem_def)
qed

lemma PopItem_spec:
  assumes h: "heap_on q (length q)" and ne: "q \<noteq> []" and pop: "PopItem lt q = (x, r)"
  shows "mset q = mset r + {#x#} \<and> heap_on r (length r) \<and> (\<forall>y \<in># mset r. \<not> lt y x)"
proof -
  let ?n = "length q - 1"
  let ?s = "Swap q 0 ?n"
  let ?xs = "heap_down lt ?s 0 ?n"
  have n: "?n < length q" "0 < length q" using ne by auto
  note frame = heap_down_frame [of ?n ?s lt 0]
  have m: "mset ?xs = mset q" "length ?xs = length q" using frame n by simp_all
  have last: "?xs ! ?n = q ! 0" using frame n by (auto simp: nth_Swap)
  have x: "x = q ! 0" and r: "r = take ?n ?xs"
    using pop last by (auto simp: PopItem_def Let_def)
  have split: "?xs = r @ [x]"
    using m(2) n r x last by (metis Suc_diff_1 take_Suc_conv_app_nth take_all order_refl)
  have "heap_but_down ?s ?n 0"
  proof -
    have "\<not> lt (?s ! k) (?s ! parent k)" if "0 < k" "k < ?n" "parent k \<noteq> 0" for k
    proof -
      have "parent k < ?n" "k < length q" using that parent_le [of k] by auto
      then show ?thesis using that h n by (simp add: nth_Swap heap_on_def)
    qed
    then show ?thesis by (simp add: heap_but_down_def)
  qed
  then have "heap_on ?xs ?n" using heap_down_heap [of ?n ?s 0] by simp
  then have "heap_on r (length r)"
    using heap_on_cong [of ?n ?xs r] r m(2) by simp
  moreover have "mset q = mset r + {#x#}" using m(1) split by simp
  moreover have "\<not> lt y x" if "y \<in># mset q" for y
    using that heap_root_least [OF h] x by (auto simp: in_set_conv_nth)
  ultimately show ?thesis by auto
qed

end

sublocale weak_order \<subseteq> heap: prio_queue lt "PushItem lt" "PopItem lt" length mset
    "\<lambda>q. heap_on q (length q)"
proof (unfold_locales, goal_cases)
  case (2 q x) show ?case by (rule PushItem_mset)
next
  case (3 q x) then show ?case by (rule PushItem_heap)
next
  case (4 q x r) then show ?case using PopItem_spec [of q x r] by simp
next
  case (5 q x r y) then show ?case using PopItem_spec [of q x r] by simp
next
  case (6 q x r) then show ?case using PopItem_spec [of q x r] by simp
qed simp

end
