(* ===== verification/MsgPool.thy ===== *)
theory MsgPool
  imports GoHeap Message
begin

text \<open>
  \<open>consensus/pbft/basicstructs\<close>: the position of a consensus round (\<open>ViewSeq\<close>), the comparison
  functions of the three priority queues, and the message pool. The order of rounds is the
  instance of the library's linear order that \<open>Compare\<close> induces.
\<close>

section \<open>Rounds\<close>

datatype ViewSeq = ViewSeq (View: int) (Seq: int)

definition Compare :: "ViewSeq \<Rightarrow> ViewSeq \<Rightarrow> int" where
  "Compare a b =
     (if View a < View b then - 1
      else if View b < View a then 1
      else if Seq a < Seq b then - 1
      else if Seq b < Seq a then 1
      else 0)"

instantiation ViewSeq :: linorder
begin

definition less_ViewSeq :: "ViewSeq \<Rightarrow> ViewSeq \<Rightarrow> bool" where
  "less_ViewSeq a b \<longleftrightarrow> Compare a b = - 1"

definition less_eq_ViewSeq :: "ViewSeq \<Rightarrow> ViewSeq \<Rightarrow> bool" where
  "less_eq_ViewSeq a b \<longleftrightarrow> Compare a b \<le> 0"

instance
  by standard
    (auto simp: less_ViewSeq_def less_eq_ViewSeq_def Compare_def intro!: ViewSeq.expand
      split: if_splits)

end

lemma Compare_lt [simp]: "Compare a b = - 1 \<longleftrightarrow> a < b"
  by (simp add: less_ViewSeq_def)

lemma Compare_gt [simp]: "0 < Compare a b \<longleftrightarrow> b < a"
  by (auto simp: less_ViewSeq_def Compare_def)

lemma Compare_eq [simp]: "Compare a b = 0 \<longleftrightarrow> a = b"
  by (auto simp: Compare_def intro: ViewSeq.expand)

lemma ViewSeq_less_iff: "a < b \<longleftrightarrow> View a < View b \<or> View a = View b \<and> Seq a < Seq b"
  by (auto simp: less_ViewSeq_def Compare_def)

section \<open>The queues\<close>

definition pp_vs :: "PreprepareMsg \<Rightarrow> ViewSeq" where
  "pp_vs m = ViewSeq (pp_View m) (pp_Seq m)"

definition p_vs :: "PrepareMsg \<Rightarrow> ViewSeq" where
  "p_vs m = ViewSeq (p_View m) (p_Seq m)"

definition c_vs :: "CommitMsg \<Rightarrow> ViewSeq" where
  "c_vs m = ViewSeq (c_View m) (c_Seq m)"

definition PreprepareMsgLess :: "PreprepareMsg \<Rightarrow> PreprepareMsg \<Rightarrow> bool" where
  "PreprepareMsgLess a b \<longleftrightarrow> Compare (pp_vs a) (pp_vs b) = - 1"

definition PrepareMsgLess :: "PrepareMsg \<Rightarrow> PrepareMsg \<Rightarrow> bool" where
  "PrepareMsgLess a b \<longleftrightarrow> Compare (p_vs a) (p_vs b) = - 1"

definition CommitMsgLess :: "CommitMsg \<Rightarrow> CommitMsg \<Rightarrow> bool" where
  "CommitMsgLess a b \<longleftrightarrow> Compare (c_vs a) (c_vs b) = - 1"

interpretation preprepares: weak_order PreprepareMsgLess
  by unfold_locales (auto simp: PreprepareMsgLess_def)

interpretation prepares: weak_order PrepareMsgLess
  by unfold_locales (auto simp: PrepareMsgLess_def)

interpretation commits: weak_order CommitMsgLess
  by unfold_locales (auto simp: CommitMsgLess_def)

section \<open>The pool\<close>

record MsgPool =
  preprepares :: "PreprepareMsg list"
  prepares :: "PrepareMsg list"
  commits :: "CommitMsg list"

definition NewMsgPool :: MsgPool where
  "NewMsgPool = \<lparr>preprepares = NewPQ, prepares = NewPQ, commits = NewPQ\<rparr>"

text \<open>The loops pop at most as many items as the queue holds, which is the fuel.\<close>

definition ReadPreprepareMsg :: "MsgPool \<Rightarrow> ViewSeq \<Rightarrow> PreprepareMsg list \<times> MsgPool" where
  "ReadPreprepareMsg m end' =
     (let (ret, q) = read_loop (PushItem PreprepareMsgLess) (PopItem PreprepareMsgLess) length
            (\<lambda>top. Compare end' (pp_vs top) = - 1) (length (preprepares m)) (preprepares m)
      in (ret, m\<lparr>preprepares := q\<rparr>))"

definition ReadPrepareMsg :: "MsgPool \<Rightarrow> ViewSeq \<Rightarrow> PrepareMsg list \<times> MsgPool" where
  "ReadPrepareMsg m end' =
     (let (ret, q) = read_loop (PushItem PrepareMsgLess) (PopItem PrepareMsgLess) length
            (\<lambda>top. Compare end' (p_vs top) = - 1) (length (prepares m)) (prepares m)
      in (ret, m\<lparr>prepares := q\<rparr>))"

definition ReadCommitMsg :: "MsgPool \<Rightarrow> ViewSeq \<Rightarrow> CommitMsg list \<times> MsgPool" where
  "ReadCommitMsg m end' =
     (let (ret, q) = read_loop (PushItem CommitMsgLess) (PopItem CommitMsgLess) length
            (\<lambda>top. Compare end' (c_vs top) = - 1) (length (commits m)) (commits m)
      in (ret, m\<lparr>commits := q\<rparr>))"

definition PushPreprepareMsg :: "MsgPool \<Rightarrow> PreprepareMsg \<Rightarrow> MsgPool" where
  "PushPreprepareMsg m ppMsg = m\<lparr>preprepares := PushItem PreprepareMsgLess ppMsg (preprepares m)\<rparr>"

definition PushPrepareMsg :: "MsgPool \<Rightarrow> PrepareMsg \<Rightarrow> MsgPool" where
  "PushPrepareMsg m pMsg = m\<lparr>prepares := PushItem PrepareMsgLess pMsg (prepares m)\<rparr>"

definition PushCommitMsg :: "MsgPool \<Rightarrow> CommitMsg \<Rightarrow> MsgPool" where
  "PushCommitMsg m cMsg = m\<lparr>commits := PushItem CommitMsgLess cMsg (commits m)\<rparr>"

section \<open>The pool's invariant and what a read returns\<close>

text \<open>All three slices are heaps.\<close>

definition pool_ok :: "MsgPool \<Rightarrow> bool" where
  "pool_ok m \<longleftrightarrow>
     preprepares.heap_on (preprepares m) (length (preprepares m)) \<and>
     prepares.heap_on (prepares m) (length (prepares m)) \<and>
     commits.heap_on (commits m) (length (commits m))"

lemma pool_ok_New [simp]: "pool_ok NewMsgPool"
  by (simp add: pool_ok_def NewMsgPool_def NewPQ_def preprepares.heap_on_def
      prepares.heap_on_def commits.heap_on_def)

lemma pool_ok_Push [simp]:
  "pool_ok m \<Longrightarrow> pool_ok (PushPreprepareMsg m pp)"
  "pool_ok m \<Longrightarrow> pool_ok (PushPrepareMsg m p)"
  "pool_ok m \<Longrightarrow> pool_ok (PushCommitMsg m c)"
  by (simp_all add: pool_ok_def PushPreprepareMsg_def PushPrepareMsg_def PushCommitMsg_def
      preprepares.PushItem_heap prepares.PushItem_heap commits.PushItem_heap)

lemma Push_sets [simp]:
  "set (preprepares (PushPreprepareMsg m pp)) = insert pp (set (preprepares m))"
  "prepares (PushPreprepareMsg m pp) = prepares m"
  "commits (PushPreprepareMsg m pp) = commits m"
  "set (prepares (PushPrepareMsg m p)) = insert p (set (prepares m))"
  "preprepares (PushPrepareMsg m p) = preprepares m"
  "commits (PushPrepareMsg m p) = commits m"
  "set (commits (PushCommitMsg m c)) = insert c (set (commits m))"
  "preprepares (PushCommitMsg m c) = preprepares m"
  "prepares (PushCommitMsg m c) = prepares m"
  using preprepares.PushItem_mset [of pp "preprepares m"] prepares.PushItem_mset [of p "prepares m"]
    commits.PushItem_mset [of c "commits m"]
  by (auto simp: PushPreprepareMsg_def PushPrepareMsg_def PushCommitMsg_def
      dest!: arg_cong [where f = set_mset])

text \<open>
  A read returns exactly the messages up to the given round, in the order of their rounds, and
  keeps exactly the others.
\<close>

lemma ReadPreprepareMsg_spec:
  assumes "pool_ok m" "ReadPreprepareMsg m vs = (ret, m')"
  shows "mset ret = filter_mset (\<lambda>x. pp_vs x \<le> vs) (mset (preprepares m)) \<and>
     mset (preprepares m') = filter_mset (\<lambda>x. vs < pp_vs x) (mset (preprepares m)) \<and>
     prepares m' = prepares m \<and> commits m' = commits m \<and> pool_ok m' \<and>
     sorted_wrt (\<lambda>x y. pp_vs x \<le> pp_vs y) ret"
proof -
  obtain q where q: "read_loop (PushItem PreprepareMsgLess) (PopItem PreprepareMsgLess) length
      (\<lambda>top. vs < pp_vs top) (length (preprepares m)) (preprepares m) = (ret, q)"
    "m' = m\<lparr>preprepares := q\<rparr>"
    using assms(2) by (auto simp: ReadPreprepareMsg_def split: prod.splits)
  show ?thesis
    using preprepares.heap.read_loop_spec [OF _ order_refl _ q(1)] assms(1) q(2)
    by (auto simp: pool_ok_def PreprepareMsgLess_def not_less)
qed

lemma ReadPrepareMsg_spec:
  assumes "pool_ok m" "ReadPrepareMsg m vs = (ret, m')"
  shows "mset ret = filter_mset (\<lambda>x. p_vs x \<le> vs) (mset (prepares m)) \<and>
     mset (prepares m') = filter_mset (\<lambda>x. vs < p_vs x) (mset (prepares m)) \<and>
     preprepares m' = preprepares m \<and> commits m' = commits m \<and> pool_ok m' \<and>
     sorted_wrt (\<lambda>x y. p_vs x \<le> p_vs y) ret"
proof -
  obtain q where q: "read_loop (PushItem PrepareMsgLess) (PopItem PrepareMsgLess) length
      (\<lambda>top. vs < p_vs top) (length (prepares m)) (prepares m) = (ret, q)"
    "m' = m\<lparr>prepares := q\<rparr>"
    using assms(2) by (auto simp: ReadPrepareMsg_def split: prod.splits)
  show ?thesis
    using prepares.heap.read_loop_spec [OF _ order_refl _ q(1)] assms(1) q(2)
    by (auto simp: pool_ok_def PrepareMsgLess_def not_less)
qed

lemma ReadCommitMsg_spec:
  assumes "pool_ok m" "ReadCommitMsg m vs = (ret, m')"
  shows "mset ret = filter_mset (\<lambda>x. c_vs x \<le> vs) (mset (commits m)) \<and>
     mset (commits m') = filter_mset (\<lambda>x. vs < c_vs x) (mset (commits m)) \<and>
     preprepares m' = preprepares m \<and> prepares m' = prepares m \<and> pool_ok m' \<and>
     sorted_wrt (\<lambda>x y. c_vs x \<le> c_vs y) ret"
proof -
  obtain q where q: "read_loop (PushItem CommitMsgLess) (PopItem CommitMsgLess) length
      (\<lambda>top. vs < c_vs top) (length (commits m)) (commits m) = (ret, q)"
    "m' = m\<lparr>commits := q\<rparr>"
    using assms(2) by (auto simp: ReadCommitMsg_def split: prod.splits)
  show ?thesis
    using commits.heap.read_loop_spec [OF _ order_refl _ q(1)] assms(1) q(2)
    by (auto simp: pool_ok_def CommitMsgLess_def not_less)
qed

end
