(* ===== verification/PbftMeta.thy ===== *)
theory PbftMeta
  imports MsgPool Act
begin

text \<open>
  The metadata of one replica's consensus (\<open>consensus/pbft/pbftmeta.go\<close>): the current round, its
  stage, the accepted proposal, the votes collected, and the catch-up state; and the operations
  that move it. Only these operations and the handlers of \<open>Node\<close> change it.
\<close>

section \<open>State\<close>

datatype stage = stagePreprepare | stagePrepare | stageCommit | stageNewView | stageViewChange

text \<open>
  Of the configuration the consensus reads the number of nodes and the block interval
  (milliseconds), of the local parameters the identity of the node. The vote sets are maps to
  empty structs.
\<close>

record consensusMeta =
  BlockInterval :: int
  lp_ShardID :: int
  lp_NodeID :: int
  f :: int
  leader :: int
  closed :: bool
  msgPool :: MsgPool
  proposed :: bool
  curViewSeq :: ViewSeq
  stage_of :: stage
  curPreprepare :: "PreprepareMsg option"
  lastProposal :: "block option"
  lastProposeTime :: time
  prepareSet :: "NodeInfo set"
  commitSet :: "NodeInfo set"
  latestViewSeq :: ViewSeq
  catchupStarted :: bool

definition initialLeader :: int where
  "initialLeader = 0"

definition catchUpThreshold :: int where
  "catchUpThreshold = 5"

definition newConsensusMeta :: "int \<Rightarrow> int \<Rightarrow> int \<Rightarrow> int \<Rightarrow> time \<Rightarrow> consensusMeta" where
  "newConsensusMeta nodeNum blockInterval shardID nodeID now =
     \<lparr>BlockInterval = blockInterval, lp_ShardID = shardID, lp_NodeID = nodeID,
      f = quot (i64 (nodeNum - 1)) 3, leader = initialLeader, closed = False,
      msgPool = NewMsgPool, proposed = False, curViewSeq = ViewSeq 0 0,
      stage_of = stagePreprepare, curPreprepare = None, lastProposal = None,
      lastProposeTime = now, prepareSet = {}, commitSet = {},
      latestViewSeq = ViewSeq 0 0, catchupStarted = False\<rparr>"

section \<open>Operations\<close>

text \<open>
  \<open>curateMsg\<close>: the first message of this round from the leader becomes the proposal; then the
  votes of this round with the proposal's digest are collected. What the pool returns and is not
  used is dropped.
\<close>

definition accept_preprepare :: "consensusMeta \<Rightarrow> consensusMeta" where
  "accept_preprepare c =
     (if curPreprepare c = None then
        let (ppMsgList, pool) = ReadPreprepareMsg (msgPool c) (curViewSeq c)
        in c\<lparr>msgPool := pool,
             curPreprepare := find (\<lambda>m. \<not> (Compare (curViewSeq c) (pp_vs m) \<noteq> 0 \<or>
                                            pp_NodeID m \<noteq> leader c)) ppMsgList\<rparr>
      else c)"

definition collect_prepares :: "PreprepareMsg \<Rightarrow> consensusMeta \<Rightarrow> consensusMeta" where
  "collect_prepares pp c =
     (let (pMsgList, pool) = ReadPrepareMsg (msgPool c) (curViewSeq c)
      in c\<lparr>msgPool := pool,
           prepareSet := fold (\<lambda>m s. if Compare (curViewSeq c) (p_vs m) \<noteq> 0 \<or>
                                         p_Digest m \<noteq> pp_Digest pp then s
                                      else insert (NodeInfo (p_NodeID m) (p_ShardID m)) s)
                           pMsgList (prepareSet c)\<rparr>)"

definition collect_commits :: "PreprepareMsg \<Rightarrow> consensusMeta \<Rightarrow> consensusMeta" where
  "collect_commits pp c =
     (let (cMsgList, pool) = ReadCommitMsg (msgPool c) (curViewSeq c)
      in c\<lparr>msgPool := pool,
           commitSet := fold (\<lambda>m s. if Compare (curViewSeq c) (c_vs m) \<noteq> 0 \<or>
                                        c_Digest m \<noteq> pp_Digest pp then s
                                     else insert (NodeInfo (c_NodeID m) (c_ShardID m)) s)
                          cMsgList (commitSet c)\<rparr>)"

definition curateMsg :: "consensusMeta \<Rightarrow> consensusMeta" where
  "curateMsg c =
     (let c1 = accept_preprepare c
      in case curPreprepare c1 of
           None \<Rightarrow> c1
         | Some pp \<Rightarrow> collect_commits pp (collect_prepares pp c1))"

text \<open>\<open>2*c.f+1\<close>, on 64-bit integers.\<close>

definition quorum :: "consensusMeta \<Rightarrow> int" where
  "quorum c = i64 (i64 (2 * f c) + 1)"

definition incSeq :: "ViewSeq \<Rightarrow> ViewSeq" where
  "incSeq vs = ViewSeq (View vs) (i64 (Seq vs + 1))"

text \<open>
  \<open>step2Next\<close> returns the old and the new stage. At the commit stage the proposal is taken from
  \<open>curPreprepare\<close>, whose pointer is dereferenced.
\<close>

definition step2Next :: "consensusMeta \<Rightarrow> (stage \<times> stage) result \<times> consensusMeta" where
  "step2Next c =
     (case stage_of c of
        stagePreprepare \<Rightarrow>
          (if curPreprepare c = None then (Inr (stagePreprepare, stagePreprepare), c)
           else (Inr (stagePreprepare, stagePrepare), c\<lparr>stage_of := stagePrepare\<rparr>))
      | stagePrepare \<Rightarrow>
          (if int (card (prepareSet c)) < quorum c then (Inr (stagePrepare, stagePrepare), c)
           else (Inr (stagePrepare, stageCommit), c\<lparr>stage_of := stageCommit\<rparr>))
      | stageCommit \<Rightarrow>
          (if int (card (commitSet c)) < quorum c then (Inr (stageCommit, stageCommit), c)
           else case curPreprepare c of
             None \<Rightarrow> (Inl (Panic ''nil pointer dereference''), c\<lparr>stage_of := stagePreprepare\<rparr>)
           | Some pp \<Rightarrow>
               (Inr (stageCommit, stagePreprepare),
                c\<lparr>stage_of := stagePreprepare, lastProposal := Some (pp_P pp),
                  curPreprepare := None, prepareSet := {}, commitSet := {}, proposed := False,
                  curViewSeq := incSeq (curViewSeq c)\<rparr>))
      | _ \<Rightarrow> (Inl (Errorf ''invalid stage''), c))"

definition updateLatestViewSeq :: "consensusMeta \<Rightarrow> int \<Rightarrow> int \<Rightarrow> consensusMeta" where
  "updateLatestViewSeq c view seq =
     (if Compare (latestViewSeq c) (ViewSeq view seq) = - 1
      then c\<lparr>latestViewSeq := ViewSeq view seq\<rparr> else c)"

definition catchupReady :: "consensusMeta \<Rightarrow> bool" where
  "catchupReady c \<longleftrightarrow>
     (if catchupStarted c then False
      else View (latestViewSeq c) = View (curViewSeq c) \<and>
           i64 (Seq (curViewSeq c) + catchUpThreshold) \<le> Seq (latestViewSeq c))"

definition catchupOverAndReset :: "consensusMeta \<Rightarrow> ViewSeq \<Rightarrow> consensusMeta" where
  "catchupOverAndReset c vs =
     c\<lparr>catchupStarted := False, curViewSeq := vs, stage_of := stagePreprepare,
       lastProposal := None, curPreprepare := None, prepareSet := {}, commitSet := {},
       proposed := False\<rparr>"

section \<open>The invariant\<close>

text \<open>
  The pool is a set of heaps; the vote sets are finite; a proposal is accepted only for the
  current round and from the leader; a replica past the preprepare stage has one; votes are
  held only with one; and the stages of a view change are never entered.
\<close>

definition meta_ok :: "consensusMeta \<Rightarrow> bool" where
  "meta_ok c \<longleftrightarrow>
     pool_ok (msgPool c) \<and> finite (prepareSet c) \<and> finite (commitSet c) \<and>
     (\<forall>pp. curPreprepare c = Some pp \<longrightarrow>
        pp_vs pp = curViewSeq c \<and> pp_NodeID pp = leader c) \<and>
     (curPreprepare c = None \<longrightarrow>
        stage_of c = stagePreprepare \<and> prepareSet c = {} \<and> commitSet c = {}) \<and>
     stage_of c \<in> {stagePreprepare, stagePrepare, stageCommit}"

lemma meta_okD:
  assumes "meta_ok c"
  shows "pool_ok (msgPool c)" "finite (prepareSet c)" "finite (commitSet c)"
    and "curPreprepare c = Some pp \<Longrightarrow> pp_vs pp = curViewSeq c"
    and "curPreprepare c = Some pp \<Longrightarrow> pp_NodeID pp = leader c"
    and "curPreprepare c = None \<Longrightarrow> stage_of c = stagePreprepare \<and> prepareSet c = {} \<and> commitSet c = {}"
    and "stage_of c = stagePreprepare \<or> stage_of c = stagePrepare \<or> stage_of c = stageCommit"
  using assms by (auto simp: meta_ok_def)

lemma meta_ok_new: "meta_ok (newConsensusMeta n b s i now)"
  by (simp add: meta_ok_def newConsensusMeta_def)

lemma collect_fold:
  "fold (\<lambda>m s. if bad m then s else insert (g m) s) xs s = s \<union> g ` {m \<in> set xs. \<not> bad m}"
  by (induction xs arbitrary: s) auto

lemma find_Some_iff': "find P xs = Some x \<Longrightarrow> x \<in> set xs \<and> P x"
  by (induction xs) (auto split: if_splits)

text \<open>What \<open>accept_preprepare\<close> does: only the pool and the proposal change.\<close>

lemma accept_preprepare_frame [simp]:
  "BlockInterval (accept_preprepare c) = BlockInterval c"
  "lp_ShardID (accept_preprepare c) = lp_ShardID c" "lp_NodeID (accept_preprepare c) = lp_NodeID c"
  "f (accept_preprepare c) = f c" "leader (accept_preprepare c) = leader c"
  "curViewSeq (accept_preprepare c) = curViewSeq c" "stage_of (accept_preprepare c) = stage_of c"
  "prepareSet (accept_preprepare c) = prepareSet c" "commitSet (accept_preprepare c) = commitSet c"
  "closed (accept_preprepare c) = closed c" "proposed (accept_preprepare c) = proposed c"
  "latestViewSeq (accept_preprepare c) = latestViewSeq c"
  "catchupStarted (accept_preprepare c) = catchupStarted c"
  "lastProposal (accept_preprepare c) = lastProposal c"
  by (simp_all add: accept_preprepare_def split: prod.splits)

lemma accept_preprepare_spec:
  assumes "pool_ok (msgPool c)"
  shows "pool_ok (msgPool (accept_preprepare c))"
    and "prepares (msgPool (accept_preprepare c)) = prepares (msgPool c)"
    and "commits (msgPool (accept_preprepare c)) = commits (msgPool c)"
    and "set (preprepares (msgPool (accept_preprepare c))) \<subseteq> set (preprepares (msgPool c))"
    and "curPreprepare c = Some pp \<Longrightarrow> curPreprepare (accept_preprepare c) = Some pp"
    and "curPreprepare c = None \<Longrightarrow> curPreprepare (accept_preprepare c) = Some pp \<Longrightarrow>
           pp \<in> set (preprepares (msgPool c)) \<and> pp_vs pp = curViewSeq c \<and> pp_NodeID pp = leader c"
proof -
  obtain ret pool where r: "ReadPreprepareMsg (msgPool c) (curViewSeq c) = (ret, pool)" by force
  note s = ReadPreprepareMsg_spec [OF assms r]
  have sets: "set ret \<subseteq> set (preprepares (msgPool c))"
    "set (preprepares pool) \<subseteq> set (preprepares (msgPool c))"
    using s by (metis (no_types, lifting) mset_eq_setD set_mset_filter set_mset_mset mem_Collect_eq subsetI)+
  show "pool_ok (msgPool (accept_preprepare c))"
    and "prepares (msgPool (accept_preprepare c)) = prepares (msgPool c)"
    and "commits (msgPool (accept_preprepare c)) = commits (msgPool c)"
    and "set (preprepares (msgPool (accept_preprepare c))) \<subseteq> set (preprepares (msgPool c))"
    and "curPreprepare c = Some pp \<Longrightarrow> curPreprepare (accept_preprepare c) = Some pp"
    using assms s sets by (simp_all add: accept_preprepare_def r)
  show "pp \<in> set (preprepares (msgPool c)) \<and> pp_vs pp = curViewSeq c \<and> pp_NodeID pp = leader c"
    if "curPreprepare c = None" "curPreprepare (accept_preprepare c) = Some pp"
    using that sets by (auto simp: accept_preprepare_def r dest!: find_Some_iff')
qed

text \<open>The votes of the current round for a digest that a pool holds.\<close>

definition prepare_voters :: "MsgPool \<Rightarrow> ViewSeq \<Rightarrow> bytes \<Rightarrow> NodeInfo set" where
  "prepare_voters pool vs d =
     (\<lambda>m. NodeInfo (p_NodeID m) (p_ShardID m)) ` {m \<in> set (prepares pool). p_vs m = vs \<and> p_Digest m = d}"

definition commit_voters :: "MsgPool \<Rightarrow> ViewSeq \<Rightarrow> bytes \<Rightarrow> NodeInfo set" where
  "commit_voters pool vs d =
     (\<lambda>m. NodeInfo (c_NodeID m) (c_ShardID m)) ` {m \<in> set (commits pool). c_vs m = vs \<and> c_Digest m = d}"

lemma finite_voters [simp]: "finite (prepare_voters pool vs d)" "finite (commit_voters pool vs d)"
  by (simp_all add: prepare_voters_def commit_voters_def)

lemma collect_prepares_eq:
  assumes "pool_ok (msgPool c)"
  shows "\<exists>pool. collect_prepares pp c =
      c\<lparr>msgPool := pool,
        prepareSet := prepareSet c \<union> prepare_voters (msgPool c) (curViewSeq c) (pp_Digest pp)\<rparr> \<and>
    pool_ok pool \<and> preprepares pool = preprepares (msgPool c) \<and> commits pool = commits (msgPool c) \<and>
    set (prepares pool) = {m \<in> set (prepares (msgPool c)). curViewSeq c < p_vs m}"
proof -
  obtain ret pool where r: "ReadPrepareMsg (msgPool c) (curViewSeq c) = (ret, pool)" by force
  note s = ReadPrepareMsg_spec [OF assms r]
  have ret: "set ret = {m \<in> set (prepares (msgPool c)). p_vs m \<le> curViewSeq c}"
    and rest: "set (prepares pool) = {m \<in> set (prepares (msgPool c)). curViewSeq c < p_vs m}"
    using arg_cong [OF conjunct1 [OF s], of set_mset]
      arg_cong [OF conjunct1 [OF conjunct2 [OF s]], of set_mset] by simp_all
  have voters: "{m \<in> set ret. curViewSeq c = p_vs m \<and> p_Digest m = pp_Digest pp} =
      {m \<in> set (prepares (msgPool c)). p_vs m = curViewSeq c \<and> p_Digest m = pp_Digest pp}"
    by (auto simp: ret)
  have "collect_prepares pp c = c\<lparr>msgPool := pool, prepareSet := prepareSet c \<union>
      prepare_voters (msgPool c) (curViewSeq c) (pp_Digest pp)\<rparr>"
    unfolding collect_prepares_def r collect_fold prepare_voters_def by (simp add: voters)
  moreover note s rest
  ultimately show ?thesis by blast
qed

lemma collect_commits_eq:
  assumes "pool_ok (msgPool c)"
  shows "\<exists>pool. collect_commits pp c =
      c\<lparr>msgPool := pool,
        commitSet := commitSet c \<union> commit_voters (msgPool c) (curViewSeq c) (pp_Digest pp)\<rparr> \<and>
    pool_ok pool \<and> preprepares pool = preprepares (msgPool c) \<and> prepares pool = prepares (msgPool c) \<and>
    set (commits pool) = {m \<in> set (commits (msgPool c)). curViewSeq c < c_vs m}"
proof -
  obtain ret pool where r: "ReadCommitMsg (msgPool c) (curViewSeq c) = (ret, pool)" by force
  note s = ReadCommitMsg_spec [OF assms r]
  have ret: "set ret = {m \<in> set (commits (msgPool c)). c_vs m \<le> curViewSeq c}"
    and rest: "set (commits pool) = {m \<in> set (commits (msgPool c)). curViewSeq c < c_vs m}"
    using arg_cong [OF conjunct1 [OF s], of set_mset]
      arg_cong [OF conjunct1 [OF conjunct2 [OF s]], of set_mset] by simp_all
  have voters: "{m \<in> set ret. curViewSeq c = c_vs m \<and> c_Digest m = pp_Digest pp} =
      {m \<in> set (commits (msgPool c)). c_vs m = curViewSeq c \<and> c_Digest m = pp_Digest pp}"
    by (auto simp: ret)
  have "collect_commits pp c = c\<lparr>msgPool := pool, commitSet := commitSet c \<union>
      commit_voters (msgPool c) (curViewSeq c) (pp_Digest pp)\<rparr>"
    unfolding collect_commits_def r collect_fold commit_voters_def by (simp add: voters)
  moreover note s rest
  ultimately show ?thesis by blast
qed

text \<open>\<open>curateMsg\<close> without a proposal changes only the pool's proposals.\<close>

lemma curateMsg_None:
  "curPreprepare (accept_preprepare c) = None \<Longrightarrow> curateMsg c = accept_preprepare c"
  by (simp add: curateMsg_def Let_def)

lemma curateMsg_Some:
  assumes "pool_ok (msgPool c)" and pp: "curPreprepare (accept_preprepare c) = Some pp"
  shows "\<exists>pool. curateMsg c = (accept_preprepare c)
      \<lparr>msgPool := pool,
       prepareSet := prepareSet c \<union> prepare_voters (msgPool c) (curViewSeq c) (pp_Digest pp),
       commitSet := commitSet c \<union> commit_voters (msgPool c) (curViewSeq c) (pp_Digest pp)\<rparr> \<and>
    pool_ok pool \<and> preprepares pool = preprepares (msgPool (accept_preprepare c)) \<and>
    set (prepares pool) = {m \<in> set (prepares (msgPool c)). curViewSeq c < p_vs m} \<and>
    set (commits pool) = {m \<in> set (commits (msgPool c)). curViewSeq c < c_vs m}"
proof -
  let ?a = "accept_preprepare c"
  note a = accept_preprepare_spec [OF assms(1)]
  obtain p1 where p1: "collect_prepares pp ?a = ?a\<lparr>msgPool := p1, prepareSet := prepareSet c \<union>
      prepare_voters (msgPool ?a) (curViewSeq c) (pp_Digest pp)\<rparr>" "pool_ok p1"
    "preprepares p1 = preprepares (msgPool ?a)" "commits p1 = commits (msgPool ?a)"
    "set (prepares p1) = {m \<in> set (prepares (msgPool ?a)). curViewSeq c < p_vs m}"
    using collect_prepares_eq [OF a(1), of pp] by auto
  let ?b = "collect_prepares pp ?a"
  have "pool_ok (msgPool ?b)" by (simp add: p1)
  then obtain p2 where p2: "collect_commits pp ?b = ?b\<lparr>msgPool := p2, commitSet := commitSet ?b \<union>
      commit_voters (msgPool ?b) (curViewSeq ?b) (pp_Digest pp)\<rparr>" "pool_ok p2"
    "preprepares p2 = preprepares (msgPool ?b)" "prepares p2 = prepares (msgPool ?b)"
    "set (commits p2) = {m \<in> set (commits (msgPool ?b)). curViewSeq ?b < c_vs m}"
    using collect_commits_eq [of ?b pp] by blast
  have "curateMsg c = collect_commits pp ?b" by (simp add: curateMsg_def Let_def pp)
  then show ?thesis
    using p1 p2 a by (intro exI [of _ p2]) (simp add: prepare_voters_def commit_voters_def)
qed

lemma curateMsg_frame:
  "lp_ShardID (curateMsg c) = lp_ShardID c" "lp_NodeID (curateMsg c) = lp_NodeID c"
  "f (curateMsg c) = f c" "leader (curateMsg c) = leader c" "closed (curateMsg c) = closed c"
  "curViewSeq (curateMsg c) = curViewSeq c" "stage_of (curateMsg c) = stage_of c"
  "curPreprepare (curateMsg c) = curPreprepare (accept_preprepare c)"
  "latestViewSeq (curateMsg c) = latestViewSeq c" "lastProposal (curateMsg c) = lastProposal c"
  "proposed (curateMsg c) = proposed c" "catchupStarted (curateMsg c) = catchupStarted c"
  by (simp_all add: curateMsg_def Let_def collect_commits_def collect_prepares_def
      split: prod.splits option.splits)

lemma curateMsg_meta_ok:
  assumes "meta_ok c"
  shows "meta_ok (curateMsg c)"
proof -
  note c = meta_okD [OF assms]
  note a = accept_preprepare_spec [OF c(1)]
  show ?thesis
  proof (cases "curPreprepare (accept_preprepare c)")
    case None
    moreover have "curPreprepare c = None" using None a(5) by (cases "curPreprepare c") auto
    ultimately show ?thesis
      using c a(1) by (simp add: curateMsg_None meta_ok_def)
  next
    case (Some pp)
    obtain pool where p: "curateMsg c = (accept_preprepare c)
      \<lparr>msgPool := pool,
       prepareSet := prepareSet c \<union> prepare_voters (msgPool c) (curViewSeq c) (pp_Digest pp),
       commitSet := commitSet c \<union> commit_voters (msgPool c) (curViewSeq c) (pp_Digest pp)\<rparr>"
      "pool_ok pool" using curateMsg_Some [OF c(1) Some] by blast
    have "pp_vs pp = curViewSeq c \<and> pp_NodeID pp = leader c"
      using c(4,5) a(5,6) Some by (cases "curPreprepare c") auto
    then show ?thesis using p c(2,3,7) Some by (auto simp: meta_ok_def)
  qed
qed

lemma step2Next_meta_ok:
  assumes "meta_ok c" "step2Next c = (r, c')"
  shows "meta_ok c' \<and> (\<exists>s. r = Inr s)"
  using assms by (auto simp: step2Next_def meta_ok_def split: stage.splits if_splits option.splits)

lemma catchupOverAndReset_meta_ok: "meta_ok c \<Longrightarrow> meta_ok (catchupOverAndReset c vs)"
  by (simp add: meta_ok_def catchupOverAndReset_def)

lemma updateLatestViewSeq_meta_ok: "meta_ok c \<Longrightarrow> meta_ok (updateLatestViewSeq c v s)"
  by (simp add: meta_ok_def updateLatestViewSeq_def)

end
