(* ===== verification/Node.thy ===== *)
theory Node
  imports PbftMeta
begin

text \<open>
  The consensus node (\<open>consensus/pbft/node.go\<close>): the message handlers, the loop that steps the
  stages, proposing, catching up, and the body of the run loop. What happens inside the shard
  is the record \<open>shard_ops\<close> of the operations the node calls, over the state \<open>'w\<close> that the chain,
  the transaction pool and the migration metadata form together.
\<close>

section \<open>State and interface\<close>

record 'w shard_ops =
  BuildProposal :: "time \<Rightarrow> ('w, block option) act"
  ValidateProposal :: "block \<Rightarrow> ('w, unit) act"
  ProposalCommitAndDeliver :: "time \<Rightarrow> bool \<Rightarrow> block \<Rightarrow> ('w, unit) act"
  HandleMsgOutsideShard :: "WrappedMsg \<Rightarrow> ('w, unit) act"
  GetBlocksAfterHeight :: "int \<Rightarrow> ('w, block list) act"
  AddBlock :: "block \<Rightarrow> ('w, unit) act"
  CurNumber :: "'w \<Rightarrow> int"

text \<open>The environment: the codec, the library, the time layout, the CSV writer, the operations.\<close>

record 'w node_env =
  e_codec :: codec
  e_lib :: lib
  e_fmt_time :: "time \<Rightarrow> string"
  e_write_line :: "string list \<Rightarrow> unit result"
  e_ops :: "'w shard_ops"

record 'w node =
  resolver :: TopoGetter
  pbftMeta :: consensusMeta
  world :: 'w

abbreviation metaA :: "(consensusMeta \<Rightarrow> consensusMeta) \<Rightarrow> ('w node, unit) act" where
  "metaA h \<equiv> modA (\<lambda>n. n\<lparr>pbftMeta := h (pbftMeta n)\<rparr>)"

abbreviation worldA :: "('w, 'a) act \<Rightarrow> ('w node, 'a) act" where
  "worldA m \<equiv> zoomA world (\<lambda>w n. n\<lparr>world := w\<rparr>) m"

section \<open>Message handlers\<close>

definition handleStopConsensus :: "('w node, unit) act" where
  "handleStopConsensus = metaA (\<lambda>c. c\<lparr>closed := True\<rparr>)"

definition handlePreprepare :: "'w node_env \<Rightarrow> bytes \<Rightarrow> ('w node, unit) act" where
  "handlePreprepare E payload =
     bindA (liftA (orErr ''decode preprepare msg'' (dec_preprepare (e_codec E) payload))) (\<lambda>ppMsg.
     bindA (getA (\<lambda>n. curViewSeq (pbftMeta n))) (\<lambda>cur.
     if 0 < Compare cur (ViewSeq (pp_View ppMsg) (pp_Seq ppMsg)) then retA ()
     else
       thenA (worldA (ValidateProposal (e_ops E) (pp_P ppMsg)))
       (metaA (\<lambda>c. updateLatestViewSeq (c\<lparr>msgPool := PushPreprepareMsg (msgPool c) ppMsg\<rparr>)
                     (pp_View ppMsg) (pp_Seq ppMsg)))))"

definition handlePrepare :: "'w node_env \<Rightarrow> bytes \<Rightarrow> ('w node, unit) act" where
  "handlePrepare E payload =
     bindA (liftA (orErr ''decode prepare msg'' (dec_prepare (e_codec E) payload))) (\<lambda>pMsg.
     bindA (getA (\<lambda>n. curViewSeq (pbftMeta n))) (\<lambda>cur.
     if 0 < Compare cur (ViewSeq (p_View pMsg) (p_Seq pMsg)) then retA ()
     else metaA (\<lambda>c. c\<lparr>msgPool := PushPrepareMsg (msgPool c) pMsg\<rparr>)))"

definition handleCommit :: "'w node_env \<Rightarrow> bytes \<Rightarrow> ('w node, unit) act" where
  "handleCommit E payload =
     bindA (liftA (orErr ''decode commit msg'' (dec_commit (e_codec E) payload))) (\<lambda>cMsg.
     bindA (getA (\<lambda>n. curViewSeq (pbftMeta n))) (\<lambda>cur.
     if 0 < Compare cur (ViewSeq (c_View cMsg) (c_Seq cMsg)) then retA ()
     else metaA (\<lambda>c. c\<lparr>msgPool := PushCommitMsg (msgPool c) cMsg\<rparr>)))"

definition handleCatchupReq :: "'w node_env \<Rightarrow> bytes \<Rightarrow> ('w node, unit) act" where
  "handleCatchupReq E payload =
     bindA (liftA (orErr ''decode catchup req msg'' (dec_catchup_req (e_codec E) payload))) (\<lambda>crMsg.
     bindA (worldA (GetBlocksAfterHeight (e_ops E) (crq_StartBlockHeight crMsg))) (\<lambda>blocks.
     bindA (getA pbftMeta) (\<lambda>c.
     bindA (liftA (WrapMsg (e_codec E) (MCatchupResp
       \<lparr>crs_Proposals = blocks, crs_NextSeq = Seq (curViewSeq c), crs_NextView = View (curViewSeq c),
        crs_ShardID = lp_ShardID c, crs_NodeID = lp_NodeID c\<rparr>))) (\<lambda>w.
     sendA [(NodeInfo (crq_NodeID crMsg) (crq_ShardID crMsg), w)]))))"

definition handleCatchupResp :: "'w node_env \<Rightarrow> bytes \<Rightarrow> ('w node, unit) act" where
  "handleCatchupResp E payload =
     bindA (liftA (orErr ''decode catchup resp msg'' (dec_catchup_resp (e_codec E) payload))) (\<lambda>crMsg.
     bindA (getA pbftMeta) (\<lambda>c.
     if leader c \<noteq> crs_NodeID crMsg then
       errA ''the catchup response message is not from the leader''
     else if \<not> catchupStarted c then errA ''catchup resp message not started''
     else
       thenA (forA (\<lambda>b. worldA (AddBlock (e_ops E) b)) (crs_Proposals crMsg))
       (metaA (\<lambda>c. catchupOverAndReset c (ViewSeq (crs_NextView crMsg) (crs_NextSeq crMsg))))))"

text \<open>\<open>pbftMsgHandler\<close> with its default.\<close>

definition handleMessage :: "'w node_env \<Rightarrow> WrappedMsg \<Rightarrow> ('w node, unit) act" where
  "handleMessage E msg =
     (if MsgType msg = ''StopConsensus'' then handleStopConsensus
      else if MsgType msg = ''Preprepare'' then handlePreprepare E (Payload msg)
      else if MsgType msg = ''Prepare'' then handlePrepare E (Payload msg)
      else if MsgType msg = ''Commit'' then handleCommit E (Payload msg)
      else if MsgType msg = ''CatchupReq'' then handleCatchupReq E (Payload msg)
      else if MsgType msg = ''CatchupResp'' then handleCatchupResp E (Payload msg)
      else worldA (HandleMsgOutsideShard (e_ops E) msg))"

section \<open>Stepping, proposing, catching up\<close>

definition broadcastMsgInnerShard :: "'w node_env \<Rightarrow> message \<Rightarrow> ('w node, unit) act" where
  "broadcastMsgInnerShard E msg =
     bindA (liftA (WrapMsg (e_codec E) msg)) (\<lambda>w.
     bindA (getA (\<lambda>n. (resolver n, lp_ShardID (pbftMeta n)))) (\<lambda>(r, shard).
     bindA (liftA (GetNodesInShard r shard)) (\<lambda>nodes.
     sendA (map (\<lambda>d. (d, w)) nodes))))"

text \<open>\<open>curPreprepare\<close> is a pointer; the broadcasts dereference it.\<close>

definition curPreprepareA :: "('w node, PreprepareMsg) act" where
  "curPreprepareA =
     bindA (getA (\<lambda>n. curPreprepare (pbftMeta n))) (\<lambda>p.
     case p of None \<Rightarrow> panicA ''nil pointer dereference'' | Some pp \<Rightarrow> retA pp)"

definition prepareBroadcast :: "'w node_env \<Rightarrow> ('w node, unit) act" where
  "prepareBroadcast E =
     bindA curPreprepareA (\<lambda>pp.
     bindA (getA pbftMeta) (\<lambda>c.
     broadcastMsgInnerShard E (MPrepare
       \<lparr>p_Digest = pp_Digest pp, p_Seq = pp_Seq pp, p_View = pp_View pp,
        p_ShardID = lp_ShardID c, p_NodeID = lp_NodeID c\<rparr>)))"

definition commitBroadcast :: "'w node_env \<Rightarrow> ('w node, unit) act" where
  "commitBroadcast E =
     bindA curPreprepareA (\<lambda>pp.
     bindA (getA pbftMeta) (\<lambda>c.
     broadcastMsgInnerShard E (MCommit
       \<lparr>c_Digest = pp_Digest pp, c_Seq = pp_Seq pp, c_View = pp_View pp,
        c_ShardID = lp_ShardID c, c_NodeID = lp_NodeID c\<rparr>)))"

definition recordBlock :: "'w node_env \<Rightarrow> block \<Rightarrow> ('w node, unit) act" where
  "recordBlock E b =
     bindA (liftA (ConvertBlock2Line (e_lib E) (e_fmt_time E) b)) (\<lambda>line.
     liftA (e_write_line E line))"

definition step2NextA :: "('w node, stage \<times> stage) act" where
  "step2NextA = zoomA pbftMeta (\<lambda>c n. n\<lparr>pbftMeta := c\<rparr>)
     (\<lambda>c. case step2Next c of (r, c') \<Rightarrow> (r, c', []))"

text \<open>The case \<open>stagePreprepare\<close>: the round is over, its proposal is committed and delivered.\<close>

definition finishRound :: "'w node_env \<Rightarrow> time \<Rightarrow> ('w node, unit) act" where
  "finishRound E now =
     bindA (getA pbftMeta) (\<lambda>c.
     case lastProposal c of
       None \<Rightarrow> panicA ''nil pointer dereference''
     | Some p \<Rightarrow>
         thenA (worldA (ProposalCommitAndDeliver (e_ops E) now (leader c = lp_NodeID c) p))
         (if leader c \<noteq> lp_NodeID c then retA () else recordBlock E p))"

text \<open>
  The stages advance at most three times in one call; the fuel is shown never to run out.
\<close>

fun step_stages :: "nat \<Rightarrow> 'w node_env \<Rightarrow> time \<Rightarrow> ('w node, unit) act" where
  "step_stages 0 E now = panicA ''out of fuel''"
| "step_stages (Suc k) E now =
     bindA step2NextA (\<lambda>(oldStage, newStage).
     if oldStage = newStage then retA ()
     else case newStage of
       stagePreprepare \<Rightarrow> finishRound E now
     | stagePrepare \<Rightarrow> thenA (prepareBroadcast E) (step_stages k E now)
     | stageCommit \<Rightarrow> thenA (commitBroadcast E) (step_stages k E now)
     | _ \<Rightarrow> errA ''unknown stage'')"

definition step2NextStage :: "'w node_env \<Rightarrow> time \<Rightarrow> ('w node, unit) act" where
  "step2NextStage E now = step_stages 3 E now"

definition propose :: "'w node_env \<Rightarrow> time \<Rightarrow> ('w node, unit) act" where
  "propose E now =
     bindA (getA pbftMeta) (\<lambda>c.
     if now - lastProposeTime c < i64 (BlockInterval c * 1000000) then retA ()
     else
       bindA (worldA (BuildProposal (e_ops E) now)) (\<lambda>p.
       case p of
         None \<Rightarrow> retA ()
       | Some b \<Rightarrow>
           bindA (liftA (proposal_Hash (e_lib E) b)) (\<lambda>digest.
           thenA (broadcastMsgInnerShard E (MPreprepare
             \<lparr>pp_P = b, pp_Digest = digest, pp_Seq = Seq (curViewSeq c),
              pp_View = View (curViewSeq c), pp_ShardID = 0, pp_NodeID = 0\<rparr>))
           (metaA (\<lambda>c. c\<lparr>proposed := True, lastProposeTime := now\<rparr>)))))"

definition catchUpStart :: "'w node_env \<Rightarrow> ('w node, unit) act" where
  "catchUpStart E =
     bindA (getA (\<lambda>n. n)) (\<lambda>n.
     bindA (liftA (GetLeader (resolver n) (lp_ShardID (pbftMeta n)))) (\<lambda>l.
     bindA (liftA (WrapMsg (e_codec E) (MCatchupReq
       \<lparr>crq_StartBlockHeight = i64 (i64 (CurNumber (e_ops E) (world n)) + 1),
        crq_ShardID = lp_ShardID (pbftMeta n), crq_NodeID = lp_NodeID (pbftMeta n)\<rparr>))) (\<lambda>w.
     thenA (sendA [(l, w)]) (metaA (\<lambda>c. c\<lparr>catchupStarted := True\<rparr>)))))"

text \<open>The body of \<open>run\<close>: one tick with the drained message buffer.\<close>

definition leaderOrCatchup :: "'w node_env \<Rightarrow> time \<Rightarrow> ('w node, unit) act" where
  "leaderOrCatchup E now =
     bindA (getA pbftMeta) (\<lambda>c.
     if lp_NodeID c = leader c then
       (if stage_of c = stagePreprepare \<and> \<not> proposed c then logA (propose E now) else retA ())
     else if catchupReady c then logA (catchUpStart E)
     else retA ())"

definition tick :: "'w node_env \<Rightarrow> WrappedMsg list \<Rightarrow> time \<Rightarrow> ('w node, unit) act" where
  "tick E msgList now =
     thenA (forA (\<lambda>msg. logA (handleMessage E msg)) msgList)
     (thenA (metaA curateMsg)
     (thenA (logA (step2NextStage E now))
     (leaderOrCatchup E now)))"

text \<open>\<open>run\<close> on a sequence of ticks; a closed node does nothing more.\<close>

fun run :: "'w node_env \<Rightarrow> (WrappedMsg list \<times> time) list \<Rightarrow> ('w node, unit) act" where
  "run E [] = retA ()"
| "run E ((msgs, now) # ts) =
     bindA (getA (\<lambda>n. closed (pbftMeta n))) (\<lambda>stop.
     if stop then retA () else thenA (tick E msgs now) (run E ts))"

section \<open>The node's invariant\<close>

definition node_ok :: "'w node \<Rightarrow> bool" where
  "node_ok n \<longleftrightarrow> meta_ok (pbftMeta n)"

named_theorems node_keeps \<open>every handler keeps the invariant of the metadata\<close>

lemma keeps_metaA: "(\<And>c. meta_ok c \<Longrightarrow> meta_ok (h c)) \<Longrightarrow> keeps node_ok (metaA h)"
  by (rule keeps_modA) (simp add: node_ok_def)

lemma keeps_worldA [node_keeps]: "keeps node_ok (worldA m)"
  by (rule keeps_zoomA) (simp add: node_ok_def)

lemma meta_ok_push [simp]:
  "meta_ok c \<Longrightarrow> meta_ok (c\<lparr>msgPool := PushPreprepareMsg (msgPool c) pp\<rparr>)"
  "meta_ok c \<Longrightarrow> meta_ok (c\<lparr>msgPool := PushPrepareMsg (msgPool c) p\<rparr>)"
  "meta_ok c \<Longrightarrow> meta_ok (c\<lparr>msgPool := PushCommitMsg (msgPool c) cm\<rparr>)"
  by (simp_all add: meta_ok_def)

lemma meta_ok_flags [simp]:
  "meta_ok (c\<lparr>closed := b\<rparr>) = meta_ok c" "meta_ok (c\<lparr>catchupStarted := b\<rparr>) = meta_ok c"
  "meta_ok (c\<lparr>proposed := b\<rparr>) = meta_ok c" "meta_ok (c\<lparr>lastProposeTime := t\<rparr>) = meta_ok c"
  by (simp_all add: meta_ok_def)

lemma handleMessage_keeps [node_keeps]: "keeps node_ok (handleMessage E msg)"
  unfolding handleMessage_def handleStopConsensus_def handlePreprepare_def handlePrepare_def
    handleCommit_def handleCatchupReq_def handleCatchupResp_def
  by (intro keeps_intros node_keeps keeps_metaA)
    (simp_all add: updateLatestViewSeq_meta_ok catchupOverAndReset_meta_ok)

lemma broadcast_keeps [node_keeps]: "keeps node_ok (broadcastMsgInnerShard E msg)"
  unfolding broadcastMsgInnerShard_def by (auto intro!: keeps_intros split: prod.splits)

lemma curPreprepareA_keeps [node_keeps]: "keeps node_ok curPreprepareA"
  unfolding curPreprepareA_def by (auto intro!: keeps_intros split: option.splits)

lemma broadcasts_keep [node_keeps]:
  "keeps node_ok (prepareBroadcast E)" "keeps node_ok (commitBroadcast E)"
  "keeps node_ok (recordBlock E b)"
  unfolding prepareBroadcast_def commitBroadcast_def recordBlock_def
  by (intro keeps_intros node_keeps)+

lemma step2NextA_keeps [node_keeps]: "keeps node_ok step2NextA"
  unfolding step2NextA_def
  by (rule keeps_zoomA) (auto simp: node_ok_def step2Next_meta_ok split: prod.splits)

lemma finishRound_keeps [node_keeps]: "keeps node_ok (finishRound E now)"
  unfolding finishRound_def
  by (intro keeps_intros) (auto intro!: keeps_intros node_keeps split: option.splits)

lemma step_stages_keeps [node_keeps]: "keeps node_ok (step_stages k E now)"
  by (induction k)
    (auto intro!: keeps_intros node_keeps split: prod.splits stage.splits)

lemma propose_keeps [node_keeps]: "keeps node_ok (propose E now)"
  unfolding propose_def
  by (intro keeps_intros)
    (auto intro!: keeps_intros node_keeps keeps_metaA split: option.splits)

lemma catchUpStart_keeps [node_keeps]: "keeps node_ok (catchUpStart E)"
  unfolding catchUpStart_def by (intro keeps_intros keeps_metaA) simp

lemma tick_keeps [node_keeps]: "keeps node_ok (tick E msgs now)"
  unfolding tick_def leaderOrCatchup_def step2NextStage_def
  by (intro keeps_intros node_keeps keeps_metaA curateMsg_meta_ok)

end
