(* ===== verification/ShardOps.thy ===== *)
theory ShardOps
  imports TxBlockOp Node
begin

text \<open>
  The operations of a node inside its shard for static and dynamic sharding
  (\<open>consensus/pbft/insideop\<close>), its handlers of messages from outside the shard
  (\<open>consensus/pbft/outsideop\<close>), and the construction of a node, which chooses among them.
\<close>

section \<open>Packing transactions that belong here\<close>

definition fetchTxsAndAccountStates ::
    "('db, 'd, 'tdb, 't, 'ns) shard_env \<Rightarrow> ('db, 'tdb) chain \<Rightarrow> int \<Rightarrow> TxPool \<Rightarrow>
     (transaction list \<times> (address, int) gomap) result \<times> TxPool" where
  "fetchTxsAndAccountStates E c n t =
     (case PackTxs (c_lib (s_chain E)) n t of
        (Inl e, t') \<Rightarrow> (Inl e, t')
      | (Inr txs, t') \<Rightarrow>
          (if txs = [] then (Inr ([], []), t')
           else (bindR (getAccountLocationsInTxs (s_chain E) c txs) (\<lambda>accountLoc. Inr (txs, accountLoc)), t')))"

lemma fetch_queue:
  assumes "fetchTxsAndAccountStates E c n t = (Inr (txs, locs), t')"
  shows "queue t = txs @ queue t' \<and> pool_type t' = pool_type t"
proof -
  obtain r t1 where p: "PackTxs (c_lib (s_chain E)) n t = (r, t1)"
    by (cases "PackTxs (c_lib (s_chain E)) n t")
  show ?thesis
    using assms PackTxs_split [of "c_lib (s_chain E)" n t] p
    by (auto simp: fetchTxsAndAccountStates_def bindR_Inr_iff split: sum.splits if_splits)
qed

text \<open>
  The loop that packs until the block is full or the pool gives nothing. \<open>route\<close> sends each
  transaction to another shard, to the supervisor, or keeps it; every round takes at least one
  transaction out of the pool.
\<close>

function pack_loop ::
    "('db, 'd, 'tdb, 't, 'ns) shard_env \<Rightarrow> ('db, 'tdb) chain \<Rightarrow>
     ((address, int) gomap \<Rightarrow> 'acc \<times> transaction list \<Rightarrow> transaction \<Rightarrow> ('acc \<times> transaction list) result) \<Rightarrow>
     int \<Rightarrow> int \<Rightarrow> 'acc \<times> transaction list \<Rightarrow> TxPool \<Rightarrow> ('acc \<times> transaction list) result \<times> TxPool" where
  "pack_loop E c route limit curCnt acc t =
     (if limit \<le> curCnt then (Inr acc, t)
      else case fetchTxsAndAccountStates E c (i64 (limit - curCnt)) t of
        (Inl e, t') \<Rightarrow> (Inl e, t')
      | (Inr (txs, accountLoc), t') \<Rightarrow>
          (if txs = [] then (Inr acc, t')
           else case foldR (route accountLoc) (fst acc, []) txs of
             Inl e \<Rightarrow> (Inl e, t')
           | Inr (out, iterPackedTxs) \<Rightarrow>
               (case GetTxListSize (c_lib (s_chain E)) t' iterPackedTxs of
                  Inl e \<Rightarrow> (Inl e, t')
                | Inr incSize \<Rightarrow>
                    pack_loop E c route limit (i64 (curCnt + incSize)) (out, snd acc @ iterPackedTxs) t')))"
  by pat_completeness auto

termination
proof (relation "measure (\<lambda>(_, _, _, _, _, _, t). length (queue t))", goal_cases)
  case (2 E c route limit curCnt acc t r t' p txs locs q out iter inc)
  then show ?case using fetch_queue [of E c "i64 (limit - curCnt)" t txs locs t'] by auto
qed simp

declare pack_loop.simps [simp del]

definition relay_route ::
    "('db, 'd, 'tdb, 't, 'ns) shard_env \<Rightarrow> (address, int) gomap \<Rightarrow>
     transaction list list \<times> transaction list \<Rightarrow> transaction \<Rightarrow>
     (transaction list list \<times> transaction list) result" where
  "relay_route E accountLoc acc tx =
     (case acc of (txs2Shard, iterPackedTxs) \<Rightarrow>
        let keyAcc = (if RelayStage tx = Relay2Tx then Recipient tx else Sender tx)
        in case map_of accountLoc keyAcc of
             None \<Rightarrow> Inr acc
           | Some destShard \<Rightarrow>
               if destShard \<noteq> s_ShardID E
               then bindR (bucket_add txs2Shard destShard tx) (\<lambda>bs. Inr (bs, iterPackedTxs))
               else Inr (txs2Shard, iterPackedTxs @ [tx]))"

definition packValidTxsInRelay ::
    "('db, 'd, 'tdb, 't, 'ns) shard_env \<Rightarrow> int \<Rightarrow> (('db, 'tdb) shard_world, transaction list) act" where
  "packValidTxsInRelay E limit =
     bindA (getA w_chain) (\<lambda>c.
     bindA (poolA (pack_loop E c (relay_route E) limit 0 (empty_buckets (s_ShardNum E), []))) (\<lambda>(txs2Shard, txsPacked).
     thenA (send_buckets E txs2Shard) (retA txsPacked)))"

definition supervisorShardID :: int where
  "supervisorShardID = 2147483647"

definition getTxDestLocByAccountState :: "(address, int) gomap \<Rightarrow> transaction \<Rightarrow> int" where
  "getTxDestLocByAccountState accountLoc tx =
     (case (map_of accountLoc (Sender tx), map_of accountLoc (Recipient tx)) of
        (Some sDestShard, Some rDestShard) \<Rightarrow>
          if TxType tx = NormalTxType then
            (if sDestShard = rDestShard then sDestShard else supervisorShardID)
          else if BrokerStage tx = Sigma1BrokerStage then sDestShard
          else if BrokerStage tx = Sigma2BrokerStage then rDestShard
          else supervisorShardID
      | _ \<Rightarrow> supervisorShardID)"

text \<open>The accumulators are \<open>txs2Shard\<close> and \<open>txs2Supervisor\<close>, and the transactions that stay.\<close>

definition to_dest ::
    "int \<Rightarrow> int \<Rightarrow> (transaction list list \<times> transaction list) \<times> transaction list \<Rightarrow> transaction \<Rightarrow>
     ((transaction list list \<times> transaction list) \<times> transaction list) result" where
  "to_dest shard destShard acc tx =
     (case acc of ((txs2Shard, txs2Supervisor), stay) \<Rightarrow>
        if destShard = supervisorShardID then Inr ((txs2Shard, txs2Supervisor @ [tx]), stay)
        else if destShard = shard then Inr ((txs2Shard, txs2Supervisor), stay @ [tx])
        else bindR (bucket_add txs2Shard destShard tx) (\<lambda>bs. Inr ((bs, txs2Supervisor), stay)))"

definition broker_route ::
    "('db, 'd, 'tdb, 't, 'ns) shard_env \<Rightarrow> (address, int) gomap \<Rightarrow>
     (transaction list list \<times> transaction list) \<times> transaction list \<Rightarrow> transaction \<Rightarrow>
     ((transaction list list \<times> transaction list) \<times> transaction list) result" where
  "broker_route E accountLoc acc tx = to_dest (s_ShardID E) (getTxDestLocByAccountState accountLoc tx) acc tx"

definition brokerCLPATxSendAgain ::
    "('db, 'd, 'tdb, 't, 'ns) shard_env \<Rightarrow> transaction list \<Rightarrow> (('db, 'tdb) shard_world, unit) act" where
  "brokerCLPATxSendAgain E txSentAgain =
     (if txSentAgain = [] then retA ()
      else send_to_supervisor E (MBrokerCLPATxSendAgain txSentAgain))"

definition packValidTxsInBroker ::
    "('db, 'd, 'tdb, 't, 'ns) shard_env \<Rightarrow> int \<Rightarrow> (('db, 'tdb) shard_world, transaction list) act" where
  "packValidTxsInBroker E limit =
     bindA (getA w_chain) (\<lambda>c.
     bindA (poolA (pack_loop E c (broker_route E) limit 0 ((empty_buckets (s_ShardNum E), []), [])))
       (\<lambda>((txs2Shard, txs2Supervisor), txsPacked).
     thenA (send_buckets E txs2Shard)
     (thenA (brokerCLPATxSendAgain E txs2Supervisor) (retA txsPacked))))"

definition packValidTxs ::
    "('db, 'd, 'tdb, 't, 'ns) shard_env \<Rightarrow> int \<Rightarrow> (('db, 'tdb) shard_world, transaction list) act" where
  "packValidTxs E limit =
     (if s_ConsensusType E = ''clpa_relay'' then packValidTxsInRelay E limit else packValidTxsInBroker E limit)"

section \<open>Migrating transactions\<close>

definition migratedTxNum :: int where
  "migratedTxNum = 268435456"

text \<open>The accumulators are the buckets of the shards and the transactions to add back.\<close>

definition migrate_tx_relay ::
    "AccMigrateMetadata \<Rightarrow> transaction list list \<times> transaction list \<Rightarrow> transaction \<Rightarrow>
     (transaction list list \<times> transaction list) result" where
  "migrate_tx_relay am acc tx =
     (case acc of (tx2Shards, addBackTxs) \<Rightarrow>
        (case map_of (CurModifiedMap am) (if RelayStage tx = Relay2Tx then Recipient tx else Sender tx) of
           Some destShard \<Rightarrow> bindR (bucket_add tx2Shards destShard tx) (\<lambda>bs. Inr (bs, addBackTxs))
         | None \<Rightarrow> Inr (tx2Shards, addBackTxs @ [tx])))"

definition addTxsA :: "transaction list \<Rightarrow> (('db, 'tdb) shard_world, unit) act" where
  "addTxsA txs = modA (\<lambda>w. w\<lparr>w_pool := AddTxs txs (w_pool w)\<rparr>)"

definition migrateTxsInRelay ::
    "('db, 'd, 'tdb, 't, 'ns) shard_env \<Rightarrow> (('db, 'tdb) shard_world, unit) act" where
  "migrateTxsInRelay E =
     bindA (poolA (PackTxs (c_lib (s_chain E)) migratedTxNum)) (\<lambda>allTxs.
     bindA (getA w_amm) (\<lambda>am.
     bindA (liftA (foldR (migrate_tx_relay am) (empty_buckets (s_ShardNum E), []) allTxs)) (\<lambda>(tx2Shards, addBackTxs).
     thenA (addTxsA addBackTxs) (send_buckets E tx2Shards))))"

definition getMigratedTxDestLocInBroker ::
    "('db, 'd, 'tdb, 't, 'ns) shard_env \<Rightarrow> AccMigrateMetadata \<Rightarrow> transaction \<Rightarrow> int" where
  "getMigratedTxDestLocInBroker E am tx =
     (let sDest = map_of (CurModifiedMap am) (Sender tx);
          rDest = map_of (CurModifiedMap am) (Recipient tx);
          orHere = (\<lambda>d. case d of None \<Rightarrow> s_ShardID E | Some x \<Rightarrow> x)
      in if TxType tx = NormalTxType then
           (if orHere sDest = orHere rDest then orHere sDest else supervisorShardID)
         else if BrokerStage tx = Sigma1BrokerStage then orHere sDest
         else if BrokerStage tx = Sigma2BrokerStage then orHere rDest
         else supervisorShardID)"

definition migrateTxsInBroker ::
    "('db, 'd, 'tdb, 't, 'ns) shard_env \<Rightarrow> (('db, 'tdb) shard_world, unit) act" where
  "migrateTxsInBroker E =
     bindA (poolA (PackTxs (c_lib (s_chain E)) migratedTxNum)) (\<lambda>allTxs.
     bindA (getA w_amm) (\<lambda>am.
     bindA (liftA (foldR (\<lambda>acc tx. to_dest (s_ShardID E) (getMigratedTxDestLocInBroker E am tx) acc tx)
                     ((empty_buckets (s_ShardNum E), []), []) allTxs)) (\<lambda>((tx2Shards, tx2Supervisor), addBackTxs).
     thenA (addTxsA addBackTxs)
     (thenA (send_buckets E tx2Shards) (brokerCLPATxSendAgain E tx2Supervisor)))))"

definition migrateTxs ::
    "('db, 'd, 'tdb, 't, 'ns) shard_env \<Rightarrow> (('db, 'tdb) shard_world, unit) act" where
  "migrateTxs E =
     (if s_ConsensusType E = ''clpa_relay'' then migrateTxsInRelay E else migrateTxsInBroker E)"

section \<open>The operations of a shard\<close>

definition validateProposal ::
    "('db, 'd, 'tdb, 't, 'ns) shard_env \<Rightarrow> block \<Rightarrow> (('db, 'tdb) shard_world, unit) act" where
  "validateProposal E b = readA (\<lambda>w. ValidateBlock (s_chain E) (w_chain w) b)"

definition static_BuildProposal ::
    "('db, 'd, 'tdb, 't, 'ns) shard_env \<Rightarrow> ('db, 'tdb) shard_world tx_block_op \<Rightarrow> time \<Rightarrow>
     (('db, 'tdb) shard_world, block option) act" where
  "static_BuildProposal E tbo now =
     bindA (poolA (PackTxs (c_lib (s_chain E)) (s_BlockSizeLimit E))) (\<lambda>txs.
     bindA (BuildTxBlockProposal tbo now txs) (\<lambda>b. retA (Some b)))"

definition buildBlockProposal ::
    "('db, 'd, 'tdb, 't, 'ns) shard_env \<Rightarrow> ('db, 'tdb) shard_world tx_block_op \<Rightarrow> time \<Rightarrow>
     (('db, 'tdb) shard_world, block option) act" where
  "buildBlockProposal E tbo now =
     bindA (packValidTxs E (s_BlockSizeLimit E)) (\<lambda>txs.
     bindA (BuildTxBlockProposal tbo now txs) (\<lambda>b. retA (Some b)))"

definition buildPartitionProposal ::
    "('db, 'd, 'tdb, 't, 'ns) shard_env \<Rightarrow> time \<Rightarrow> (('db, 'tdb) shard_world, block option) act" where
  "buildPartitionProposal E now =
     bindA (getA w_amm) (\<lambda>am.
     thenA (if map_of (MigratedAccountStates am) (s_ShardID E) = None
            then thenA (MigrateAccounts E) (migrateTxs E) else retA ())
     (BuildMigrationProposal E now))"

definition dynamic_BuildProposal ::
    "('db, 'd, 'tdb, 't, 'ns) shard_env \<Rightarrow> ('db, 'tdb) shard_world tx_block_op \<Rightarrow> time \<Rightarrow>
     (('db, 'tdb) shard_world, block option) act" where
  "dynamic_BuildProposal E tbo now =
     bindA (getA (\<lambda>w. MigrationReady (w_amm w))) (\<lambda>ready.
     if \<not> ready then buildBlockProposal E tbo now else buildPartitionProposal E now)"

definition dynamic_ProposalCommitAndDeliver ::
    "('db, 'd, 'tdb, 't, 'ns) shard_env \<Rightarrow> ('db, 'tdb) shard_world tx_block_op \<Rightarrow> time \<Rightarrow> bool \<Rightarrow> block \<Rightarrow>
     (('db, 'tdb) shard_world, unit) act" where
  "dynamic_ProposalCommitAndDeliver E tbo now isLeader b =
     (if Type b = MigrationBlockType then MigrationBlockCommit E b
      else BlockCommitAndDeliver tbo now isLeader b)"

text \<open>Messages from outside the shard.\<close>

definition receiveTxs ::
    "('db, 'd, 'tdb, 't, 'ns) shard_env \<Rightarrow> bytes \<Rightarrow> (('db, 'tdb) shard_world, unit) act" where
  "receiveTxs E payload =
     bindA (liftA (orErr ''decode ReceiveTxs msg failed'' (dec_receive_txs (s_codec E) payload))) addTxsA"

definition static_HandleMsgOutsideShard ::
    "('db, 'd, 'tdb, 't, 'ns) shard_env \<Rightarrow> WrappedMsg \<Rightarrow> (('db, 'tdb) shard_world, unit) act" where
  "static_HandleMsgOutsideShard E msg =
     (if MsgType msg = ''ReceiveTxs'' then receiveTxs E (Payload msg) else errA ''unknown msg type'')"

definition dynamic_HandleMsgOutsideShard ::
    "('db, 'd, 'tdb, 't, 'ns) shard_env \<Rightarrow> WrappedMsg \<Rightarrow> (('db, 'tdb) shard_world, unit) act" where
  "dynamic_HandleMsgOutsideShard E msg =
     (if MsgType msg = ''ReceiveTxs'' then receiveTxs E (Payload msg)
      else if MsgType msg = ''CLPARepartitionStart'' then
        bindA (liftA (orErr ''decode CLPARepartitionStart msg failed'' (dec_repartition_start (s_codec E) (Payload msg))))
          (\<lambda>cr. ammA (UpdateByRepartitionStartMsg cr))
      else if MsgType msg = ''AccountMigration'' then
        bindA (liftA (orErr ''decode AccountMigrationMsg failed'' (dec_account_migration (s_codec E) (Payload msg))))
          (\<lambda>aat. ammA (CollectStatesByMsg aat))
      else errA ''unknown msg type'')"

definition static_ops ::
    "('db, 'd, 'tdb, 't, 'ns) shard_env \<Rightarrow> ('db, 'tdb) shard_world tx_block_op \<Rightarrow>
     ('db, 'tdb) shard_world shard_ops" where
  "static_ops E tbo =
     \<lparr>BuildProposal = static_BuildProposal E tbo,
      ValidateProposal = validateProposal E,
      ProposalCommitAndDeliver = BlockCommitAndDeliver tbo,
      HandleMsgOutsideShard = static_HandleMsgOutsideShard E,
      GetBlocksAfterHeight = (\<lambda>h. readA (\<lambda>w. chain_GetBlocksAfterHeight (s_chain E) h (w_chain w))),
      AddBlock = (\<lambda>b. chainA (chain_AddBlock (s_chain E) b)),
      CurNumber = (\<lambda>w. Number (curHeader (w_chain w)))\<rparr>"

definition dynamic_ops ::
    "('db, 'd, 'tdb, 't, 'ns) shard_env \<Rightarrow> ('db, 'tdb) shard_world tx_block_op \<Rightarrow>
     ('db, 'tdb) shard_world shard_ops" where
  "dynamic_ops E tbo = (static_ops E tbo)
     \<lparr>BuildProposal := dynamic_BuildProposal E tbo,
      ProposalCommitAndDeliver := dynamic_ProposalCommitAndDeliver E tbo,
      HandleMsgOutsideShard := dynamic_HandleMsgOutsideShard E\<rparr>"

text \<open>
  \<open>NewPBFTNode\<close>, given the opened stores and the result of opening the CSV file: the operations
  the node calls, and the node.
\<close>

definition NewPBFTNode ::
    "('db, 'd, 'tdb, 't, 'ns) shard_env \<Rightarrow> time \<Rightarrow> int \<Rightarrow> int \<Rightarrow> string \<Rightarrow> bytes \<Rightarrow> int \<Rightarrow> string list \<Rightarrow>
     'db \<Rightarrow> 'tdb LocStore \<Rightarrow> BoltStore \<Rightarrow> unit result \<Rightarrow>
     (('db, 'tdb) shard_world shard_ops \<times> ('db, 'tdb) shard_world node) result" where
  "NewPBFTNode E now nodeID blockInterval poolType emptyRoot bitsetLen hashFuncs db loc st csw =
     (if s_ShardNum E \<le> 0 \<or> s_ShardNum E \<le> s_ShardID E then Inl (Errorf ''invalid shardID'')
      else if s_NodeNum E \<le> 0 \<or> s_NodeNum E \<le> nodeID then Inl (Errorf ''invalid nodeID'')
      else
        bindR (NewChain (s_chain E) now emptyRoot db loc st (s_ShardID E) (s_ShardNum E) bitsetLen hashFuncs) (\<lambda>bc.
        bindR (NewTxPool poolType) (\<lambda>txp.
        bindR (NewTxBlockOp E) (\<lambda>tbo.
        bindR csw (\<lambda>_.
        let n = \<lparr>resolver = s_resolver E,
                 pbftMeta = newConsensusMeta (s_NodeNum E) blockInterval (s_ShardID E) nodeID now,
                 world = \<lparr>w_chain = bc, w_pool = txp, w_amm = NewAccMigrateMetadata (s_ShardNum E) (s_ShardID E)\<rparr>\<rparr>
        in if s_ConsensusType E = ''static_relay'' \<or> s_ConsensusType E = ''static_broker''
           then Inr (static_ops E tbo, n)
           else if s_ConsensusType E = ''clpa_relay'' \<or> s_ConsensusType E = ''clpa_broker''
           then Inr (dynamic_ops E tbo, n)
           else Inl (Errorf ''invalid consensus type''))))))"

end
