(* ===== verification/Agreement.thy ===== *)
theory Agreement
  imports Node
begin

text \<open>
  The replicas of one shard as a system: every honest replica runs \<open>tick\<close> on messages that the
  network delivers in any order, number and combination, from honest and Byzantine replicas. The
  votes an honest replica sends are remembered; the safety of the protocol is the agreement of
  the digests that honest replicas decide in a round. The contract of the shard's operations is
  the locale \<open>shard_contract\<close>: they send no consensus message.
\<close>

section \<open>Invariants that follow the messages sent\<close>

text \<open>\<open>keepsG upd I m\<close>: as \<open>keeps\<close>, where a ghost value is updated by the messages sent.\<close>

definition keepsG :: "('g \<Rightarrow> sends \<Rightarrow> 'g) \<Rightarrow> ('g \<Rightarrow> 's \<Rightarrow> bool) \<Rightarrow> ('s, 'a) act \<Rightarrow> bool" where
  "keepsG upd I m \<longleftrightarrow> (\<forall>g s r s' ms. I g s \<longrightarrow> m s = (r, s', ms) \<longrightarrow> I (upd g ms) s')"

lemma keepsGI: "(\<And>g s r s' ms. I g s \<Longrightarrow> m s = (r, s', ms) \<Longrightarrow> I (upd g ms) s') \<Longrightarrow> keepsG upd I m"
  by (simp add: keepsG_def)

lemma keepsGD: "keepsG upd I m \<Longrightarrow> I g s \<Longrightarrow> m s = (r, s', ms) \<Longrightarrow> I (upd g ms) s'"
  unfolding keepsG_def by blast

definition commits_in :: "codec \<Rightarrow> sends \<Rightarrow> (ViewSeq \<times> bytes) set" where
  "commits_in K ms = {(c_vs m, c_Digest m) | m. \<exists>(d, w) \<in> set ms.
     MsgType w = ''Commit'' \<and> dec_commit K (Payload w) = Some m}"

lemma commits_in_Nil [simp]: "commits_in K [] = {}"
  by (simp add: commits_in_def)

lemma commits_in_append [simp]: "commits_in K (a @ b) = commits_in K a \<union> commits_in K b"
  unfolding commits_in_def by fastforce

type_synonym votes = "int \<Rightarrow> (ViewSeq \<times> bytes) set"

definition add_votes :: "codec \<Rightarrow> int \<Rightarrow> votes \<Rightarrow> sends \<Rightarrow> votes" where
  "add_votes K i S ms = S(i := S i \<union> commits_in K ms)"

lemma add_votes_Nil [simp]: "add_votes K i S [] = S"
  by (simp add: add_votes_def)

lemma add_votes_append [simp]:
  "add_votes K i S (a @ b) = add_votes K i (add_votes K i S a) b"
  by (simp add: add_votes_def Un_assoc)

text \<open>Messages that are no consensus message.\<close>

definition quiet :: "sends \<Rightarrow> bool" where
  "quiet ms \<longleftrightarrow> (\<forall>(d, w) \<in> set ms. MsgType w \<notin> {''Preprepare'', ''Prepare'', ''Commit''})"

lemma quiet_simps [simp]: "quiet []" "quiet (a @ b) = (quiet a \<and> quiet b)"
  by (auto simp: quiet_def)

lemma commits_in_quiet: "\<forall>(d, w) \<in> set ms. MsgType w \<noteq> ''Commit'' \<Longrightarrow> commits_in K ms = {}"
  unfolding commits_in_def by fastforce

lemma add_votes_quiet: "\<forall>(d, w) \<in> set ms. MsgType w \<noteq> ''Commit'' \<Longrightarrow> add_votes K i S ms = S"
  by (simp add: add_votes_def commits_in_quiet)

text \<open>The rules for actions that run one after the other.\<close>

named_theorems votes_keeps \<open>actions that keep an invariant over the votes\<close>

abbreviation keepsV :: "codec \<Rightarrow> int \<Rightarrow> (votes \<Rightarrow> 's \<Rightarrow> bool) \<Rightarrow> ('s, 'a) act \<Rightarrow> bool" where
  "keepsV K i I m \<equiv> keepsG (add_votes K i) I m"

lemma keepsV_pure [votes_keeps]:
  "keepsV K i I (retA x)" "keepsV K i I (errA msg)" "keepsV K i I (panicA msg)"
  "keepsV K i I (liftA r)" "keepsV K i I (getA g)"
  by (simp_all add: keepsG_def act_defs)

lemma keepsV_sendA: "\<forall>(d, w) \<in> set ms. MsgType w \<noteq> ''Commit'' \<Longrightarrow> keepsV K i I (sendA ms)"
  by (simp add: keepsG_def act_defs add_votes_quiet)

lemma keepsV_modA: "(\<And>g s. I g s \<Longrightarrow> I g (h s)) \<Longrightarrow> keepsV K i I (modA h)"
  by (simp add: keepsG_def act_defs)

lemma keepsV_bindA [votes_keeps]:
  assumes "keepsV K i I m" and "\<And>x. keepsV K i I (k x)"
  shows "keepsV K i I (bindA m k)"
proof (rule keepsGI)
  fix g s r s' ms assume I: "I g s" and run: "bindA m k s = (r, s', ms)"
  from run show "I (add_votes K i g ms) s'"
  proof (cases rule: bindA_cases)
    case 1
    then show ?thesis using keepsGD [OF assms(1)] I by blast
  next
    case (2 x s1 o1 o2)
    have "I (add_votes K i g o1) s1" using keepsGD [OF assms(1)] I 2(1) by blast
    then have "I (add_votes K i (add_votes K i g o1) o2) s'" using keepsGD [OF assms(2)] 2(2) by blast
    then show ?thesis using 2(3) by simp
  qed
qed

lemma keepsV_forA: "(\<And>x. x \<in> set xs \<Longrightarrow> keepsV K i I (body x)) \<Longrightarrow> keepsV K i I (forA body xs)"
  by (induction xs) (simp_all add: votes_keeps)

lemma keepsV_logA [votes_keeps]: "keepsV K i I m \<Longrightarrow> keepsV K i I (logA m)"
  by (auto simp: keepsG_def logA_def split: prod.splits)

lemma keepsV_if [votes_keeps]:
  "(c \<Longrightarrow> keepsV K i I m) \<Longrightarrow> (\<not> c \<Longrightarrow> keepsV K i I m') \<Longrightarrow> keepsV K i I (if c then m else m')"
  by simp

text \<open>A value read from the state and used later, with what the invariant says of it.\<close>

lemma keepsV_option [votes_keeps]:
  "(x = None \<Longrightarrow> keepsV K i I m) \<Longrightarrow> (\<And>y. x = Some y \<Longrightarrow> keepsV K i I (k y)) \<Longrightarrow>
     keepsV K i I (case x of None \<Rightarrow> m | Some y \<Rightarrow> k y)"
  by (cases x) simp_all

section \<open>The contract of the shard's operations\<close>

locale shard_contract =
  fixes ops :: "'w shard_ops"
  assumes build_quiet: "BuildProposal ops now w = (r, w', ms) \<Longrightarrow> quiet ms"
    and validate_quiet: "ValidateProposal ops b w = (r1, w', ms) \<Longrightarrow> quiet ms"
    and commit_quiet: "ProposalCommitAndDeliver ops now l b w = (r1, w', ms) \<Longrightarrow> quiet ms"
    and outside_quiet: "HandleMsgOutsideShard ops msg w = (r1, w', ms) \<Longrightarrow> quiet ms"
    and blocks_quiet: "GetBlocksAfterHeight ops h w = (r2, w', ms) \<Longrightarrow> quiet ms"
    and add_quiet: "AddBlock ops b w = (r1, w', ms) \<Longrightarrow> quiet ms"

section \<open>The system\<close>

definition members :: "int \<Rightarrow> int set" where
  "members N = {0..<N}"

lemma finite_members [simp]: "finite (members N)"
  by (simp add: members_def)

lemma card_members: "card (members N) = nat N"
  by (simp add: members_def)

text \<open>A vote that a replica may count: of a member that is Byzantine or has sent it.\<close>

definition vouched :: "int \<Rightarrow> int \<Rightarrow> int set \<Rightarrow> votes \<Rightarrow> NodeInfo \<Rightarrow> ViewSeq \<Rightarrow> bytes \<Rightarrow> bool" where
  "vouched sh N byz S v vs d \<longleftrightarrow>
     ShardID v = sh \<and> NodeID v \<in> members N \<and> (NodeID v \<in> byz \<or> (vs, d) \<in> S (NodeID v))"

text \<open>
  What the network may deliver: anything but a catch-up response, and of the commit messages
  only those whose sender is who it says.
\<close>

definition authentic :: "codec \<Rightarrow> int \<Rightarrow> int \<Rightarrow> int set \<Rightarrow> votes \<Rightarrow> WrappedMsg \<Rightarrow> bool" where
  "authentic K sh N byz S w \<longleftrightarrow>
     MsgType w \<noteq> ''CatchupResp'' \<and>
     (MsgType w = ''Commit'' \<longrightarrow>
       (case dec_commit K (Payload w) of
          None \<Rightarrow> True
        | Some m \<Rightarrow> vouched sh N byz S (NodeInfo (c_NodeID m) (c_ShardID m)) (c_vs m) (c_Digest m)))"

record 'w system =
  replicas :: "int \<Rightarrow> 'w node"
  sent :: votes
  decisions :: votes

text \<open>
  The digest a replica decides in a tick: that of the accepted proposal, when the round advances.
\<close>

definition curated :: "'w node_env \<Rightarrow> WrappedMsg list \<Rightarrow> 'w node \<Rightarrow> 'w node" where
  "curated E msgs n =
     fst (snd (thenA (forA (\<lambda>msg. logA (handleMessage E msg)) msgs) (metaA curateMsg) n))"

definition decided :: "'w node_env \<Rightarrow> WrappedMsg list \<Rightarrow> 'w node \<Rightarrow> 'w node \<Rightarrow> (ViewSeq \<times> bytes) set" where
  "decided E msgs n n' =
     (let c = pbftMeta (curated E msgs n)
      in case curPreprepare c of
           None \<Rightarrow> {}
         | Some pp \<Rightarrow> if curViewSeq (pbftMeta n') \<noteq> curViewSeq c then {(curViewSeq c, pp_Digest pp)} else {})"

text \<open>The replicas as they are made, before anything was sent.\<close>

definition fresh :: "int \<Rightarrow> int \<Rightarrow> int set \<Rightarrow> 'w system \<Rightarrow> bool" where
  "fresh sh N byz s \<longleftrightarrow>
     (\<forall>i \<in> members N - byz. \<exists>b t. pbftMeta (replicas s i) = newConsensusMeta N b sh i t) \<and>
     sent s = (\<lambda>_. {}) \<and> decisions s = (\<lambda>_. {})"

text \<open>
  A step is a tick of an honest replica, in its own environment, with messages that the network
  may deliver.
\<close>

inductive reach :: "(int \<Rightarrow> 'w node_env) \<Rightarrow> int \<Rightarrow> int \<Rightarrow> int set \<Rightarrow> 'w system \<Rightarrow> 'w system \<Rightarrow> bool"
  for E :: "int \<Rightarrow> 'w node_env" and sh N :: int and byz :: "int set" and s0 :: "'w system" where
  start: "reach E sh N byz s0 s0"
| step: "reach E sh N byz s0 s \<Longrightarrow> i \<in> members N - byz \<Longrightarrow>
         (\<And>w. w \<in> set msgs \<Longrightarrow> authentic (e_codec (E i)) sh N byz (sent s) w) \<Longrightarrow>
         Seq (curViewSeq (pbftMeta (replicas s i))) < 2 ^ 63 - 1 \<Longrightarrow>
         0 \<le> Seq (curViewSeq (pbftMeta (replicas s i))) \<Longrightarrow>
         tick (E i) msgs now (replicas s i) = (r, n', ms) \<Longrightarrow>
         reach E sh N byz s0
           (s\<lparr>replicas := (replicas s)(i := n'),
              sent := add_votes (e_codec (E i)) i (sent s) ms,
              decisions := (decisions s)(i := decisions s i \<union> decided (E i) msgs (replicas s i) n')\<rparr>)"

section \<open>The invariant of a replica\<close>

definition replica_inv :: "int \<Rightarrow> int \<Rightarrow> int set \<Rightarrow> int \<Rightarrow> votes \<Rightarrow> 'w node \<Rightarrow> bool" where
  "replica_inv sh N byz i S n \<longleftrightarrow>
     (let c = pbftMeta n in
      node_ok n \<and> lp_NodeID c = i \<and> lp_ShardID c = sh \<and> f c = quot (i64 (N - 1)) 3 \<and>
      (\<forall>vs d. (vs, d) \<in> S i \<longrightarrow> vs < curViewSeq c \<or>
         vs = curViewSeq c \<and> stage_of c = stageCommit \<and>
         (\<exists>pp. curPreprepare c = Some pp \<and> pp_Digest pp = d)) \<and>
      (\<forall>vs d d'. (vs, d) \<in> S i \<longrightarrow> (vs, d') \<in> S i \<longrightarrow> d = d') \<and>
      (\<forall>m \<in> set (commits (msgPool c)).
         vouched sh N byz S (NodeInfo (c_NodeID m) (c_ShardID m)) (c_vs m) (c_Digest m)) \<and>
      (\<forall>v \<in> commitSet c. \<forall>pp. curPreprepare c = Some pp \<longrightarrow>
         vouched sh N byz S v (curViewSeq c) (pp_Digest pp)))"

lemma replica_invD:
  assumes "replica_inv sh N byz i S n"
  shows "node_ok n" "lp_NodeID (pbftMeta n) = i" "lp_ShardID (pbftMeta n) = sh"
    "f (pbftMeta n) = quot (i64 (N - 1)) 3"
    and "(vs, d) \<in> S i \<Longrightarrow> vs < curViewSeq (pbftMeta n) \<or>
         vs = curViewSeq (pbftMeta n) \<and> stage_of (pbftMeta n) = stageCommit \<and>
         (\<exists>pp. curPreprepare (pbftMeta n) = Some pp \<and> pp_Digest pp = d)"
    and "(vs, d) \<in> S i \<Longrightarrow> (vs, d') \<in> S i \<Longrightarrow> d = d'"
    and "m \<in> set (commits (msgPool (pbftMeta n))) \<Longrightarrow>
         vouched sh N byz S (NodeInfo (c_NodeID m) (c_ShardID m)) (c_vs m) (c_Digest m)"
    and "v \<in> commitSet (pbftMeta n) \<Longrightarrow> curPreprepare (pbftMeta n) = Some pp \<Longrightarrow>
         vouched sh N byz S v (curViewSeq (pbftMeta n)) (pp_Digest pp)"
  using assms unfolding replica_inv_def Let_def by blast+

lemma vouched_mono: "vouched sh N byz S v vs d \<Longrightarrow> (\<And>j. S j \<subseteq> S' j) \<Longrightarrow> vouched sh N byz S' v vs d"
  by (auto simp: vouched_def)

lemma replica_inv_mono:
  assumes "replica_inv sh N byz i S n" "\<And>j. S j \<subseteq> S' j" "S' i = S i"
  shows "replica_inv sh N byz i S' n"
proof -
  note a = replica_invD [OF assms(1)]
  show ?thesis
    unfolding replica_inv_def Let_def assms(3)
    using a(1-6) vouched_mono [OF a(7) assms(2)] vouched_mono [OF a(8) assms(2)] by blast
qed

lemma replica_inv_world [simp]:
  "replica_inv sh N byz i S (n\<lparr>world := w\<rparr>) = replica_inv sh N byz i S n"
  by (simp add: replica_inv_def node_ok_def)

text \<open>An update of the metadata that leaves the round, the stage and the votes alone.\<close>

lemma replica_inv_frame:
  assumes "replica_inv sh N byz i S n" "meta_ok c"
    and "lp_NodeID c = lp_NodeID (pbftMeta n)" "lp_ShardID c = lp_ShardID (pbftMeta n)"
    "f c = f (pbftMeta n)" "curViewSeq c = curViewSeq (pbftMeta n)"
    "stage_of c = stage_of (pbftMeta n)" "curPreprepare c = curPreprepare (pbftMeta n)"
    "commitSet c = commitSet (pbftMeta n)"
    and "\<And>m. m \<in> set (commits (msgPool c)) \<Longrightarrow> m \<notin> set (commits (msgPool (pbftMeta n))) \<Longrightarrow>
         vouched sh N byz S (NodeInfo (c_NodeID m) (c_ShardID m)) (c_vs m) (c_Digest m)"
  shows "replica_inv sh N byz i S (n\<lparr>pbftMeta := c\<rparr>)"
proof -
  note a = replica_invD [OF assms(1)]
  have "vouched sh N byz S (NodeInfo (c_NodeID m) (c_ShardID m)) (c_vs m) (c_Digest m)"
    if "m \<in> set (commits (msgPool c))" for m using that a(7) assms(10) by blast
  moreover note assms(2) a(2-6) a(8)
  ultimately show ?thesis
    unfolding replica_inv_def Let_def node_ok_def by (simp add: assms(3-9))
qed

section \<open>Every part of a tick keeps the invariant\<close>

lemma add_votes_grows: "S j \<subseteq> add_votes K i S ms j"
  by (simp add: add_votes_def)

lemma vouched_add: "vouched sh N byz S v vs d \<Longrightarrow> vouched sh N byz (add_votes K i S ms) v vs d"
  by (auto simp: vouched_def add_votes_def)

lemma authentic_mono:
  "authentic K sh N byz S w \<Longrightarrow> authentic K sh N byz (add_votes K i S ms) w"
  using vouched_mono [OF _ add_votes_grows] by (auto simp: authentic_def split: option.splits)

text \<open>The invariant, together with what the network may deliver in this tick.\<close>

definition tick_inv ::
    "codec \<Rightarrow> int \<Rightarrow> int \<Rightarrow> int set \<Rightarrow> int \<Rightarrow> ViewSeq \<Rightarrow> WrappedMsg set \<Rightarrow> votes \<Rightarrow> 'w node \<Rightarrow> bool" where
  "tick_inv K sh N byz i cur W S n \<longleftrightarrow>
     replica_inv sh N byz i S n \<and> curViewSeq (pbftMeta n) = cur \<and>
     (\<forall>w \<in> W. authentic K sh N byz S w)"

lemma tick_invD: "tick_inv K sh N byz i cur W S n \<Longrightarrow> replica_inv sh N byz i S n"
  by (simp add: tick_inv_def)

lemma keepsV_metaA:
  assumes "\<And>S (n :: 'w node). tick_inv K sh N byz i cur W S n \<Longrightarrow>
      replica_inv sh N byz i S (n\<lparr>pbftMeta := h (pbftMeta n)\<rparr>)"
    and "\<And>c. curViewSeq (h c) = curViewSeq c"
  shows "keepsV K i (tick_inv K sh N byz i cur W) (metaA h :: ('w node, unit) act)"
  using assms by (intro keepsV_modA) (simp add: tick_inv_def)

lemma keepsV_metaA_frame:
  assumes "\<And>c. meta_ok c \<Longrightarrow> meta_ok (h c)"
    and "\<And>c. lp_NodeID (h c) = lp_NodeID c" "\<And>c. lp_ShardID (h c) = lp_ShardID c"
    "\<And>c. f (h c) = f c" "\<And>c. curViewSeq (h c) = curViewSeq c"
    "\<And>c. stage_of (h c) = stage_of c" "\<And>c. curPreprepare (h c) = curPreprepare c"
    "\<And>c. commitSet (h c) = commitSet c" "\<And>c. commits (msgPool (h c)) = commits (msgPool c)"
  shows "keepsV K i (tick_inv K sh N byz i cur W) (metaA h)"
proof (rule keepsV_metaA)
  fix S and n :: "'a node"
  assume "tick_inv K sh N byz i cur W S n"
  then have I: "replica_inv sh N byz i S n" by (rule tick_invD)
  have "meta_ok (h (pbftMeta n))" using replica_invD(1) [OF I] assms(1) by (simp add: node_ok_def)
  then show "replica_inv sh N byz i S (n\<lparr>pbftMeta := h (pbftMeta n)\<rparr>)"
    by (rule replica_inv_frame [OF I]) (simp_all add: assms(2-))
qed (rule assms(5))

lemma keepsV_quiet:
  assumes "\<And>w r w' ms. m w = (r, w', ms) \<Longrightarrow> quiet ms"
  shows "keepsV K i (tick_inv K sh N byz i cur W) (worldA m)"
proof (rule keepsGI)
  fix S :: votes and n :: "'a node" and r n' ms
  assume I: "tick_inv K sh N byz i cur W S n" and run: "worldA m n = (r, n', ms)"
  obtain w' where w': "m (world n) = (r, w', ms)" "n' = n\<lparr>world := w'\<rparr>"
    using run by (auto simp: zoomA_def split: prod.splits)
  have "\<forall>(d, w) \<in> set ms. MsgType w \<noteq> ''Commit''"
    using assms [OF w'(1)] by (fastforce simp: quiet_def)
  then show "tick_inv K sh N byz i cur W (add_votes K i S ms) n'"
    using I w'(2) by (simp add: add_votes_quiet tick_inv_def)
qed

lemma handlePrepare_inv:
  "keepsV (e_codec E) i (tick_inv (e_codec E) sh N byz i cur W) (handlePrepare E p)"
  unfolding handlePrepare_def
  by (intro votes_keeps keepsV_metaA_frame) simp_all

lemma handleStop_inv:
  "keepsV (e_codec E) i (tick_inv (e_codec E) sh N byz i cur W) handleStopConsensus"
  unfolding handleStopConsensus_def
  by (intro keepsV_metaA_frame) simp_all

lemma updateLatestViewSeq_frame [simp]:
  "lp_NodeID (updateLatestViewSeq c v s) = lp_NodeID c"
  "lp_ShardID (updateLatestViewSeq c v s) = lp_ShardID c" "f (updateLatestViewSeq c v s) = f c"
  "curViewSeq (updateLatestViewSeq c v s) = curViewSeq c"
  "stage_of (updateLatestViewSeq c v s) = stage_of c"
  "curPreprepare (updateLatestViewSeq c v s) = curPreprepare c"
  "commitSet (updateLatestViewSeq c v s) = commitSet c"
  "msgPool (updateLatestViewSeq c v s) = msgPool c"
  by (simp_all add: updateLatestViewSeq_def)

text \<open>A commit message is pushed only if the network may deliver it.\<close>

lemma handleCommit_inv:
  assumes "w \<in> W" "MsgType w = ''Commit''"
  shows "keepsV (e_codec E) i (tick_inv (e_codec E) sh N byz i cur W) (handleCommit E (Payload w))"
proof (cases "dec_commit (e_codec E) (Payload w)")
  case None
  then show ?thesis unfolding handleCommit_def by (auto simp: keepsG_def act_defs)
next
  case (Some m)
  have "replica_inv sh N byz i S (n\<lparr>pbftMeta := (pbftMeta n)
      \<lparr>msgPool := PushCommitMsg (msgPool (pbftMeta n)) m\<rparr>\<rparr>)"
    if I: "tick_inv (e_codec E) sh N byz i cur W S n" for S and n :: "'a node"
  proof -
    have "vouched sh N byz S (NodeInfo (c_NodeID m) (c_ShardID m)) (c_vs m) (c_Digest m)"
      using I assms Some by (auto simp: tick_inv_def authentic_def)
    moreover have "replica_inv sh N byz i S n" using I by (rule tick_invD)
    moreover have "meta_ok (pbftMeta n)" using replica_invD(1) [OF tick_invD [OF I]] by (simp add: node_ok_def)
    ultimately show ?thesis by (elim replica_inv_frame) auto
  qed
  then have push: "keepsV (e_codec E) i (tick_inv (e_codec E) sh N byz i cur W)
      (metaA (\<lambda>c. c\<lparr>msgPool := PushCommitMsg (msgPool c) m\<rparr>) :: ('a node, unit) act)"
    by (intro keepsV_metaA) simp_all
  have "handleCommit E (Payload w) =
      (\<lambda>n. bindA (getA (\<lambda>n. curViewSeq (pbftMeta n))) (\<lambda>cur.
        if 0 < Compare cur (ViewSeq (c_View m) (c_Seq m)) then retA ()
        else metaA (\<lambda>c. c\<lparr>msgPool := PushCommitMsg (msgPool c) m\<rparr>)) n)"
    by (rule ext) (simp add: handleCommit_def Some act_simps)
  then show ?thesis using push by (simp only:) (intro votes_keeps)
qed

context shard_contract
begin

lemma handlePreprepare_inv:
  assumes "e_ops E = ops"
  shows "keepsV (e_codec E) i (tick_inv (e_codec E) sh N byz i cur W) (handlePreprepare E p)"
  unfolding handlePreprepare_def assms
  by (intro votes_keeps keepsV_metaA_frame keepsV_quiet)
    (auto simp: updateLatestViewSeq_meta_ok dest: validate_quiet)

lemma handleCatchupReq_inv:
  assumes "e_ops E = ops" "codec_laws (e_codec E)"
  shows "keepsV (e_codec E) i (tick_inv (e_codec E) sh N byz i cur W) (handleCatchupReq E p)"
proof -
  have answer: "keepsV (e_codec E) i (tick_inv (e_codec E) sh N byz i cur W)
      (bindA (liftA (WrapMsg (e_codec E) (MCatchupResp m))) (\<lambda>w. sendA [(d, w)]))" for m d
  proof (cases "enc (e_codec E) (MCatchupResp m)")
    case None
    then show ?thesis by (simp add: keepsG_def act_defs WrapMsg_def)
  next
    case (Some b)
    then show ?thesis
      by (simp add: keepsG_def act_defs WrapMsg_def getMsgType_def add_votes_quiet)
  qed
  show ?thesis
    unfolding handleCatchupReq_def assms(1)
    by (intro votes_keeps keepsV_quiet answer) (auto dest: blocks_quiet)
qed

lemma handleMessage_inv:
  assumes "e_ops E = ops" "codec_laws (e_codec E)" "w \<in> W"
  shows "keepsV (e_codec E) i (tick_inv (e_codec E) sh N byz i cur W) (handleMessage E w)"
proof (cases "MsgType w = ''CatchupResp''")
  case True
  then show ?thesis using assms(3) by (auto simp: keepsG_def tick_inv_def authentic_def)
next
  case False
  then show ?thesis
    unfolding handleMessage_def
    using handlePreprepare_inv [OF assms(1)] handleCatchupReq_inv [OF assms(1,2)]
      handleCommit_inv [OF assms(3)] handlePrepare_inv handleStop_inv
      keepsV_quiet [of "HandleMsgOutsideShard ops w"] outside_quiet assms(1)
    by (intro votes_keeps) auto
qed

end

subsection \<open>Collecting the votes\<close>

lemma replica_invI:
  assumes "node_ok n" "lp_NodeID (pbftMeta n) = i" "lp_ShardID (pbftMeta n) = sh"
    "f (pbftMeta n) = quot (i64 (N - 1)) 3"
    and "\<And>vs d. (vs, d) \<in> S i \<Longrightarrow> vs < curViewSeq (pbftMeta n) \<or>
         vs = curViewSeq (pbftMeta n) \<and> stage_of (pbftMeta n) = stageCommit \<and>
         (\<exists>pp. curPreprepare (pbftMeta n) = Some pp \<and> pp_Digest pp = d)"
    and "\<And>vs d d'. (vs, d) \<in> S i \<Longrightarrow> (vs, d') \<in> S i \<Longrightarrow> d = d'"
    and "\<And>m. m \<in> set (commits (msgPool (pbftMeta n))) \<Longrightarrow>
         vouched sh N byz S (NodeInfo (c_NodeID m) (c_ShardID m)) (c_vs m) (c_Digest m)"
    and "\<And>v pp. v \<in> commitSet (pbftMeta n) \<Longrightarrow> curPreprepare (pbftMeta n) = Some pp \<Longrightarrow>
         vouched sh N byz S v (curViewSeq (pbftMeta n)) (pp_Digest pp)"
  shows "replica_inv sh N byz i S n"
  using assms unfolding replica_inv_def Let_def by blast

lemma commit_voters_vouched:
  assumes "\<And>m. m \<in> set (commits pool) \<Longrightarrow>
      vouched sh N byz S (NodeInfo (c_NodeID m) (c_ShardID m)) (c_vs m) (c_Digest m)"
    and "v \<in> commit_voters pool vs d"
  shows "vouched sh N byz S v vs d"
  using assms by (auto simp: commit_voters_def)

lemma curate_inv:
  assumes I: "replica_inv sh N byz i S n"
  shows "replica_inv sh N byz i S (n\<lparr>pbftMeta := curateMsg (pbftMeta n)\<rparr>)"
proof -
  let ?c = "pbftMeta n" and ?a = "accept_preprepare (pbftMeta n)"
  note a = replica_invD [OF I]
  have ok: "meta_ok ?c" using a(1) by (simp add: node_ok_def)
  note acc = accept_preprepare_spec [OF meta_okD(1) [OF ok]]
  have vote: "vs < curViewSeq ?c \<or> vs = curViewSeq ?c \<and> stage_of ?c = stageCommit \<and>
      (\<exists>pp. curPreprepare ?a = Some pp \<and> pp_Digest pp = d)" if "(vs, d) \<in> S i" for vs d
    using a(5) [OF that] acc(5) by blast
  show ?thesis
  proof (cases "curPreprepare ?a")
    case None
    then have "commitSet ?c = {}"
      using meta_okD(6) [OF ok] acc(5) by (cases "curPreprepare ?c") auto
    then show ?thesis
      using a vote acc(3) None curateMsg_meta_ok [OF ok]
      by (intro replica_invI) (auto simp: curateMsg_None node_ok_def)
  next
    case (Some pp)
    obtain pool where p: "curateMsg ?c = ?a
      \<lparr>msgPool := pool,
       prepareSet := prepareSet ?c \<union> prepare_voters (msgPool ?c) (curViewSeq ?c) (pp_Digest pp),
       commitSet := commitSet ?c \<union> commit_voters (msgPool ?c) (curViewSeq ?c) (pp_Digest pp)\<rparr>"
      "set (commits pool) = {m \<in> set (commits (msgPool ?c)). curViewSeq ?c < c_vs m}"
      using curateMsg_Some [OF meta_okD(1) [OF ok] Some] by blast
    have "vouched sh N byz S v (curViewSeq ?c) (pp_Digest pp)"
      if "v \<in> commitSet ?c \<union> commit_voters (msgPool ?c) (curViewSeq ?c) (pp_Digest pp)" for v
    proof (cases "v \<in> commitSet ?c")
      case True
      then have "curPreprepare ?c = Some pp"
        using meta_okD(6) [OF ok] acc(5) Some by (cases "curPreprepare ?c") auto
      then show ?thesis using a(8) True by blast
    next
      case False
      then show ?thesis using that commit_voters_vouched [OF a(7)] by blast
    qed
    then show ?thesis
      using a vote Some p curateMsg_meta_ok [OF ok]
      by (intro replica_invI) (auto simp: node_ok_def)
  qed
qed

subsection \<open>Voting\<close>

lemma broadcast_cases:
  assumes "broadcastMsgInnerShard E msg n = (r, n', ms)"
  shows "n' = n \<and> (\<forall>(d, w) \<in> set ms. \<exists>b. enc (e_codec E) msg = Some b \<and>
           w = \<lparr>MsgType = getMsgType msg, Payload = b\<rparr>)"
  using assms
  by (auto simp: broadcastMsgInnerShard_def act_defs WrapMsg_def bindR_def
      split: sum.splits prod.splits if_splits)

lemma prepareBroadcast_cases:
  assumes "prepareBroadcast E n = (r, n', ms)"
  shows "n' = n \<and> (\<forall>(d, w) \<in> set ms. MsgType w = ''Prepare'')"
proof (cases "curPreprepare (pbftMeta n)")
  case None
  then show ?thesis using assms by (auto simp: prepareBroadcast_def curPreprepareA_def act_defs)
next
  case (Some pp)
  then have "broadcastMsgInnerShard E (MPrepare
      \<lparr>p_Digest = pp_Digest pp, p_Seq = pp_Seq pp, p_View = pp_View pp,
       p_ShardID = lp_ShardID (pbftMeta n), p_NodeID = lp_NodeID (pbftMeta n)\<rparr>) n = (r, n', ms)"
    using assms
    by (auto simp: prepareBroadcast_def curPreprepareA_def act_defs split: sum.splits prod.splits)
  from broadcast_cases [OF this] show ?thesis by (auto simp: getMsgType_def)
qed

lemma commitBroadcast_cases:
  assumes "commitBroadcast E n = (r, n', ms)" "codec_laws (e_codec E)"
  shows "n' = n \<and> (\<forall>(d, w) \<in> set ms. MsgType w = ''Commit'') \<and>
    (curPreprepare (pbftMeta n) = None \<longrightarrow> ms = []) \<and>
    (\<forall>pp. curPreprepare (pbftMeta n) = Some pp \<longrightarrow>
       commits_in (e_codec E) ms \<subseteq> {(pp_vs pp, pp_Digest pp)})"
proof (cases "curPreprepare (pbftMeta n)")
  case None
  then show ?thesis using assms by (auto simp: commitBroadcast_def curPreprepareA_def act_defs)
next
  case (Some pp)
  then have "broadcastMsgInnerShard E (MCommit
      \<lparr>c_Digest = pp_Digest pp, c_Seq = pp_Seq pp, c_View = pp_View pp,
       c_ShardID = lp_ShardID (pbftMeta n), c_NodeID = lp_NodeID (pbftMeta n)\<rparr>) n = (r, n', ms)"
    using assms(1)
    by (auto simp: commitBroadcast_def curPreprepareA_def act_defs split: sum.splits prod.splits)
  from broadcast_cases [OF this] show ?thesis
    using Some codec_lawsD(3) [OF assms(2)]
    by (fastforce simp: getMsgType_def commits_in_def c_vs_def pp_vs_def)
qed

lemma commitBroadcast_inv:
  assumes I: "replica_inv sh N byz i S n" and K: "codec_laws (e_codec E)"
    and st: "stage_of (pbftMeta n) = stageCommit"
    and run: "commitBroadcast E n = (r, n', ms)"
  shows "n' = n \<and> replica_inv sh N byz i (add_votes (e_codec E) i S ms) n"
proof -
  note a = replica_invD [OF I]
  have ok: "meta_ok (pbftMeta n)" using a(1) by (simp add: node_ok_def)
  obtain pp where pp: "curPreprepare (pbftMeta n) = Some pp"
    using meta_okD(6) [OF ok] st by (cases "curPreprepare (pbftMeta n)") auto
  note vs = meta_okD(4) [OF ok pp]
  note b = commitBroadcast_cases [OF run K]
  have new: "(vs', d) \<in> S i \<or> vs' = curViewSeq (pbftMeta n) \<and> d = pp_Digest pp"
    if "(vs', d) \<in> add_votes (e_codec E) i S ms i" for vs' d
    using that b pp vs by (auto simp: add_votes_def)
  have old: "d = pp_Digest pp" if "(curViewSeq (pbftMeta n), d) \<in> S i" for d
    using a(5) [OF that] pp by auto
  have "replica_inv sh N byz i (add_votes (e_codec E) i S ms) n"
  proof (rule replica_invI)
    show "vs' < curViewSeq (pbftMeta n) \<or> vs' = curViewSeq (pbftMeta n) \<and>
        stage_of (pbftMeta n) = stageCommit \<and> (\<exists>pp. curPreprepare (pbftMeta n) = Some pp \<and> pp_Digest pp = d)"
      if "(vs', d) \<in> add_votes (e_codec E) i S ms i" for vs' d
      using new [OF that] a(5) st pp by blast
    show "d = d'" if "(vs', d) \<in> add_votes (e_codec E) i S ms i"
      "(vs', d') \<in> add_votes (e_codec E) i S ms i" for vs' d d'
      using new [OF that(1)] new [OF that(2)] a(6) old by blast
    show "vouched sh N byz (add_votes (e_codec E) i S ms) (NodeInfo (c_NodeID m) (c_ShardID m)) (c_vs m) (c_Digest m)"
      if "m \<in> set (commits (msgPool (pbftMeta n)))" for m
      using vouched_add [OF a(7) [OF that]] .
    show "vouched sh N byz (add_votes (e_codec E) i S ms) v (curViewSeq (pbftMeta n)) (pp_Digest pp')"
      if "v \<in> commitSet (pbftMeta n)" "curPreprepare (pbftMeta n) = Some pp'" for v pp'
      using vouched_add [OF a(8) [OF that]] .
  qed (use a in blast)+
  then show ?thesis using b by blast
qed

subsection \<open>Stepping\<close>

definition seq_room :: "ViewSeq \<Rightarrow> bool" where
  "seq_room vs \<longleftrightarrow> 0 \<le> Seq vs \<and> Seq vs < 2 ^ 63 - 1"

lemma incSeq_greater: "seq_room vs \<Longrightarrow> vs < incSeq vs"
  by (simp add: ViewSeq_less_iff incSeq_def seq_room_def i64_id in_i64_def)

text \<open>One call of \<open>step2Next\<close>, without messages.\<close>

lemma step2NextA_cases:
  assumes "step2NextA n = (r, n', ms)"
  shows "ms = [] \<and> step2Next (pbftMeta n) = (r, pbftMeta n') \<and> n' = n\<lparr>pbftMeta := pbftMeta n'\<rparr>"
  using assms by (auto simp: step2NextA_def act_defs split: prod.splits)

lemma step2Next_inv:
  assumes I: "replica_inv sh N byz i S n" and room: "seq_room (curViewSeq (pbftMeta n))"
    and step: "step2Next (pbftMeta n) = (r, c)"
  shows "replica_inv sh N byz i S (n\<lparr>pbftMeta := c\<rparr>)"
proof -
  note a = replica_invD [OF I]
  have ok: "meta_ok (pbftMeta n)" "meta_ok c"
    using a(1) step2Next_meta_ok [OF _ step] by (auto simp: node_ok_def)
  have gt: "curViewSeq (pbftMeta n) < incSeq (curViewSeq (pbftMeta n))"
    using room by (rule incSeq_greater)
  have le: "vs \<le> curViewSeq (pbftMeta n)" if "(vs, d) \<in> S i" for vs d
    using a(5) [OF that] by auto
  have lt: "vs < incSeq (curViewSeq (pbftMeta n))" if "(vs, d) \<in> S i" for vs d
    using le [OF that] gt by (rule order.strict_trans1)
  show ?thesis
  proof (rule replica_invI)
    show "vs < curViewSeq (pbftMeta (n\<lparr>pbftMeta := c\<rparr>)) \<or>
        vs = curViewSeq (pbftMeta (n\<lparr>pbftMeta := c\<rparr>)) \<and>
        stage_of (pbftMeta (n\<lparr>pbftMeta := c\<rparr>)) = stageCommit \<and>
        (\<exists>pp. curPreprepare (pbftMeta (n\<lparr>pbftMeta := c\<rparr>)) = Some pp \<and> pp_Digest pp = d)"
      if "(vs, d) \<in> S i" for vs d
      using a(5) [OF that] lt [OF that] step
      by (auto simp: step2Next_def split: stage.splits if_splits option.splits)
  qed (use a ok step in \<open>auto simp: step2Next_def node_ok_def split: stage.splits if_splits option.splits\<close>)
qed

text \<open>When the round advances, the proposal was accepted and a quorum of commit votes was held.\<close>

definition cert :: "consensusMeta \<Rightarrow> bool" where
  "cert c \<longleftrightarrow> curPreprepare c \<noteq> None \<and> quorum c \<le> int (card (commitSet c))"

lemma step2Next_round:
  assumes "step2Next c = (Inr (old, new), c')" "old \<noteq> new"
  shows "if new = stagePreprepare then cert c \<and> curViewSeq c' = incSeq (curViewSeq c)
      else curViewSeq c' = curViewSeq c \<and> stage_of c' = new \<and> (cert c' \<longrightarrow> cert c)"
  using assms
  by (auto simp: step2Next_def cert_def quorum_def split: stage.splits if_splits option.splits)

lemma step2Next_same:
  assumes "step2Next c = (Inl e, c') \<or> step2Next c = (Inr (old, old), c')"
  shows "curViewSeq c' = curViewSeq c"
  using assms by (auto simp: step2Next_def split: stage.splits if_splits option.splits)

context shard_contract
begin

lemma finishRound_inv:
  assumes "e_ops E = ops" "finishRound E now n = (r, n', ms)"
  shows "pbftMeta n' = pbftMeta n \<and> quiet ms \<and> n' = n\<lparr>world := world n'\<rparr>"
  using assms(2)
  by (auto simp: assms(1) finishRound_def act_defs recordBlock_def ConvertBlock2Line_def bindR_def
      split: option.splits prod.splits sum.splits if_splits dest: commit_quiet)

lemma step_stages_inv:
  assumes E: "e_ops E = ops" "codec_laws (e_codec E)"
  shows "replica_inv sh N byz i S n \<Longrightarrow> seq_room (curViewSeq (pbftMeta n)) \<Longrightarrow>
    step_stages k E now n = (r, n', ms) \<Longrightarrow>
      replica_inv sh N byz i (add_votes (e_codec E) i S ms) n' \<and>
      (curViewSeq (pbftMeta n') \<noteq> curViewSeq (pbftMeta n) \<longrightarrow>
         cert (pbftMeta n) \<and> curViewSeq (pbftMeta n') = incSeq (curViewSeq (pbftMeta n)))"
proof (induction k arbitrary: S n r n' ms)
  case 0
  then show ?case by (simp add: act_defs)
next
  case (Suc k)
  obtain r1 n1 o1 where s1: "step2NextA n = (r1, n1, o1)" by (metis prod_cases3)
  note s = step2NextA_cases [OF s1]
  have I1: "replica_inv sh N byz i S n1"
    using step2Next_inv [OF Suc.prems(1,2), of r1 "pbftMeta n1"] s by metis
  show ?case
  proof (cases r1)
    case (Inl e)
    then have "n' = n1 \<and> ms = []" using Suc.prems(3) s1 s by (simp add: bindA_def)
    then show ?thesis using I1 step2Next_same [of "pbftMeta n"] s Inl by auto
  next
    case (Inr sg)
    obtain old new where r1: "r1 = Inr (old, new)" using Inr by (cases sg) auto
    show ?thesis
    proof (cases "old = new")
      case True
      then have "n' = n1 \<and> ms = []" using Suc.prems(3) s1 s r1 by (simp add: bindA_def act_defs)
      then show ?thesis using I1 step2Next_same [of "pbftMeta n" _ "pbftMeta n1" new] s r1 True by auto
    next
      case False
      have run: "(case new of
          stagePreprepare \<Rightarrow> finishRound E now
        | stagePrepare \<Rightarrow> thenA (prepareBroadcast E) (step_stages k E now)
        | stageCommit \<Rightarrow> thenA (commitBroadcast E) (step_stages k E now)
        | _ \<Rightarrow> errA ''unknown stage'') n1 = (r, n', ms)"
        using Suc.prems(3) s1 s r1 False by (auto simp: bindA_def split: prod.splits)
      note round = step2Next_round [of "pbftMeta n" old new "pbftMeta n1"]
      have step: "step2Next (pbftMeta n) = (Inr (old, new), pbftMeta n1)" using s r1 by simp
      show ?thesis
      proof (cases "new = stagePreprepare")
        case True
        then have f: "finishRound E now n1 = (r, n', ms)" using run by simp
        note fr = finishRound_inv [OF E(1) f]
        have "add_votes (e_codec E) i S ms = S"
          using fr by (intro add_votes_quiet) (auto simp: quiet_def)
        moreover have "replica_inv sh N byz i S n'" using I1 fr by (metis replica_inv_world)
        ultimately show ?thesis using round [OF step False] True fr by simp
      next
        case ne: False
        note rd = round [OF step False]
        have room1: "seq_room (curViewSeq (pbftMeta n1))" using rd ne Suc.prems(2) by simp
        have loop: ?thesis if "thenA b (step_stages k E now) n1 = (r, n', ms)"
          and b: "\<And>r2 n2 o2. b n1 = (r2, n2, o2) \<Longrightarrow>
              n2 = n1 \<and> replica_inv sh N byz i (add_votes (e_codec E) i S o2) n1" for b
          using that(1)
        proof (cases rule: bindA_cases)
          case (1 e)
          then show ?thesis using b [OF 1(1)] rd ne by simp
        next
          case (2 x n2 o2 o3)
          note b2 = b [OF 2(1)]
          have "step_stages k E now n1 = (r, n', o3)" using 2(2) b2 by simp
          from Suc.IH [OF conjunct2 [OF b2] room1 this] show ?thesis using 2(3) rd ne by auto
        qed
        have "n2 = n1 \<and> replica_inv sh N byz i (add_votes (e_codec E) i S o2) n1"
          if "prepareBroadcast E n1 = (r2, n2, o2)" for r2 n2 o2
        proof -
          have "\<forall>(d, w) \<in> set o2. MsgType w \<noteq> ''Commit''"
            using prepareBroadcast_cases [OF that] by fastforce
          then show ?thesis using prepareBroadcast_cases [OF that] I1 by (simp add: add_votes_quiet)
        qed
        moreover have "n2 = n1 \<and> replica_inv sh N byz i (add_votes (e_codec E) i S o2) n1"
          if "commitBroadcast E n1 = (r2, n2, o2)" "new = stageCommit" for r2 n2 o2
          using commitBroadcast_inv [OF I1 E(2) _ that(1)] rd ne that(2) by simp
        moreover have "r = Inl (Errorf ''unknown stage'') \<and> n' = n1 \<and> ms = []"
          if "new \<noteq> stagePrepare" "new \<noteq> stageCommit"
          using that ne run by (cases new) (simp_all add: act_defs)
        ultimately show ?thesis
          using run loop I1 rd ne by (cases new) auto
      qed
    qed
  qed
qed

end

section \<open>A tick\<close>

text \<open>The state in which a replica decides satisfies the invariant for the votes known then.\<close>

definition justified ::
    "int \<Rightarrow> int \<Rightarrow> int set \<Rightarrow> int \<Rightarrow> votes \<Rightarrow> 'w node \<Rightarrow> ViewSeq \<Rightarrow> bytes \<Rightarrow> bool" where
  "justified sh N byz i S c vs d \<longleftrightarrow>
     (\<exists>S' pp. (\<forall>j. S' j \<subseteq> S j) \<and> replica_inv sh N byz i S' c \<and>
        curPreprepare (pbftMeta c) = Some pp \<and> pp_Digest pp = d \<and> curViewSeq (pbftMeta c) = vs)"

context shard_contract
begin

lemma broadcast_inv:
  assumes "getMsgType msg \<noteq> ''Commit''"
  shows "keepsV (e_codec E) i (tick_inv (e_codec E) sh N byz i cur W) (broadcastMsgInnerShard E msg)"
proof (rule keepsGI)
  fix S :: votes and n :: "'a node" and r n' ms
  assume I: "tick_inv (e_codec E) sh N byz i cur W S n"
    and run: "broadcastMsgInnerShard E msg n = (r, n', ms)"
  have "\<forall>(d, w) \<in> set ms. MsgType w \<noteq> ''Commit''"
    using broadcast_cases [OF run] assms by fastforce
  then show "tick_inv (e_codec E) sh N byz i cur W (add_votes (e_codec E) i S ms) n'"
    using broadcast_cases [OF run] I by (simp add: add_votes_quiet)
qed

lemma propose_inv:
  assumes "e_ops E = ops"
  shows "keepsV (e_codec E) i (tick_inv (e_codec E) sh N byz i cur W) (propose E now)"
  unfolding propose_def assms
  by (intro votes_keeps keepsV_metaA_frame keepsV_quiet broadcast_inv)
    (auto simp: getMsgType_def dest: build_quiet)

lemma catchUpStart_inv:
  "keepsV (e_codec E) i (tick_inv (e_codec E) sh N byz i cur W) (catchUpStart E)"
proof (rule keepsGI)
  fix S :: votes and n :: "'a node" and r n' ms
  assume I: "tick_inv (e_codec E) sh N byz i cur W S n" and run: "catchUpStart E n = (r, n', ms)"
  have ms: "\<forall>(d, w) \<in> set ms. MsgType w \<noteq> ''Commit''"
    and n': "n' = n \<or> n' = n\<lparr>pbftMeta := (pbftMeta n)\<lparr>catchupStarted := True\<rparr>\<rparr>"
    using run by (auto simp: catchUpStart_def act_defs WrapMsg_def bindR_def getMsgType_def
        split: sum.splits prod.splits)
  have "meta_ok (pbftMeta n)" using replica_invD(1) [OF tick_invD [OF I]] by (simp add: node_ok_def)
  then have "replica_inv sh N byz i S (n\<lparr>pbftMeta := (pbftMeta n)\<lparr>catchupStarted := True\<rparr>\<rparr>)"
    by (intro replica_inv_frame [OF tick_invD [OF I]]) simp_all
  then show "tick_inv (e_codec E) sh N byz i cur W (add_votes (e_codec E) i S ms) n'"
    using I ms n' by (auto simp: tick_inv_def add_votes_quiet)
qed

lemma leaderOrCatchup_inv:
  assumes "e_ops E = ops"
  shows "keepsV (e_codec E) i (tick_inv (e_codec E) sh N byz i cur W) (leaderOrCatchup E now)"
  unfolding leaderOrCatchup_def
  by (intro votes_keeps propose_inv catchUpStart_inv assms)

lemma curated_inv:
  assumes "e_ops E = ops" "codec_laws (e_codec E)"
  shows "keepsV (e_codec E) i (tick_inv (e_codec E) sh N byz i cur (set msgs))
    (thenA (forA (\<lambda>msg. logA (handleMessage E msg)) msgs) (metaA curateMsg))"
  by (intro keepsV_bindA keepsV_forA keepsV_logA handleMessage_inv assms keepsV_metaA)
    (auto simp: curateMsg_frame intro: curate_inv dest: tick_invD)

lemma bindA_assoc: "bindA m (\<lambda>x. bindA (k x) h) s = bindA (bindA m k) h s"
  by (simp add: bindA_def split: prod.splits sum.splits)

lemma logA_cases:
  assumes "logA m s = (r, s', ms)"
  obtains r' where "m s = (r', s', ms)"
  using assms by (auto simp: logA_def split: prod.splits)

text \<open>A tick keeps the invariant, and decides only with a quorum of vouched commit votes.\<close>

lemma tick_replica_inv:
  assumes E: "e_ops E = ops" "codec_laws (e_codec E)"
    and I: "replica_inv sh N byz i S n" and room: "seq_room (curViewSeq (pbftMeta n))"
    and auth: "\<And>w. w \<in> set msgs \<Longrightarrow> authentic (e_codec E) sh N byz S w"
    and run: "tick E msgs now n = (r, n', ms)"
  shows "replica_inv sh N byz i (add_votes (e_codec E) i S ms) n' \<and>
    (\<forall>(vs, d) \<in> decided E msgs n n'.
       cert (pbftMeta (curated E msgs n)) \<and> vs < curViewSeq (pbftMeta n') \<and>
       justified sh N byz i (add_votes (e_codec E) i S ms) (curated E msgs n) vs d)"
proof -
  let ?K = "e_codec E" and ?cur = "curViewSeq (pbftMeta n)" and ?c = "curated E msgs n"
  let ?P = "thenA (forA (\<lambda>msg. logA (handleMessage E msg)) msgs) (metaA curateMsg)"
  let ?Q = "thenA (logA (step2NextStage E now)) (leaderOrCatchup E now)"
  have start: "tick_inv ?K sh N byz i ?cur (set msgs) S n" using I auth by (simp add: tick_inv_def)
  obtain r1 c1 o1 where p1: "?P n = (r1, c1, o1)" by (rule prod_cases3 [of "?P n"])
  then have p: "?P n = (r1, ?c, o1)" by (simp add: curated_def)
  let ?S1 = "add_votes ?K i S o1"
  have I1: "tick_inv ?K sh N byz i ?cur (set msgs) ?S1 ?c"
    using keepsGD [OF curated_inv [OF E], OF start p] .
  have cur1: "curViewSeq (pbftMeta ?c) = ?cur" using I1 by (simp add: tick_inv_def)
  have "bindA ?P (\<lambda>_. ?Q) n = (r, n', ms)"
    using run unfolding tick_def by (simp add: bindA_assoc)
  then show ?thesis
  proof (cases rule: bindA_cases)
    case (1 e)
    then have "n' = ?c" "ms = o1" using p by auto
    then show ?thesis using tick_invD [OF I1] by (auto simp: decided_def Let_def split: option.splits)
  next
    case (2 x n1 o1' o2)
    then have eq: "n1 = ?c" "o1' = o1" using p by auto
    have step: "?thesis" if s: "step2NextStage E now ?c = (r2, n2, o3)"
      and l: "tick_inv ?K sh N byz i (curViewSeq (pbftMeta n2)) {} (add_votes ?K i (add_votes ?K i ?S1 o3) o4) n'"
      and o2: "o2 = o3 @ o4" for r2 n2 o3 o4
    proof -
      have st: "replica_inv sh N byz i (add_votes ?K i ?S1 o3) n2 \<and>
          (curViewSeq (pbftMeta n2) \<noteq> curViewSeq (pbftMeta ?c) \<longrightarrow>
             cert (pbftMeta ?c) \<and> curViewSeq (pbftMeta n2) = incSeq (curViewSeq (pbftMeta ?c)))"
        using step_stages_inv [OF E tick_invD [OF I1]] s room cur1 by (simp add: step2NextStage_def)
      have ms: "ms = o1 @ o3 @ o4" using 2 eq o2 by simp
      have cur': "curViewSeq (pbftMeta n') = curViewSeq (pbftMeta n2)" using l by (simp add: tick_inv_def)
      have inv: "replica_inv sh N byz i (add_votes ?K i S ms) n'" using tick_invD [OF l] ms by simp
      have sub: "\<forall>j. ?S1 j \<subseteq> add_votes ?K i S ms j" using ms by (auto simp: add_votes_def)
      have gt: "?cur < incSeq ?cur" using room by (rule incSeq_greater)
      show ?thesis
      proof (cases "curPreprepare (pbftMeta ?c) = None \<or> curViewSeq (pbftMeta n') = ?cur")
        case True
        then have "decided E msgs n n' = {}"
          using cur1 by (auto simp: decided_def Let_def split: option.splits)
        then show ?thesis using inv by simp
      next
        case False
        then obtain pp where pp: "curPreprepare (pbftMeta ?c) = Some pp" by auto
        have "decided E msgs n n' = {(?cur, pp_Digest pp)}"
          using False cur1 pp by (simp add: decided_def Let_def)
        moreover have "cert (pbftMeta ?c) \<and> ?cur < curViewSeq (pbftMeta n')"
          using st False cur' cur1 gt by simp
        moreover have "justified sh N byz i (add_votes ?K i S ms) ?c ?cur (pp_Digest pp)"
          unfolding justified_def
          by (intro exI [of _ ?S1] exI [of _ pp] conjI sub tick_invD [OF I1] pp refl cur1)
        ultimately show ?thesis using inv by simp
      qed
    qed
    have "?Q ?c = (r, n', o2)" using 2 eq by simp
    then show ?thesis
    proof (cases rule: bindA_cases)
      case (1 e)
      obtain r2 where s: "step2NextStage E now ?c = (r2, n', o2)" using 1(1) by (rule logA_cases)
      have "replica_inv sh N byz i (add_votes ?K i ?S1 o2) n'"
        using step_stages_inv [OF E tick_invD [OF I1]] s room cur1 by (simp add: step2NextStage_def)
      then show ?thesis by (intro step [OF s, where ?o4.0 = "[]"]) (simp_all add: tick_inv_def)
    next
      case (2 y n2 o3 o4)
      obtain r2 where s: "step2NextStage E now ?c = (r2, n2, o3)" using 2(1) by (rule logA_cases)
      have "replica_inv sh N byz i (add_votes ?K i ?S1 o3) n2"
        using step_stages_inv [OF E tick_invD [OF I1]] s room cur1 by (simp add: step2NextStage_def)
      then have "tick_inv ?K sh N byz i (curViewSeq (pbftMeta n2)) {} (add_votes ?K i ?S1 o3) n2"
        by (simp add: tick_inv_def)
      from keepsGD [OF leaderOrCatchup_inv [OF E(1)], OF this 2(2)] show ?thesis by (intro step [OF s]) (use 2 in auto)
    qed
  qed
qed

end

section \<open>Agreement\<close>

text \<open>The quorum of the code for \<open>N\<close> nodes.\<close>

definition quorum_of :: "int \<Rightarrow> int" where
  "quorum_of N = quorum (newConsensusMeta N 0 0 0 0)"

definition quorum_cert :: "int \<Rightarrow> int set \<Rightarrow> votes \<Rightarrow> ViewSeq \<Rightarrow> bytes \<Rightarrow> bool" where
  "quorum_cert N byz S vs d \<longleftrightarrow>
     (\<exists>Q. Q \<subseteq> members N \<and> quorum_of N \<le> int (card Q) \<and> (\<forall>j \<in> Q. j \<in> byz \<or> (vs, d) \<in> S j))"

lemma quorum_cert_mono:
  "quorum_cert N byz S vs d \<Longrightarrow> (\<And>j. S j \<subseteq> S' j) \<Longrightarrow> quorum_cert N byz S' vs d"
  unfolding quorum_cert_def by blast

lemma justified_cert:
  assumes j: "justified sh N byz i S c vs d" and cert: "cert (pbftMeta c)"
  shows "quorum_cert N byz S vs d"
proof -
  obtain S' pp where S': "\<forall>j. S' j \<subseteq> S j" "replica_inv sh N byz i S' c"
    "curPreprepare (pbftMeta c) = Some pp" "pp_Digest pp = d" "curViewSeq (pbftMeta c) = vs"
    using j unfolding justified_def by blast
  let ?V = "commitSet (pbftMeta c)"
  have v: "vouched sh N byz S' v vs d" if "v \<in> ?V" for v
    using replica_invD(8) [OF S'(2) that S'(3)] S'(4,5) by simp
  have "inj_on NodeID ?V"
    using v by (auto simp: inj_on_def vouched_def intro: NodeInfo.expand)
  then have "card (NodeID ` ?V) = card ?V" by (rule card_image)
  moreover have "quorum (pbftMeta c) = quorum_of N"
    using replica_invD(4) [OF S'(2)] by (simp add: quorum_of_def quorum_def newConsensusMeta_def)
  ultimately have "quorum_of N \<le> int (card (NodeID ` ?V))" using cert by (simp add: cert_def)
  moreover have "\<forall>j \<in> NodeID ` ?V. j \<in> members N \<and> (j \<in> byz \<or> (vs, d) \<in> S j)"
    using v S'(1) by (fastforce simp: vouched_def)
  ultimately show ?thesis unfolding quorum_cert_def by blast
qed

text \<open>Two quorums of a round share an honest replica, which voted once.\<close>

lemma quorum_cert_agree:
  assumes Q: "quorum_cert N byz S vs d" "quorum_cert N byz S vs d'"
    and small: "N + int (card (byz \<inter> members N)) < 2 * quorum_of N" and "0 \<le> N"
    and once: "\<And>j. j \<in> members N \<Longrightarrow> j \<notin> byz \<Longrightarrow> (vs, d) \<in> S j \<Longrightarrow> (vs, d') \<in> S j \<Longrightarrow> d = d'"
  shows "d = d'"
proof -
  obtain A where A: "A \<subseteq> members N" "quorum_of N \<le> int (card A)" "\<forall>j \<in> A. j \<in> byz \<or> (vs, d) \<in> S j"
    using Q(1) unfolding quorum_cert_def by blast
  obtain B where B: "B \<subseteq> members N" "quorum_of N \<le> int (card B)" "\<forall>j \<in> B. j \<in> byz \<or> (vs, d') \<in> S j"
    using Q(2) unfolding quorum_cert_def by blast
  have fin: "finite A" "finite B" using A(1) B(1) finite_members finite_subset by blast+
  have "card (A \<union> B) \<le> nat N"
    using card_mono [OF finite_members, of "A \<union> B" N] A(1) B(1) by (simp add: card_members)
  moreover have "card A + card B = card (A \<union> B) + card (A \<inter> B)" using fin by (rule card_Un_Int)
  ultimately have "card (byz \<inter> members N) < card (A \<inter> B)"
    using small A(2) B(2) \<open>0 \<le> N\<close> by linarith
  moreover have "A \<inter> B \<subseteq> byz \<inter> members N \<Longrightarrow> card (A \<inter> B) \<le> card (byz \<inter> members N)"
    by (intro card_mono) auto
  ultimately obtain j where "j \<in> A" "j \<in> B" "j \<notin> byz" using A(1) by (meson IntE IntI leD subset_iff)
  then show ?thesis using A B once by blast
qed

definition sys_inv :: "int \<Rightarrow> int \<Rightarrow> int set \<Rightarrow> 'w system \<Rightarrow> bool" where
  "sys_inv sh N byz s \<longleftrightarrow>
     (\<forall>i \<in> members N - byz. replica_inv sh N byz i (sent s) (replicas s i)) \<and>
     (\<forall>i vs d. (vs, d) \<in> decisions s i \<longrightarrow> quorum_cert N byz (sent s) vs d)"

lemma replica_inv_new:
  assumes "pbftMeta n = newConsensusMeta N b sh i t"
  shows "replica_inv sh N byz i (\<lambda>_. {}) n"
  using meta_ok_new [of N b sh i t] unfolding replica_inv_def Let_def node_ok_def assms
  by (simp add: newConsensusMeta_def NewMsgPool_def NewPQ_def)

lemma reach_sys_inv:
  assumes E: "\<And>i. i \<in> members N - byz \<Longrightarrow> shard_contract (e_ops (E i)) \<and> codec_laws (e_codec (E i))"
    and s0: "fresh sh N byz s0"
  shows "reach E sh N byz s0 s \<Longrightarrow> sys_inv sh N byz s"
proof (induction rule: reach.induct)
  case start
  have "replica_inv sh N byz i (\<lambda>_. {}) (replicas s0 i)" if "i \<in> members N - byz" for i
    using s0 that replica_inv_new unfolding fresh_def by blast
  then show ?case using s0 by (auto simp: sys_inv_def fresh_def)
next
  case (step s i msgs now r n' ms)
  let ?S = "add_votes (e_codec (E i)) i (sent s) ms"
  have I: "replica_inv sh N byz j (sent s) (replicas s j)" if "j \<in> members N" "j \<notin> byz" for j
    using step.IH that by (simp add: sys_inv_def)
  have i: "i \<in> members N" "i \<notin> byz" using step(2) by simp_all
  have "shard_contract (e_ops (E i))" "codec_laws (e_codec (E i))" using E [OF step(2)] by blast+
  note t = shard_contract.tick_replica_inv [OF this(1) refl this(2) I [OF i] _ step(3,6)]
  have room: "seq_room (curViewSeq (pbftMeta (replicas s i)))" using step(4,5) by (simp add: seq_room_def)
  note t = t [OF room]
  have other: "replica_inv sh N byz j ?S (replicas s j)" if "j \<in> members N" "j \<notin> byz" "j \<noteq> i" for j
    by (rule replica_inv_mono [OF I [OF that(1,2)]]) (use that(3) in \<open>auto simp: add_votes_def\<close>)
  have new: "quorum_cert N byz ?S vs d" if "(vs, d) \<in> decided (E i) msgs (replicas s i) n'" for vs d
    using t that justified_cert by blast
  have old: "quorum_cert N byz ?S vs d" if "(vs, d) \<in> decisions s j" for vs d j
  proof (rule quorum_cert_mono)
    show "quorum_cert N byz (sent s) vs d" using step.IH that unfolding sys_inv_def by blast
    show "sent s j \<subseteq> ?S j" for j by (rule add_votes_grows)
  qed
  show ?case
    using t other new old by (auto simp: sys_inv_def)
qed

lemma reach_agreement:
  assumes E: "\<And>i. i \<in> members N - byz \<Longrightarrow> shard_contract (e_ops (E i)) \<and> codec_laws (e_codec (E i))" and s0: "fresh sh N byz s0" and r: "reach E sh N byz s0 s"
    and small: "N + int (card (byz \<inter> members N)) < 2 * quorum_of N" and "0 \<le> N"
    and d: "(vs, d) \<in> decisions s i" "(vs, d') \<in> decisions s j"
  shows "d = d'"
proof -
  have inv: "sys_inv sh N byz s" by (rule reach_sys_inv [OF E s0 r])
  show ?thesis
  proof (rule quorum_cert_agree [OF _ _ small \<open>0 \<le> N\<close>])
    show "quorum_cert N byz (sent s) vs d" "quorum_cert N byz (sent s) vs d'"
      using inv d unfolding sys_inv_def by blast+
    show "d = d'" if "k \<in> members N" "k \<notin> byz" "(vs, d) \<in> sent s k" "(vs, d') \<in> sent s k" for k
      using inv that replica_invD(6) unfolding sys_inv_def by blast
  qed
qed

text \<open>
  The quorum \<open>2 * ((N - 1) / 3) + 1\<close> is large enough for \<open>N = 3 * f + 1\<close> nodes of which at most
  \<open>f\<close> are Byzantine.
\<close>

lemma quorum_of_eq:
  assumes "1 \<le> N" "N < 2 ^ 62"
  shows "quorum_of N = 2 * ((N - 1) div 3) + 1"
proof -
  have "i64 (N - 1) = N - 1" using assms by (intro i64_id) (simp add: in_i64_def)
  moreover have "quot (N - 1) 3 = (N - 1) div 3" using assms by (simp add: quot_nonneg)
  moreover have "0 \<le> (N - 1) div 3" "(N - 1) div 3 \<le> N - 1" using assms by simp_all
  then have "i64 (2 * ((N - 1) div 3)) = 2 * ((N - 1) div 3)"
    "i64 (2 * ((N - 1) div 3) + 1) = 2 * ((N - 1) div 3) + 1"
    using assms by (auto intro!: i64_id simp: in_i64_def)
  ultimately show ?thesis by (simp add: quorum_of_def quorum_def newConsensusMeta_def)
qed

lemma few_byzantine:
  assumes "N = 3 * F + 1" "0 \<le> F" "F < 2 ^ 60" "int (card (byz \<inter> members N)) \<le> F"
  shows "N + int (card (byz \<inter> members N)) < 2 * quorum_of N" "0 \<le> N"
  using quorum_of_eq [of N] assms by simp_all

end
