(* ===== verification/ShardContract.thy ===== *)
theory ShardContract
  imports ShardOps Agreement
begin

text \<open>
  The operations of a shard meet the contract of the node: whatever they do, the messages they
  send are no consensus messages. With it the agreement of the replicas holds for the nodes that
  \<open>NewPBFTNode\<close> builds.
\<close>

section \<open>Actions that send no consensus message\<close>

definition quietA :: "('s, 'a) act \<Rightarrow> bool" where
  "quietA m \<longleftrightarrow> (\<forall>s r s' ms. m s = (r, s', ms) \<longrightarrow> quiet ms)"

named_theorems quiet_intros \<open>actions that send no consensus message\<close>

lemma quietAD: "quietA m \<Longrightarrow> m s = (r, s', ms) \<Longrightarrow> quiet ms"
  unfolding quietA_def by blast

lemma quietA_pure [quiet_intros]:
  "quietA (retA x)" "quietA (errA msg)" "quietA (panicA msg)" "quietA (liftA r)" "quietA (getA g)"
  "quietA (modA h)" "quietA (readA g')"
  by (simp_all add: quietA_def act_defs readA_def)

lemma quietA_stateA [quiet_intros]: "quietA (stateA g)"
  by (simp add: quietA_def stateA_def split: prod.splits)

lemma quietA_sendA: "quiet ms \<Longrightarrow> quietA (sendA ms)"
  by (simp add: quietA_def act_defs)

lemma quietA_zoomA [quiet_intros]: "quietA m \<Longrightarrow> quietA (zoomA g p m)"
  by (auto simp: quietA_def zoomA_def split: prod.splits)

lemma quietA_bindA:
  assumes "quietA m" and "\<And>s x s' ms. m s = (Inr x, s', ms) \<Longrightarrow> quietA (k x)"
  shows "quietA (bindA m k)"
  unfolding quietA_def
proof (intro allI impI)
  fix s r s' ms assume "bindA m k s = (r, s', ms)"
  then show "quiet ms"
  proof (cases rule: bindA_cases)
    case 1
    then show ?thesis using quietAD [OF assms(1)] by blast
  next
    case (2 x s1 o1 o2)
    then show ?thesis using quietAD [OF assms(1) 2(1)] quietAD [OF assms(2) [OF 2(1)] 2(2)] by simp
  qed
qed

lemma quietA_bindA' [quiet_intros]: "quietA m \<Longrightarrow> (\<And>x. quietA (k x)) \<Longrightarrow> quietA (bindA m k)"
  by (rule quietA_bindA)

lemma quietA_if [quiet_intros]: "quietA m \<Longrightarrow> quietA m' \<Longrightarrow> quietA (if c then m else m')"
  by simp

lemma quietA_prod [quiet_intros]: "(\<And>a b. quietA (k a b)) \<Longrightarrow> quietA (case p of (a, b) \<Rightarrow> k a b)"
  by (cases p) simp

lemma quietA_liftA_bind:
  assumes "\<And>x. r = Inr x \<Longrightarrow> quietA (k x)"
  shows "quietA (bindA (liftA r) k)"
proof (rule quietA_bindA)
  show "quietA (liftA r)" by (rule quiet_intros)
qed (use assms in \<open>simp add: act_simps\<close>)

text \<open>A message list built by a loop over destinations.\<close>

lemma quiet_update:
  assumes "quiet ms" "MsgType w \<notin> {''Preprepare'', ''Prepare'', ''Commit''}"
  shows "quiet (AList.update d w ms)"
  using assms unfolding quiet_def by (induction ms) (auto split: if_splits)

lemma quiet_SendWrappedTxs2Shards: "SendWrappedTxs2Shards K txs r = Inr ms \<Longrightarrow> quiet ms"
proof -
  assume run: "SendWrappedTxs2Shards K txs r = Inr ms"
  show "quiet ms"
  proof (rule foldR_invariant [OF run [unfolded SendWrappedTxs2Shards_def]])
    show "quiet []" by simp
    fix m m' it assume "quiet m" "wrap_txs_for K r m it = Inr m'"
    then show "quiet m'"
      by (auto simp: wrap_txs_for_def bindR_Inr_iff getMsgType_def quiet_update split: prod.splits if_splits)
  qed
qed

lemma quiet_wrap_migration: "foldR (wrap_migration E am) [] xs = Inr ms \<Longrightarrow> quiet ms"
  by (erule foldR_invariant)
    (auto simp: wrap_migration_def bindR_Inr_iff getMsgType_def quiet_update split: prod.splits)

lemma send_buckets_quiet [quiet_intros]: "quietA (send_buckets E txs)"
  unfolding send_buckets_def
  by (rule quietA_liftA_bind) (intro quietA_sendA quiet_SendWrappedTxs2Shards)

lemma send_to_supervisor_quiet:
  "getMsgType msg \<notin> {''Preprepare'', ''Prepare'', ''Commit''} \<Longrightarrow> quietA (send_to_supervisor E msg)"
  unfolding send_to_supervisor_def
  by (intro quietA_liftA_bind quietA_sendA) (auto simp: quiet_def)

section \<open>The operations\<close>

lemma relay_quiet [quiet_intros]:
  "quietA (relay_BuildTxBlockProposal E now txs)" "quietA (relay_BlockCommitAndDeliver E now l b)"
  unfolding relay_BuildTxBlockProposal_def generateA_def relay_BlockCommitAndDeliver_def
    relay_deliverBlockInfo2Supervisor_def relay_sendRelayedTxs_def
  by (intro quiet_intros send_to_supervisor_quiet; simp add: getMsgType_def)+

lemma broker_quiet [quiet_intros]:
  "quietA (broker_BuildTxBlockProposal E now txs)" "quietA (broker_BlockCommitAndDeliver E now l b)"
  unfolding broker_BuildTxBlockProposal_def generateA_def broker_BlockCommitAndDeliver_def
    broker_deliverBlockInfo2Supervisor_def broker_sendRelayedTxs_def
  by (intro quiet_intros send_to_supervisor_quiet; simp add: getMsgType_def)+

lemma tbo_quiet:
  assumes "NewTxBlockOp E = Inr tbo"
  shows "quietA (BuildTxBlockProposal tbo now txs)" "quietA (BlockCommitAndDeliver tbo now l b)"
  using assms relay_quiet broker_quiet
  by (auto simp: NewTxBlockOp_def NewRelayTxBlockOp_def NewBrokerTxBlockOp_def split: if_splits)

lemma migration_quiet [quiet_intros]:
  "quietA (BuildMigrationProposal E now)" "quietA (MigrateAccounts E)" "quietA (MigrationBlockCommit E b)"
  unfolding BuildMigrationProposal_def generateA_def MigrateAccounts_def MigrationBlockCommit_def Let_def
  by (intro quiet_intros quietA_liftA_bind quietA_sendA quiet_wrap_migration; assumption?)+

lemma pack_quiet [quiet_intros]: "quietA (packValidTxs E n)" "quietA (migrateTxs E)"
  unfolding packValidTxs_def packValidTxsInRelay_def packValidTxsInBroker_def brokerCLPATxSendAgain_def
    migrateTxs_def migrateTxsInRelay_def migrateTxsInBroker_def addTxsA_def
  by (auto intro!: quiet_intros send_to_supervisor_quiet simp: getMsgType_def split: prod.splits)

lemma outside_quiet [quiet_intros]:
  "quietA (static_HandleMsgOutsideShard E msg)" "quietA (dynamic_HandleMsgOutsideShard E msg)"
  unfolding static_HandleMsgOutsideShard_def dynamic_HandleMsgOutsideShard_def receiveTxs_def addTxsA_def
  by (intro quiet_intros)+

lemma static_contract:
  assumes "\<And>now txs. quietA (BuildTxBlockProposal tbo now txs)" "\<And>now l b. quietA (BlockCommitAndDeliver tbo now l b)"
  shows "shard_contract (static_ops E tbo)"
proof
  show "BuildProposal (static_ops E tbo) now w = (r, w', ms) \<Longrightarrow> quiet ms" for now w r w' ms
    by (rule quietAD [of "static_BuildProposal E tbo now"])
      (auto simp: static_ops_def static_BuildProposal_def intro!: quiet_intros assms)
qed (auto simp: static_ops_def validateProposal_def intro: quiet_intros assms elim!: quietAD [rotated])

lemma dynamic_contract:
  assumes "\<And>now txs. quietA (BuildTxBlockProposal tbo now txs)" "\<And>now l b. quietA (BlockCommitAndDeliver tbo now l b)"
  shows "shard_contract (dynamic_ops E tbo)"
proof
  show "BuildProposal (dynamic_ops E tbo) now w = (r, w', ms) \<Longrightarrow> quiet ms" for now w r w' ms
    by (rule quietAD [of "dynamic_BuildProposal E tbo now"])
      (auto simp: dynamic_ops_def static_ops_def dynamic_BuildProposal_def buildBlockProposal_def
        buildPartitionProposal_def intro!: quiet_intros assms)
qed (auto simp: dynamic_ops_def static_ops_def validateProposal_def dynamic_ProposalCommitAndDeliver_def
    intro: quiet_intros assms elim!: quietAD [rotated])

section \<open>The nodes that are built\<close>

interpretation static_relay: shard_contract "static_ops S (NewRelayTxBlockOp S)"
  for S :: "('db, 'd, 'tdb, 't, 'ns) shard_env"
  by (rule static_contract) (simp_all add: NewRelayTxBlockOp_def relay_quiet)

interpretation static_broker: shard_contract "static_ops S (NewBrokerTxBlockOp S)"
  for S :: "('db, 'd, 'tdb, 't, 'ns) shard_env"
  by (rule static_contract) (simp_all add: NewBrokerTxBlockOp_def broker_quiet)

interpretation clpa_relay: shard_contract "dynamic_ops S (NewRelayTxBlockOp S)"
  for S :: "('db, 'd, 'tdb, 't, 'ns) shard_env"
  by (rule dynamic_contract) (simp_all add: NewRelayTxBlockOp_def relay_quiet)

interpretation clpa_broker: shard_contract "dynamic_ops S (NewBrokerTxBlockOp S)"
  for S :: "('db, 'd, 'tdb, 't, 'ns) shard_env"
  by (rule dynamic_contract) (simp_all add: NewBrokerTxBlockOp_def broker_quiet)

text \<open>The operations that \<open>NewPBFTNode\<close> can choose for a shard.\<close>

definition shard_ops_of ::
    "('db, 'd, 'tdb, 't, 'ns) shard_env \<Rightarrow> ('db, 'tdb) shard_world shard_ops \<Rightarrow> bool" where
  "shard_ops_of S ops \<longleftrightarrow>
     ops = static_ops S (NewRelayTxBlockOp S) \<or> ops = static_ops S (NewBrokerTxBlockOp S) \<or>
     ops = dynamic_ops S (NewRelayTxBlockOp S) \<or> ops = dynamic_ops S (NewBrokerTxBlockOp S)"

lemma NewPBFTNode_ops:
  assumes "NewPBFTNode S now i bi pt er bl hf db loc st csw = Inr (ops, n)"
  shows "shard_ops_of S ops"
proof -
  have tbo: "tbo = NewRelayTxBlockOp S \<or> tbo = NewBrokerTxBlockOp S" if "NewTxBlockOp S = Inr tbo" for tbo
    using that by (auto simp: NewTxBlockOp_def split: if_splits)
  show ?thesis using assms tbo
    by (auto simp: NewPBFTNode_def bindR_Inr_iff Let_def shard_ops_of_def split: if_splits)
qed

lemma NewPBFTNode_meta:
  assumes "NewPBFTNode S now i bi pt er bl hf db loc st csw = Inr (ops, n)"
  shows "pbftMeta n = newConsensusMeta (s_NodeNum S) bi (s_ShardID S) i now"
  using assms by (auto simp: NewPBFTNode_def bindR_Inr_iff Let_def split: if_splits)

lemma shard_ops_contract: "shard_ops_of S ops \<Longrightarrow> shard_contract ops"
  using static_relay.shard_contract_axioms static_broker.shard_contract_axioms
    clpa_relay.shard_contract_axioms clpa_broker.shard_contract_axioms
  unfolding shard_ops_of_def by blast


definition votes_once :: "int set \<Rightarrow> votes \<Rightarrow> ViewSeq \<Rightarrow> bool" where
  "votes_once byz S vs \<longleftrightarrow> (\<forall>j d d'. j \<notin> byz \<longrightarrow> (vs, d) \<in> S j \<longrightarrow> (vs, d') \<in> S j \<longrightarrow> d = d')"


section \<open>Examples\<close>

text \<open>A shard of one node that agrees on one block, in two ticks.\<close>

definition example_pp :: PreprepareMsg where
  "example_pp = \<lparr>pp_P = example_next, pp_Digest = [1], pp_Seq = 0, pp_View = 0, pp_ShardID = 0, pp_NodeID = 0\<rparr>"

definition example_p :: PrepareMsg where
  "example_p = \<lparr>p_Digest = [1], p_Seq = 0, p_View = 0, p_ShardID = 0, p_NodeID = 0\<rparr>"

definition example_c :: CommitMsg where
  "example_c = \<lparr>c_Digest = [1], c_Seq = 0, c_View = 0, c_ShardID = 0, c_NodeID = 0\<rparr>"

definition example_codec :: codec where
  "example_codec =
     \<lparr>enc = (\<lambda>m. if m = MPreprepare example_pp then Some [0] else if m = MPrepare example_p then Some [1]
                   else if m = MCommit example_c then Some [2] else None),
      dec_preprepare = (\<lambda>b. if b = [0] then Some example_pp else None),
      dec_prepare = (\<lambda>b. if b = [1] then Some example_p else None),
      dec_commit = (\<lambda>b. if b = [2] then Some example_c else None),
      dec_receive_txs = (\<lambda>b. None), dec_catchup_req = (\<lambda>b. None), dec_catchup_resp = (\<lambda>b. None),
      dec_relay_block_info = (\<lambda>b. None), dec_broker_block_info = (\<lambda>b. None), dec_tx_send_again = (\<lambda>b. None),
      dec_repartition_start = (\<lambda>b. None), dec_account_migration = (\<lambda>b. None)\<rparr>"

lemma example_codec_laws: "codec_laws example_codec"
  by (auto simp: codec_laws_def example_codec_def split: message.splits)

definition example_topo :: TopoGetter where
  "example_topo = \<lparr>leaders = [(0, NodeInfo 0 0)], shard2nodes = [(0, [NodeInfo 0 0])]\<rparr>"

definition example_shard :: "(unit, example_state, bytes \<Rightarrow> example_trie, example_trie, example_trie) shard_env" where
  "example_shard =
     \<lparr>s_chain = example_env, s_codec = example_codec, s_resolver = example_topo, s_ConsensusType = ''static_relay'',
      s_ShardNum = 1, s_NodeNum = 1, s_BlockSizeLimit = 10, s_ShardID = 0, s_WalletAddr = 0\<rparr>"

definition example_node_env :: "(unit, bytes \<Rightarrow> example_trie) shard_world node_env" where
  "example_node_env =
     \<lparr>e_codec = example_codec, e_lib = example_lib, e_fmt_time = (\<lambda>t. []), e_write_line = (\<lambda>l. Inr ()),
      e_ops = static_ops example_shard (NewRelayTxBlockOp example_shard)\<rparr>"

definition example_world :: "(unit, bytes \<Rightarrow> example_trie) shard_world" where
  "example_world = \<lparr>w_chain = example_chain, w_pool = \<lparr>queue = [], pool_type = ''number''\<rparr>, w_amm = NewAccMigrateMetadata 1 0\<rparr>"

definition example_node :: "(unit, bytes \<Rightarrow> example_trie) shard_world node" where
  "example_node = \<lparr>resolver = example_topo, pbftMeta = newConsensusMeta 1 1000 0 0 0, world = example_world\<rparr>"

definition example_votes :: "WrappedMsg list" where
  "example_votes = [\<lparr>MsgType = ''Preprepare'', Payload = [0]\<rparr>, \<lparr>MsgType = ''Prepare'', Payload = [1]\<rparr>]"

definition example_commit :: "WrappedMsg list" where
  "example_commit = [\<lparr>MsgType = ''Commit'', Payload = [2]\<rparr>]"

text \<open>After the first tick the node has voted for the block.\<close>

definition example_voted :: "(unit, bytes \<Rightarrow> example_trie) shard_world node" where
  "example_voted = example_node\<lparr>pbftMeta := (newConsensusMeta 1 1000 0 0 0)
     \<lparr>stage_of := stageCommit, curPreprepare := Some example_pp, prepareSet := {NodeInfo 0 0}\<rparr>\<rparr>"

lemma push_one [simp]: "PushItem lt x [] = [x]"
  by (simp add: PushItem_def heap_up.simps parent_def)

lemma pop_one [simp]: "PopItem lt [x] = (x, [])"
  by (simp add: PopItem_def heap_down.simps Swap_def)

lemmas example_node_defs = example_node_env_def example_shard_def example_codec_def example_pp_def example_p_def
  example_c_def example_topo_def example_world_def example_node_def example_voted_def example_votes_def
  example_commit_def newConsensusMeta_def NewMsgPool_def NewPQ_def static_ops_def

lemma example_valid: "ValidateBlock example_env example_chain example_next = Inr ()"
  by (simp add: ValidateBlock_def calcTxHeaderOpt_def calcMigrationHeaderOpt_def bloom_Equal_def example_chain_defs)

lemmas tick_run = tick_def logA_def handleMessage_def handlePreprepare_def handlePrepare_def handleCommit_def
  bindA_def liftA_def getA_def modA_def zoomA_def retA_def sendA_def readA_def stateA_def validateProposal_def
  Compare_def ReadPreprepareMsg_def ReadPrepareMsg_def ReadCommitMsg_def PushPreprepareMsg_def
  PushPrepareMsg_def PushCommitMsg_def pp_vs_def p_vs_def c_vs_def Let_def updateLatestViewSeq_def
  curateMsg_def accept_preprepare_def collect_prepares_def collect_commits_def

lemmas stages_run = step2NextStage_def numeral_3_eq_3 step2NextA_def step2Next_def prepareBroadcast_def
  commitBroadcast_def curPreprepareA_def broadcastMsgInnerShard_def GetNodesInShard_def WrapMsg_def
  getMsgType_def quorum_def leaderOrCatchup_def initialLeader_def quot_def i64_def finishRound_def
  NewRelayTxBlockOp_def relay_BlockCommitAndDeliver_def relay_splitTxs_def
  relay_deliverBlockInfo2Supervisor_def send_to_supervisor_def incSeq_def propose_def

lemma first_tick:
  "tick example_node_env example_votes 0 example_node =
     (Inr (), example_voted, [(NodeInfo 0 0, \<lparr>MsgType = ''Prepare'', Payload = [1]\<rparr>),
                              (NodeInfo 0 0, \<lparr>MsgType = ''Commit'', Payload = [2]\<rparr>)])"
  by (simp add: tick_run example_node_defs example_valid stages_run)

lemma second_curated:
  "curated example_node_env example_commit example_voted =
     example_voted\<lparr>pbftMeta := (pbftMeta example_voted)\<lparr>commitSet := {NodeInfo 0 0}\<rparr>\<rparr>"
  by (simp add: curated_def tick_run example_node_defs)

lemma second_tick:
  "\<exists>n' ms. tick example_node_env example_commit 0 example_voted = (Inr (), n', ms) \<and>
     curViewSeq (pbftMeta n') = ViewSeq 0 1"
proof -
  obtain c' where c': "chain_AddBlock example_env example_next example_chain = (Inr (), c')"
    using example_add by blast
  have txs: "TxList example_next = []" by (simp add: example_next_def example_block_def)
  show ?thesis by (simp add: tick_run example_node_defs stages_run c' txs)
qed

lemma example_voted_meta: "curViewSeq (pbftMeta example_voted) = ViewSeq 0 0"
  "curPreprepare (pbftMeta example_voted) = Some example_pp" "pp_Digest example_pp = [1]"
  "curViewSeq (pbftMeta example_node) = ViewSeq 0 0"
  by (simp_all add: example_node_defs)

definition example_started :: "(unit, bytes \<Rightarrow> example_trie) shard_world system" where
  "example_started = \<lparr>replicas = \<lambda>_. example_node, sent = \<lambda>_. {}, decisions = \<lambda>_. {}\<rparr>"

lemma example_fresh: "fresh 0 1 {} example_started"
proof -
  have "i = 0" if "i \<in> members 1" for i using that by (simp add: members_def)
  then show ?thesis by (auto simp: fresh_def example_started_def example_node_def)
qed

lemma example_decides:
  "\<exists>s. reach (\<lambda>_. example_node_env) 0 1 {} example_started s \<and> (ViewSeq 0 0, [1]) \<in> decisions s 0"
proof -
  let ?K = "e_codec example_node_env"
  let ?s0 = example_started
  let ?ms = "[(NodeInfo 0 0, \<lparr>MsgType = ''Prepare'', Payload = [1]\<rparr>),
              (NodeInfo 0 0, \<lparr>MsgType = ''Commit'', Payload = [2]\<rparr>)]"
  let ?s1 = "?s0\<lparr>replicas := (replicas ?s0)(0 := example_voted), sent := add_votes ?K 0 (sent ?s0) ?ms,
      decisions := (decisions ?s0)(0 := decisions ?s0 0 \<union> decided example_node_env example_votes (replicas ?s0 0) example_voted)\<rparr>"
  have member: "i \<in> members 1 \<longleftrightarrow> i = 0" for i by (auto simp: members_def)
  have r1: "reach (\<lambda>_. example_node_env) 0 1 {} ?s0 ?s1"
  proof (rule reach.step [OF reach.start])
    show "tick example_node_env example_votes 0 (replicas ?s0 0) = (Inr (), example_voted, ?ms)"
      using first_tick by (simp add: example_started_def)
  qed (auto simp: member example_started_def example_votes_def authentic_def example_voted_meta)
  obtain n' ms where t2: "tick example_node_env example_commit 0 (replicas ?s1 0) = (Inr (), n', ms)"
    and cur: "curViewSeq (pbftMeta n') = ViewSeq 0 1" using second_tick by auto
  have sent: "(ViewSeq 0 0, [1]) \<in> sent ?s1 0"
    by (simp add: add_votes_def commits_in_def example_node_env_def example_codec_def example_c_def c_vs_def)
  have "reach (\<lambda>_. example_node_env) 0 1 {} ?s0 (?s1\<lparr>replicas := (replicas ?s1)(0 := n'),
      sent := add_votes ?K 0 (sent ?s1) ms,
      decisions := (decisions ?s1)(0 := decisions ?s1 0 \<union> decided example_node_env example_commit (replicas ?s1 0) n')\<rparr>)"
    (is "reach _ _ _ _ _ ?s2")
  proof (rule reach.step [OF r1 _ _ _ _ t2])
    show "authentic ?K 0 1 {} (sent ?s1) w" if "w \<in> set example_commit" for w
      using that sent
      by (auto simp: example_commit_def authentic_def vouched_def member example_node_env_def example_codec_def
          example_c_def c_vs_def)
  qed (auto simp: member example_voted_meta)
  moreover have "(ViewSeq 0 0, [1]) \<in> decisions ?s2 0"
    by (simp add: decided_def second_curated example_voted_meta cur Let_def)
  ultimately show ?thesis by blast
qed


end
