(* ===== verification/Liveness.thy ===== *)
theory Liveness
  imports ShardContract
begin

text \<open>
  Progress of a round. A replica that is given, in any order and over any number of ticks, the
  leader's proposal and votes of a quorum ends the round with the proposal, whatever else it is
  given; and honest replicas whose messages to each other arrive give each other these votes.
  What the round needs of the shard's operations is the locale \<open>round_contract\<close>.
\<close>

section \<open>What has been delivered\<close>

definition got_pp :: "codec \<Rightarrow> PreprepareMsg \<Rightarrow> WrappedMsg set \<Rightarrow> bool" where
  "got_pp K pp W \<longleftrightarrow> (\<exists>w \<in> W. MsgType w = ''Preprepare'' \<and> dec_preprepare K (Payload w) = Some pp)"

definition got_prepares :: "codec \<Rightarrow> ViewSeq \<Rightarrow> bytes \<Rightarrow> WrappedMsg set \<Rightarrow> NodeInfo set" where
  "got_prepares K vs d W = {NodeInfo (p_NodeID m) (p_ShardID m) | m. p_vs m = vs \<and> p_Digest m = d \<and>
     (\<exists>w \<in> W. MsgType w = ''Prepare'' \<and> dec_prepare K (Payload w) = Some m)}"

definition got_commits :: "codec \<Rightarrow> ViewSeq \<Rightarrow> bytes \<Rightarrow> WrappedMsg set \<Rightarrow> NodeInfo set" where
  "got_commits K vs d W = {NodeInfo (c_NodeID m) (c_ShardID m) | m. c_vs m = vs \<and> c_Digest m = d \<and>
     (\<exists>w \<in> W. MsgType w = ''Commit'' \<and> dec_commit K (Payload w) = Some m)}"

text \<open>
  A round of a replica: the proposal, the replica, the size of the shard and its nodes. The network
  may deliver anything in it but a stop, a catch-up response and another proposal that names the
  same round and leader.
\<close>

record round =
  rd_sh :: int
  rd_id :: int
  rd_N :: int
  rd_pp :: PreprepareMsg
  rd_group :: "NodeInfo list"

abbreviation "rd_vs R \<equiv> pp_vs (rd_pp R)"
abbreviation "rd_digest R \<equiv> pp_Digest (rd_pp R)"

definition rival :: "round \<Rightarrow> PreprepareMsg \<Rightarrow> bool" where
  "rival R q \<longleftrightarrow> pp_vs q = rd_vs R \<and> pp_NodeID q = pp_NodeID (rd_pp R) \<and> q \<noteq> rd_pp R"

definition fair :: "codec \<Rightarrow> round \<Rightarrow> WrappedMsg \<Rightarrow> bool" where
  "fair K R w \<longleftrightarrow> MsgType w \<noteq> ''StopConsensus'' \<and> MsgType w \<noteq> ''CatchupResp'' \<and>
     (MsgType w = ''Preprepare'' \<longrightarrow> (\<forall>q. dec_preprepare K (Payload w) = Some q \<longrightarrow> \<not> rival R q))"

lemma got_simps [simp]:
  "got_pp K pp {} = False" "got_prepares K vs d {} = {}" "got_commits K vs d {} = {}"
  "got_pp K pp (insert w W) \<longleftrightarrow> MsgType w = ''Preprepare'' \<and> dec_preprepare K (Payload w) = Some pp \<or> got_pp K pp W"
  "got_prepares K vs d (insert w W) =
     {NodeInfo (p_NodeID m) (p_ShardID m) | m. p_vs m = vs \<and> p_Digest m = d \<and> MsgType w = ''Prepare'' \<and> dec_prepare K (Payload w) = Some m} \<union>
     got_prepares K vs d W"
  "got_commits K vs d (insert w W) =
     {NodeInfo (c_NodeID m) (c_ShardID m) | m. c_vs m = vs \<and> c_Digest m = d \<and> MsgType w = ''Commit'' \<and> dec_commit K (Payload w) = Some m} \<union>
     got_commits K vs d W"
  by (auto simp: got_pp_def got_prepares_def got_commits_def)

lemma got_mono: "W \<subseteq> W' \<Longrightarrow> got_pp K pp W \<Longrightarrow> got_pp K pp W'"
  "W \<subseteq> W' \<Longrightarrow> got_prepares K vs d W \<subseteq> got_prepares K vs d W'"
  "W \<subseteq> W' \<Longrightarrow> got_commits K vs d W \<subseteq> got_commits K vs d W'"
  unfolding got_pp_def got_prepares_def got_commits_def by blast+

section \<open>The contract of the shard's operations\<close>

locale round_contract =
  fixes ops :: "'w shard_ops" and valid :: "block \<Rightarrow> 'w \<Rightarrow> bool"
  assumes validate_valid: "valid b w \<Longrightarrow> ValidateProposal ops b w = (Inr (), w, [])"
    and validate_keeps: "valid b w \<Longrightarrow> ValidateProposal ops b' w = (r1, w', ms) \<Longrightarrow> valid b w'"
    and build_keeps: "valid b w \<Longrightarrow> BuildProposal ops now w = (r, w', ms) \<Longrightarrow> valid b w'"
    and outside_keeps: "valid b w \<Longrightarrow> HandleMsgOutsideShard ops msg w = (r1, w', ms) \<Longrightarrow> valid b w'"
    and blocks_keeps: "valid b w \<Longrightarrow> GetBlocksAfterHeight ops h w = (r2, w', ms) \<Longrightarrow> valid b w'"

section \<open>The state of a replica in its round\<close>

text \<open>What holds throughout the round.\<close>

definition in_round :: "(block \<Rightarrow> 'w \<Rightarrow> bool) \<Rightarrow> round \<Rightarrow> 'w node \<Rightarrow> bool" where
  "in_round valid R n \<longleftrightarrow>
     (let c = pbftMeta n in
      meta_ok c \<and> lp_NodeID c = rd_id R \<and> lp_ShardID c = rd_sh R \<and> f c = quot (i64 (rd_N R - 1)) 3 \<and> \<not> closed c \<and>
      leader c = pp_NodeID (rd_pp R) \<and> curViewSeq c = rd_vs R \<and>
      GetNodesInShard (resolver n) (rd_sh R) = Inr (rd_group R) \<and> valid (pp_P (rd_pp R)) (world n) \<and>
      (curPreprepare c = None \<or> curPreprepare c = Some (rd_pp R)) \<and>
      (\<forall>q \<in> set (preprepares (msgPool c)). \<not> rival R q))"

text \<open>While messages are handled: what was delivered is in the pool or was collected.\<close>

definition pending :: "(block \<Rightarrow> 'w \<Rightarrow> bool) \<Rightarrow> codec \<Rightarrow> round \<Rightarrow> WrappedMsg set \<Rightarrow> 'w node \<Rightarrow> bool" where
  "pending valid K R W n \<longleftrightarrow> in_round valid R n \<and>
     (let c = pbftMeta n in
      (got_pp K (rd_pp R) W \<longrightarrow> curPreprepare c = Some (rd_pp R) \<or> rd_pp R \<in> set (preprepares (msgPool c))) \<and>
      got_prepares K (rd_vs R) (rd_digest R) W \<subseteq> prepareSet c \<union> prepare_voters (msgPool c) (rd_vs R) (rd_digest R) \<and>
      got_commits K (rd_vs R) (rd_digest R) W \<subseteq> commitSet c \<union> commit_voters (msgPool c) (rd_vs R) (rd_digest R))"

text \<open>After the curation: the delivered proposal was accepted, and the votes for it were collected.\<close>

definition curated_to :: "(block \<Rightarrow> 'w \<Rightarrow> bool) \<Rightarrow> codec \<Rightarrow> round \<Rightarrow> WrappedMsg set \<Rightarrow> 'w node \<Rightarrow> bool" where
  "curated_to valid K R W n \<longleftrightarrow> pending valid K R W n \<and>
     (let c = pbftMeta n in
      (got_pp K (rd_pp R) W \<longrightarrow> curPreprepare c = Some (rd_pp R)) \<and>
      (curPreprepare c = Some (rd_pp R) \<longrightarrow>
         got_prepares K (rd_vs R) (rd_digest R) W \<subseteq> prepareSet c \<and> got_commits K (rd_vs R) (rd_digest R) W \<subseteq> commitSet c))"

lemma in_roundD:
  assumes "in_round valid R n"
  shows "meta_ok (pbftMeta n)" "lp_NodeID (pbftMeta n) = rd_id R" "lp_ShardID (pbftMeta n) = rd_sh R"
    "f (pbftMeta n) = quot (i64 (rd_N R - 1)) 3" "\<not> closed (pbftMeta n)"
    "leader (pbftMeta n) = pp_NodeID (rd_pp R)" "curViewSeq (pbftMeta n) = rd_vs R"
    "GetNodesInShard (resolver n) (rd_sh R) = Inr (rd_group R)" "valid (pp_P (rd_pp R)) (world n)"
    "curPreprepare (pbftMeta n) = None \<or> curPreprepare (pbftMeta n) = Some (rd_pp R)"
    and "q \<in> set (preprepares (msgPool (pbftMeta n))) \<Longrightarrow> \<not> rival R q"
  using assms by (auto simp: in_round_def Let_def)

lemma pendingD: "pending valid K R W n \<Longrightarrow> in_round valid R n"
  by (simp add: pending_def)

lemma pending_world: "pending valid K R W n \<Longrightarrow> valid (pp_P (rd_pp R)) w \<Longrightarrow> pending valid K R W (n\<lparr>world := w\<rparr>)"
  by (simp add: pending_def in_round_def Let_def)

lemma curated_world: "curated_to valid K R W n \<Longrightarrow> valid (pp_P (rd_pp R)) w \<Longrightarrow> curated_to valid K R W (n\<lparr>world := w\<rparr>)"
  by (simp add: curated_to_def pending_def in_round_def Let_def)

lemma push_voters [simp]:
  "prepare_voters (PushPreprepareMsg m q) vs d = prepare_voters m vs d"
  "commit_voters (PushPreprepareMsg m q) vs d = commit_voters m vs d"
  "commit_voters (PushPrepareMsg m p) vs d = commit_voters m vs d"
  "prepare_voters (PushCommitMsg m c) vs d = prepare_voters m vs d"
  "prepare_voters (PushPrepareMsg m p) vs d =
     (if p_vs p = vs \<and> p_Digest p = d then insert (NodeInfo (p_NodeID p) (p_ShardID p)) (prepare_voters m vs d) else prepare_voters m vs d)"
  "commit_voters (PushCommitMsg m c) vs d =
     (if c_vs c = vs \<and> c_Digest c = d then insert (NodeInfo (c_NodeID c) (c_ShardID c)) (commit_voters m vs d) else commit_voters m vs d)"
  by (auto simp: prepare_voters_def commit_voters_def)

section \<open>Handling messages\<close>

lemma handlePrepare_pending:
  assumes P: "pending valid (e_codec E) R W n" and w: "MsgType w = ''Prepare''"
    and run: "handlePrepare E (Payload w) n = (r, n', ms)"
  shows "pending valid (e_codec E) R (insert w W) n'"
proof (cases "dec_prepare (e_codec E) (Payload w)")
  case None
  then have "n' = n" using run by (auto simp: handlePrepare_def act_simps orErr_def)
  then show ?thesis using P None w by (simp add: pending_def)
next
  case (Some m)
  have vs: "curViewSeq (pbftMeta n) = rd_vs R" using in_roundD(7) [OF pendingD [OF P]] .
  show ?thesis
  proof (cases "p_vs m < rd_vs R")
    case True
    then have "n' = n" using run Some vs by (auto simp: handlePrepare_def act_simps orErr_def p_vs_def)
    then show ?thesis using P Some w True by (auto simp: pending_def Let_def)
  next
    case False
    then have "n' = n\<lparr>pbftMeta := (pbftMeta n)\<lparr>msgPool := PushPrepareMsg (msgPool (pbftMeta n)) m\<rparr>\<rparr>"
      using run Some vs by (auto simp: handlePrepare_def act_simps orErr_def p_vs_def)
    then show ?thesis using P Some w by (auto simp: pending_def in_round_def Let_def)
  qed
qed

lemma handleCommit_pending:
  assumes P: "pending valid (e_codec E) R W n" and w: "MsgType w = ''Commit''"
    and run: "handleCommit E (Payload w) n = (r, n', ms)"
  shows "pending valid (e_codec E) R (insert w W) n'"
proof (cases "dec_commit (e_codec E) (Payload w)")
  case None
  then have "n' = n" using run by (auto simp: handleCommit_def act_simps orErr_def)
  then show ?thesis using P None w by (simp add: pending_def)
next
  case (Some m)
  have vs: "curViewSeq (pbftMeta n) = rd_vs R" using in_roundD(7) [OF pendingD [OF P]] .
  show ?thesis
  proof (cases "c_vs m < rd_vs R")
    case True
    then have "n' = n" using run Some vs by (auto simp: handleCommit_def act_simps orErr_def c_vs_def)
    then show ?thesis using P Some w True by (auto simp: pending_def Let_def)
  next
    case False
    then have "n' = n\<lparr>pbftMeta := (pbftMeta n)\<lparr>msgPool := PushCommitMsg (msgPool (pbftMeta n)) m\<rparr>\<rparr>"
      using run Some vs by (auto simp: handleCommit_def act_simps orErr_def c_vs_def)
    then show ?thesis using P Some w by (auto simp: pending_def in_round_def Let_def)
  qed
qed

text \<open>A message of another type changes at most the world.\<close>

lemma insert_other:
  assumes "MsgType w \<notin> {''Preprepare'', ''Prepare'', ''Commit''}"
  shows "pending valid K R (insert w W) n = pending valid K R W n"
  using assms by (simp add: pending_def)

context round_contract
begin

lemma worldA_pending:
  assumes P: "pending valid K R W n" and keeps: "\<And>w r w' ms. valid (pp_P (rd_pp R)) w \<Longrightarrow> m w = (r, w', ms) \<Longrightarrow> valid (pp_P (rd_pp R)) w'"
    and run: "worldA m n = (r, n', ms)"
  shows "pending valid K R W n'"
proof -
  obtain w' where w': "m (world n) = (r, w', ms)" "n' = n\<lparr>world := w'\<rparr>" using run by (auto simp: zoomA_def split: prod.splits)
  have "valid (pp_P (rd_pp R)) (world n)" by (rule in_roundD(9) [OF pendingD [OF P]])
  then show ?thesis using pending_world [OF P] keeps [OF _ w'(1)] w'(2) by blast
qed

lemma handlePreprepare_pending:
  assumes E: "e_ops E = ops" and P: "pending valid (e_codec E) R W n" and w: "MsgType w = ''Preprepare''" and fair: "fair (e_codec E) R w"
    and run: "handlePreprepare E (Payload w) n = (r, n', ms)"
  shows "pending valid (e_codec E) R (insert w W) n'"
proof (cases "dec_preprepare (e_codec E) (Payload w)")
  case None
  then have "n' = n" using run by (auto simp: handlePreprepare_def act_simps orErr_def)
  then show ?thesis using P None w by (simp add: pending_def)
next
  case (Some q)
  have vs: "curViewSeq (pbftMeta n) = rd_vs R" and V: "valid (pp_P (rd_pp R)) (world n)"
    using in_roundD(7,9) [OF pendingD [OF P]] .
  have q: "\<not> rival R q" using fair Some w by (simp add: fair_def)
  show ?thesis
  proof (cases "pp_vs q < rd_vs R")
    case True
    then have "n' = n" using run Some vs by (auto simp: handlePreprepare_def act_simps orErr_def pp_vs_def)
    then show ?thesis using P Some w True by (auto simp: pending_def Let_def)
  next
    case False
    obtain r0 w0 o0 where v: "ValidateProposal ops (pp_P q) (world n) = (r0, w0, o0)" by (metis surj_pair)
    have V0: "valid (pp_P (rd_pp R)) w0" by (rule validate_keeps [OF V v])
    have P0: "pending valid (e_codec E) R W (n\<lparr>world := w0\<rparr>)" by (rule pending_world [OF P V0])
    show ?thesis
    proof (cases r0)
      case (Inl e)
      then have "q \<noteq> rd_pp R" using validate_valid [OF V] v by auto
      moreover have "n' = n\<lparr>world := w0\<rparr>"
        using run Some vs False v Inl E by (auto simp: handlePreprepare_def act_simps orErr_def pp_vs_def zoomA_def bindA_def)
      ultimately show ?thesis using P0 Some w by (simp add: pending_def)
    next
      case (Inr u)
      let ?c = "(pbftMeta n)\<lparr>msgPool := PushPreprepareMsg (msgPool (pbftMeta n)) q\<rparr>"
      have n': "n' = n\<lparr>world := w0, pbftMeta := updateLatestViewSeq ?c (pp_View q) (pp_Seq q)\<rparr>"
        using run Some vs False v Inr E by (auto simp: handlePreprepare_def act_simps orErr_def pp_vs_def zoomA_def bindA_def modA_def)
      have "prepareSet (updateLatestViewSeq c v s) = prepareSet c" "closed (updateLatestViewSeq c v s) = closed c"
        "leader (updateLatestViewSeq c v s) = leader c" for c v s
        by (simp_all add: updateLatestViewSeq_def)
      then show ?thesis using P0 Some w q unfolding n'
        by (auto simp: pending_def in_round_def Let_def updateLatestViewSeq_meta_ok)
    qed
  qed
qed

lemma handleMessage_pending:
  assumes E: "e_ops E = ops" and P: "pending valid (e_codec E) R W n" and fair: "fair (e_codec E) R w"
    and run: "handleMessage E w n = (r, n', ms)"
  shows "pending valid (e_codec E) R (insert w W) n'"
proof -
  consider "MsgType w = ''Preprepare''" | "MsgType w = ''Prepare''" | "MsgType w = ''Commit''"
    | "MsgType w \<notin> {''Preprepare'', ''Prepare'', ''Commit''}" by blast
  then show ?thesis
  proof cases
    case 1
    then show ?thesis using run by (intro handlePreprepare_pending [OF E P 1 fair]) (simp add: handleMessage_def)
  next
    case 2
    then show ?thesis using run by (intro handlePrepare_pending [OF P 2]) (simp add: handleMessage_def)
  next
    case 3
    then show ?thesis using run by (intro handleCommit_pending [OF P 3]) (simp add: handleMessage_def)
  next
    case 4
    have "pending valid (e_codec E) R W n'"
    proof (cases "MsgType w = ''CatchupReq''")
      case True
      then have run': "handleCatchupReq E (Payload w) n = (r, n', ms)" using run by (simp add: handleMessage_def)
      show ?thesis
        using run' unfolding handleCatchupReq_def
      proof (cases rule: bindA_cases)
        case 1
        then show ?thesis using P by (auto simp: act_simps)
      next
        case (2 q n1 o1 o2)
        then have "n1 = n" by (simp add: act_simps)
        from 2(2) show ?thesis unfolding \<open>n1 = n\<close>
        proof (cases rule: bindA_cases)
          case 1
          show ?thesis by (rule worldA_pending [OF P _ 1(1)]) (use E blocks_keeps in blast)
        next
          case (2 bs n2 o3 o4)
          have "pending valid (e_codec E) R W n2" by (rule worldA_pending [OF P _ 2(1)]) (use E blocks_keeps in blast)
          moreover have "n' = n2" using 2(2) by (auto simp: act_simps bindA_def liftA_def split: sum.splits)
          ultimately show ?thesis by simp
        qed
      qed
    next
      case False
      then have "worldA (HandleMsgOutsideShard ops w) n = (r, n', ms)"
        using run 4 fair E by (simp add: handleMessage_def fair_def)
      then show ?thesis by (rule worldA_pending [OF P, rotated]) (rule outside_keeps)
    qed
    then show ?thesis using insert_other [OF 4] by blast
  qed
qed

lemma handle_all_pending:
  assumes E: "e_ops E = ops" and fair: "\<forall>w \<in> set msgs. fair (e_codec E) R w"
  shows "pending valid (e_codec E) R W n \<Longrightarrow> forA (\<lambda>msg. logA (handleMessage E msg)) msgs n = (Inr (), n', ms) \<Longrightarrow>
    pending valid (e_codec E) R (W \<union> set msgs) n'"
  using fair
proof (induction msgs arbitrary: W n ms)
  case (Cons w msgs)
  from Cons.prems(2) obtain n1 o1 o2 where run: "logA (handleMessage E w) n = (Inr (), n1, o1)"
    "forA (\<lambda>msg. logA (handleMessage E msg)) msgs n1 = (Inr (), n', o2)"
    by (simp only: forA.simps) (elim bindA_InrE, simp)
  obtain r where "handleMessage E w n = (r, n1, o1)" using run(1) by (auto simp: logA_def split: prod.splits)
  then have "pending valid (e_codec E) R (insert w W) n1"
    using Cons.prems(1,3) by (intro handleMessage_pending [OF E]) simp_all
  then show ?case using Cons.IH [OF _ run(2), of "insert w W"] Cons.prems(3) by simp
qed (simp add: act_simps)

end

section \<open>Curation\<close>

lemma accept_delivered:
  assumes P: "pending valid K R W n"
  shows "curPreprepare (accept_preprepare (pbftMeta n)) = Some (rd_pp R) \<or>
      curPreprepare (accept_preprepare (pbftMeta n)) = None \<and> \<not> got_pp K (rd_pp R) W"
proof (cases "curPreprepare (pbftMeta n)")
  case None
  let ?c = "pbftMeta n"
  note r = in_roundD [OF pendingD [OF P]]
  obtain ret pool where read: "ReadPreprepareMsg (msgPool ?c) (curViewSeq ?c) = (ret, pool)" by force
  have pool: "pool_ok (msgPool ?c)" by (rule meta_okD(1) [OF r(1)])
  have "set_mset (mset ret) = {q \<in> set (preprepares (msgPool ?c)). pp_vs q \<le> curViewSeq ?c}"
    using ReadPreprepareMsg_spec [OF pool read] by simp
  then have ret: "set ret = {q \<in> set (preprepares (msgPool ?c)). pp_vs q \<le> curViewSeq ?c}" by simp
  let ?P = "\<lambda>m. \<not> (Compare (curViewSeq ?c) (pp_vs m) \<noteq> 0 \<or> pp_NodeID m \<noteq> leader ?c)"
  have acc: "curPreprepare (accept_preprepare ?c) = find ?P ret" using None read by (simp add: accept_preprepare_def)
  have own: "q = rd_pp R" if "q \<in> set ret" "?P q" for q
    using that r(6,7,11) unfolding ret rival_def by auto
  show ?thesis
  proof (cases "find ?P ret")
    case (Some q)
    then show ?thesis using own find_Some_iff' [OF Some] acc by auto
  next
    case None2: None
    have "\<not> got_pp K (rd_pp R) W"
    proof
      assume "got_pp K (rd_pp R) W"
      then have "rd_pp R \<in> set (preprepares (msgPool ?c))" using P None by (simp add: pending_def Let_def)
      then have "rd_pp R \<in> set ret" "?P (rd_pp R)" using r(6,7) by (simp_all add: ret)
      then show False using None2 by (auto simp: find_None_iff)
    qed
    then show ?thesis using None2 acc by simp
  qed
next
  case (Some q)
  then show ?thesis using in_roundD(1,10) [OF pendingD [OF P]] accept_preprepare_spec(5) [OF meta_okD(1)] by fastforce
qed

lemma curate_curated:
  assumes P: "pending valid K R W n"
  shows "curated_to valid K R W (n\<lparr>pbftMeta := curateMsg (pbftMeta n)\<rparr>)"
proof -
  let ?c = "pbftMeta n" let ?a = "accept_preprepare ?c"
  note r = in_roundD [OF pendingD [OF P]]
  have pool: "pool_ok (msgPool ?c)" by (rule meta_okD(1) [OF r(1)])
  note a = accept_preprepare_spec [OF pool]
  have P': "got_prepares K (rd_vs R) (rd_digest R) W \<subseteq> prepareSet ?c \<union> prepare_voters (msgPool ?c) (rd_vs R) (rd_digest R)"
    "got_commits K (rd_vs R) (rd_digest R) W \<subseteq> commitSet ?c \<union> commit_voters (msgPool ?c) (rd_vs R) (rd_digest R)"
    using P by (simp_all add: pending_def Let_def)
  have ok: "meta_ok (curateMsg ?c)" by (rule curateMsg_meta_ok [OF r(1)])
  show ?thesis
    using accept_delivered [OF P]
  proof
    assume Some: "curPreprepare ?a = Some (rd_pp R)"
    obtain p where p: "curateMsg ?c = ?a
      \<lparr>msgPool := p,
       prepareSet := prepareSet ?c \<union> prepare_voters (msgPool ?c) (curViewSeq ?c) (pp_Digest (rd_pp R)),
       commitSet := commitSet ?c \<union> commit_voters (msgPool ?c) (curViewSeq ?c) (pp_Digest (rd_pp R))\<rparr>"
      "preprepares p = preprepares (msgPool ?a)" using curateMsg_Some [OF pool Some] by blast
    have "\<forall>q \<in> set (preprepares p). \<not> rival R q" using a(4) r(11) p(2) by auto
    then have "in_round valid R (n\<lparr>pbftMeta := curateMsg ?c\<rparr>)"
      using r ok Some unfolding in_round_def Let_def by (simp add: curateMsg_frame) (simp add: p(1))
    moreover have "got_prepares K (rd_vs R) (rd_digest R) W \<subseteq> prepareSet (curateMsg ?c)"
      "got_commits K (rd_vs R) (rd_digest R) W \<subseteq> commitSet (curateMsg ?c)"
      using P' r(7) by (simp_all add: p(1))
    ultimately show ?thesis using Some by (auto simp: curated_to_def pending_def Let_def curateMsg_frame)
  next
    assume None: "curPreprepare ?a = None \<and> \<not> got_pp K (rd_pp R) W"
    then have eq: "curateMsg ?c = ?a" using curateMsg_None by blast
    have "\<forall>q \<in> set (preprepares (msgPool ?a)). \<not> rival R q" using a(4) r(11) by auto
    then have "in_round valid R (n\<lparr>pbftMeta := ?a\<rparr>)"
      using r ok None unfolding in_round_def Let_def eq by simp
    moreover have "prepare_voters (msgPool ?a) vs d = prepare_voters (msgPool ?c) vs d"
      "commit_voters (msgPool ?a) vs d = commit_voters (msgPool ?c) vs d" for vs d
      using a(2,3) by (simp_all add: prepare_voters_def commit_voters_def)
    ultimately show ?thesis using None P' by (simp add: eq curated_to_def pending_def Let_def)
  qed
qed

section \<open>Stepping through the stages\<close>

text \<open>The vote of a replica, sent to all nodes of the shard.\<close>

definition sent_prepare :: "codec \<Rightarrow> round \<Rightarrow> sends \<Rightarrow> bool" where
  "sent_prepare K R ms \<longleftrightarrow> (\<exists>w m. MsgType w = ''Prepare'' \<and> dec_prepare K (Payload w) = Some m \<and>
     p_vs m = rd_vs R \<and> p_Digest m = rd_digest R \<and> p_NodeID m = rd_id R \<and> p_ShardID m = rd_sh R \<and>
     (\<forall>g \<in> set (rd_group R). (g, w) \<in> set ms))"

definition sent_commit :: "codec \<Rightarrow> round \<Rightarrow> sends \<Rightarrow> bool" where
  "sent_commit K R ms \<longleftrightarrow> (\<exists>w m. MsgType w = ''Commit'' \<and> dec_commit K (Payload w) = Some m \<and>
     c_vs m = rd_vs R \<and> c_Digest m = rd_digest R \<and> c_NodeID m = rd_id R \<and> c_ShardID m = rd_sh R \<and>
     (\<forall>g \<in> set (rd_group R). (g, w) \<in> set ms))"

lemma sent_mono:
  "set ms \<subseteq> set ms' \<Longrightarrow> sent_prepare K R ms \<Longrightarrow> sent_prepare K R ms'"
  "set ms \<subseteq> set ms' \<Longrightarrow> sent_commit K R ms \<Longrightarrow> sent_commit K R ms'"
  unfolding sent_prepare_def sent_commit_def by blast+

text \<open>The replica's votes can be encoded.\<close>

definition can_vote :: "codec \<Rightarrow> round \<Rightarrow> bool" where
  "can_vote K R \<longleftrightarrow>
     enc K (MPrepare \<lparr>p_Digest = rd_digest R, p_Seq = Seq (rd_vs R), p_View = View (rd_vs R),
       p_ShardID = rd_sh R, p_NodeID = rd_id R\<rparr>) \<noteq> None \<and>
     enc K (MCommit \<lparr>c_Digest = rd_digest R, c_Seq = Seq (rd_vs R), c_View = View (rd_vs R),
       c_ShardID = rd_sh R, c_NodeID = rd_id R\<rparr>) \<noteq> None"

lemma prepareBroadcast_sends:
  assumes "in_round valid R n" "codec_laws (e_codec E)" "can_vote (e_codec E) R" "curPreprepare (pbftMeta n) = Some (rd_pp R)"
  shows "\<exists>ms. prepareBroadcast E n = (Inr (), n, ms) \<and> sent_prepare (e_codec E) R ms"
proof -
  note r = in_roundD [OF assms(1)]
  let ?m = "\<lparr>p_Digest = rd_digest R, p_Seq = Seq (rd_vs R), p_View = View (rd_vs R), p_ShardID = rd_sh R, p_NodeID = rd_id R\<rparr>"
  obtain b where b: "enc (e_codec E) (MPrepare ?m) = Some b" using assms(3) by (auto simp: can_vote_def)
  let ?ms = "map (\<lambda>d. (d, \<lparr>MsgType = ''Prepare'', Payload = b\<rparr>)) (rd_group R)"
  have "prepareBroadcast E n = (Inr (), n, ?ms)"
    using b r(2,3,8) assms(4)
    by (simp add: prepareBroadcast_def curPreprepareA_def broadcastMsgInnerShard_def act_simps bindA_def getA_def
        liftA_def retA_def sendA_def WrapMsg_def bindR_def orErr_def getMsgType_def pp_vs_def)
  moreover have "sent_prepare (e_codec E) R ?ms"
    unfolding sent_prepare_def using codec_lawsD(2) [OF assms(2) b]
    by (intro exI [of _ "\<lparr>MsgType = ''Prepare'', Payload = b\<rparr>"] exI [of _ ?m]) (auto simp: p_vs_def)
  ultimately show ?thesis by blast
qed

lemma commitBroadcast_sends:
  assumes "in_round valid R n" "codec_laws (e_codec E)" "can_vote (e_codec E) R" "curPreprepare (pbftMeta n) = Some (rd_pp R)"
  shows "\<exists>ms. commitBroadcast E n = (Inr (), n, ms) \<and> sent_commit (e_codec E) R ms"
proof -
  note r = in_roundD [OF assms(1)]
  let ?m = "\<lparr>c_Digest = rd_digest R, c_Seq = Seq (rd_vs R), c_View = View (rd_vs R), c_ShardID = rd_sh R, c_NodeID = rd_id R\<rparr>"
  obtain b where b: "enc (e_codec E) (MCommit ?m) = Some b" using assms(3) by (auto simp: can_vote_def)
  let ?ms = "map (\<lambda>d. (d, \<lparr>MsgType = ''Commit'', Payload = b\<rparr>)) (rd_group R)"
  have "commitBroadcast E n = (Inr (), n, ?ms)"
    using b r(2,3,8) assms(4)
    by (simp add: commitBroadcast_def curPreprepareA_def broadcastMsgInnerShard_def act_simps bindA_def getA_def
        liftA_def retA_def sendA_def WrapMsg_def bindR_def orErr_def getMsgType_def pp_vs_def)
  moreover have "sent_commit (e_codec E) R ?ms"
    unfolding sent_commit_def using codec_lawsD(3) [OF assms(2) b]
    by (intro exI [of _ "\<lparr>MsgType = ''Commit'', Payload = b\<rparr>"] exI [of _ ?m]) (auto simp: c_vs_def)
  ultimately show ?thesis by blast
qed

text \<open>
  At the end of a tick: the votes that the stage calls for were sent, and the stage waits for votes
  that were not delivered; or the round has ended.
\<close>

definition voted :: "codec \<Rightarrow> round \<Rightarrow> sends \<Rightarrow> 'w node \<Rightarrow> bool" where
  "voted K R ms n \<longleftrightarrow>
     (stage_of (pbftMeta n) \<noteq> stagePreprepare \<longrightarrow> sent_prepare K R ms) \<and>
     (stage_of (pbftMeta n) = stageCommit \<longrightarrow> sent_commit K R ms)"

definition settled :: "(block \<Rightarrow> 'w \<Rightarrow> bool) \<Rightarrow> codec \<Rightarrow> round \<Rightarrow> WrappedMsg set \<Rightarrow> sends \<Rightarrow> 'w node \<Rightarrow> bool" where
  "settled valid K R W ms n \<longleftrightarrow> curated_to valid K R W n \<and> voted K R ms n \<and>
     (let c = pbftMeta n in
      curPreprepare c \<noteq> None \<longrightarrow>
        stage_of c = stagePrepare \<and> int (card (prepareSet c)) < quorum c \<or>
        stage_of c = stageCommit \<and> int (card (commitSet c)) < quorum c)"

definition ended :: "round \<Rightarrow> 'w node \<Rightarrow> bool" where
  "ended R n \<longleftrightarrow> curViewSeq (pbftMeta n) = incSeq (rd_vs R) \<and> lastProposal (pbftMeta n) = Some (pp_P (rd_pp R))"

definition progress :: "(block \<Rightarrow> 'w \<Rightarrow> bool) \<Rightarrow> codec \<Rightarrow> round \<Rightarrow> WrappedMsg set \<Rightarrow> sends \<Rightarrow> 'w node \<Rightarrow> bool" where
  "progress valid K R W ms n \<longleftrightarrow>
     settled valid K R W ms n \<or> ended R n \<and> sent_prepare K R ms \<and> sent_commit K R ms"

text \<open>A tick of a sequence starts in the round and leaves it with the proposal.\<close>

fun ends_in :: "'w node_env \<Rightarrow> round \<Rightarrow> (WrappedMsg list \<times> time) list \<Rightarrow> 'w node \<Rightarrow> bool" where
  "ends_in E R [] n = False"
| "ends_in E R ((msgs, now) # ts) n =
     (\<not> closed (pbftMeta n) \<and>
      (case tick E msgs now n of (r, n', ms) \<Rightarrow>
         curViewSeq (pbftMeta n) = rd_vs R \<and> ended R n' \<or> ends_in E R ts n'))"

definition delivered_in :: "(WrappedMsg list \<times> time) list \<Rightarrow> WrappedMsg set" where
  "delivered_in ts = (\<Union>(msgs, now) \<in> set ts. set msgs)"

lemma run_step2NextA: "step2NextA n = (case step2Next (pbftMeta n) of (r, c) \<Rightarrow> (r, n\<lparr>pbftMeta := c\<rparr>, []))"
  by (simp add: step2NextA_def zoomA_def split: prod.splits)

lemma curated_stage:
  assumes "curated_to valid K R W n" "curPreprepare (pbftMeta n) = Some (rd_pp R)" "s \<in> {stagePreprepare, stagePrepare, stageCommit}"
  shows "curated_to valid K R W (n\<lparr>pbftMeta := (pbftMeta n)\<lparr>stage_of := s\<rparr>\<rparr>)"
proof -
  have I: "in_round valid R n" using assms(1) pendingD unfolding curated_to_def by blast
  have "meta_ok ((pbftMeta n)\<lparr>stage_of := s\<rparr>)"
    using in_roundD(1) [OF I] assms(2,3) unfolding meta_ok_def by simp
  then have "in_round valid R (n\<lparr>pbftMeta := (pbftMeta n)\<lparr>stage_of := s\<rparr>\<rparr>)" using I by (simp add: in_round_def Let_def)
  then show ?thesis using assms(1) unfolding curated_to_def pending_def Let_def by simp
qed

lemma finishRound_meta:
  assumes "finishRound E now n = (r, n', ms)"
  shows "pbftMeta n' = pbftMeta n"
proof -
  have "keeps (\<lambda>n'. pbftMeta n' = pbftMeta n) (finishRound E now)"
    unfolding finishRound_def recordBlock_def
    by (intro keeps_intros) (auto intro!: keeps_intros keeps_zoomA split: option.splits)
  then have "pbftMeta n = pbftMeta n \<Longrightarrow> pbftMeta n' = pbftMeta n" by (rule keepsD) (rule assms)
  then show ?thesis by simp
qed

lemma commit_progress:
  assumes n: "curated_to valid K R W n" "voted K R ms0 n" "curPreprepare (pbftMeta n) = Some (rd_pp R)" "stage_of (pbftMeta n) = stageCommit"
    and run: "step_stages (Suc k) E now n = (r, n', ms)"
  shows "progress valid K R W (ms0 @ ms) n'"
proof (cases "int (card (commitSet (pbftMeta n))) < quorum (pbftMeta n)")
  case True
  then have "n' = n" "ms = []" using n(4) run by (simp_all add: bindA_def run_step2NextA step2Next_def retA_def)
  then show ?thesis using n True by (simp add: progress_def settled_def)
next
  case False
  let ?c = "(pbftMeta n)\<lparr>stage_of := stagePreprepare, lastProposal := Some (pp_P (rd_pp R)), curPreprepare := None,
    prepareSet := {}, commitSet := {}, proposed := False, curViewSeq := incSeq (curViewSeq (pbftMeta n))\<rparr>"
  have "finishRound E now (n\<lparr>pbftMeta := ?c\<rparr>) = (r, n', ms)"
    using False n(3,4) run by (simp add: bindA_def run_step2NextA step2Next_def split: prod.splits)
  then have "pbftMeta n' = ?c" by (simp add: finishRound_meta)
  moreover have "curViewSeq (pbftMeta n) = rd_vs R" using n(1) in_roundD(7) pendingD unfolding curated_to_def by blast
  moreover have "sent_prepare K R ms0" "sent_commit K R ms0" using n(2,4) by (simp_all add: voted_def)
  ultimately show ?thesis using sent_mono [of ms0 "ms0 @ ms" K R] by (simp add: progress_def ended_def)
qed

lemma prepare_progress:
  assumes n: "curated_to valid (e_codec E) R W n" "voted (e_codec E) R ms0 n" "curPreprepare (pbftMeta n) = Some (rd_pp R)"
      "stage_of (pbftMeta n) = stagePrepare"
    and K: "codec_laws (e_codec E)" "can_vote (e_codec E) R"
    and run: "step_stages (Suc (Suc k)) E now n = (r, n', ms)"
  shows "progress valid (e_codec E) R W (ms0 @ ms) n'"
proof (cases "int (card (prepareSet (pbftMeta n))) < quorum (pbftMeta n)")
  case True
  then have "n' = n" "ms = []" using n(4) run by (simp_all add: bindA_def run_step2NextA step2Next_def retA_def)
  then show ?thesis using n True by (simp add: progress_def settled_def)
next
  case False
  let ?n = "n\<lparr>pbftMeta := (pbftMeta n)\<lparr>stage_of := stageCommit\<rparr>\<rparr>"
  have n1: "curated_to valid (e_codec E) R W ?n" "curPreprepare (pbftMeta ?n) = Some (rd_pp R)" "stage_of (pbftMeta ?n) = stageCommit"
    using curated_stage [OF n(1,3)] n(3) by simp_all
  then have "in_round valid R ?n" using pendingD unfolding curated_to_def by blast
  then obtain o1 where o1: "commitBroadcast E ?n = (Inr (), ?n, o1)" "sent_commit (e_codec E) R o1"
    using commitBroadcast_sends [OF _ K n1(2)] by blast
  have run1: "thenA (commitBroadcast E) (step_stages (Suc k) E now) ?n = (r, n', ms)"
    using False n(4) run by (simp add: bindA_def run_step2NextA step2Next_def split: prod.splits)
  obtain o2 where o2: "step_stages (Suc k) E now ?n = (r, n', o2)" "ms = o1 @ o2"
    using run1 o1(1) by (auto simp: bindA_def simp del: step_stages.simps split: prod.splits)
  have "voted (e_codec E) R (ms0 @ o1) ?n"
    using n(2,4) o1(2) sent_mono [of ms0 "ms0 @ o1"] sent_mono [of o1 "ms0 @ o1"] by (simp add: voted_def)
  then show ?thesis using commit_progress [OF n1(1) _ n1(2,3) o2(1), of "ms0 @ o1"] o2(2) by simp
qed

lemma stages_progress:
  assumes n: "curated_to valid (e_codec E) R W n" "voted (e_codec E) R ms0 n" and K: "codec_laws (e_codec E)" "can_vote (e_codec E) R"
    and run: "step2NextStage E now n = (r, n', ms)"
  shows "progress valid (e_codec E) R W (ms0 @ ms) n'"
proof -
  have I: "in_round valid R n" using n(1) pendingD unfolding curated_to_def by blast
  note r = in_roundD [OF I]
  have run3: "step_stages (Suc (Suc (Suc 0))) E now n = (r, n', ms)" using run by (simp add: step2NextStage_def numeral_3_eq_3)
  consider "curPreprepare (pbftMeta n) = None" | "curPreprepare (pbftMeta n) = Some (rd_pp R)" "stage_of (pbftMeta n) = stagePreprepare"
    | "curPreprepare (pbftMeta n) = Some (rd_pp R)" "stage_of (pbftMeta n) = stagePrepare"
    | "curPreprepare (pbftMeta n) = Some (rd_pp R)" "stage_of (pbftMeta n) = stageCommit"
    using disjE [OF r(10)] meta_okD(7) [OF r(1)] by metis
  then show ?thesis
  proof cases
    case 1
    then have "stage_of (pbftMeta n) = stagePreprepare" using meta_okD(6) [OF r(1)] by simp
    then have "n' = n" "ms = []" using 1 run3 by (simp_all add: bindA_def run_step2NextA step2Next_def retA_def)
    then show ?thesis using n 1 by (simp add: progress_def settled_def)
  next
    case 2
    let ?n = "n\<lparr>pbftMeta := (pbftMeta n)\<lparr>stage_of := stagePrepare\<rparr>\<rparr>"
    have n1: "curated_to valid (e_codec E) R W ?n" "curPreprepare (pbftMeta ?n) = Some (rd_pp R)" "stage_of (pbftMeta ?n) = stagePrepare"
      using curated_stage [OF n(1) 2(1)] 2(1) by simp_all
    then have "in_round valid R ?n" using pendingD unfolding curated_to_def by blast
    then obtain o1 where o1: "prepareBroadcast E ?n = (Inr (), ?n, o1)" "sent_prepare (e_codec E) R o1"
      using prepareBroadcast_sends [OF _ K n1(2)] by blast
    have run1: "thenA (prepareBroadcast E) (step_stages (Suc (Suc 0)) E now) ?n = (r, n', ms)"
      using 2 run3 by (simp add: bindA_def [of step2NextA] run_step2NextA step2Next_def del: step_stages.simps(2) add: step_stages.simps(2) [of "Suc (Suc 0)"] split: prod.splits)
    obtain o2 where o2: "step_stages (Suc (Suc 0)) E now ?n = (r, n', o2)" "ms = o1 @ o2"
      using run1 o1(1) by (auto simp: bindA_def simp del: step_stages.simps split: prod.splits)
    have "voted (e_codec E) R (ms0 @ o1) ?n"
      using o1(2) sent_mono [of o1 "ms0 @ o1"] by (simp add: voted_def)
    then show ?thesis using prepare_progress [OF n1(1) _ n1(2,3) K o2(1), of "ms0 @ o1"] o2(2) by simp
  next
    case 3
    then show ?thesis using prepare_progress [OF n 3 K run3] by simp
  next
    case 4
    then show ?thesis using commit_progress [OF n 4 run3] by simp
  qed
qed

section \<open>A tick\<close>

lemma handle_stage:
  assumes "fair K R w" shows "keeps (\<lambda>n. stage_of (pbftMeta n) = s) (handleMessage E w)"
proof -
  have "keeps (\<lambda>n. stage_of (pbftMeta n) = s) (worldA m)" for m :: "('a, unit) act" by (rule keeps_zoomA) simp
  moreover have "keeps (\<lambda>n. stage_of (pbftMeta n) = s) (worldA m)" for m :: "('a, block list) act" by (rule keeps_zoomA) simp
  moreover have "MsgType w \<noteq> ''StopConsensus''" "MsgType w \<noteq> ''CatchupResp''" using assms by (simp_all add: fair_def)
  ultimately show ?thesis
    unfolding handleMessage_def handlePreprepare_def handlePrepare_def handleCommit_def handleCatchupReq_def
    by (simp del: bindA_def) (intro keeps_intros keeps_modA conjI impI; simp)
qed

text \<open>Proposing and catching up change the world and three fields.\<close>

definition same_round :: "(block \<Rightarrow> 'w \<Rightarrow> bool) \<Rightarrow> 'w node \<Rightarrow> 'w node \<Rightarrow> bool" where
  "same_round valid n n' \<longleftrightarrow>
     (\<exists>b t u. pbftMeta n' = (pbftMeta n)\<lparr>proposed := b, lastProposeTime := t, catchupStarted := u\<rparr>) \<and>
     resolver n' = resolver n \<and> (\<forall>b. valid b (world n) \<longrightarrow> valid b (world n'))"

lemma same_round_refl: "same_round valid n n"
  unfolding same_round_def
  by (intro conjI exI [of _ "proposed (pbftMeta n)"] exI [of _ "lastProposeTime (pbftMeta n)"] exI [of _ "catchupStarted (pbftMeta n)"]) simp_all

lemma same_round_progress:
  assumes "same_round valid n n'" "progress valid K R W ms n"
  shows "progress valid K R W ms n'"
proof -
  obtain b t u where m: "pbftMeta n' = (pbftMeta n)\<lparr>proposed := b, lastProposeTime := t, catchupStarted := u\<rparr>"
    using assms(1) unfolding same_round_def by blast
  have rest: "resolver n' = resolver n" "\<And>b. valid b (world n) \<Longrightarrow> valid b (world n')" using assms(1) unfolding same_round_def by blast+
  have "in_round valid R n'" if "in_round valid R n"
    using that rest unfolding in_round_def Let_def m meta_ok_def by simp
  moreover have "quorum (pbftMeta n') = quorum (pbftMeta n)" by (simp add: m quorum_def)
  ultimately show ?thesis
    using assms(2) unfolding progress_def settled_def curated_to_def pending_def voted_def ended_def Let_def by (simp add: m) blast
qed

context round_contract
begin

lemma leaderOrCatchup_same:
  assumes E: "e_ops E = ops" and run: "leaderOrCatchup E now n = (r, n', ms)"
  shows "same_round valid n n'"
proof -
  have meta: "keeps (same_round valid n) (metaA h)"
    if upd: "\<And>c. \<exists>b t u. h c = c\<lparr>proposed := b, lastProposeTime := t, catchupStarted := u\<rparr>" for h
  proof (rule keeps_modA)
    fix n1 :: "'w node" assume s: "same_round valid n n1"
    obtain b t u where h: "h (pbftMeta n1) = (pbftMeta n1)\<lparr>proposed := b, lastProposeTime := t, catchupStarted := u\<rparr>" using upd by blast
    obtain b' t' u' where "pbftMeta n1 = (pbftMeta n)\<lparr>proposed := b', lastProposeTime := t', catchupStarted := u'\<rparr>"
      using s unfolding same_round_def by blast
    then have "h (pbftMeta n1) = (pbftMeta n)\<lparr>proposed := b, lastProposeTime := t, catchupStarted := u\<rparr>" unfolding h by simp
    then show "same_round valid n (n1\<lparr>pbftMeta := h (pbftMeta n1)\<rparr>)"
      using s unfolding same_round_def by (intro conjI exI [of _ b] exI [of _ t] exI [of _ u]) simp_all
  qed
  have flags: "\<exists>b t u. c\<lparr>catchupStarted := v\<rparr> = c\<lparr>proposed := b, lastProposeTime := t, catchupStarted := u\<rparr>"
    "\<exists>b t u. c\<lparr>proposed := v, lastProposeTime := now\<rparr> = c\<lparr>proposed := b, lastProposeTime := t, catchupStarted := u\<rparr>" for c :: consensusMeta and v
    by (intro exI [of _ "proposed c"] exI [of _ "lastProposeTime c"] exI [of _ v], simp)
      (intro exI [of _ v] exI [of _ now] exI [of _ "catchupStarted c"], simp)
  have build: "keeps (same_round valid n) (worldA (BuildProposal (e_ops E) now))"
    by (rule keeps_zoomA) (auto simp: same_round_def E dest: build_keeps)
  have send: "keeps (same_round valid n) (broadcastMsgInnerShard E m)" for m
    unfolding broadcastMsgInnerShard_def by (auto intro!: keeps_intros split: prod.splits)
  have "keeps (same_round valid n) (leaderOrCatchup E now)"
    unfolding leaderOrCatchup_def propose_def catchUpStart_def
    by (intro keeps_intros build) (auto intro!: keeps_intros meta flags send split: option.splits)
  then have "same_round valid n n \<Longrightarrow> same_round valid n n'" by (rule keepsD) (rule run)
  then show ?thesis using same_round_refl by blast
qed

lemma tick_progress:
  assumes E: "e_ops E = ops" and K: "codec_laws (e_codec E)" "can_vote (e_codec E) R"
    and fair: "\<forall>w \<in> set msgs. fair (e_codec E) R w"
    and n: "settled valid (e_codec E) R W ms0 n" and run: "tick E msgs now n = (Inr (), n', ms)"
  shows "progress valid (e_codec E) R (W \<union> set msgs) (ms0 @ ms) n'"
proof -
  from run obtain n1 o1 o2 where r1: "forA (\<lambda>msg. logA (handleMessage E msg)) msgs n = (Inr (), n1, o1)"
    "thenA (metaA curateMsg) (thenA (logA (step2NextStage E now)) (leaderOrCatchup E now)) n1 = (Inr (), n', o2)" "ms = o1 @ o2"
    unfolding tick_def by (rule bindA_InrE) auto
  let ?n2 = "n1\<lparr>pbftMeta := curateMsg (pbftMeta n1)\<rparr>"
  have r2: "thenA (logA (step2NextStage E now)) (leaderOrCatchup E now) ?n2 = (Inr (), n', o2)" using r1(2) by (simp add: act_simps)
  then obtain n3 o3 o4 where r3: "logA (step2NextStage E now) ?n2 = (Inr (), n3, o3)" "leaderOrCatchup E now n3 = (Inr (), n', o4)" "o2 = o3 @ o4"
    by (rule bindA_InrE) auto
  obtain r where r4: "step2NextStage E now ?n2 = (r, n3, o3)" using r3(1) by (auto simp: logA_def split: prod.splits)
  have P: "pending valid (e_codec E) R W n" using n by (simp add: settled_def curated_to_def)
  have C: "curated_to valid (e_codec E) R (W \<union> set msgs) ?n2"
    by (rule curate_curated [OF handle_all_pending [OF E fair P r1(1)]])
  have "keeps (\<lambda>n'. stage_of (pbftMeta n') = stage_of (pbftMeta n)) (forA (\<lambda>msg. logA (handleMessage E msg)) ms)"
    if "\<forall>w \<in> set ms. fair (e_codec E) R w" for ms
    using that by (induction ms) (auto intro!: keeps_intros handle_stage)
  then have "keeps (\<lambda>n'. stage_of (pbftMeta n') = stage_of (pbftMeta n)) (forA (\<lambda>msg. logA (handleMessage E msg)) msgs)" using fair by blast
  then have "stage_of (pbftMeta n) = stage_of (pbftMeta n) \<Longrightarrow> stage_of (pbftMeta n1) = stage_of (pbftMeta n)" by (rule keepsD) (rule r1(1))
  then have "voted (e_codec E) R ms0 ?n2" using n by (simp add: settled_def voted_def curateMsg_frame)
  then have "progress valid (e_codec E) R (W \<union> set msgs) (ms0 @ o3) n3" by (rule stages_progress [OF C _ K r4])
  then have "progress valid (e_codec E) R (W \<union> set msgs) (ms0 @ o3) n'" by (rule same_round_progress [OF leaderOrCatchup_same [OF E r3(2)]])
  moreover have "set (ms0 @ o3) \<subseteq> set (ms0 @ ms)" by (simp add: r1(3) r3(3)) blast
  ultimately show ?thesis
    using sent_mono [of "ms0 @ o3" "ms0 @ ms"] unfolding progress_def settled_def voted_def by blast
qed

text \<open>Ticks, up to the one that ends the round.\<close>

lemma run_progress:
  assumes E: "e_ops E = ops" and K: "codec_laws (e_codec E)" "can_vote (e_codec E) R"
    and fair: "\<forall>(msgs, now) \<in> set ts. \<forall>w \<in> set msgs. fair (e_codec E) R w"
    and n: "settled valid (e_codec E) R W ms0 n" and run: "run E ts n = (Inr (), n', ms)"
  shows "settled valid (e_codec E) R (W \<union> delivered_in ts) (ms0 @ ms) n' \<or> ends_in E R ts n \<and> sent_prepare (e_codec E) R (ms0 @ ms) \<and> sent_commit (e_codec E) R (ms0 @ ms)"
  using fair n run
proof (induction ts arbitrary: W ms0 n ms)
  case Nil
  then show ?case by (simp add: act_simps delivered_in_def)
next
  case (Cons t ts)
  obtain msgs now where t: "t = (msgs, now)" by fastforce
  have open': "\<not> closed (pbftMeta n)"
    using Cons.prems(2) in_roundD(5) pendingD unfolding settled_def curated_to_def by blast
  then have "thenA (tick E msgs now) (run E ts) n = (Inr (), n', ms)" using Cons.prems(3) by (simp add: t act_simps)
  then obtain n1 o1 o2 where r: "tick E msgs now n = (Inr (), n1, o1)" "run E ts n1 = (Inr (), n', o2)" "ms = o1 @ o2"
    by (rule bindA_InrE) auto
  have split: "W \<union> delivered_in (t # ts) = W \<union> set msgs \<union> delivered_in ts" by (auto simp: delivered_in_def t)
  have fair': "\<forall>w \<in> set msgs. fair (e_codec E) R w" "\<forall>(msgs, now) \<in> set ts. \<forall>w \<in> set msgs. fair (e_codec E) R w"
    using Cons.prems(1) by (auto simp: t)
  have "progress valid (e_codec E) R (W \<union> set msgs) (ms0 @ o1) n1" by (rule tick_progress [OF E K fair'(1) Cons.prems(2) r(1)])
  then show ?case
    unfolding progress_def
  proof
    assume S: "settled valid (e_codec E) R (W \<union> set msgs) (ms0 @ o1) n1"
    have "ends_in E R (t # ts) n" if "ends_in E R ts n1" using that r(1) open' by (auto simp: t)
    then show ?case using Cons.IH [OF fair'(2) S r(2)] unfolding split r(3) by auto
  next
    assume e: "ended R n1 \<and> sent_prepare (e_codec E) R (ms0 @ o1) \<and> sent_commit (e_codec E) R (ms0 @ o1)"
    moreover have "curViewSeq (pbftMeta n) = rd_vs R"
      using Cons.prems(2) in_roundD(7) pendingD unfolding settled_def curated_to_def by blast
    ultimately have "ends_in E R (t # ts) n" using r(1) open' by (simp add: t)
    moreover have "set (ms0 @ o1) \<subseteq> set (ms0 @ ms)" by (auto simp: r(3))
    ultimately show ?case using e sent_mono [of "ms0 @ o1" "ms0 @ ms"] by blast
  qed
qed

end

section \<open>The operations of a shard meet the contract\<close>

text \<open>Until a block is committed the chain stays, and with it the validity of a block.\<close>

abbreviation chain_stays :: "('db, 'tdb) chain \<Rightarrow> (('db, 'tdb) shard_world, 'a) act \<Rightarrow> bool" where
  "chain_stays c m \<equiv> keeps (\<lambda>w. w_chain w = c) m"

lemma chain_stays_intros [keeps_intros]:
  "chain_stays c (readA g)" "chain_stays c (poolA g')" "chain_stays c (ammA g'')"
  by (auto simp: keeps_def readA_def zoomA_def split: prod.splits)

lemma chain_stays_sends [keeps_intros]:
  "chain_stays c (send_buckets E txs)" "chain_stays c (send_to_supervisor E msg)" "chain_stays c (addTxsA txs')"
  unfolding send_buckets_def send_to_supervisor_def addTxsA_def by (intro keeps_intros keeps_modA; simp)+

lemma chain_stays_build:
  assumes "\<And>now txs. chain_stays c (BuildTxBlockProposal tbo now txs)"
  shows "chain_stays c (static_BuildProposal E tbo now)" "chain_stays c (dynamic_BuildProposal E tbo now)"
  unfolding static_BuildProposal_def dynamic_BuildProposal_def buildBlockProposal_def buildPartitionProposal_def
    packValidTxs_def packValidTxsInRelay_def packValidTxsInBroker_def migrateTxs_def migrateTxsInRelay_def migrateTxsInBroker_def
    brokerCLPATxSendAgain_def MigrateAccounts_def BuildMigrationProposal_def generateA_def Let_def
  by (auto intro!: keeps_intros assms split: prod.splits)

lemma chain_stays_tbo:
  "chain_stays c (BuildTxBlockProposal (NewRelayTxBlockOp E) now txs)"
  "chain_stays c (BuildTxBlockProposal (NewBrokerTxBlockOp E) now txs)"
  unfolding NewRelayTxBlockOp_def NewBrokerTxBlockOp_def tx_block_op.simps relay_BuildTxBlockProposal_def broker_BuildTxBlockProposal_def
    generateA_def
  by (intro keeps_intros)+

lemma chain_stays_outside:
  "chain_stays c (static_HandleMsgOutsideShard E msg)" "chain_stays c (dynamic_HandleMsgOutsideShard E msg)"
  unfolding static_HandleMsgOutsideShard_def dynamic_HandleMsgOutsideShard_def receiveTxs_def
  by (auto intro!: keeps_intros)

definition block_valid :: "('db, 'd, 'tdb, 't, 'ns) shard_env \<Rightarrow> block \<Rightarrow> ('db, 'tdb) shard_world \<Rightarrow> bool" where
  "block_valid S b w \<longleftrightarrow> ValidateBlock (s_chain S) (w_chain w) b = Inr ()"

lemma chain_staysD: "chain_stays (w_chain w) m \<Longrightarrow> m w = (r, w', ms) \<Longrightarrow> w_chain w' = w_chain w"
  unfolding keeps_def by blast

lemma round_contractI:
  assumes "ValidateProposal ops = validateProposal S" "GetBlocksAfterHeight ops = (\<lambda>h. readA (\<lambda>w. chain_GetBlocksAfterHeight (s_chain S) h (w_chain w)))"
    and "\<And>c now. chain_stays c (BuildProposal ops now)" "\<And>c msg. chain_stays c (HandleMsgOutsideShard ops msg)"
  shows "round_contract ops (block_valid S)"
proof
  show "block_valid S b w \<Longrightarrow> BuildProposal ops now w = (r, w', ms) \<Longrightarrow> block_valid S b w'" for b w now r w' ms
    using chain_staysD [OF assms(3)] by (simp add: block_valid_def)
  show "block_valid S b w \<Longrightarrow> HandleMsgOutsideShard ops msg w = (r, w', ms) \<Longrightarrow> block_valid S b w'" for b w msg r w' ms
    using chain_staysD [OF assms(4)] by (simp add: block_valid_def)
qed (auto simp: assms(1,2) validateProposal_def block_valid_def readA_def)

interpretation static_relay_round: round_contract "static_ops S (NewRelayTxBlockOp S)" "block_valid S"
  for S :: "('db, 'd, 'tdb, 't, 'ns) shard_env"
  by (rule round_contractI) (simp_all add: static_ops_def chain_stays_build chain_stays_tbo chain_stays_outside)

interpretation static_broker_round: round_contract "static_ops S (NewBrokerTxBlockOp S)" "block_valid S"
  for S :: "('db, 'd, 'tdb, 't, 'ns) shard_env"
  by (rule round_contractI) (simp_all add: static_ops_def chain_stays_build chain_stays_tbo chain_stays_outside)

interpretation clpa_relay_round: round_contract "dynamic_ops S (NewRelayTxBlockOp S)" "block_valid S"
  for S :: "('db, 'd, 'tdb, 't, 'ns) shard_env"
  by (rule round_contractI) (simp_all add: dynamic_ops_def static_ops_def chain_stays_build chain_stays_tbo chain_stays_outside)

interpretation clpa_broker_round: round_contract "dynamic_ops S (NewBrokerTxBlockOp S)" "block_valid S"
  for S :: "('db, 'd, 'tdb, 't, 'ns) shard_env"
  by (rule round_contractI) (simp_all add: dynamic_ops_def static_ops_def chain_stays_build chain_stays_tbo chain_stays_outside)

lemma shard_run_progress:
  assumes "shard_ops_of S (e_ops E)" "codec_laws (e_codec E)" "can_vote (e_codec E) R"
    and "\<forall>(msgs, now) \<in> set ts. \<forall>w \<in> set msgs. fair (e_codec E) R w"
    and "settled (block_valid S) (e_codec E) R W ms0 n" and "run E ts n = (Inr (), n', ms)"
  shows "settled (block_valid S) (e_codec E) R (W \<union> delivered_in ts) (ms0 @ ms) n' \<or>
    ends_in E R ts n \<and> sent_prepare (e_codec E) R (ms0 @ ms) \<and> sent_commit (e_codec E) R (ms0 @ ms)"
  using assms(1) static_relay_round.run_progress [OF _ assms(2-6)] static_broker_round.run_progress [OF _ assms(2-6)]
    clpa_relay_round.run_progress [OF _ assms(2-6)] clpa_broker_round.run_progress [OF _ assms(2-6)]
  unfolding shard_ops_of_def by (elim disjE) simp_all

section \<open>A round among honest replicas\<close>

lemma run_append:
  "run E a n = (Inr (), n1, o1) \<Longrightarrow> run E b n1 = (Inr (), n2, o2) \<Longrightarrow> run E (a @ b) n = (Inr (), n2, o1 @ o2)"
proof (induction a arbitrary: n o1)
  case (Cons t a)
  obtain msgs now where t: "t = (msgs, now)" by fastforce
  show ?case
  proof (cases "closed (pbftMeta n)")
    case True
    then have "n1 = n" "o1 = []" using Cons.prems(1) by (simp_all add: t act_simps)
    then show ?thesis using Cons.prems(2) True by (cases b) (auto simp: t act_simps)
  next
    case False
    then have "thenA (tick E msgs now) (run E a) n = (Inr (), n1, o1)" using Cons.prems(1) by (simp add: t act_simps)
    then obtain n' p q where r: "tick E msgs now n = (Inr (), n', p)" "run E a n' = (Inr (), n1, q)" "o1 = p @ q"
      by (rule bindA_InrE) auto
    have "run E (a @ b) n' = (Inr (), n2, q @ o2)" by (rule Cons.IH [OF r(2) Cons.prems(2)])
    then show ?thesis using False r by (simp add: t act_simps bindA_def)
  qed
qed (simp add: act_simps)

lemma settled_start:
  assumes "in_round valid R n" "curPreprepare (pbftMeta n) = None"
  shows "settled valid K R {} [] n"
  using assms meta_okD(6) [OF in_roundD(1) [OF assms(1)]] by (simp add: settled_def curated_to_def pending_def voted_def Let_def)

lemma quorum_in_round: "in_round valid R n \<Longrightarrow> quorum (pbftMeta n) = quorum_of (rd_N R)"
  using in_roundD(4) [of valid R n] by (simp add: quorum_of_def quorum_def newConsensusMeta_def)

text \<open>The votes that bring a settled replica on.\<close>

lemma settled_votes:
  assumes n: "settled valid K R W ms n" and pp: "got_pp K (rd_pp R) W"
  shows "sent_prepare K R ms"
    and "A \<subseteq> got_prepares K (rd_vs R) (rd_digest R) W \<Longrightarrow> quorum_of (rd_N R) \<le> int (card A) \<Longrightarrow> sent_commit K R ms"
    and "A \<subseteq> got_prepares K (rd_vs R) (rd_digest R) W \<Longrightarrow> quorum_of (rd_N R) \<le> int (card A) \<Longrightarrow>
      A' \<subseteq> got_commits K (rd_vs R) (rd_digest R) W \<Longrightarrow> quorum_of (rd_N R) \<le> int (card A') \<Longrightarrow> False"
proof -
  let ?c = "pbftMeta n"
  have I: "in_round valid R n" and C: "curated_to valid K R W n" and V: "voted K R ms n"
    using n pendingD unfolding settled_def curated_to_def by blast+
  have q: "quorum ?c = quorum_of (rd_N R)" by (rule quorum_in_round [OF I])
  have p: "curPreprepare ?c = Some (rd_pp R)" using C pp unfolding curated_to_def Let_def by blast
  have got: "got_prepares K (rd_vs R) (rd_digest R) W \<subseteq> prepareSet ?c" "got_commits K (rd_vs R) (rd_digest R) W \<subseteq> commitSet ?c"
    using C p unfolding curated_to_def Let_def by blast+
  have fin: "finite (prepareSet ?c)" "finite (commitSet ?c)" using meta_okD(2,3) [OF in_roundD(1) [OF I]] by blast+
  have st: "stage_of ?c = stagePrepare \<and> int (card (prepareSet ?c)) < quorum ?c \<or> stage_of ?c = stageCommit \<and> int (card (commitSet ?c)) < quorum ?c"
    using n p unfolding settled_def Let_def by simp
  show "sent_prepare K R ms" using V st by (auto simp: voted_def)
  have A: "quorum ?c \<le> int (card (prepareSet ?c))"
    if "A \<subseteq> got_prepares K (rd_vs R) (rd_digest R) W" "quorum_of (rd_N R) \<le> int (card A)"
    using card_mono [OF fin(1) subset_trans [OF that(1) got(1)]] that(2) q by linarith
  show "sent_commit K R ms" if "A \<subseteq> got_prepares K (rd_vs R) (rd_digest R) W" "quorum_of (rd_N R) \<le> int (card A)"
    using V st A [OF that] by (auto simp: voted_def)
  show False if "A \<subseteq> got_prepares K (rd_vs R) (rd_digest R) W" "quorum_of (rd_N R) \<le> int (card A)"
    "A' \<subseteq> got_commits K (rd_vs R) (rd_digest R) W" "quorum_of (rd_N R) \<le> int (card A')"
    using st A [OF that(1,2)] card_mono [OF fin(2) subset_trans [OF that(3) got(2)]] that(4) q by linarith
qed

text \<open>Votes that were sent to a node and arrived there are votes it got.\<close>

lemma sent_prepare_got:
  assumes "sent_prepare K R ms" "g \<in> set (rd_group R)" "\<And>w. (g, w) \<in> set ms \<Longrightarrow> w \<in> W"
  shows "NodeInfo (rd_id R) (rd_sh R) \<in> got_prepares K (rd_vs R) (rd_digest R) W"
proof -
  obtain w m where m: "MsgType w = ''Prepare''" "dec_prepare K (Payload w) = Some m" "p_vs m = rd_vs R" "p_Digest m = rd_digest R"
    "p_NodeID m = rd_id R" "p_ShardID m = rd_sh R" "\<forall>g \<in> set (rd_group R). (g, w) \<in> set ms"
    using assms(1) unfolding sent_prepare_def by (elim exE conjE) (rule that)
  have "w \<in> W" using m(7) assms(2,3) by blast
  then show ?thesis unfolding got_prepares_def mem_Collect_eq using m(1-6) by (intro exI [of _ m] conjI bexI [of _ w]) simp_all
qed

lemma sent_commit_got:
  assumes "sent_commit K R ms" "g \<in> set (rd_group R)" "\<And>w. (g, w) \<in> set ms \<Longrightarrow> w \<in> W"
  shows "NodeInfo (rd_id R) (rd_sh R) \<in> got_commits K (rd_vs R) (rd_digest R) W"
proof -
  obtain w m where m: "MsgType w = ''Commit''" "dec_commit K (Payload w) = Some m" "c_vs m = rd_vs R" "c_Digest m = rd_digest R"
    "c_NodeID m = rd_id R" "c_ShardID m = rd_sh R" "\<forall>g \<in> set (rd_group R). (g, w) \<in> set ms"
    using assms(1) unfolding sent_commit_def by (elim exE conjE) (rule that)
  have "w \<in> W" using m(7) assms(2,3) by blast
  then show ?thesis unfolding got_commits_def mem_Collect_eq using m(1-6) by (intro exI [of _ m] conjI bexI [of _ w]) simp_all
qed

text \<open>The votes of all honest replicas are enough.\<close>

lemma honest_votes:
  assumes N: "N = 3 * F + 1" "0 \<le> F" "F < 2 ^ 60" and byz: "int (card (byz \<inter> members N)) \<le> F"
  shows "quorum_of N \<le> int (card ((\<lambda>i. NodeInfo i sh) ` (members N - byz)))"
proof -
  let ?H = "members N - byz"
  have "quorum_of N = 2 * F + 1" using quorum_of_eq [of N] N by simp
  moreover have "card ((\<lambda>i. NodeInfo i sh) ` ?H) = card ?H" by (rule card_image) (simp add: inj_on_def)
  moreover have "card (members N) = card ?H + card (byz \<inter> members N)"
    using card_Diff_subset_Int [of "members N" byz] card_mono [of "members N" "byz \<inter> members N"] by (simp add: Int_commute)
  ultimately show ?thesis using N byz by (simp add: card_members)
qed

text \<open>Progress. Take a shard of \<open>3 F + 1\<close> nodes, at most \<open>F\<close> of them Byzantine, whose honest replicas
  start a round for whose proposal the block is valid. If every honest replica gets the proposal
  in a first sequence of ticks, then, after a second, the messages of the first that honest
  replicas sent it, and then, after a third, those of the first two, it ends the round with the
  proposal: whatever else it gets, in any order and any number of ticks, short of a stop, a
  catch-up response or another proposal of the leader for the round.\<close>

lemma round_completes:
  fixes S :: "int \<Rightarrow> ('db, 'd, 'tdb, 't, 'ns) shard_env"
  assumes ops: "\<And>i. i \<in> members N - byz \<Longrightarrow> shard_ops_of (S i) (e_ops (E i)) \<and> e_codec (E i) = K" and codec: "codec_laws K"
    and N: "N = 3 * F + 1" "0 \<le> F" "F < 2 ^ 60" and byz: "int (card (byz \<inter> members N)) \<le> F"
    and R: "\<And>i. R i = \<lparr>rd_sh = sh, rd_id = i, rd_N = N, rd_pp = pp, rd_group = group'\<rparr>"
    and start: "\<And>i. i \<in> members N - byz \<Longrightarrow> in_round (block_valid (S i)) (R i) (n0 i) \<and> curPreprepare (pbftMeta (n0 i)) = None \<and>
      NodeInfo i sh \<in> set group' \<and> can_vote K (R i)"
    and runs: "\<And>i. i \<in> members N - byz \<Longrightarrow> run (E i) (ts1 i) (n0 i) = (Inr (), n1 i, o1 i)"
      "\<And>i. i \<in> members N - byz \<Longrightarrow> run (E i) (ts2 i) (n1 i) = (Inr (), n2 i, o2 i)"
      "\<And>i. i \<in> members N - byz \<Longrightarrow> run (E i) (ts3 i) (n2 i) = (Inr (), n3 i, o3 i)"
    and fair: "\<And>i w. i \<in> members N - byz \<Longrightarrow> w \<in> delivered_in (ts1 i @ ts2 i @ ts3 i) \<Longrightarrow> fair K (R i) w"
    and proposal: "\<And>i. i \<in> members N - byz \<Longrightarrow> got_pp K pp (delivered_in (ts1 i))"
    and arrive: "\<And>i j w. i \<in> members N - byz \<Longrightarrow> j \<in> members N - byz \<Longrightarrow> (NodeInfo i sh, w) \<in> set (o1 j) \<Longrightarrow>
        w \<in> delivered_in (ts1 i @ ts2 i)"
      "\<And>i j w. i \<in> members N - byz \<Longrightarrow> j \<in> members N - byz \<Longrightarrow> (NodeInfo i sh, w) \<in> set (o1 j @ o2 j) \<Longrightarrow>
        w \<in> delivered_in (ts1 i @ ts2 i @ ts3 i)"
  shows "\<forall>i \<in> members N - byz. ends_in (E i) (R i) (ts1 i @ ts2 i @ ts3 i) (n0 i)"
proof -
  let ?H = "members N - byz" let ?votes = "(\<lambda>i. NodeInfo i sh) ` ?H"
  note quorum = honest_votes [OF N byz, of sh]
  have del: "delivered_in (a @ b) = delivered_in a \<union> delivered_in b" for a b by (auto simp: delivered_in_def)
  have step: "settled (block_valid (S i)) K (R i) (delivered_in ts) ms n' \<or> ends_in (E i) (R i) ts (n0 i) \<and> sent_prepare K (R i) ms \<and> sent_commit K (R i) ms"
    if i: "i \<in> ?H" and run: "run (E i) ts (n0 i) = (Inr (), n', ms)" and sub: "delivered_in ts \<subseteq> delivered_in (ts1 i @ ts2 i @ ts3 i)" for i ts n' ms
  proof -
    have "\<forall>(msgs, now) \<in> set ts. \<forall>w \<in> set msgs. fair K (R i) w" using fair [OF i] sub unfolding delivered_in_def by blast
    then show ?thesis
      using shard_run_progress [OF conjunct1 [OF ops [OF i]] _ _ _ settled_start run] start [OF i] ops [OF i] codec by simp
  qed
  have r12: "run (E i) (ts1 i @ ts2 i) (n0 i) = (Inr (), n2 i, o1 i @ o2 i)" if "i \<in> ?H" for i
    by (rule run_append [OF runs(1,2) [OF that]])
  have r123: "run (E i) (ts1 i @ ts2 i @ ts3 i) (n0 i) = (Inr (), n3 i, o1 i @ o2 i @ o3 i)" if "i \<in> ?H" for i
    by (rule run_append [OF runs(1) [OF that] run_append [OF runs(2,3) [OF that]]])
  have got: "got_pp K (rd_pp (R i)) (delivered_in (ts1 i @ ts))" if "i \<in> ?H" for i ts
    using proposal [OF that] got_mono(1) [of "delivered_in (ts1 i)"] by (simp add: R del)
  have p1: "sent_prepare K (R i) (o1 i)" if i: "i \<in> ?H" for i
    using step [OF i runs(1) [OF i]] settled_votes(1) [OF _ got [OF i, of "[]"]] by (auto simp: del)
  have prep: "?votes \<subseteq> got_prepares K (rd_vs (R i)) (rd_digest (R i)) (delivered_in (ts1 i @ ts2 i))" if i: "i \<in> ?H" for i
  proof
    fix v assume "v \<in> ?votes"
    then obtain j where j: "j \<in> ?H" "v = NodeInfo j sh" by blast
    then show "v \<in> got_prepares K (rd_vs (R i)) (rd_digest (R i)) (delivered_in (ts1 i @ ts2 i))"
      using sent_prepare_got [OF p1 [OF j(1)], of "NodeInfo i sh"] start [OF i] arrive(1) [OF i j(1)] by (simp add: R)
  qed
  have c2: "sent_commit K (R i) (o1 i @ o2 i)" if i: "i \<in> ?H" for i
    using step [OF i r12 [OF i]] settled_votes(2) [OF _ got [OF i] prep [OF i]] quorum by (auto simp: del R)
  have com: "?votes \<subseteq> got_commits K (rd_vs (R i)) (rd_digest (R i)) (delivered_in (ts1 i @ ts2 i @ ts3 i))" if i: "i \<in> ?H" for i
  proof
    fix v assume "v \<in> ?votes"
    then obtain j where j: "j \<in> ?H" "v = NodeInfo j sh" by blast
    then show "v \<in> got_commits K (rd_vs (R i)) (rd_digest (R i)) (delivered_in (ts1 i @ ts2 i @ ts3 i))"
      using sent_commit_got [OF c2 [OF j(1)], of "NodeInfo i sh"] start [OF i] arrive(2) [OF i j(1)] by (simp add: R)
  qed
  show ?thesis
  proof
    fix i assume i: "i \<in> ?H"
    have "?votes \<subseteq> got_prepares K (rd_vs (R i)) (rd_digest (R i)) (delivered_in (ts1 i @ ts2 i @ ts3 i))"
      by (rule subset_trans [OF prep [OF i] got_mono(2)]) (auto simp: del)
    then have "\<not> settled (block_valid (S i)) K (R i) (delivered_in (ts1 i @ ts2 i @ ts3 i)) ms n" for ms n
      using settled_votes(3) [OF _ got [OF i] _ _ com [OF i]] quorum by (auto simp: R)
    then show "ends_in (E i) (R i) (ts1 i @ ts2 i @ ts3 i) (n0 i)" using step [OF i r123 [OF i]] by blast
  qed
qed

end
