(* ===== verification/Proposal.thy ===== *)
theory Proposal
  imports Liveness
begin

text \<open>
  The proposal of an honest leader: whatever kind of node proposes, the block was generated on its
  chain and is valid for the others, and the proposal goes to the whole shard. With the progress of
  a round it follows that the shard commits it.
\<close>

section \<open>The block that is proposed\<close>

text \<open>What an action returns when it starts on the chain \<open>c\<close>.\<close>

definition yields :: "('db, 'tdb) chain \<Rightarrow> ('a \<Rightarrow> bool) \<Rightarrow> (('db, 'tdb) shard_world, 'a) act \<Rightarrow> bool" where
  "yields c P m \<longleftrightarrow> (\<forall>w x w' ms. w_chain w = c \<longrightarrow> m w = (Inr x, w', ms) \<longrightarrow> P x)"

definition generated :: "('db, 'd, 'tdb, 't, 'ns) chain_env \<Rightarrow> ('db, 'tdb) chain \<Rightarrow> block \<Rightarrow> bool" where
  "generated C c b \<longleftrightarrow> (\<exists>now miner ty txs addrs states. GenerateBlock C c now miner ty txs addrs states = Inr b)"

named_theorems yields_intros \<open>what actions return\<close>

lemma yields_bind [yields_intros]:
  "chain_stays c m \<Longrightarrow> (\<And>x. yields c P (k x)) \<Longrightarrow> yields c P (bindA m k)"
proof (unfold yields_def, intro allI impI)
  fix w x w' ms assume stays: "chain_stays c m" and k: "\<And>x. \<forall>w y w' ms. w_chain w = c \<longrightarrow> k x w = (Inr y, w', ms) \<longrightarrow> P y"
    and c: "w_chain w = c" and run: "bindA m k w = (Inr x, w', ms)"
  obtain y w1 o1 o2 where r: "m w = (Inr y, w1, o1)" "k y w1 = (Inr x, w', o2)" using run by (rule bindA_InrE)
  have "w_chain w1 = c" by (rule keepsD [OF stays r(1)]) (rule c)
  then show "P x" using k [of y] r(2) by blast
qed

lemma yields_then: "yields c Q m \<Longrightarrow> (\<And>x. Q x \<Longrightarrow> P (h x)) \<Longrightarrow> yields c P (bindA m (\<lambda>x. retA (h x)))"
  by (unfold yields_def, intro allI impI, erule bindA_InrE) (auto simp: retA_def)

lemma yields_pure [yields_intros]: "P x \<Longrightarrow> yields c P (retA x)"
  by (simp add: yields_def retA_def)

lemma yields_if [yields_intros]: "yields c P m \<Longrightarrow> yields c P m' \<Longrightarrow> yields c P (if b then m else m')"
  by simp

lemma yields_generate [yields_intros]: "yields c (generated (s_chain E) c) (generateA E now ty txs addrs states)"
  unfolding yields_def generateA_def readA_def generated_def by blast

lemma yields_tbo:
  "yields c (generated (s_chain E) c) (BuildTxBlockProposal (NewRelayTxBlockOp E) now txs)"
  "yields c (generated (s_chain E) c) (BuildTxBlockProposal (NewBrokerTxBlockOp E) now txs)"
  unfolding NewRelayTxBlockOp_def NewBrokerTxBlockOp_def tx_block_op.simps relay_BuildTxBlockProposal_def broker_BuildTxBlockProposal_def
  by (intro yields_intros keeps_intros)+

lemma yields_build:
  assumes "\<And>now txs. yields c (generated (s_chain E) c) (BuildTxBlockProposal tbo now txs)"
    and "\<And>now txs. chain_stays c (BuildTxBlockProposal tbo now txs)"
  shows "yields c (\<lambda>p. \<forall>b. p = Some b \<longrightarrow> generated (s_chain E) c b) (static_BuildProposal E tbo now)"
    "yields c (\<lambda>p. \<forall>b. p = Some b \<longrightarrow> generated (s_chain E) c b) (dynamic_BuildProposal E tbo now)"
  unfolding static_BuildProposal_def dynamic_BuildProposal_def buildBlockProposal_def buildPartitionProposal_def
    packValidTxs_def packValidTxsInRelay_def packValidTxsInBroker_def migrateTxs_def migrateTxsInRelay_def migrateTxsInBroker_def
    brokerCLPATxSendAgain_def MigrateAccounts_def BuildMigrationProposal_def Let_def
  by (auto intro!: yields_intros yields_then [OF assms(1)] yields_then [OF yields_generate] keeps_intros assms(2) split: prod.splits)

lemma proposal_generated:
  assumes "shard_ops_of S ops" "BuildProposal ops now w = (Inr (Some b), w', ms)"
  shows "generated (s_chain S) (w_chain w) b" "w_chain w' = w_chain w"
proof -
  note builds = yields_build [OF yields_tbo(1) chain_stays_tbo(1)] yields_build [OF yields_tbo(2) chain_stays_tbo(2)]
  have "yields (w_chain w) (\<lambda>p. \<forall>b. p = Some b \<longrightarrow> generated (s_chain S) (w_chain w) b) (BuildProposal ops now)"
    using assms(1) builds unfolding shard_ops_of_def by (auto simp: static_ops_def dynamic_ops_def)
  then show "generated (s_chain S) (w_chain w) b" using assms(2) unfolding yields_def by blast
  have "chain_stays (w_chain w) (BuildProposal ops now)"
    using assms(1) chain_stays_build [OF chain_stays_tbo(1)] chain_stays_build [OF chain_stays_tbo(2)]
    unfolding shard_ops_of_def by (auto simp: static_ops_def dynamic_ops_def)
  then show "w_chain w' = w_chain w" using chain_staysD assms(2) by blast
qed

section \<open>The proposal that is sent\<close>

lemma propose_sends:
  assumes contract: "shard_contract (e_ops E)" and codec: "codec_laws (e_codec E)"
    and nodes: "GetNodesInShard (resolver n) (lp_ShardID (pbftMeta n)) = Inr group'"
    and run: "propose E now n = (Inr (), n', ms)" and w: "(g, w) \<in> set ms" "MsgType w = ''Preprepare''"
  shows "\<exists>b d world' ms1. BuildProposal (e_ops E) now (world n) = (Inr (Some b), world', ms1) \<and> proposal_Hash (e_lib E) b = Inr d \<and>
    n' = n\<lparr>pbftMeta := (pbftMeta n)\<lparr>proposed := True, lastProposeTime := now\<rparr>, world := world'\<rparr> \<and>
    dec_preprepare (e_codec E) (Payload w) = Some \<lparr>pp_P = b, pp_Digest = d, pp_Seq = Seq (curViewSeq (pbftMeta n)),
      pp_View = View (curViewSeq (pbftMeta n)), pp_ShardID = 0, pp_NodeID = 0\<rparr> \<and>
    (\<forall>g \<in> set group'. (g, w) \<in> set ms)"
proof -
  obtain r1 w1 o1 where build: "BuildProposal (e_ops E) now (world n) = (r1, w1, o1)" by (metis surj_pair)
  have quiet: "(g, w) \<notin> set o1" using shard_contract.build_quiet [OF contract build] w(2) by (auto simp: quiet_def)
  have run': "\<not> now - lastProposeTime (pbftMeta n) < i64 (BlockInterval (pbftMeta n) * 1000000)"
    using run w(1) by (auto simp: propose_def act_simps bindA_def getA_def retA_def split: if_splits)
  obtain p where p: "r1 = Inr p" using run run' build
    by (cases r1) (auto simp: propose_def act_simps bindA_def getA_def zoomA_def)
  show ?thesis
  proof (cases p)
    case None
    then have "ms = o1" using run run' build p by (auto simp: propose_def act_simps bindA_def getA_def zoomA_def retA_def)
    then show ?thesis using quiet w(1) by simp
  next
    case (Some b)
    let ?pp = "\<lambda>d. \<lparr>pp_P = b, pp_Digest = d, pp_Seq = Seq (curViewSeq (pbftMeta n)),
      pp_View = View (curViewSeq (pbftMeta n)), pp_ShardID = 0, pp_NodeID = 0\<rparr>"
    obtain d y where d: "proposal_Hash (e_lib E) b = Inr d" "enc (e_codec E) (MPreprepare (?pp d)) = Some y"
      "ms = o1 @ map (\<lambda>d. (d, \<lparr>MsgType = ''Preprepare'', Payload = y\<rparr>)) group'"
      "n' = n\<lparr>pbftMeta := (pbftMeta n)\<lparr>proposed := True, lastProposeTime := now\<rparr>, world := w1\<rparr>"
      using run run' build p Some nodes
      by (auto simp: propose_def broadcastMsgInnerShard_def WrapMsg_def getMsgType_def act_simps bindA_def getA_def zoomA_def
          liftA_def sendA_def modA_def bindR_Inr_iff split: sum.splits)
    have "w = \<lparr>MsgType = ''Preprepare'', Payload = y\<rparr>" using w(1) d(3) quiet by auto
    then show ?thesis using build p Some d codec_lawsD(1) [OF codec d(2)] by auto
  qed
qed

section \<open>The shard commits the block\<close>

text \<open>A replica that waits for the proposal of the round, of which node 0 is the leader.\<close>

definition waits :: "int \<Rightarrow> int \<Rightarrow> int \<Rightarrow> ViewSeq \<Rightarrow> NodeInfo list \<Rightarrow> 'w node \<Rightarrow> bool" where
  "waits sh N i vs group' n \<longleftrightarrow>
     (let c = pbftMeta n in
      meta_ok c \<and> lp_NodeID c = i \<and> lp_ShardID c = sh \<and> f c = quot (i64 (N - 1)) 3 \<and> \<not> closed c \<and> leader c = 0 \<and>
      curViewSeq c = vs \<and> GetNodesInShard (resolver n) sh = Inr group' \<and> curPreprepare c = None)"

definition same_bloom :: "('db, 'tdb) chain \<Rightarrow> ('db, 'tdb) chain \<Rightarrow> bool" where
  "same_bloom c c' \<longleftrightarrow> cfg_BitsetLen c' = cfg_BitsetLen c \<and> cfg_FilterHashFunc c' = cfg_FilterHashFunc c"

lemma waits_in_round:
  assumes "waits sh N i vs group' n" "pp_vs pp = vs" "pp_NodeID pp = 0" "valid (pp_P pp) (world n)"
    and "R = \<lparr>rd_sh = sh, rd_id = i, rd_N = N, rd_pp = pp, rd_group = group'\<rparr>"
    and "\<And>q. q \<in> set (preprepares (msgPool (pbftMeta n))) \<Longrightarrow> \<not> rival R q"
  shows "in_round valid R n \<and> curPreprepare (pbftMeta n) = None"
  using assms by (simp add: in_round_def waits_def Let_def)

text \<open>A node that was just made waits for the first proposal.\<close>

lemma fresh_waits:
  assumes "pbftMeta n = newConsensusMeta N b sh i t" "GetNodesInShard (resolver n) sh = Inr group'"
  shows "waits sh N i (ViewSeq 0 0) group' n"
  using meta_ok_new [of N b sh i t] assms by (simp add: waits_def Let_def) (simp add: newConsensusMeta_def initialLeader_def)


section \<open>Examples\<close>

text \<open>A shard of one node, which proposes \<open>example_next\<close> and commits it.\<close>

definition example_round :: "int \<Rightarrow> round" where
  "example_round i = \<lparr>rd_sh = 0, rd_id = i, rd_N = 1, rd_pp = example_pp, rd_group = [NodeInfo 0 0]\<rparr>"

definition example_leader_env :: "(unit, bytes \<Rightarrow> example_trie) shard_world node_env" where
  "example_leader_env = example_node_env\<lparr>e_lib := example_lib\<lparr>sha256 := \<lambda>b. [1]\<rparr>\<rparr>"

definition example_waiting :: "(unit, bytes \<Rightarrow> example_trie) shard_world node" where
  "example_waiting = example_node\<lparr>pbftMeta := newConsensusMeta 1 1000 0 0 (-1000000000)\<rparr>"

definition example_proposed :: "(unit, bytes \<Rightarrow> example_trie) shard_world node" where
  "example_proposed = example_node\<lparr>pbftMeta := (newConsensusMeta 1 1000 0 0 0)\<lparr>proposed := True\<rparr>\<rparr>"

definition example_leader_voted :: "(unit, bytes \<Rightarrow> example_trie) shard_world node" where
  "example_leader_voted = example_voted\<lparr>pbftMeta := (pbftMeta example_voted)\<lparr>proposed := True\<rparr>\<rparr>"

lemmas example_leader_defs = example_leader_env_def example_waiting_def example_proposed_def example_leader_voted_def example_node_defs

lemma example_generate: "GenerateBlock example_env example_chain 0 0 1 [] [] [] = Inr example_next"
  by (simp add: GenerateBlock_def example_chain_defs chain_run calcTxHeaderOpt_def calcMigrationHeaderOpt_def
      previewStateRootByBlock_def MAddKeyValuesPreview_def) (simp add: NewBlock_def header.defs block.defs u64_def)

lemma example_empty: "getAccountLocationsInTxs example_env example_chain [] = Inr []" "rlp_block example_lib b = Some [word_of_int (Number b)]"
  by (simp_all add: example_chain_defs chain_run)

lemma example_proposes:
  "propose example_leader_env 0 example_waiting = (Inr (), example_proposed, [(NodeInfo 0 0, \<lparr>MsgType = ''Preprepare'', Payload = [0]\<rparr>)])"
  using example_generate
  by (simp add: tick_run example_leader_defs stages_run static_BuildProposal_def PackTxs_def packTxsByGivenNum_def example_empty
      relay_BuildTxBlockProposal_def modifyTxRelayOpt_def generateA_def proposal_Hash_def act_simps)

lemma example_leader_ticks:
  "tick example_leader_env example_votes 0 example_proposed =
     (Inr (), example_leader_voted, [(NodeInfo 0 0, \<lparr>MsgType = ''Prepare'', Payload = [1]\<rparr>),
                                     (NodeInfo 0 0, \<lparr>MsgType = ''Commit'', Payload = [2]\<rparr>)])"
  "\<exists>n'. tick example_leader_env example_commit 0 example_leader_voted = (Inr (), n', [])"
proof -
  show "tick example_leader_env example_votes 0 example_proposed =
     (Inr (), example_leader_voted, [(NodeInfo 0 0, \<lparr>MsgType = ''Prepare'', Payload = [1]\<rparr>),
                                     (NodeInfo 0 0, \<lparr>MsgType = ''Commit'', Payload = [2]\<rparr>)])"
    by (simp add: tick_run example_leader_defs example_valid stages_run)
  obtain c' where c': "chain_AddBlock example_env example_next example_chain = (Inr (), c')"
    using example_add by blast
  have txs: "TxList example_next = []" by (simp add: example_next_def example_block_def)
  show "\<exists>n'. tick example_leader_env example_commit 0 example_leader_voted = (Inr (), n', [])"
    by (simp add: tick_run example_leader_defs stages_run c' txs)
qed

lemma example_waits: "waits 0 1 0 (ViewSeq 0 0) [NodeInfo 0 0] example_waiting"
  using meta_ok_new by (simp add: waits_def Let_def example_waiting_def)
    (simp add: example_node_defs initialLeader_def GetNodesInShard_def orErr_def)


end
