(* ===== verification/CatchUp.thy ===== *)
theory CatchUp
  imports ShardContract
begin

text \<open>
  Catching up. A replica that lags behind asks the leader for the blocks after its own; the
  answer extends its history to the leader's. The exchange joins the handlers of \<open>Node\<close> and
  the chain's operations.
\<close>

section \<open>Adding the blocks of another history\<close>

lemma stored_parent:
  "stored_chain L st h (a @ x # b) \<Longrightarrow> b \<noteq> [] \<Longrightarrow> block_Hash L (hd b) = Inr (ParentBlockHash x)"
proof (induction a arbitrary: h)
  case Nil
  then show ?case by (cases b) simp_all
next
  case (Cons y a)
  then show ?case using Cons.IH [of "ParentBlockHash y"] by simp
qed

lemma history_parent:
  assumes "history E c (a @ x # b)" "b \<noteq> []"
  shows "block_Hash (c_lib E) (hd b) = Inr (ParentBlockHash x)" "Number x = int (length b) + 1"
proof -
  show "block_Hash (c_lib E) (hd b) = Inr (ParentBlockHash x)" using assms stored_parent unfolding history_def by blast
  have "\<forall>i < length (a @ x # b). Number ((a @ x # b) ! i) = int (length (a @ x # b)) - int i"
    using assms(1) unfolding history_def by blast
  from this [rule_format, of "length a"] show "Number x = int (length b) + 1" by simp
qed

text \<open>Adding the blocks of a history, oldest first, stops at the first block that cannot be added.\<close>

lemma add_blocks:
  assumes ops: "AddBlock (e_ops E) = (\<lambda>b. chainA (chain_AddBlock (s_chain S) b))" and put: "bolt_laws (c_put (s_chain S))"
    and L: "history (s_chain S) cl (rev xs @ hs)" and dist: "distinct (map (block_Hash (c_lib (s_chain S))) (rev xs @ hs))"
    and gob: "\<forall>b \<in> set xs. \<forall>d. gob_block (c_lib (s_chain S)) b = Some d \<longrightarrow> gob_unblock (c_lib (s_chain S)) d = Some b"
    and R: "history (s_chain S) (w_chain (world n)) hs"
    and run: "forA (\<lambda>b. worldA (AddBlock (e_ops E) b)) xs n = (r, n', ms)"
  shows "\<exists>k \<le> length xs. history (s_chain S) (w_chain (world n')) (rev (take k xs) @ hs) \<and>
    (r = Inr () \<longrightarrow> k = length xs) \<and> pbftMeta n' = pbftMeta n \<and> resolver n' = resolver n"
  using L dist gob R run
proof (induction xs arbitrary: hs n ms)
  case Nil
  then show ?case by (simp add: act_simps)
next
  case (Cons x xs)
  have hs: "hs \<noteq> []" using Cons.prems(4) by (simp add: history_def)
  have L: "history (s_chain S) cl (rev xs @ x # hs)" and dist: "distinct (map (block_Hash (c_lib (s_chain S))) (rev xs @ x # hs))"
    using Cons.prems(1,2) by simp_all
  obtain r1 c1 where add: "chain_AddBlock (s_chain S) x (w_chain (world n)) = (r1, c1)" by fastforce
  let ?n = "n\<lparr>world := (world n)\<lparr>w_chain := c1\<rparr>\<rparr>"
  have one: "worldA (AddBlock (e_ops E) x) n = (r1, ?n, [])" by (simp add: ops zoomA_def stateA_def add)
  show ?case
  proof (cases r1)
    case (Inl e)
    have "curHeader c1 = curHeader (w_chain (world n))" "BlockStorage c1 = BlockStorage (w_chain (world n))"
      using chain_AddBlock_InlE [OF _ put] add Inl by blast+
    then have "history (s_chain S) c1 hs = history (s_chain S) (w_chain (world n)) hs" by (simp add: history_def)
    then have "history (s_chain S) c1 hs" using Cons.prems(4) by simp
    moreover have "n' = ?n" "r \<noteq> Inr ()" using Cons.prems(5) one Inl by (auto simp: bindA_def)
    ultimately show ?thesis by (intro exI [of _ 0]) simp
  next
    case (Inr u)
    have parent: "header_Hash (c_lib (s_chain S)) (curHeader (w_chain (world n))) = Inr (ParentBlockHash x)"
      "Number x = Number (curHeader (w_chain (world n))) + 1"
    proof -
      have cur: "curHeader (w_chain (world n)) = header.truncate (hd hs)" "Number (hd hs) = int (length hs)"
        using Cons.prems(4) by (auto simp: history_def hd_conv_nth)
      show "header_Hash (c_lib (s_chain S)) (curHeader (w_chain (world n))) = Inr (ParentBlockHash x)"
        using history_parent(1) [OF L hs] by (simp add: cur(1) block_Hash_def)
      show "Number x = Number (curHeader (w_chain (world n))) + 1"
        using history_parent(2) [OF L hs] cur by (simp add: header.defs)
    qed
    have "history (s_chain S) c1 (x # hs)"
    proof (rule chain_AddBlock_extends_history [OF Cons.prems(4) put _ parent])
      show "chain_AddBlock (s_chain S) x (w_chain (world n)) = (Inr (), c1)" using add Inr by simp
      show "gob_unblock (c_lib (s_chain S)) d = Some x" if "gob_block (c_lib (s_chain S)) x = Some d" for d
        using Cons.prems(3) that by simp
      show "block_Hash (c_lib (s_chain S)) b' \<noteq> block_Hash (c_lib (s_chain S)) x" if "b' \<in> set hs" for b'
      proof -
        have "block_Hash (c_lib (s_chain S)) x \<notin> block_Hash (c_lib (s_chain S)) ` set hs"
          using dist by (simp only: map_append list.map distinct_append distinct.simps set_map) blast
        then show ?thesis using that by (metis imageI)
      qed
    qed
    then have H: "history (s_chain S) (w_chain (world ?n)) (x # hs)" by simp
    obtain ms' where run': "forA (\<lambda>b. worldA (AddBlock (e_ops E) b)) xs ?n = (r, n', ms')"
      using Cons.prems(5) one Inr by (auto simp: bindA_def split: prod.splits)
    obtain k where "k \<le> length xs" "history (s_chain S) (w_chain (world n')) (rev (take k xs) @ x # hs)"
      "r = Inr () \<longrightarrow> k = length xs" "pbftMeta n' = pbftMeta ?n" "resolver n' = resolver ?n"
      using Cons.IH [OF L dist _ H run'] Cons.prems(3) by auto
    then show ?thesis by (intro exI [of _ "Suc k"]) simp
  qed
qed

section \<open>The exchange\<close>

lemma shard_ops_chain:
  assumes "shard_ops_of S ops"
  shows "AddBlock ops = (\<lambda>b. chainA (chain_AddBlock (s_chain S) b))"
    "GetBlocksAfterHeight ops = (\<lambda>h. readA (\<lambda>w. chain_GetBlocksAfterHeight (s_chain S) h (w_chain w)))"
    "CurNumber ops = (\<lambda>w. Number (curHeader (w_chain w)))"
  using assms by (auto simp: shard_ops_of_def static_ops_def dynamic_ops_def)

lemma history_height: "history E c bs \<Longrightarrow> Number (curHeader c) = int (length bs)"
  by (cases bs) (auto simp: history_def header.defs)

text \<open>The request and the answer of the leader.\<close>

lemma catchup_request:
  assumes ops: "shard_ops_of S (e_ops E)" and R: "history (s_chain S) (w_chain (world n)) hs" "length hs < 2 ^ 62"
    and run: "catchUpStart E n = (Inr (), n', [(l, w)])"
  shows "n' = n\<lparr>pbftMeta := (pbftMeta n)\<lparr>catchupStarted := True\<rparr>\<rparr> \<and>
    (\<exists>b. enc (e_codec E) (MCatchupReq \<lparr>crq_StartBlockHeight = int (length hs) + 1, crq_ShardID = lp_ShardID (pbftMeta n),
           crq_NodeID = lp_NodeID (pbftMeta n)\<rparr>) = Some b \<and> w = \<lparr>MsgType = ''CatchupReq'', Payload = b\<rparr>)"
proof -
  have height: "i64 (i64 (CurNumber (e_ops E) (world n)) + 1) = int (length hs) + 1"
    using R(2) by (simp add: shard_ops_chain(3) [OF ops] history_height [OF R(1)] go_int in_i64_def)
  show ?thesis using run unfolding catchUpStart_def
    by (auto simp: act_simps bindA_def height liftA_def getA_def sendA_def modA_def getMsgType_def split: sum.splits prod.splits)
qed

lemma catchup_answer:
  assumes ops: "shard_ops_of S (e_ops E)" and L: "history (s_chain S) (w_chain (world n)) (new @ hs)"
    and few: "int (length new) \<le> blocksFetchLimit" "length (new @ hs) < 2 ^ 62"
    and req: "dec_catchup_req (e_codec E) b = Some m" "crq_StartBlockHeight m = int (length hs) + 1"
    and run: "handleMessage E \<lparr>MsgType = ''CatchupReq'', Payload = b\<rparr> n = (Inr (), n', [(d, w)])"
  shows "d = NodeInfo (crq_NodeID m) (crq_ShardID m) \<and>
    (\<exists>b'. enc (e_codec E) (MCatchupResp \<lparr>crs_Proposals = rev new, crs_NextSeq = Seq (curViewSeq (pbftMeta n)),
           crs_NextView = View (curViewSeq (pbftMeta n)), crs_ShardID = lp_ShardID (pbftMeta n), crs_NodeID = lp_NodeID (pbftMeta n)\<rparr>) = Some b' \<and>
      w = \<lparr>MsgType = ''CatchupResp'', Payload = b'\<rparr>)"
proof -
  have "chain_GetBlocksAfterHeight (s_chain S) (int (length hs) + 1) (w_chain (world n)) =
      Inr (drop (nat (int (length hs) + 1 - 1)) (rev (new @ hs)))"
    using few by (intro GetBlocksAfterHeight_history [OF L]) simp_all
  then have "chain_GetBlocksAfterHeight (s_chain S) (crq_StartBlockHeight m) (w_chain (world n)) = Inr (rev new)" by (simp add: req(2))
  then show ?thesis using run unfolding handleMessage_def
    by (auto simp: handleCatchupReq_def req(1) shard_ops_chain(2) [OF ops] act_simps bindA_def liftA_def getA_def sendA_def
        zoomA_def readA_def orErr_def getMsgType_def split: sum.splits)
qed


text \<open>A replica that has asked once does not ask again until a response was added in full.\<close>

lemma catchup_not_retried:
  assumes "catchupStarted (pbftMeta n)" "lp_NodeID (pbftMeta n) \<noteq> leader (pbftMeta n)"
  shows "leaderOrCatchup E now n = (Inr (), n, [])"
  using assms by (simp add: leaderOrCatchup_def catchupReady_def act_simps)

text \<open>
  A migration block that is committed in a round moves the chain to the next epoch; one that is
  added while catching up does not.
\<close>

lemma catchup_keeps_epoch:
  assumes "chain_AddBlock E b c = (Inr (), c')"
  shows "epochID c' = epochID c"
  using assms by (cases rule: chain_AddBlock_InrE) simp

text \<open>
  The round that a response names is taken as it is: the replica may go back to a round in which
  it has voted.
\<close>

lemma catchup_takes_any_round:
  assumes "dec_catchup_resp (e_codec E) b = Some m" "crs_Proposals m = []"
    and "leader (pbftMeta n) = crs_NodeID m" "catchupStarted (pbftMeta n)"
  shows "handleCatchupResp E b n =
    (Inr (), n\<lparr>pbftMeta := catchupOverAndReset (pbftMeta n) (ViewSeq (crs_NextView m) (crs_NextSeq m))\<rparr>, [])"
  using assms by (simp add: handleCatchupResp_def act_simps bindA_def liftA_def getA_def modA_def orErr_def retA_def)

text \<open>
  \<open>AddBlock\<close> does not compare a block with the current header. A replica that commits some of the
  blocks it has asked for before the response arrives adds them a second time.
\<close>

lemma AddBlock_twice:
  "\<exists>c1 c2. chain_AddBlock example_env example_next example_chain = (Inr (), c1) \<and>
     chain_AddBlock example_env example_next c1 = (Inr (), c2)"
  by (simp add: example_chain_defs chain_run)

section \<open>Examples\<close>

text \<open>Node 1 holds the first block, and asks node 0, the leader, which holds two.\<close>

definition example_creq :: CatchupReqMsg where
  "example_creq = \<lparr>crq_StartBlockHeight = 2, crq_ShardID = 0, crq_NodeID = 1\<rparr>"

definition example_cresp :: CatchupRespMsg where
  "example_cresp = \<lparr>crs_Proposals = [example_next], crs_NextSeq = 1, crs_NextView = 0, crs_ShardID = 0, crs_NodeID = 0\<rparr>"

definition example_catchup_codec :: codec where
  "example_catchup_codec = example_codec
     \<lparr>enc := (\<lambda>m. if m = MCatchupReq example_creq then Some [3] else if m = MCatchupResp example_cresp then Some [4] else None),
      dec_catchup_req := (\<lambda>b. if b = [3] then Some example_creq else None),
      dec_catchup_resp := (\<lambda>b. if b = [4] then Some example_cresp else None)\<rparr>"

definition example_catchup_env :: "(unit, bytes \<Rightarrow> example_trie) shard_world node_env" where
  "example_catchup_env = example_node_env\<lparr>e_codec := example_catchup_codec\<rparr>"

definition example_replica :: "int \<Rightarrow> (unit, bytes \<Rightarrow> example_trie) chain \<Rightarrow> (unit, bytes \<Rightarrow> example_trie) shard_world node" where
  "example_replica i c = \<lparr>resolver = example_topo, pbftMeta = newConsensusMeta 2 1000 0 i 0, world = example_world\<lparr>w_chain := c\<rparr>\<rparr>"

definition example_leader :: "(unit, bytes \<Rightarrow> example_trie) chain \<Rightarrow> (unit, bytes \<Rightarrow> example_trie) shard_world node" where
  "example_leader c = (example_replica 0 c)\<lparr>pbftMeta := (newConsensusMeta 2 1000 0 0 0)\<lparr>curViewSeq := ViewSeq 0 1\<rparr>\<rparr>"

lemma example_catchup_laws: "codec_laws example_catchup_codec"
  by (auto simp: codec_laws_def example_catchup_codec_def example_codec_def split: message.splits)

lemmas example_catchup_defs = example_catchup_env_def example_catchup_codec_def example_creq_def example_cresp_def
  example_replica_def example_leader_def example_node_defs initialLeader_def

lemma example_height: "Number (curHeader example_chain) = 1"
  by (simp add: example_chain_defs)


end
