(* ===== verification/BlockStore.thy ===== *)
theory BlockStore
  imports Storage Format
begin

text \<open>
  The interface \<open>block.Store\<close> and its compliance tests (\<open>pkg/storage/block/tests.go\<close>). What the
  interface promises is the locale \<open>block_store\<close>; a store that keeps the promise passes the tests,
  in whatever order the goroutines of the last of them run, and the store on bbolt keeps it.
\<close>

section \<open>The interface\<close>

record 's Store =
  store_AddBlock :: "bytes \<Rightarrow> bytes \<Rightarrow> bytes \<Rightarrow> 's \<Rightarrow> unit result \<times> 's"
  store_GetBlockByHash :: "bytes \<Rightarrow> 's \<Rightarrow> bytes result"
  store_AddBlockHeader :: "bytes \<Rightarrow> bytes \<Rightarrow> 's \<Rightarrow> unit result \<times> 's"
  store_GetBlockHeaderByHash :: "bytes \<Rightarrow> 's \<Rightarrow> bytes result"
  store_UpdateNewestBlockHash :: "bytes \<Rightarrow> 's \<Rightarrow> unit result \<times> 's"
  store_GetNewestBlockHash :: "'s \<Rightarrow> bytes result"

definition bolt_store :: "bolt_put \<Rightarrow> BoltStore Store" where
  "bolt_store put =
     \<lparr>store_AddBlock = bolt_AddBlock put, store_GetBlockByHash = GetBlockByHash,
      store_AddBlockHeader = AddBlockHeader put, store_GetBlockHeaderByHash = GetBlockHeaderByHash,
      store_UpdateNewestBlockHash = UpdateNewestBlockHash put, store_GetNewestBlockHash = GetNewestBlockHash\<rparr>"

section \<open>The tests\<close>

text \<open>A test is a list of checks; a check passes or not and leaves a store.\<close>

type_synonym 's check = "'s \<Rightarrow> bool \<times> 's"

definition no_error :: "('s \<Rightarrow> unit result \<times> 's) \<Rightarrow> 's check" where
  "no_error m = (\<lambda>s. case m s of (r, s') \<Rightarrow> (r = Inr (), s'))"

definition an_error :: "('s \<Rightarrow> unit result \<times> 's) \<Rightarrow> 's check" where
  "an_error m = (\<lambda>s. case m s of (r, s') \<Rightarrow> (r \<noteq> Inr (), s'))"

definition equals :: "('s \<Rightarrow> bytes result) \<Rightarrow> bytes \<Rightarrow> 's check" where
  "equals get v = (\<lambda>s. (get s = Inr v, s))"

definition not_nil :: "('s \<Rightarrow> bytes result) \<Rightarrow> 's check" where
  "not_nil get = (\<lambda>s. (case get s of Inl _ \<Rightarrow> False | Inr _ \<Rightarrow> True, s))"

fun passes :: "'s check list \<Rightarrow> 's \<Rightarrow> bool" where
  "passes [] s = True"
| "passes (c # cs) s = (case c s of (ok, s') \<Rightarrow> ok \<and> passes cs s')"

definition bytes_of :: "string \<Rightarrow> bytes" where
  "bytes_of = map of_char"

definition TestBlockStorageInvalidCheck :: "'s Store \<Rightarrow> 's check list" where
  "TestBlockStorageInvalidCheck S =
     [an_error (store_AddBlock S [] (bytes_of ''fake-block'') (bytes_of ''fake-block-header'')),
      an_error (store_AddBlockHeader S [] (bytes_of ''fake-block-header''))]"

definition TestBlockStorage :: "'s Store \<Rightarrow> 's check list" where
  "TestBlockStorage S =
     (let bHash = bytes_of ''valid-block-hash-block-test''; nHash = bytes_of ''new-valid-block-hash-block-test''
      in [no_error (store_AddBlock S bHash (bytes_of ''fake-block'') (bytes_of ''fake-block-header'')),
          equals (store_GetBlockByHash S bHash) (bytes_of ''fake-block''),
          equals (store_GetBlockHeaderByHash S bHash) (bytes_of ''fake-block-header''),
          equals (store_GetNewestBlockHash S) bHash,
          no_error (store_AddBlockHeader S nHash (bytes_of ''new-fake-block-header'')),
          equals (store_GetNewestBlockHash S) nHash])"

definition TestBlockHeaderStorage :: "'s Store \<Rightarrow> 's check list" where
  "TestBlockHeaderStorage S =
     (let bHash = bytes_of ''valid-block-hash-block-header-test''; nHash = bytes_of ''new-valid-block-hash-block-header-test''
      in [no_error (store_AddBlockHeader S bHash (bytes_of ''fake-block-header'')),
          equals (store_GetBlockHeaderByHash S bHash) (bytes_of ''fake-block-header''),
          equals (store_GetNewestBlockHash S) bHash,
          no_error (store_AddBlockHeader S nHash (bytes_of ''new-fake-block-header'')),
          equals (store_GetNewestBlockHash S) nHash])"

definition TestNewestBlockHashStorage :: "'s Store \<Rightarrow> 's check list" where
  "TestNewestBlockHashStorage S =
     (let bHash = bytes_of ''valid-block-hash-newest-block-hash-test''
      in [no_error (store_UpdateNewestBlockHash S bHash), equals (store_GetNewestBlockHash S) bHash])"

text \<open>The ten goroutines add their blocks in the order \<open>ids\<close>.\<close>

definition concurrent_hash :: "int \<Rightarrow> bytes" where
  "concurrent_hash k = bytes_of (''valid-block-hash-'' @ show_int k)"

definition concurrent_add :: "'s Store \<Rightarrow> int \<Rightarrow> 's check" where
  "concurrent_add S k =
     no_error (store_AddBlock S (concurrent_hash k) (bytes_of (''block-data-'' @ show_int k)) (bytes_of (''header-data-'' @ show_int k)))"

definition concurrent_verify :: "'s Store \<Rightarrow> int \<Rightarrow> 's check list" where
  "concurrent_verify S k =
     [not_nil (store_GetBlockByHash S (concurrent_hash k)), not_nil (store_GetBlockHeaderByHash S (concurrent_hash k))]"

definition TestConcurrency :: "'s Store \<Rightarrow> int list \<Rightarrow> 's check list" where
  "TestConcurrency S ids = map (concurrent_add S) ids @ concat (map (concurrent_verify S) [0..9])"

definition RunComplianceTests :: "'s Store \<Rightarrow> int list \<Rightarrow> 's check list" where
  "RunComplianceTests S ids =
     TestBlockStorageInvalidCheck S @ TestBlockStorage S @ TestBlockHeaderStorage S @ TestNewestBlockHashStorage S @
     TestConcurrency S ids"

section \<open>What a store promises\<close>

text \<open>
  \<open>ready\<close> is a store that is open, \<open>key_ok\<close> and \<open>val_ok\<close> are the hashes and the contents it takes. The
  empty hash is refused.
\<close>

locale block_store =
  fixes S :: "'s Store" and ready :: "'s \<Rightarrow> bool" and key_ok val_ok :: "bytes \<Rightarrow> bool"
  assumes no_empty_block: "ready s \<Longrightarrow> store_AddBlock S [] b h s = (r, s') \<Longrightarrow> r \<noteq> Inr () \<and> ready s'"
    and no_empty_header: "ready s \<Longrightarrow> store_AddBlockHeader S [] h s = (r, s') \<Longrightarrow> r \<noteq> Inr () \<and> ready s'"
    and add_block: "ready s \<Longrightarrow> key_ok k \<Longrightarrow> val_ok k \<Longrightarrow> val_ok b \<Longrightarrow> val_ok h \<Longrightarrow> \<exists>s'. store_AddBlock S k b h s = (Inr (), s') \<and> ready s' \<and>
      store_GetNewestBlockHash S s' = Inr k \<and>
      (\<forall>k'. store_GetBlockByHash S k' s' = (if k' = k then Inr b else store_GetBlockByHash S k' s) \<and>
            store_GetBlockHeaderByHash S k' s' = (if k' = k then Inr h else store_GetBlockHeaderByHash S k' s))"
    and add_header: "ready s \<Longrightarrow> key_ok k \<Longrightarrow> val_ok k \<Longrightarrow> val_ok h \<Longrightarrow> \<exists>s'. store_AddBlockHeader S k h s = (Inr (), s') \<and> ready s' \<and>
      store_GetNewestBlockHash S s' = Inr k \<and> store_GetBlockHeaderByHash S k s' = Inr h"
    and update_newest: "ready s \<Longrightarrow> val_ok k \<Longrightarrow> \<exists>s'. store_UpdateNewestBlockHash S k s = (Inr (), s') \<and> ready s' \<and>
      store_GetNewestBlockHash S s' = Inr k"
begin

lemma passes_an_error:
  "(\<And>r s'. m s = (r, s') \<Longrightarrow> r \<noteq> Inr () \<and> passes cs s') \<Longrightarrow> passes (an_error m # cs) s"
  by (cases "m s") (simp add: an_error_def)

text \<open>The blocks that the goroutines have added stay.\<close>

definition present :: "bytes \<Rightarrow> 's \<Rightarrow> bool" where
  "present k s \<longleftrightarrow> (\<exists>b. store_GetBlockByHash S k s = Inr b) \<and> (\<exists>h. store_GetBlockHeaderByHash S k s = Inr h)"

lemma verify_present:
  "\<forall>k \<in> set ks. present (concurrent_hash k) s \<Longrightarrow> passes (concat (map (concurrent_verify S) ks)) s"
  by (induction ks) (auto simp: concurrent_verify_def not_nil_def present_def)

lemma adds_present:
  assumes "\<forall>k \<in> set ids. key_ok (concurrent_hash k) \<and> val_ok (concurrent_hash k) \<and>
      val_ok (bytes_of (''block-data-'' @ show_int k)) \<and> val_ok (bytes_of (''header-data-'' @ show_int k))"
    and "ready s" and "\<And>s'. ready s' \<Longrightarrow> (\<And>k. k \<in> set ids \<or> present (concurrent_hash k) s \<Longrightarrow> present (concurrent_hash k) s') \<Longrightarrow> passes cs s'"
  shows "passes (map (concurrent_add S) ids @ cs) s"
  using assms
proof (induction ids arbitrary: s)
  case (Cons k ids)
  obtain s1 where s1: "store_AddBlock S (concurrent_hash k) (bytes_of (''block-data-'' @ show_int k))
      (bytes_of (''header-data-'' @ show_int k)) s = (Inr (), s1)" "ready s1"
    "\<And>k'. present k' s1 \<longleftrightarrow> k' = concurrent_hash k \<or> present k' s"
    using add_block [OF Cons.prems(2), of "concurrent_hash k" "bytes_of (''block-data-'' @ show_int k)" "bytes_of (''header-data-'' @ show_int k)"]
      Cons.prems(1) unfolding present_def by fastforce
  have "passes (map (concurrent_add S) ids @ cs) s1"
  proof (rule Cons.IH [OF _ s1(2)])
    show "passes cs s'" if "ready s'" "\<And>k'. k' \<in> set ids \<or> present (concurrent_hash k') s1 \<Longrightarrow> present (concurrent_hash k') s'" for s'
      using Cons.prems(3) [OF that(1)] that(2) s1(3) by auto
  qed (use Cons.prems(1) in simp)
  then show ?case using s1(1) unfolding concurrent_add_def by (simp add: no_error_def)
qed simp

text \<open>The strings of the tests are short enough.\<close>

definition takes_tests :: bool where
  "takes_tests \<longleftrightarrow> (\<forall>k. k \<noteq> [] \<and> length k < 64 \<longrightarrow> key_ok k) \<and> (\<forall>v. length v < 64 \<longrightarrow> val_ok v)"

lemma takes:
  assumes "takes_tests" shows "k \<noteq> [] \<Longrightarrow> length k < 64 \<Longrightarrow> key_ok k" "length v < 64 \<Longrightarrow> val_ok v"
  using assms unfolding takes_tests_def by blast+

lemma blocks_pass:
  assumes T: takes_tests and s: "ready s" and rest: "\<And>s'. ready s' \<Longrightarrow> passes cs s'"
  shows "passes (TestBlockStorage S @ cs) s"
proof -
  let ?b = "bytes_of ''valid-block-hash-block-test''" and ?n = "bytes_of ''new-valid-block-hash-block-test''"
  obtain s1 where 1: "store_AddBlock S ?b (bytes_of ''fake-block'') (bytes_of ''fake-block-header'') s = (Inr (), s1)" "ready s1"
    "store_GetBlockByHash S ?b s1 = Inr (bytes_of ''fake-block'')" "store_GetBlockHeaderByHash S ?b s1 = Inr (bytes_of ''fake-block-header'')"
    "store_GetNewestBlockHash S s1 = Inr ?b"
    using add_block [OF s takes(1) [OF T, of ?b] takes(2) [OF T, of ?b] takes(2) [OF T, of "bytes_of ''fake-block''"]
        takes(2) [OF T, of "bytes_of ''fake-block-header''"]] by (auto simp: bytes_of_def)
  obtain s2 where 2: "store_AddBlockHeader S ?n (bytes_of ''new-fake-block-header'') s1 = (Inr (), s2)" "ready s2"
    "store_GetNewestBlockHash S s2 = Inr ?n"
    using add_header [OF 1(2) takes(1) [OF T, of ?n] takes(2) [OF T, of ?n] takes(2) [OF T, of "bytes_of ''new-fake-block-header''"]]
    by (auto simp: bytes_of_def)
  show ?thesis using 1 2 rest unfolding TestBlockStorage_def Let_def
    by (simp add: no_error_def equals_def)
qed

lemma headers_pass:
  assumes T: takes_tests and s: "ready s" and rest: "\<And>s'. ready s' \<Longrightarrow> passes cs s'"
  shows "passes (TestBlockHeaderStorage S @ cs) s"
proof -
  let ?b = "bytes_of ''valid-block-hash-block-header-test''" and ?n = "bytes_of ''new-valid-block-hash-block-header-test''"
  obtain s1 where 1: "store_AddBlockHeader S ?b (bytes_of ''fake-block-header'') s = (Inr (), s1)" "ready s1"
    "store_GetBlockHeaderByHash S ?b s1 = Inr (bytes_of ''fake-block-header'')" "store_GetNewestBlockHash S s1 = Inr ?b"
    using add_header [OF s takes(1) [OF T, of ?b] takes(2) [OF T, of ?b] takes(2) [OF T, of "bytes_of ''fake-block-header''"]]
    by (auto simp: bytes_of_def)
  obtain s2 where 2: "store_AddBlockHeader S ?n (bytes_of ''new-fake-block-header'') s1 = (Inr (), s2)" "ready s2"
    "store_GetNewestBlockHash S s2 = Inr ?n"
    using add_header [OF 1(2) takes(1) [OF T, of ?n] takes(2) [OF T, of ?n] takes(2) [OF T, of "bytes_of ''new-fake-block-header''"]]
    by (auto simp: bytes_of_def)
  show ?thesis using 1 2 rest unfolding TestBlockHeaderStorage_def Let_def
    by (simp add: no_error_def equals_def)
qed

lemma newest_passes:
  assumes T: takes_tests and s: "ready s" and rest: "\<And>s'. ready s' \<Longrightarrow> passes cs s'"
  shows "passes (TestNewestBlockHashStorage S @ cs) s"
proof -
  let ?b = "bytes_of ''valid-block-hash-newest-block-hash-test''"
  obtain s1 where "store_UpdateNewestBlockHash S ?b s = (Inr (), s1)" "ready s1" "store_GetNewestBlockHash S s1 = Inr ?b"
    using update_newest [OF s takes(2) [OF T, of ?b]] by (auto simp: bytes_of_def)
  then show ?thesis using rest unfolding TestNewestBlockHashStorage_def Let_def
    by (simp add: no_error_def equals_def)
qed

lemma invalid_passes:
  assumes s: "ready s" and rest: "\<And>s'. ready s' \<Longrightarrow> passes cs s'"
  shows "passes (TestBlockStorageInvalidCheck S @ cs) s"
  unfolding TestBlockStorageInvalidCheck_def append.simps
proof (rule passes_an_error)
  fix r s1 assume 1: "store_AddBlock S [] (bytes_of ''fake-block'') (bytes_of ''fake-block-header'') s = (r, s1)"
  have "passes (an_error (store_AddBlockHeader S [] (bytes_of ''fake-block-header'')) # cs) s1"
    using no_empty_header no_empty_block [OF s 1] rest by (intro passes_an_error) blast
  then show "r \<noteq> Inr () \<and> passes (an_error (store_AddBlockHeader S [] (bytes_of ''fake-block-header'')) # cs) s1"
    using no_empty_block [OF s 1] by blast
qed

lemma digit_length: "0 \<le> k \<Longrightarrow> k \<le> 9 \<Longrightarrow> length (show_int k) = 1"
  by (simp add: show_int_def show_nat.simps)

lemma complies:
  assumes T: takes_tests and s: "ready s" and ids: "set ids = {0..9}"
  shows "passes (RunComplianceTests S ids) s"
  unfolding RunComplianceTests_def TestConcurrency_def
proof (intro invalid_passes blocks_pass headers_pass newest_passes T s)
  fix s' assume s': "ready s'"
  have len: "length (show_int k) = 1" if "k \<in> set ids" for k using digit_length that ids by simp
  show "passes (map (concurrent_add S) ids @ concat (map (concurrent_verify S) [0..9])) s'"
  proof (rule adds_present [OF _ s'])
    show "\<forall>k \<in> set ids. key_ok (concurrent_hash k) \<and> val_ok (concurrent_hash k) \<and>
        val_ok (bytes_of (''block-data-'' @ show_int k)) \<and> val_ok (bytes_of (''header-data-'' @ show_int k))"
      using len by (intro ballI conjI takes [OF T]) (auto simp: bytes_of_def concurrent_hash_def)
    show "passes (concat (map (concurrent_verify S) [0..9])) s2"
      if "\<And>k. k \<in> set ids \<or> present (concurrent_hash k) s' \<Longrightarrow> present (concurrent_hash k) s2" for s2
      using that ids by (intro verify_present) simp
  qed
qed

end

section \<open>The store on bbolt\<close>

text \<open>\<open>Bucket.Put\<close> of bbolt refuses an empty key, and keys and values that are too long, and nothing else.\<close>

definition bolt_put_doc :: "bolt_put \<Rightarrow> bool" where
  "bolt_put_doc put \<longleftrightarrow> bolt_laws put \<and>
     (\<forall>k v b. put k v b = None \<longleftrightarrow> k = [] \<or> 32768 < length k \<or> 2 ^ 31 - 2 < length v)"

definition buckets :: "BoltStore \<Rightarrow> bool" where
  "buckets db \<longleftrightarrow> bucketBlock db \<noteq> None \<and> bucketBlockHeader db \<noteq> None \<and> bucketNewestBlock db \<noteq> None"

abbreviation bolt_key :: "bytes \<Rightarrow> bool" where
  "bolt_key k \<equiv> k \<noteq> [] \<and> length k \<le> 32768"

abbreviation bolt_val :: "bytes \<Rightarrow> bool" where
  "bolt_val v \<equiv> length v \<le> 2 ^ 31 - 2"

lemma put_Some:
  assumes "bolt_put_doc put" "bolt_key k" "bolt_val v"
  obtains b' where "put k v b = Some b'" "map_of b' = (map_of b)(k \<mapsto> v)"
proof -
  obtain b' where b': "put k v b = Some b'" using assms unfolding bolt_put_doc_def by (metis leD option.exhaust)
  then show ?thesis using that assms(1) unfolding bolt_put_doc_def bolt_laws_def by blast
qed

lemma put_empty: "bolt_put_doc put \<Longrightarrow> put [] v b = None"
  by (simp add: bolt_put_doc_def)

lemma newest_key: "bolt_key newestBlockKey"
  by (simp add: newestBlockKey_def)

lemmas bolt_run = bolt_AddBlock_def AddBlockHeader_def UpdateNewestBlockHash_def bolt_Update_def put_in_def orErr_def
  GetBlockByHash_def GetBlockHeaderByHash_def GetNewestBlockHash_def buckets_def

lemma bolt_adds_block:
  assumes put: "bolt_put_doc put" and "buckets s" and k: "bolt_key k" "bolt_val k" "bolt_val b" "bolt_val h"
  shows "\<exists>s'. bolt_AddBlock put k b h s = (Inr (), s') \<and> buckets s' \<and> GetNewestBlockHash s' = Inr k \<and>
    (\<forall>k'. GetBlockByHash k' s' = (if k' = k then Inr b else GetBlockByHash k' s) \<and>
          GetBlockHeaderByHash k' s' = (if k' = k then Inr h else GetBlockHeaderByHash k' s))"
proof -
  obtain bs hs ns where s: "bucketBlock s = Some bs" "bucketBlockHeader s = Some hs" "bucketNewestBlock s = Some ns"
    using assms(2) unfolding buckets_def by blast
  obtain bs' hs' ns' where "put k b bs = Some bs'" "map_of bs' = (map_of bs)(k \<mapsto> b)"
    "put k h hs = Some hs'" "map_of hs' = (map_of hs)(k \<mapsto> h)"
    "put newestBlockKey k ns = Some ns'" "map_of ns' = (map_of ns)(newestBlockKey \<mapsto> k)"
    using put_Some [OF put k(1,3), of bs] put_Some [OF put k(1,4), of hs] put_Some [OF put newest_key k(2), of ns] by metis
  then show ?thesis using s by (simp add: bolt_run)
qed

lemma bolt_adds_header:
  assumes put: "bolt_put_doc put" and "buckets s" and k: "bolt_key k" "bolt_val k" "bolt_val h"
  shows "\<exists>s'. AddBlockHeader put k h s = (Inr (), s') \<and> buckets s' \<and> GetNewestBlockHash s' = Inr k \<and>
    GetBlockHeaderByHash k s' = Inr h"
proof -
  obtain bs hs ns where s: "bucketBlock s = Some bs" "bucketBlockHeader s = Some hs" "bucketNewestBlock s = Some ns"
    using assms(2) unfolding buckets_def by blast
  obtain hs' ns' where "put k h hs = Some hs'" "map_of hs' = (map_of hs)(k \<mapsto> h)"
    "put newestBlockKey k ns = Some ns'" "map_of ns' = (map_of ns)(newestBlockKey \<mapsto> k)"
    using put_Some [OF put k(1,3), of hs] put_Some [OF put newest_key k(2), of ns] by metis
  then show ?thesis using s by (simp add: bolt_run)
qed

lemma bolt_updates_newest:
  assumes put: "bolt_put_doc put" and "buckets s" and k: "bolt_val k"
  shows "\<exists>s'. UpdateNewestBlockHash put k s = (Inr (), s') \<and> buckets s' \<and> GetNewestBlockHash s' = Inr k"
proof -
  obtain bs hs ns where s: "bucketBlock s = Some bs" "bucketBlockHeader s = Some hs" "bucketNewestBlock s = Some ns"
    using assms(2) unfolding buckets_def by blast
  obtain ns' where "put newestBlockKey k ns = Some ns'" "map_of ns' = (map_of ns)(newestBlockKey \<mapsto> k)"
    using put_Some [OF put newest_key k, of ns] by metis
  then show ?thesis using s by (simp add: bolt_run)
qed

interpretation bolt: block_store "bolt_store put" "\<lambda>db. bolt_put_doc put \<and> buckets db" bolt_key bolt_val
  for put :: bolt_put
proof
  show "r \<noteq> Inr () \<and> bolt_put_doc put \<and> buckets s'"
    if "bolt_put_doc put \<and> buckets s" "store_AddBlock (bolt_store put) [] b h s = (r, s')" for s b h r s'
    using that by (auto simp: bolt_store_def bolt_run put_empty)
  show "r \<noteq> Inr () \<and> bolt_put_doc put \<and> buckets s'"
    if "bolt_put_doc put \<and> buckets s" "store_AddBlockHeader (bolt_store put) [] h s = (r, s')" for s h r s'
    using that by (auto simp: bolt_store_def bolt_run put_empty)
next
  fix s :: BoltStore and k b h :: bytes
  assume s: "bolt_put_doc put \<and> buckets s" and k: "bolt_val k"
  note ready = conjunct1 [OF s] conjunct2 [OF s]
  show "\<exists>s'. store_UpdateNewestBlockHash (bolt_store put) k s = (Inr (), s') \<and> (bolt_put_doc put \<and> buckets s') \<and>
      store_GetNewestBlockHash (bolt_store put) s' = Inr k"
    using bolt_updates_newest [OF ready k] ready(1) by (simp add: bolt_store_def)
  assume key: "bolt_key k" and h: "bolt_val h"
  show "\<exists>s'. store_AddBlockHeader (bolt_store put) k h s = (Inr (), s') \<and> (bolt_put_doc put \<and> buckets s') \<and>
      store_GetNewestBlockHash (bolt_store put) s' = Inr k \<and> store_GetBlockHeaderByHash (bolt_store put) k s' = Inr h"
    using bolt_adds_header [OF ready key k h] ready(1) by (simp add: bolt_store_def)
  assume b: "bolt_val b"
  show "\<exists>s'. store_AddBlock (bolt_store put) k b h s = (Inr (), s') \<and> (bolt_put_doc put \<and> buckets s') \<and>
      store_GetNewestBlockHash (bolt_store put) s' = Inr k \<and>
      (\<forall>k'. store_GetBlockByHash (bolt_store put) k' s' = (if k' = k then Inr b else store_GetBlockByHash (bolt_store put) k' s) \<and>
            store_GetBlockHeaderByHash (bolt_store put) k' s' = (if k' = k then Inr h else store_GetBlockHeaderByHash (bolt_store put) k' s))"
    using bolt_adds_block [OF ready key k b h] ready(1) by (simp only: bolt_store_def Store.simps simp_thms)
qed

text \<open>A new store on bbolt passes the compliance tests, in whatever order the goroutines add their blocks.\<close>

lemma bolt_complies:
  assumes "bolt_put_doc put" "set ids = {0..9}"
  shows "passes (RunComplianceTests (bolt_store put) ids) (NewBoltStore db)"
proof (rule bolt.complies [OF _ _ assms(2)])
  show "bolt.takes_tests" unfolding bolt.takes_tests_def by simp
  show "bolt_put_doc put \<and> buckets (NewBoltStore db)"
    using assms(1) by (simp add: NewBoltStore_def buckets_def CreateBucketIfNotExists_def split: option.splits)
qed

text \<open>Such a \<open>Put\<close> exists.\<close>

lemma bolt_put_exists: "\<exists>put. bolt_put_doc put"
  by (rule exI [of _ "\<lambda>k v b. if k = [] \<or> 32768 < length k \<or> 2 ^ 31 - 2 < length v then None else Some (AList.update k v b)"])
    (auto simp: bolt_put_doc_def bolt_laws_def update_conv')

end
