(* ===== verification/Scan.thy ===== *)
theory Scan
  imports Format
begin

text \<open>
  What the program uses of \<open>strings\<close> and \<open>bufio\<close> to read text: trimming white space, comparing
  without case, and the scanner that splits a file into lines. A string is its list of bytes.
\<close>

section \<open>Trimming\<close>

text \<open>The white space of \<open>unicode.IsSpace\<close>, each rune in UTF-8.\<close>

definition go_spaces :: "string list" where
  "go_spaces = map (map char_of)
     ([[9], [10], [11], [12], [13], [32], [194, 133], [194, 160], [225, 154, 128]] @
      map (\<lambda>n. [226, 128, n]) ([128..<139] @ [168, 169, 175]) @
      [[226, 129, 159], [227, 128, 128 :: nat]])"

definition starts_with :: "string \<Rightarrow> string \<Rightarrow> bool" where
  "starts_with s w \<longleftrightarrow> w \<noteq> [] \<and> take (length w) s = w"

function trim_with :: "string list \<Rightarrow> string \<Rightarrow> string" where
  "trim_with ws s = (case find (starts_with s) ws of None \<Rightarrow> s | Some w \<Rightarrow> trim_with ws (drop (length w) s))"
  by pat_completeness auto

termination
proof (relation "measure (\<lambda>(ws, s). length s)", goal_cases)
  case (2 ws s w)
  then have "w \<noteq> []" "take (length w) s = w" by (auto simp: find_Some_iff starts_with_def)
  then have "w \<noteq> []" "s \<noteq> []" by auto
  then show ?case by simp
qed simp

declare trim_with.simps [simp del]

definition TrimSpace :: "string \<Rightarrow> string" where
  "TrimSpace s = rev (trim_with (map rev go_spaces) (rev (trim_with go_spaces s)))"

text \<open>Nothing that could be trimmed is left, and what is trimmed is white space only.\<close>

lemma trim_with_done: "find (starts_with (trim_with ws s)) ws = None"
  by (induction ws s rule: trim_with.induct) (subst trim_with.simps, simp split: option.split)

lemma trim_with_suffix: "\<exists>us. set us \<subseteq> set ws \<and> s = concat us @ trim_with ws s"
proof (induction ws s rule: trim_with.induct)
  case (1 ws s)
  show ?case
  proof (cases "find (starts_with s) ws")
    case None
    then show ?thesis by (intro exI [of _ "[]"]) (simp add: trim_with.simps [of ws s])
  next
    case (Some w)
    then obtain us where us: "set us \<subseteq> set ws" "drop (length w) s = concat us @ trim_with ws (drop (length w) s)"
      using 1 by blast
    have w: "w \<in> set ws" "take (length w) s = w" using Some by (auto simp: find_Some_iff starts_with_def)
    have "s = w @ drop (length w) s" using append_take_drop_id [of "length w" s] w(2) by simp
    then show ?thesis using us w(1) Some
      by (intro exI [of _ "w # us"]) (simp add: trim_with.simps [of ws s])
  qed
qed

lemma trim_with_keep: "find (starts_with s) ws = None \<Longrightarrow> trim_with ws s = s"
  by (simp add: trim_with.simps)

text \<open>A string that begins and ends with a visible ASCII character is left as it is.\<close>

definition visible :: "char \<Rightarrow> bool" where
  "visible c \<longleftrightarrow> 32 < (of_char c :: nat) \<and> of_char c < (127 :: nat)"

lemma go_spaces_invisible: "w \<in> set go_spaces \<Longrightarrow> w \<noteq> [] \<and> \<not> visible (hd w) \<and> \<not> visible (last w)"
  by (auto simp: go_spaces_def visible_def)

lemma TrimSpace_visible:
  assumes "s \<noteq> []" "visible (hd s)" "visible (last s)"
  shows "TrimSpace s = s"
proof -
  have head: "hd t = hd w" if "starts_with t w" for t w
  proof -
    have "take (length w) t = w" "w \<noteq> []" using that by (simp_all add: starts_with_def)
    then have "t = w @ drop (length w) t" using append_take_drop_id [of "length w" t] by simp
    then show ?thesis using \<open>w \<noteq> []\<close> by (metis hd_append2)
  qed
  have "find (starts_with s) go_spaces = None"
    using assms(2) head go_spaces_invisible by (fastforce simp: find_None_iff)
  moreover have "find (starts_with (rev s)) (map rev go_spaces) = None"
    using assms(1,3) head go_spaces_invisible by (fastforce simp: find_None_iff hd_rev)
  ultimately show ?thesis by (simp add: TrimSpace_def trim_with_keep)
qed

section \<open>Lines\<close>

text \<open>
  \<open>bufio.Scanner\<close> with \<open>ScanLines\<close> and its default buffer: the lines without their ends, a
  carriage return before the end dropped. A line that does not fit into 65536 bytes stops the scan
  with \<open>bufio.ErrTooLong\<close>; the flag says that it did.
\<close>

definition newline :: char where
  "newline = char_of (10 :: nat)"

definition dropCR :: "string \<Rightarrow> string" where
  "dropCR l = (if l \<noteq> [] \<and> last l = char_of (13 :: nat) then butlast l else l)"

definition maxTokenSize :: nat where
  "maxTokenSize = 65536"

function scan_lines :: "string \<Rightarrow> string list \<times> bool" where
  "scan_lines s =
     (if s = [] then ([], False)
      else let line = takeWhile (\<lambda>c. c \<noteq> newline) s
           in if maxTokenSize \<le> length line then ([], True)
              else case scan_lines (tl (dropWhile (\<lambda>c. c \<noteq> newline) s)) of (ls, e) \<Rightarrow> (dropCR line # ls, e))"
  by pat_completeness auto

termination
proof (relation "measure length", goal_cases)
  case (2 s line)
  have "length (tl (dropWhile (\<lambda>c. c \<noteq> newline) s)) \<le> length s - 1"
    using length_dropWhile_le [of "\<lambda>c. c \<noteq> newline" s] by simp
  then show ?case using 2 by (cases s) simp_all
qed simp

declare scan_lines.simps [simp del]

lemma scan_lines_Nil [simp]: "scan_lines [] = ([], False)"
  by (simp add: scan_lines.simps)

lemma scan_lines_line:
  assumes "newline \<notin> set l" "length l < maxTokenSize"
  shows "scan_lines (l @ newline # s) = (case scan_lines s of (ls, e) \<Rightarrow> (dropCR l # ls, e))"
proof -
  have "takeWhile (\<lambda>c. c \<noteq> newline) (l @ newline # s) = l"
    "dropWhile (\<lambda>c. c \<noteq> newline) (l @ newline # s) = newline # s"
    using assms(1) by (auto simp: takeWhile_append dropWhile_append)
  then show ?thesis using assms(2) by (subst scan_lines.simps) (simp add: Let_def)
qed

text \<open>A file written line by line is read back line by line.\<close>

lemma scan_lines_roundtrip:
  assumes "\<And>l. l \<in> set ls \<Longrightarrow> newline \<notin> set l \<and> length l < maxTokenSize \<and> dropCR l = l"
  shows "scan_lines (concat (map (\<lambda>l. l @ [newline]) ls)) = (ls, False)"
  using assms by (induction ls) (simp_all add: scan_lines_line)

end
