(* ===== verification/TxSource.thy ===== *)
theory TxSource
  imports CoreTypes Scan
begin

text \<open>
  The transaction sources of the supervisor (\<open>supervisor/txsource\<close>): a CSV dataset, random
  transfers, and a trace written by the agent supervisor. \<open>encoding/csv\<close> is represented by the
  sequence of its \<open>Read\<close> results up to the end of the file, \<open>encoding/json\<close> by the function
  that decodes a line.
\<close>

section \<open>CSV\<close>

record CSVSource =
  csv_count :: int
  csv_rest :: "string list result list"
  csv_done :: bool
  csv_exclude :: bool

text \<open>\<open>NewCSVSource\<close> skips the first line; its error at the end of the file is the one of \<open>Read\<close>.\<close>

definition NewCSVSource :: "string list result list result \<Rightarrow> bool \<Rightarrow> CSVSource result" where
  "NewCSVSource file excludeContractTxs =
     bindR file (\<lambda>reads.
     case reads of
       [] \<Rightarrow> Inl (Errorf ''EOF'')
     | r # rest \<Rightarrow> bindR r (\<lambda>_. Inr \<lparr>csv_count = 1, csv_rest = rest, csv_done = False, csv_exclude = excludeContractTxs\<rparr>))"

definition lower :: "char \<Rightarrow> char" where
  "lower c = (if CHR ''A'' \<le> c \<and> c \<le> CHR ''Z'' then char_of (of_char c + 32 :: nat) else c)"

text \<open>\<open>strings.EqualFold\<close> with an ASCII string that has no letter with a fold outside ASCII.\<close>

definition EqualFold :: "string \<Rightarrow> string \<Rightarrow> bool" where
  "EqualFold s t \<longleftrightarrow> map lower s = map lower t"

definition csv_line2Tx :: "time \<Rightarrow> string list \<Rightarrow> int \<Rightarrow> bool \<Rightarrow> transaction result" where
  "csv_line2Tx now line cnt excludeContractTxs =
     (if length line \<le> 12 then Inl (Panic ''index out of range'')
      else
        let fromAddrStr = line ! 3; toAddrStr = line ! 4; toCreateStr = line ! 5; callingFuncStr = line ! 12;
            hasCallData = (callingFuncStr \<noteq> [] \<and> \<not> EqualFold callingFuncStr ''none'' \<and> \<not> EqualFold callingFuncStr ''0x'');
            hasToCreate = (toCreateStr \<noteq> [] \<and> \<not> EqualFold toCreateStr ''none'');
            hasToAddr = (toAddrStr \<noteq> [] \<and> \<not> EqualFold toAddrStr ''none'');
            fromIsContract = (line ! 6 = ''1''); toIsContract = (line ! 7 = ''1'');
            isContractRelated = (\<not> hasToAddr \<and> hasToCreate \<or> fromIsContract \<or> toIsContract)
        in if isContractRelated \<and> excludeContractTxs then Inl (Errorf ''contract transactions have been filtered'')
           else if hasToAddr \<and> fromAddrStr = toAddrStr then Inl (Errorf ''sender and recipient are the same'')
           else
             bindR (orErr ''failed to parse value'' (parse_int (line ! 8))) (\<lambda>val.
             bindR (Hex2Addr fromAddrStr) (\<lambda>senderAddr.
             bindR (if hasToAddr then Hex2Addr toAddrStr
                    else if \<not> hasToCreate then Inl (Errorf ''missing account address'')
                    else Inr EmptyAccountAddr) (\<lambda>receiverAddr.
             let tx = NewTransaction senderAddr receiverAddr val 0 (u64 cnt) now
             in if hasCallData
                then bindR (Hex2Bytes callingFuncStr) (\<lambda>data. Inr (tx\<lparr>Data := data\<rparr>))
                else Inr tx))))"

text \<open>
  The loop of \<open>ReadTxs\<close>: \<open>n\<close> transactions are still wanted. A line that is no transaction is
  logged and skipped; a line that is too short panics.
\<close>

fun csv_read :: "time \<Rightarrow> nat \<Rightarrow> CSVSource \<Rightarrow> string list result list \<Rightarrow> transaction list \<Rightarrow> transaction list result \<times> CSVSource" where
  "csv_read now n ds [] ret =
     (if n = 0 then (Inr ret, ds\<lparr>csv_rest := []\<rparr>) else (Inr ret, ds\<lparr>csv_rest := [], csv_done := True\<rparr>))"
| "csv_read now n ds (r # rest) ret =
     (if n = 0 then (Inr ret, ds\<lparr>csv_rest := r # rest\<rparr>)
      else case r of
        Inl e \<Rightarrow> (Inl e, ds\<lparr>csv_rest := rest, csv_done := True\<rparr>)
      | Inr txLine \<Rightarrow>
          (case csv_line2Tx now txLine (csv_count ds) (csv_exclude ds) of
             Inl (Panic p) \<Rightarrow> (Inl (Panic p), ds\<lparr>csv_rest := rest\<rparr>)
           | Inl (Errorf e) \<Rightarrow> csv_read now n ds rest ret
           | Inr tx \<Rightarrow> csv_read now (n - 1) (ds\<lparr>csv_count := i64 (csv_count ds + 1)\<rparr>) rest (ret @ [tx])))"

definition csv_ReadTxs :: "time \<Rightarrow> int \<Rightarrow> CSVSource \<Rightarrow> transaction list result \<times> CSVSource" where
  "csv_ReadTxs now n ds =
     (if csv_done ds then (Inr [], ds)
      else if n < 0 then (Inl (Panic ''makeslice: cap out of range''), ds)
      else csv_read now (nat n) ds (csv_rest ds) [])"

section \<open>Random transfers\<close>

record RandomSource =
  rs_count :: int

definition NewRandomSource :: RandomSource where
  "NewRandomSource = \<lparr>rs_count = 1\<rparr>"

text \<open>
  The random numbers of one transaction: the last two bytes of the sender, the draws of those of
  the receiver, and the amount. The loop ends at the first draw that differs from the sender.
  \<open>fee\<close> is ten percent of an amount of at most 1000, rounded down.
\<close>

record draw =
  d_sender :: int
  d_receiver :: "int list"
  d_amount :: int

definition upperBoundTransferAmount :: int where
  "upperBoundTransferAmount = 1000"

definition generateRandomTransaction :: "time \<Rightarrow> draw \<Rightarrow> int \<Rightarrow> transaction option" where
  "generateRandomTransaction now d c =
     (let sender = d_sender d mod 65536
      in case find (\<lambda>r. r mod 65536 \<noteq> sender) (d_receiver d) of
           None \<Rightarrow> None
         | Some r \<Rightarrow>
             let amount = d_amount d mod upperBoundTransferAmount + 1
             in Some (NewTransaction (word_of_int sender) (word_of_int (r mod 65536)) amount (amount div 10) (u64 c) now))"

fun random_read :: "time \<Rightarrow> draw list \<Rightarrow> nat \<Rightarrow> RandomSource \<Rightarrow> (transaction list \<times> RandomSource) option" where
  "random_read now ds 0 r = Some ([], r)"
| "random_read now [] (Suc n) r = None"
| "random_read now (d # ds) (Suc n) r =
     (case generateRandomTransaction now d (rs_count r) of
        None \<Rightarrow> None
      | Some tx \<Rightarrow>
          (case random_read now ds n (r\<lparr>rs_count := i64 (rs_count r + 1)\<rparr>) of
             None \<Rightarrow> None
           | Some (txs, r') \<Rightarrow> Some (tx # txs, r')))"

text \<open>\<open>None\<close> stands for a call that never returns, because its draws never differ.\<close>

definition random_ReadTxs :: "time \<Rightarrow> draw list \<Rightarrow> int \<Rightarrow> RandomSource \<Rightarrow> (transaction list result \<times> RandomSource) option" where
  "random_ReadTxs now ds n r =
     (if n < 0 then Some (Inl (Panic ''makeslice: len out of range''), r)
      else map_option (\<lambda>(txs, r'). (Inr txs, r')) (random_read now ds (nat n) r))"

section \<open>Traces\<close>

record traceLine =
  tl_Hash :: string
  tl_Sender :: string
  tl_Recipient :: string
  tl_Value :: string
  tl_Nonce :: int
  tl_Data :: string

record TraceSourceJSONL =
  ts_rest :: "string list"
  ts_tooLong :: bool
  ts_done :: bool
  ts_line :: int

definition NewTraceSourceJSONL :: "string result \<Rightarrow> TraceSourceJSONL result" where
  "NewTraceSourceJSONL file =
     bindR file (\<lambda>content.
     case scan_lines content of (ls, tooLong) \<Rightarrow>
       Inr \<lparr>ts_rest = ls, ts_tooLong = tooLong, ts_done = False, ts_line = 0\<rparr>)"

definition trace_line2Tx :: "(string \<Rightarrow> traceLine option) \<Rightarrow> time \<Rightarrow> string \<Rightarrow> transaction result" where
  "trace_line2Tx unmarshal now line =
     bindR (orErr ''unmarshal trace line'' (unmarshal line)) (\<lambda>tl.
     bindR (Hex2Addr (tl_Sender tl)) (\<lambda>sender.
     bindR (Hex2Addr (tl_Recipient tl)) (\<lambda>recipient.
     bindR (orErr ''parse value'' (parse_int (tl_Value tl))) (\<lambda>val.
     bindR (Hex2Bytes (tl_Data tl)) (\<lambda>data.
     Inr ((NewTransaction sender recipient val 0 (tl_Nonce tl) now)\<lparr>Data := data\<rparr>))))))"

fun trace_read ::
    "(string \<Rightarrow> traceLine option) \<Rightarrow> time \<Rightarrow> nat \<Rightarrow> TraceSourceJSONL \<Rightarrow> string list \<Rightarrow> transaction list \<Rightarrow>
     transaction list result \<times> TraceSourceJSONL" where
  "trace_read unmarshal now n ts [] ret =
     (if n = 0 then (Inr ret, ts\<lparr>ts_rest := []\<rparr>)
      else (if ts_tooLong ts then Inl (Errorf ''token too long'') else Inr ret,
            ts\<lparr>ts_rest := [], ts_done := True\<rparr>))"
| "trace_read unmarshal now n ts (l # ls) ret =
     (if n = 0 then (Inr ret, ts\<lparr>ts_rest := l # ls\<rparr>)
      else
        let ts1 = ts\<lparr>ts_line := ts_line ts + 1\<rparr>
        in case trace_line2Tx unmarshal now l of
             Inl e \<Rightarrow> (Inl e, ts1\<lparr>ts_rest := ls, ts_done := True\<rparr>)
           | Inr tx \<Rightarrow> trace_read unmarshal now (n - 1) ts1 ls (ret @ [tx]))"

definition trace_ReadTxs ::
    "(string \<Rightarrow> traceLine option) \<Rightarrow> time \<Rightarrow> int \<Rightarrow> TraceSourceJSONL \<Rightarrow> transaction list result \<times> TraceSourceJSONL" where
  "trace_ReadTxs unmarshal now n ts =
     (if ts_done ts then (Inr [], ts)
      else if n < 0 then (Inl (Panic ''makeslice: cap out of range''), ts)
      else trace_read unmarshal now (nat n) ts (ts_rest ts) [])"

section \<open>The interface\<close>

datatype tx_source =
    CSV CSVSource
  | Random RandomSource
  | Trace TraceSourceJSONL
  | NoOperation

text \<open>
  What a call of \<open>ReadTxs\<close> finds: the clock, the random numbers and the decoder. Random numbers
  that never end the search for a receiver stand for a call that does not return; it is
  represented as a panic of its own.
\<close>

record source_env =
  se_now :: time
  se_draws :: "draw list"
  se_unmarshal :: "string \<Rightarrow> traceLine option"

definition NewTxSource ::
    "string \<Rightarrow> bool \<Rightarrow> string list result list result \<Rightarrow> string result \<Rightarrow> tx_source result" where
  "NewTxSource type excludeContractTxs csvFile traceFile =
     (if type = ''csv_source'' then bindR (NewCSVSource csvFile excludeContractTxs) (\<lambda>s. Inr (CSV s))
      else if type = ''random_source'' then Inr (Random NewRandomSource)
      else if type = ''trace_source_JSONL'' then bindR (NewTraceSourceJSONL traceFile) (\<lambda>s. Inr (Trace s))
      else Inr NoOperation)"

definition ReadTxs :: "source_env \<Rightarrow> int \<Rightarrow> tx_source \<Rightarrow> transaction list result \<times> tx_source" where
  "ReadTxs V n src =
     (case src of
        CSV s \<Rightarrow> apsnd CSV (csv_ReadTxs (se_now V) n s)
      | Random s \<Rightarrow>
          (case random_ReadTxs (se_now V) (se_draws V) n s of
             None \<Rightarrow> (Inl (Panic ''does not return''), src)
           | Some r \<Rightarrow> apsnd Random r)
      | Trace s \<Rightarrow> apsnd Trace (trace_ReadTxs (se_unmarshal V) (se_now V) n s)
      | NoOperation \<Rightarrow> (Inr [], src))"

section \<open>What a source promises\<close>

text \<open>
  The contract a committee relies on: a successful call returns at most as many transactions as
  were asked for.
\<close>

locale source_contract =
  fixes read :: "int \<Rightarrow> 'x \<Rightarrow> transaction list result \<times> 'x"
  assumes read_at_most: "0 \<le> n \<Longrightarrow> read n s = (Inr txs, s') \<Longrightarrow> int (length txs) \<le> n"
begin

text \<open>Reading \<open>min speed unsent\<close> never takes more than was still unsent.\<close>

lemma unsent_stays:
  assumes "0 \<le> speed" "0 \<le> unsent" "read (min speed unsent) s = (Inr txs, s')"
  shows "0 \<le> unsent - int (length txs) \<and> int (length txs) \<le> speed"
  using read_at_most [OF _ assms(3)] assms(1,2) by simp

end

lemma csv_read_length:
  "csv_read now n ds rest ret = (Inr txs, ds') \<Longrightarrow> length txs \<le> length ret + n"
proof (induction now n ds rest ret rule: csv_read.induct)
  case (2 now n ds r rest ret)
  then show ?case by (auto split: if_splits sum.splits error.splits)
qed (auto split: if_splits)

lemma trace_read_length:
  "trace_read um now n ts ls ret = (Inr txs, ts') \<Longrightarrow> length txs \<le> length ret + n"
proof (induction um now n ts ls ret rule: trace_read.induct)
  case (2 um now n ts l ls ret)
  then show ?case by (auto simp: Let_def split: if_splits sum.splits)
qed (auto split: if_splits)

lemma random_read_length: "random_read now ds n r = Some (txs, r') \<Longrightarrow> length txs = n"
  by (induction now ds n r arbitrary: txs r' rule: random_read.induct) (auto split: option.splits)

interpretation source: source_contract "ReadTxs V" for V
proof
  fix n s txs s' assume n: "0 \<le> n" and run: "ReadTxs V n s = (Inr txs, s')"
  show "int (length txs) \<le> n"
  proof (cases s)
    case (CSV c)
    then have "\<exists>c'. csv_ReadTxs (se_now V) n c = (Inr txs, c')" using run by (auto simp: ReadTxs_def apsnd_def map_prod_def split: prod.splits)
    then show ?thesis using n csv_read_length by (fastforce simp: csv_ReadTxs_def split: if_splits)
  next
    case (Random r)
    then have "\<exists>r'. random_ReadTxs (se_now V) (se_draws V) n r = Some (Inr txs, r')"
      using run by (auto simp: ReadTxs_def apsnd_def map_prod_def split: option.splits prod.splits)
    then show ?thesis using n random_read_length by (fastforce simp: random_ReadTxs_def split: if_splits)
  next
    case (Trace t)
    then have "\<exists>t'. trace_ReadTxs (se_unmarshal V) (se_now V) n t = (Inr txs, t')"
      using run by (auto simp: ReadTxs_def apsnd_def map_prod_def split: prod.splits)
    then show ?thesis using n trace_read_length by (fastforce simp: trace_ReadTxs_def split: if_splits)
  next
    case NoOperation
    then show ?thesis using run n by (simp add: ReadTxs_def)
  qed
qed

section \<open>Reading in batches\<close>

lemma mapR_drop: "mapR f xs = Inr ys \<Longrightarrow> mapR f (drop n xs) = Inr (drop n ys)"
  by (induction xs arbitrary: ys n) (auto simp: bindR_Inr_iff drop_Cons split: nat.splits)

text \<open>A call gives the next transactions of a trace all of whose lines decode.\<close>

lemma trace_read_all:
  assumes "mapR (trace_line2Tx um now) ls = Inr txs"
  shows "\<exists>k. trace_read um now n ts ls ret =
    (if length ls < n \<and> ts_tooLong ts then Inl (Errorf ''token too long'') else Inr (ret @ take n txs),
     ts\<lparr>ts_rest := drop n ls, ts_done := ts_done ts \<or> length ls < n, ts_line := k\<rparr>)"
  using assms
proof (induction ls arbitrary: n ts ret txs)
  case Nil
  have "ts\<lparr>ts_rest := [], ts_line := ts_line ts\<rparr> = ts\<lparr>ts_rest := []\<rparr>"
    "ts\<lparr>ts_rest := [], ts_done := True, ts_line := ts_line ts\<rparr> = ts\<lparr>ts_rest := [], ts_done := True\<rparr>" by simp_all
  then show ?case using Nil by (intro exI [of _ "ts_line ts"]) (cases "ts", simp)
next
  case (Cons l ls)
  obtain tx txs' where tx: "trace_line2Tx um now l = Inr tx" "mapR (trace_line2Tx um now) ls = Inr txs'" "txs = tx # txs'"
    using Cons.prems by (auto simp: bindR_Inr_iff)
  show ?case
  proof (cases n)
    case 0
    then show ?thesis by (intro exI [of _ "ts_line ts"]) (cases "ts", simp)
  next
    case (Suc m)
    obtain k where "trace_read um now m (ts\<lparr>ts_line := ts_line ts + 1\<rparr>) ls (ret @ [tx]) =
      (if length ls < m \<and> ts_tooLong ts then Inl (Errorf ''token too long'') else Inr ((ret @ [tx]) @ take m txs'),
       ts\<lparr>ts_rest := drop m ls, ts_done := ts_done ts \<or> length ls < m, ts_line := k\<rparr>)"
      using Cons.IH [OF tx(2), of m "ts\<lparr>ts_line := ts_line ts + 1\<rparr>" "ret @ [tx]"] by auto
    then show ?thesis using Suc tx by (intro exI [of _ k]) (simp add: Let_def)
  qed
qed

text \<open>The calls of a committee: one per tick, each at its own time.\<close>

fun replay :: "(string \<Rightarrow> traceLine option) \<Rightarrow> (time \<times> int) list \<Rightarrow> TraceSourceJSONL \<Rightarrow> transaction list result" where
  "replay um [] ts = Inr []"
| "replay um ((now, n) # calls) ts =
     (case trace_ReadTxs um now n ts of
        (Inl e, _) \<Rightarrow> Inl e
      | (Inr txs, ts') \<Rightarrow> bindR (replay um calls ts') (\<lambda>rest. Inr (txs @ rest)))"

abbreviation untimed :: "transaction \<Rightarrow> transaction" where
  "untimed tx \<equiv> tx\<lparr>CreateTime := 0\<rparr>"

lemma trace_line2Tx_time:
  "trace_line2Tx um now l = Inr tx \<Longrightarrow> trace_line2Tx um now' l = Inr (tx\<lparr>CreateTime := now'\<rparr>)"
  by (auto simp: trace_line2Tx_def bindR_Inr_iff NewTransaction_def)

lemma mapR_trace_time:
  "mapR (trace_line2Tx um now) ls = Inr txs \<Longrightarrow>
     mapR (trace_line2Tx um now') ls = Inr (map (\<lambda>tx. tx\<lparr>CreateTime := now'\<rparr>) txs)"
  by (induction ls arbitrary: txs) (auto simp: bindR_Inr_iff trace_line2Tx_time)

lemma replay_done: "ts_done ts \<Longrightarrow> replay um calls ts = Inr []"
  by (induction calls) (auto simp: trace_ReadTxs_def)

lemma replay_batches:
  assumes "mapR (trace_line2Tx um 0) (ts_rest ts) = Inr txs" "\<not> ts_tooLong ts" "\<not> ts_done ts"
    and "\<forall>(now, n) \<in> set calls. 0 \<le> n" "int (length txs) \<le> sum_list (map snd calls)"
  shows "\<exists>out. replay um calls ts = Inr out \<and> map untimed out = map untimed txs"
  using assms
proof (induction calls arbitrary: ts txs)
  case (Cons c calls)
  obtain now n where c: "c = (now, n)" by (cases c)
  let ?at = "map (\<lambda>tx. tx\<lparr>CreateTime := now\<rparr>) txs"
  have len: "length (ts_rest ts) = length txs" using mapR_length [OF Cons.prems(1)] by simp
  obtain k where k: "trace_read um now (nat n) ts (ts_rest ts) [] = (Inr (take (nat n) ?at),
      ts\<lparr>ts_rest := drop (nat n) (ts_rest ts), ts_done := length (ts_rest ts) < nat n, ts_line := k\<rparr>)"
    using trace_read_all [OF mapR_trace_time [OF Cons.prems(1), of now], of "nat n" ts "[]"] Cons.prems(2,3) by auto
  let ?ts = "ts\<lparr>ts_rest := drop (nat n) (ts_rest ts), ts_done := length (ts_rest ts) < nat n, ts_line := k\<rparr>"
  have call: "trace_ReadTxs um now n ts = (Inr (take (nat n) ?at), ?ts)"
    using k Cons.prems(3,4) c by (simp add: trace_ReadTxs_def)
  have "\<exists>out. replay um calls ?ts = Inr out \<and> map untimed out = map untimed (drop (nat n) txs)"
  proof (cases "length (ts_rest ts) < nat n")
    case True
    then show ?thesis using replay_done [of ?ts] len by simp
  next
    case False
    have "mapR (trace_line2Tx um 0) (drop (nat n) (ts_rest ts)) = Inr (drop (nat n) txs)"
      using mapR_drop [OF Cons.prems(1)] .
    then show ?thesis using Cons.IH [of ?ts "drop (nat n) txs"] False Cons.prems(2,4,5) c len by auto
  qed
  then obtain out where out: "replay um calls ?ts = Inr out" "map untimed out = map untimed (drop (nat n) txs)" by blast
  have "map untimed (take (nat n) ?at) @ map untimed (drop (nat n) txs) = map untimed txs"
    by (simp add: take_map comp_def flip: map_append)
  then show ?case using call out c by simp
qed simp

end
