(* ===== verification/Broker.thy ===== *)
theory Broker
  imports CoreTypes Scan
begin

text \<open>
  The broker manager (\<open>pkg/broker/broker.go\<close>). A cross-shard transfer is split into two broker
  transactions; the manager creates them from a raw transaction and follows their confirmation.
\<close>

section \<open>State\<close>

record txInfoStage =
  rawTx :: transaction
  confirmStage :: int

abbreviation (input) "stageWaitConfirm1 \<equiv> 1 :: int"
abbreviation (input) "stageWaitConfirm2 \<equiv> 2 :: int"

record Manager =
  broker2Nonce :: "(address, int) gomap"
  unconfirmedTxInfo :: "(bytes, txInfoStage) gomap"
  readyBroker1TxHashes :: "bytes list"
  readyBroker2TxHashes :: "bytes list"
  brokers :: "address list"

section \<open>Construction\<close>

text \<open>The loop over the lines of the broker file.\<close>

fun read_brokers :: "int \<Rightarrow> string list \<Rightarrow> (address, int) gomap \<Rightarrow> (bool \<times> (address, int) gomap) result" where
  "read_brokers num [] brokerSet = Inr (False, brokerSet)"
| "read_brokers num (l # ls) brokerSet =
     (let line = TrimSpace l
      in if line = [] then read_brokers num ls brokerSet
         else bindR (Hex2Addr line) (\<lambda>addr.
              let bs = AList.update addr 0 brokerSet
              in if num \<le> int (length bs) then Inr (True, bs) else read_brokers num ls bs))"

text \<open>
  \<open>readBrokersFromFile\<close>, given what opening and reading the file yields. After a \<open>break\<close> the
  scanner has not met the end of the file, so its error is not seen.
\<close>

definition readBrokersFromFile :: "int \<Rightarrow> string result \<Rightarrow> (address, int) gomap result" where
  "readBrokersFromFile num file =
     bindR file (\<lambda>content.
     case scan_lines content of (lines, tooLong) \<Rightarrow>
       bindR (read_brokers num lines []) (\<lambda>(full, bs).
       if \<not> full \<and> tooLong then Inl (Errorf ''read broker file'') else Inr bs))"

text \<open>\<open>NewBrokerManager\<close>: \<open>order\<close> is the order in which Go iterates over the map.\<close>

definition NewBrokerManager :: "(address list \<Rightarrow> address list) \<Rightarrow> int \<Rightarrow> string result \<Rightarrow> Manager result" where
  "NewBrokerManager order num file =
     bindR (readBrokersFromFile num file) (\<lambda>bs.
     Inr \<lparr>broker2Nonce = bs, unconfirmedTxInfo = [], readyBroker1TxHashes = [], readyBroker2TxHashes = [],
          brokers = order (keys_of bs)\<rparr>)"

section \<open>Operations\<close>

definition IsBroker :: "Manager \<Rightarrow> address \<Rightarrow> bool" where
  "IsBroker m a \<longleftrightarrow> map_of (broker2Nonce m) a \<noteq> None"

definition CreateRawTx :: "lib \<Rightarrow> transaction \<Rightarrow> address \<Rightarrow> Manager \<Rightarrow> transaction result \<times> Manager" where
  "CreateRawTx L tx brokerAddr m =
     (case tx_Hash L tx of
        Inl e \<Rightarrow> (Inl e, m)
      | Inr th \<Rightarrow>
          (if \<not> IsBroker m brokerAddr then (Inl (Errorf ''not a broker address''), m)
           else if map_of (unconfirmedTxInfo m) th \<noteq> None
           then (Inl (Errorf ''tx hash already exists in the unconfirmed tx set''), m)
           else
             let nonce = u64 (get_or 0 (broker2Nonce m) brokerAddr + 1);
                 raw = tx\<lparr>BrokerStage := RawTxBrokerStage, Broker := brokerAddr, BOriginalHash := th,
                          OriginalTxCreateTime := CreateTime tx, NonceBroker := nonce,
                          HeightLock := 0, HeightCurrent := 0\<rparr>
             in (Inr raw,
                 m\<lparr>broker2Nonce := AList.update brokerAddr nonce (broker2Nonce m),
                   unconfirmedTxInfo :=
                     AList.update th \<lparr>rawTx = raw, confirmStage = stageWaitConfirm1\<rparr> (unconfirmedTxInfo m),
                   readyBroker1TxHashes := readyBroker1TxHashes m @ [th]\<rparr>)))"

text \<open>
  \<open>CreateRawTxsRandomBroker\<close>: the picks are the random numbers, taken modulo the number of
  brokers. The raw transactions created before an error stay in the manager.
\<close>

fun CreateRawTxsRandomBroker ::
    "lib \<Rightarrow> (transaction \<times> nat) list \<Rightarrow> Manager \<Rightarrow> transaction list result \<times> Manager" where
  "CreateRawTxsRandomBroker L [] m = (Inr [], m)"
| "CreateRawTxsRandomBroker L ((tx, pick) # txs) m =
     (if brokers m = [] then (Inl (Panic ''invalid argument to Intn''), m)
      else case CreateRawTx L tx (brokers m ! (pick mod length (brokers m))) m of
        (Inl e, m1) \<Rightarrow> (Inl e, m1)
      | (Inr raw, m1) \<Rightarrow>
          (case CreateRawTxsRandomBroker L txs m1 of
             (Inl e, m2) \<Rightarrow> (Inl e, m2)
           | (Inr raws, m2) \<Rightarrow> (Inr (raw # raws), m2)))"

definition createBroker1Tx :: "time \<Rightarrow> Manager \<Rightarrow> bytes \<Rightarrow> transaction result" where
  "createBroker1Tx now m txHash =
     (case map_of (unconfirmedTxInfo m) txHash of
        None \<Rightarrow> Inl (Errorf ''not a recorded raw tx'')
      | Some i \<Rightarrow>
          (if confirmStage i \<noteq> stageWaitConfirm1 then Inl (Errorf ''invalid confirm stage'')
           else Inr ((rawTx i)\<lparr>BrokerStage := Sigma1BrokerStage, CreateTime := now\<rparr>)))"

definition createBroker2Tx :: "time \<Rightarrow> Manager \<Rightarrow> bytes \<Rightarrow> transaction result" where
  "createBroker2Tx now m txHash =
     (case map_of (unconfirmedTxInfo m) txHash of
        None \<Rightarrow> Inl (Errorf ''not a recorded raw tx'')
      | Some i \<Rightarrow>
          (if confirmStage i \<noteq> stageWaitConfirm2 then Inl (Errorf ''invalid confirm stage'')
           else Inr ((rawTx i)\<lparr>BrokerStage := Sigma2BrokerStage, CreateTime := now\<rparr>)))"

text \<open>The loops of \<open>CreateBrokerTxs\<close>: an error is logged and its hash skipped.\<close>

fun created :: "(bytes \<Rightarrow> transaction result) \<Rightarrow> bytes list \<Rightarrow> transaction list" where
  "created f [] = []"
| "created f (h # hs) = (case f h of Inl e \<Rightarrow> created f hs | Inr tx \<Rightarrow> tx # created f hs)"

definition CreateBrokerTxs :: "time \<Rightarrow> Manager \<Rightarrow> (transaction list \<times> transaction list) \<times> Manager" where
  "CreateBrokerTxs now m =
     ((created (createBroker1Tx now m) (readyBroker1TxHashes m),
       created (createBroker2Tx now m) (readyBroker2TxHashes m)),
      m\<lparr>readyBroker1TxHashes := [], readyBroker2TxHashes := []\<rparr>)"

definition ConfirmBrokerTx :: "transaction \<Rightarrow> Manager \<Rightarrow> unit result \<times> Manager" where
  "ConfirmBrokerTx tx m =
     (let h = BOriginalHash tx
      in if \<not> IsBroker m (Broker tx) then (Inl (Errorf ''not a broker address''), m)
         else case map_of (unconfirmedTxInfo m) h of
           None \<Rightarrow> (Inl (Errorf ''not a recorded tx''), m)
         | Some i \<Rightarrow>
             (if confirmStage i = stageWaitConfirm1 then
                (if BrokerStage tx \<noteq> Sigma1BrokerStage then (Inl (Errorf ''invalid confirm stage''), m)
                 else (Inr (),
                   m\<lparr>unconfirmedTxInfo :=
                       AList.update h (i\<lparr>confirmStage := stageWaitConfirm2\<rparr>) (unconfirmedTxInfo m),
                     readyBroker2TxHashes := readyBroker2TxHashes m @ [h]\<rparr>))
              else if confirmStage i = stageWaitConfirm2 then
                (if BrokerStage tx \<noteq> Sigma2BrokerStage then (Inl (Errorf ''invalid confirm stage''), m)
                 else (Inr (), m\<lparr>unconfirmedTxInfo := AList.delete h (unconfirmedTxInfo m)\<rparr>))
              else (Inl (Errorf ''invalid confirm stage''), m)))"

definition IsFinished :: "Manager \<Rightarrow> bool" where
  "IsFinished m \<longleftrightarrow>
     unconfirmedTxInfo m = [] \<and> readyBroker1TxHashes m = [] \<and> readyBroker2TxHashes m = []"

section \<open>The life of a raw transaction\<close>

text \<open>
  A manager together with what happened so far: the hashes of the raw transactions it created and
  the broker transactions it handed out to be sent.
\<close>

record flow =
  fm :: Manager
  made :: "bytes set"
  issued1 :: "transaction list"
  issued2 :: "transaction list"

abbreviation hashes :: "transaction list \<Rightarrow> bytes set" where
  "hashes txs \<equiv> BOriginalHash ` set txs"

definition issue :: "time \<Rightarrow> flow \<Rightarrow> flow" where
  "issue now F = (case CreateBrokerTxs now (fm F) of ((b1, b2), m) \<Rightarrow>
     F\<lparr>fm := m, issued1 := issued1 F @ b1, issued2 := issued2 F @ b2\<rparr>)"

definition confirm :: "transaction \<Rightarrow> flow \<Rightarrow> flow" where
  "confirm tx F = F\<lparr>fm := snd (ConfirmBrokerTx tx (fm F))\<rparr>"

text \<open>
  The runs of a manager: raw transactions with new hashes are created, the ready ones are handed
  out, and what was handed out is confirmed, in any order and any number of times.
\<close>

inductive flow_reach :: "lib \<Rightarrow> flow \<Rightarrow> bool" for L where
  flow_init: "NewBrokerManager order num file = Inr m \<Longrightarrow>
    flow_reach L \<lparr>fm = m, made = {}, issued1 = [], issued2 = []\<rparr>"
| flow_create: "flow_reach L F \<Longrightarrow> CreateRawTx L tx b (fm F) = (Inr raw, m) \<Longrightarrow> BOriginalHash raw \<notin> made F \<Longrightarrow>
    flow_reach L (F\<lparr>fm := m, made := insert (BOriginalHash raw) (made F)\<rparr>)"
| flow_issue: "flow_reach L F \<Longrightarrow> flow_reach L (issue now F)"
| flow_confirm: "flow_reach L F \<Longrightarrow> tx \<in> set (issued1 F) \<union> set (issued2 F) \<Longrightarrow> flow_reach L (confirm tx F)"

text \<open>A broker transaction without its stage and its time: what both halves of a transfer share.\<close>

definition core :: "transaction \<Rightarrow> transaction" where
  "core tx = tx\<lparr>CreateTime := 0, BrokerStage := 0\<rparr>"

lemma core_simps [simp]:
  "core (tx\<lparr>BrokerStage := s, CreateTime := t\<rparr>) = core tx"
  by (simp add: core_def)

lemma core_eqD: "core a = core b \<Longrightarrow> BOriginalHash a = BOriginalHash b \<and> Broker a = Broker b"
proof -
  assume "core a = core b"
  then have "BOriginalHash (core a) = BOriginalHash (core b)" "Broker (core a) = Broker (core b)" by simp_all
  then show ?thesis by (simp add: core_def)
qed

definition info_ok :: "flow \<Rightarrow> bytes \<Rightarrow> txInfoStage \<Rightarrow> bool" where
  "info_ok F h i \<longleftrightarrow> h \<in> made F \<and> BOriginalHash (rawTx i) = h \<and> IsBroker (fm F) (Broker (rawTx i)) \<and>
     (\<forall>tx \<in> set (issued1 F). BOriginalHash tx = h \<longrightarrow> core tx = core (rawTx i)) \<and>
     (confirmStage i = 1 \<and> h \<notin> hashes (issued2 F) \<and> h \<notin> set (readyBroker2TxHashes (fm F)) \<and>
        (h \<in> set (readyBroker1TxHashes (fm F)) \<longleftrightarrow> h \<notin> hashes (issued1 F)) \<or>
      confirmStage i = 2 \<and> h \<in> hashes (issued1 F) \<and> h \<notin> set (readyBroker1TxHashes (fm F)) \<and>
        (h \<in> set (readyBroker2TxHashes (fm F)) \<longleftrightarrow> h \<notin> hashes (issued2 F)))"

definition flow_inv :: "flow \<Rightarrow> bool" where
  "flow_inv F \<longleftrightarrow>
     distinct (readyBroker1TxHashes (fm F)) \<and> distinct (readyBroker2TxHashes (fm F)) \<and>
     (\<forall>h i. map_of (unconfirmedTxInfo (fm F)) h = Some i \<longrightarrow> info_ok F h i) \<and>
     (\<forall>h \<in> set (readyBroker1TxHashes (fm F)) \<union> set (readyBroker2TxHashes (fm F)).
        map_of (unconfirmedTxInfo (fm F)) h \<noteq> None) \<and>
     (\<forall>h \<in> made F. map_of (unconfirmedTxInfo (fm F)) h = None \<longrightarrow> h \<in> hashes (issued2 F)) \<and>
     distinct (map BOriginalHash (issued1 F)) \<and> distinct (map BOriginalHash (issued2 F)) \<and>
     hashes (issued2 F) \<subseteq> hashes (issued1 F) \<and> hashes (issued1 F) \<subseteq> made F \<and>
     (\<forall>tx \<in> set (issued1 F). BrokerStage tx = 1 \<and> IsBroker (fm F) (Broker tx)) \<and>
     (\<forall>tx \<in> set (issued2 F). BrokerStage tx = 2 \<and> IsBroker (fm F) (Broker tx)) \<and>
     (\<forall>t1 \<in> set (issued1 F). \<forall>t2 \<in> set (issued2 F). BOriginalHash t1 = BOriginalHash t2 \<longrightarrow> core t1 = core t2)"

lemma flow_invD:
  assumes "flow_inv F"
  shows "distinct (readyBroker1TxHashes (fm F))" "distinct (readyBroker2TxHashes (fm F))"
    and "\<And>h i. map_of (unconfirmedTxInfo (fm F)) h = Some i \<Longrightarrow> info_ok F h i"
    and "\<And>h. h \<in> set (readyBroker1TxHashes (fm F)) \<Longrightarrow> \<exists>i. map_of (unconfirmedTxInfo (fm F)) h = Some i"
    and "\<And>h. h \<in> set (readyBroker2TxHashes (fm F)) \<Longrightarrow> \<exists>i. map_of (unconfirmedTxInfo (fm F)) h = Some i"
    and "\<And>h. h \<in> made F \<Longrightarrow> map_of (unconfirmedTxInfo (fm F)) h = None \<Longrightarrow> h \<in> hashes (issued2 F)"
    and "distinct (map BOriginalHash (issued1 F))" "distinct (map BOriginalHash (issued2 F))"
    and "hashes (issued2 F) \<subseteq> hashes (issued1 F)" "hashes (issued1 F) \<subseteq> made F"
    and "\<And>tx. tx \<in> set (issued1 F) \<Longrightarrow> BrokerStage tx = 1 \<and> IsBroker (fm F) (Broker tx)"
    and "\<And>tx. tx \<in> set (issued2 F) \<Longrightarrow> BrokerStage tx = 2 \<and> IsBroker (fm F) (Broker tx)"
    and "\<And>t1 t2. t1 \<in> set (issued1 F) \<Longrightarrow> t2 \<in> set (issued2 F) \<Longrightarrow> BOriginalHash t1 = BOriginalHash t2 \<Longrightarrow> core t1 = core t2"
  using assms unfolding flow_inv_def by auto

lemma NewBrokerManager_flow:
  "NewBrokerManager order num file = Inr m \<Longrightarrow> flow_inv \<lparr>fm = m, made = {}, issued1 = [], issued2 = []\<rparr>"
  by (auto simp: NewBrokerManager_def bindR_Inr_iff flow_inv_def)

lemma CreateRawTx_InrE:
  assumes "CreateRawTx L tx b m = (Inr raw, m')"
  obtains th nonce where "tx_Hash L tx = Inr th" "IsBroker m b" "map_of (unconfirmedTxInfo m) th = None"
    "BOriginalHash raw = th" "Broker raw = b" "BrokerStage raw = 0" "Sender raw = Sender tx"
    "Recipient raw = Recipient tx" "Value raw = Value tx"
    "m' = m\<lparr>broker2Nonce := AList.update b nonce (broker2Nonce m),
        unconfirmedTxInfo := AList.update th \<lparr>rawTx = raw, confirmStage = 1\<rparr> (unconfirmedTxInfo m),
        readyBroker1TxHashes := readyBroker1TxHashes m @ [th]\<rparr>"
  using assms by (auto simp: CreateRawTx_def Let_def split: sum.splits if_splits)

lemma flow_inv_create:
  assumes inv: "flow_inv F" and run: "CreateRawTx L tx b (fm F) = (Inr raw, m)" and new: "BOriginalHash raw \<notin> made F"
  shows "flow_inv (F\<lparr>fm := m, made := insert (BOriginalHash raw) (made F)\<rparr>)"
  using run
proof (cases rule: CreateRawTx_InrE)
  case (1 th nonce)
  let ?F = "F\<lparr>fm := m, made := insert (BOriginalHash raw) (made F)\<rparr>"
  note D = flow_invD [OF inv]
  have th: "th \<notin> made F" "th \<notin> hashes (issued1 F)" "th \<notin> hashes (issued2 F)" using new 1(4) D(9,10) by auto
  have ready: "th \<notin> set (readyBroker1TxHashes (fm F))" "th \<notin> set (readyBroker2TxHashes (fm F))"
    using 1(3) D(4,5) by fastforce+
  have broker: "IsBroker m a" if "IsBroker (fm F) a \<or> a = b" for a using that by (auto simp: IsBroker_def 1(10))
  have "info_ok ?F h i" if "map_of (unconfirmedTxInfo m) h = Some i" for h i
  proof (cases "h = th")
    case True
    then have "i = \<lparr>rawTx = raw, confirmStage = 1\<rparr>" using that by (simp add: 1(10))
    moreover have "\<forall>tx \<in> set (issued1 F). BOriginalHash tx \<noteq> th" using th(2) by blast
    ultimately show ?thesis using True th ready 1(4,5) broker [of b] by (auto simp: info_ok_def 1(10))
  next
    case False
    then have "info_ok F h i" using that D(3) by (simp add: 1(10))
    then show ?thesis using False broker by (auto simp: info_ok_def 1(10))
  qed
  then show ?thesis
    using D broker ready th unfolding flow_inv_def by (auto simp: 1(4,10))
qed

text \<open>The half that is handed out for a hash.\<close>

definition half :: "int \<Rightarrow> time \<Rightarrow> flow \<Rightarrow> bytes \<Rightarrow> transaction" where
  "half stg now F h = (rawTx (the (map_of (unconfirmedTxInfo (fm F)) h)))\<lparr>BrokerStage := stg, CreateTime := now\<rparr>"

lemma created_all: "(\<And>h. h \<in> set hs \<Longrightarrow> f h = Inr (g h)) \<Longrightarrow> created f hs = map g hs"
  by (induction hs) auto

lemma ready_infos:
  assumes "flow_inv F"
  shows "h \<in> set (readyBroker1TxHashes (fm F)) \<Longrightarrow>
      \<exists>i. map_of (unconfirmedTxInfo (fm F)) h = Some i \<and> info_ok F h i \<and> confirmStage i = 1 \<and> h \<notin> hashes (issued1 F)"
    and "h \<in> set (readyBroker2TxHashes (fm F)) \<Longrightarrow>
      \<exists>i. map_of (unconfirmedTxInfo (fm F)) h = Some i \<and> info_ok F h i \<and> confirmStage i = 2 \<and> h \<notin> hashes (issued2 F)"
  using flow_invD(3,4,5) [OF assms] unfolding info_ok_def by metis+

lemma issue_eq:
  assumes inv: "flow_inv F"
  shows "issue now F = F\<lparr>fm := (fm F)\<lparr>readyBroker1TxHashes := [], readyBroker2TxHashes := []\<rparr>,
     issued1 := issued1 F @ map (half 1 now F) (readyBroker1TxHashes (fm F)),
     issued2 := issued2 F @ map (half 2 now F) (readyBroker2TxHashes (fm F))\<rparr>"
proof -
  have "created (createBroker1Tx now (fm F)) (readyBroker1TxHashes (fm F)) = map (half 1 now F) (readyBroker1TxHashes (fm F))"
    by (rule created_all) (use ready_infos(1) [OF inv] in \<open>fastforce simp: createBroker1Tx_def half_def\<close>)
  moreover have "created (createBroker2Tx now (fm F)) (readyBroker2TxHashes (fm F)) = map (half 2 now F) (readyBroker2TxHashes (fm F))"
    by (rule created_all) (use ready_infos(2) [OF inv] in \<open>fastforce simp: createBroker2Tx_def half_def\<close>)
  ultimately show ?thesis by (simp add: issue_def CreateBrokerTxs_def)
qed

lemma half_facts:
  assumes "map_of (unconfirmedTxInfo (fm F)) h = Some i" "info_ok F h i"
  shows "BOriginalHash (half stg now F h) = h" "core (half stg now F h) = core (rawTx i)"
    "BrokerStage (half stg now F h) = stg" "IsBroker (fm F) (Broker (half stg now F h))"
  using assms by (simp_all add: half_def info_ok_def)

lemma flow_inv_issue:
  assumes inv: "flow_inv F"
  shows "flow_inv (issue now F)"
proof -
  let ?R1 = "readyBroker1TxHashes (fm F)" and ?R2 = "readyBroker2TxHashes (fm F)" and ?U = "unconfirmedTxInfo (fm F)"
  let ?I1 = "issued1 F @ map (half 1 now F) ?R1" and ?I2 = "issued2 F @ map (half 2 now F) ?R2"
  let ?m = "(fm F)\<lparr>readyBroker1TxHashes := [], readyBroker2TxHashes := []\<rparr>"
  let ?F = "F\<lparr>fm := ?m, issued1 := ?I1, issued2 := ?I2\<rparr>"
  note D = flow_invD [OF inv] and ready = ready_infos [OF inv]
  have h1: "BOriginalHash (half 1 now F h) = h \<and> BrokerStage (half 1 now F h) = 1 \<and>
      IsBroker (fm F) (Broker (half 1 now F h))" if "h \<in> set ?R1" for h
  proof -
    obtain i where "map_of ?U h = Some i" "info_ok F h i" using ready(1) [OF \<open>h \<in> set ?R1\<close>] by blast
    then show ?thesis by (simp add: half_facts)
  qed
  have h2: "BOriginalHash (half 2 now F h) = h \<and> BrokerStage (half 2 now F h) = 2 \<and>
      IsBroker (fm F) (Broker (half 2 now F h))" if "h \<in> set ?R2" for h
  proof -
    obtain i where "map_of ?U h = Some i" "info_ok F h i" using ready(2) [OF \<open>h \<in> set ?R2\<close>] by blast
    then show ?thesis by (simp add: half_facts)
  qed
  have hashes: "map BOriginalHash ?I1 = map BOriginalHash (issued1 F) @ ?R1"
    "map BOriginalHash ?I2 = map BOriginalHash (issued2 F) @ ?R2"
    using h1 h2 by (simp_all add: map_idI)
  then have sets: "hashes ?I1 = hashes (issued1 F) \<union> set ?R1" "hashes ?I2 = hashes (issued2 F) \<union> set ?R2"
    by (metis list.set_map set_append)+
  have core1: "core tx = core (rawTx i)" if t: "tx \<in> set ?I1" "map_of ?U (BOriginalHash tx) = Some i" for tx i
  proof (cases "tx \<in> set (issued1 F)")
    case True
    then show ?thesis using D(3) [OF t(2)] by (simp add: info_ok_def)
  next
    case False
    then obtain h where h: "tx = half 1 now F h" "h \<in> set ?R1" using t(1) by auto
    then have "BOriginalHash tx = h" using h1 by simp
    then show ?thesis using t(2) half_facts(2) D(3) h(1) by metis
  qed
  have info: "info_ok ?F h i" if "map_of ?U h = Some i" for h i
    using D(3) [OF that] ready(1,2) [of h] that core1
    by (auto simp: info_ok_def IsBroker_def sets simp del: set_append)
  have pair: "core t1 = core t2" if t: "t1 \<in> set ?I1" "t2 \<in> set ?I2" "BOriginalHash t1 = BOriginalHash t2" for t1 t2
  proof (cases "t2 \<in> set (issued2 F)")
    case True
    then have "BOriginalHash t1 \<in> hashes (issued1 F)" using t(3) D(9) by auto
    then have "t1 \<in> set (issued1 F)" using t(1) h1 ready(1) by fastforce
    then show ?thesis using D(13) True t(3) by blast
  next
    case False
    then obtain h where h: "t2 = half 2 now F h" "h \<in> set ?R2" using t(2) by auto
    then obtain i where "map_of ?U h = Some i" "info_ok F h i" using ready(2) by blast
    then show ?thesis using core1 [OF t(1)] half_facts t(3) h(1) by metis
  qed
  have dist: "distinct (map BOriginalHash ?I1)" "distinct (map BOriginalHash ?I2)"
    unfolding hashes distinct_append set_map using D(1,2,7,8) ready by blast+
  have r1: "h \<in> made F" if h: "h \<in> set ?R1" for h
  proof -
    obtain i where "info_ok F h i" using ready(1) [OF h] by blast
    then show ?thesis by (simp add: info_ok_def)
  qed
  have r2: "h \<in> hashes (issued1 F)" if h: "h \<in> set ?R2" for h
  proof -
    obtain i where "info_ok F h i" "confirmStage i = 2" using ready(2) [OF h] by blast
    then show ?thesis by (simp add: info_ok_def)
  qed
  have sub: "hashes ?I2 \<subseteq> hashes ?I1" "hashes ?I1 \<subseteq> made F"
    unfolding sets using D(9,10) r1 r2 by blast+
  have stages: "BrokerStage tx = 1 \<and> IsBroker (fm F) (Broker tx)" if "tx \<in> set ?I1" for tx
    using that D(11) h1 by auto
  have stages2: "BrokerStage tx = 2 \<and> IsBroker (fm F) (Broker tx)" if "tx \<in> set ?I2" for tx
    using that D(12) h2 by auto
  have "flow_inv ?F"
    unfolding flow_inv_def using info pair dist sub stages stages2 D(6)
    by (simp add: IsBroker_def sets del: set_append map_append)
  then show ?thesis by (simp add: issue_eq [OF inv])
qed

text \<open>A confirmation of what was handed out either moves its hash on, or is a repetition and ignored.\<close>

lemma confirm_cases:
  assumes inv: "flow_inv F" and tx: "tx \<in> set (issued1 F) \<union> set (issued2 F)"
  obtains (first) i where "map_of (unconfirmedTxInfo (fm F)) (BOriginalHash tx) = Some i" "confirmStage i = 1"
      "tx \<in> set (issued1 F)" "BOriginalHash tx \<notin> set (readyBroker2TxHashes (fm F))"
      "confirm tx F = F\<lparr>fm := (fm F)\<lparr>unconfirmedTxInfo :=
         AList.update (BOriginalHash tx) (i\<lparr>confirmStage := 2\<rparr>) (unconfirmedTxInfo (fm F)),
         readyBroker2TxHashes := readyBroker2TxHashes (fm F) @ [BOriginalHash tx]\<rparr>\<rparr>"
    | (second) i where "map_of (unconfirmedTxInfo (fm F)) (BOriginalHash tx) = Some i" "confirmStage i = 2"
      "tx \<in> set (issued2 F)" "BOriginalHash tx \<notin> set (readyBroker2TxHashes (fm F))"
      "confirm tx F = F\<lparr>fm := (fm F)\<lparr>unconfirmedTxInfo :=
         AList.delete (BOriginalHash tx) (unconfirmedTxInfo (fm F))\<rparr>\<rparr>"
    | (again) "confirm tx F = F" "\<And>i. map_of (unconfirmedTxInfo (fm F)) (BOriginalHash tx) = Some i \<Longrightarrow>
         confirmStage i = 2 \<and> tx \<in> set (issued1 F)"
proof -
  let ?h = "BOriginalHash tx"
  note D = flow_invD [OF inv]
  have broker: "IsBroker (fm F) (Broker tx)" using tx D(11,12) by blast
  show ?thesis
  proof (cases "map_of (unconfirmedTxInfo (fm F)) ?h")
    case None
    then have "confirm tx F = F" by (simp add: confirm_def ConfirmBrokerTx_def broker Let_def)
    then show ?thesis using again None by simp
  next
    case (Some i)
    note ok = D(3) [OF Some]
    show ?thesis
    proof (cases "confirmStage i = 1")
      case True
      then have "tx \<in> set (issued1 F)" "?h \<notin> set (readyBroker2TxHashes (fm F))"
        using ok tx by (auto simp: info_ok_def)
      then show ?thesis using first [OF Some True] D(11) Some True broker
        by (simp add: confirm_def ConfirmBrokerTx_def Let_def)
    next
      case False
      then have two: "confirmStage i = 2" using ok by (auto simp: info_ok_def)
      show ?thesis
      proof (cases "tx \<in> set (issued1 F)")
        case True
        then have "confirm tx F = F" using D(11) Some two broker by (simp add: confirm_def ConfirmBrokerTx_def Let_def)
        then show ?thesis using again Some two True by simp
      next
        case False
        then have "tx \<in> set (issued2 F)" using tx by simp
        then show ?thesis using second [OF Some two] ok two D(12) Some broker
          by (auto simp: info_ok_def confirm_def ConfirmBrokerTx_def Let_def)
      qed
    qed
  qed
qed

lemma flow_inv_confirm:
  assumes inv: "flow_inv F" and tx: "tx \<in> set (issued1 F) \<union> set (issued2 F)"
  shows "flow_inv (confirm tx F)"
  using inv tx
proof (cases rule: confirm_cases)
  case (first i)
  note D = flow_invD [OF inv]
  have ok: "info_ok F (BOriginalHash tx) i" using D(3) first(1) .
  have "info_ok (confirm tx F) h j" if "map_of (unconfirmedTxInfo (fm (confirm tx F))) h = Some j" for h j
    using that D(3) [of h j] ok first(2,3,4) unfolding first(5)
    by (cases "h = BOriginalHash tx") (auto simp: info_ok_def IsBroker_def)
  then show ?thesis using D first(1,4) unfolding flow_inv_def first(5) by (auto simp: IsBroker_def)
next
  case (second i)
  note D = flow_invD [OF inv]
  have "info_ok (confirm tx F) h j" if "map_of (unconfirmedTxInfo (fm (confirm tx F))) h = Some j" for h j
    using that D(3) [of h j] unfolding second(5) by (auto simp: info_ok_def IsBroker_def split: if_splits)
  moreover have "BOriginalHash tx \<notin> set (readyBroker1TxHashes (fm F))"
    using D(3) [OF second(1)] second(2) by (auto simp: info_ok_def)
  ultimately show ?thesis using D second(3,4) unfolding flow_inv_def second(5) by (auto simp: IsBroker_def)
next
  case again
  then show ?thesis using inv by simp
qed

lemma flow_reach_inv: "flow_reach L F \<Longrightarrow> flow_inv F"
  by (induction rule: flow_reach.induct)
    (blast intro: NewBrokerManager_flow flow_inv_create flow_inv_issue flow_inv_confirm)+

lemma confirm_frame:
  "issued1 (confirm tx F) = issued1 F" "issued2 (confirm tx F) = issued2 F" "made (confirm tx F) = made F"
  by (simp_all add: confirm_def)

lemma finished_made:
  assumes "flow_inv F" "IsFinished (fm F)"
  shows "hashes (issued2 F) = made F" "hashes (issued1 F) = made F"
  using flow_invD(6,9,10) [OF assms(1)] assms(2) by (auto simp: IsFinished_def)

section \<open>Draining\<close>

definition advanced :: "flow \<Rightarrow> bytes \<Rightarrow> bool" where
  "advanced F h \<longleftrightarrow> (\<forall>i. map_of (unconfirmedTxInfo (fm F)) h = Some i \<longrightarrow> confirmStage i = 2)"

definition gone :: "flow \<Rightarrow> bytes \<Rightarrow> bool" where
  "gone F h \<longleftrightarrow> map_of (unconfirmedTxInfo (fm F)) h = None"

lemma confirm_progress:
  assumes inv: "flow_inv F" and tx: "tx \<in> set (issued1 F) \<union> set (issued2 F)"
  shows "advanced F h \<Longrightarrow> advanced (confirm tx F) h" "gone F h \<Longrightarrow> gone (confirm tx F) h"
    and "advanced (confirm tx F) (BOriginalHash tx)"
    and "tx \<in> set (issued2 F) \<Longrightarrow> gone (confirm tx F) (BOriginalHash tx)"
proof -
  note D = flow_invD [OF inv]
  have excl: "\<not> (tx \<in> set (issued1 F) \<and> tx \<in> set (issued2 F))" using D(11,12) by fastforce
  from inv tx have "(advanced F h \<longrightarrow> advanced (confirm tx F) h) \<and> (gone F h \<longrightarrow> gone (confirm tx F) h) \<and>
      advanced (confirm tx F) (BOriginalHash tx) \<and> (tx \<in> set (issued2 F) \<longrightarrow> gone (confirm tx F) (BOriginalHash tx))"
  proof (cases rule: confirm_cases)
    case (first i)
    then have "tx \<notin> set (issued2 F)" using excl by blast
    then show ?thesis using first(1) unfolding first(5) by (auto simp: advanced_def gone_def)
  next
    case (second i)
    then show ?thesis unfolding second(5) by (auto simp: advanced_def gone_def)
  next
    case again
    have "gone F (BOriginalHash tx)" if "tx \<in> set (issued2 F)"
      using again(2) excl that by (cases "map_of (unconfirmedTxInfo (fm F)) (BOriginalHash tx)") (auto simp: gone_def)
    then show ?thesis using again by (auto simp: advanced_def)
  qed
  then show "advanced F h \<Longrightarrow> advanced (confirm tx F) h" "gone F h \<Longrightarrow> gone (confirm tx F) h"
    "advanced (confirm tx F) (BOriginalHash tx)" "tx \<in> set (issued2 F) \<Longrightarrow> gone (confirm tx F) (BOriginalHash tx)"
    by blast+
qed

lemma confirm_all:
  assumes "flow_inv F" "set txs \<subseteq> set (issued1 F) \<union> set (issued2 F)"
  shows "flow_inv (fold confirm txs F) \<and> issued1 (fold confirm txs F) = issued1 F \<and>
    issued2 (fold confirm txs F) = issued2 F \<and> made (fold confirm txs F) = made F \<and>
    (\<forall>h. advanced F h \<longrightarrow> advanced (fold confirm txs F) h) \<and> (\<forall>h. gone F h \<longrightarrow> gone (fold confirm txs F) h) \<and>
    (\<forall>tx \<in> set txs. advanced (fold confirm txs F) (BOriginalHash tx)) \<and>
    (\<forall>tx \<in> set txs \<inter> set (issued2 F). gone (fold confirm txs F) (BOriginalHash tx))"
  using assms
proof (induction txs arbitrary: F)
  case (Cons tx txs)
  have tx: "tx \<in> set (issued1 F) \<union> set (issued2 F)" using Cons.prems(2) by simp
  note step = flow_inv_confirm [OF Cons.prems(1) tx] confirm_frame [of tx F] confirm_progress [OF Cons.prems(1) tx]
  have "set txs \<subseteq> set (issued1 (confirm tx F)) \<union> set (issued2 (confirm tx F))" using Cons.prems(2) by (simp add: step)
  note rest = Cons.IH [OF step(1) this]
  show ?case using rest step by auto
qed simp

lemma issue_settled:
  assumes inv: "flow_inv F" and U: "map_of (unconfirmedTxInfo (fm (issue now F))) h = Some i"
  shows "h \<in> hashes (issued1 (issue now F))" "confirmStage i = 2 \<Longrightarrow> h \<in> hashes (issued2 (issue now F))"
proof -
  have "info_ok (issue now F) h i" using flow_invD(3) [OF flow_inv_issue [OF inv] U] .
  moreover have "readyBroker1TxHashes (fm (issue now F)) = []" "readyBroker2TxHashes (fm (issue now F)) = []"
    by (simp_all add: issue_eq [OF inv])
  ultimately show "h \<in> hashes (issued1 (issue now F))" "confirmStage i = 2 \<Longrightarrow> h \<in> hashes (issued2 (issue now F))"
    by (auto simp: info_ok_def)
qed

text \<open>Two rounds: hand out, and let everything that was handed out be confirmed.\<close>

definition confirm_round :: "time \<Rightarrow> flow \<Rightarrow> flow" where
  "confirm_round now F = (let F' = issue now F in fold confirm (issued1 F' @ issued2 F') F')"

lemma confirm_round_inv:
  assumes inv: "flow_inv F"
  shows "flow_inv (confirm_round now F)" "made (confirm_round now F) = made F" "advanced (confirm_round now F) h"
    and "(\<And>k. advanced F k) \<Longrightarrow> gone (confirm_round now F) h"
proof -
  let ?F = "issue now F" let ?txs = "issued1 ?F @ issued2 ?F"
  have all: "set ?txs \<subseteq> set (issued1 ?F) \<union> set (issued2 ?F)" by simp
  note C = confirm_all [OF flow_inv_issue [OF inv, of now] all]
  have same: "unconfirmedTxInfo (fm ?F) = unconfirmedTxInfo (fm F)" "made ?F = made F" by (simp_all add: issue_eq [OF inv])
  show "flow_inv (confirm_round now F)" "made (confirm_round now F) = made F"
    using C same by (simp_all add: confirm_round_def Let_def)
  show "advanced (confirm_round now F) h"
  proof (cases "map_of (unconfirmedTxInfo (fm ?F)) h")
    case None
    then have "gone ?F h" by (simp add: gone_def)
    then have "gone (confirm_round now F) h" using C by (simp add: confirm_round_def Let_def)
    then show ?thesis by (simp add: gone_def advanced_def)
  next
    case (Some i)
    then obtain tx where "tx \<in> set (issued1 ?F)" "BOriginalHash tx = h" using issue_settled(1) [OF inv Some] by auto
    then show ?thesis using C by (auto simp: confirm_round_def Let_def)
  qed
  show "gone (confirm_round now F) h" if adv: "\<And>k. advanced F k"
  proof (cases "map_of (unconfirmedTxInfo (fm ?F)) h")
    case None
    then have "gone ?F h" by (simp add: gone_def)
    then show ?thesis using C by (simp add: confirm_round_def Let_def)
  next
    case (Some i)
    have "confirmStage i = 2" using adv Some same by (simp add: advanced_def)
    then obtain tx where "tx \<in> set (issued2 ?F)" "BOriginalHash tx = h" using issue_settled(2) [OF inv Some] by auto
    then show ?thesis using C by (auto simp: confirm_round_def Let_def)
  qed
qed

lemma all_gone_finished:
  assumes "flow_inv F" "\<And>h. gone F h"
  shows "IsFinished (fm F)"
proof -
  have "unconfirmedTxInfo (fm F) = []"
  proof (cases "unconfirmedTxInfo (fm F)")
    case (Cons p U)
    then show ?thesis using assms(2) [of "fst p"] by (cases p) (simp add: gone_def)
  qed
  moreover have "set (readyBroker1TxHashes (fm F)) = {}" "set (readyBroker2TxHashes (fm F)) = {}"
    using flow_invD(4,5) [OF assms(1)] assms(2) unfolding gone_def by fastforce+
  ultimately show ?thesis by (simp add: IsFinished_def)
qed

lemma two_rounds_finish:
  assumes "flow_inv F"
  shows "IsFinished (fm (confirm_round now' (confirm_round now F)))"
proof -
  note r1 = confirm_round_inv [OF assms, of now]
  show ?thesis
    using all_gone_finished [OF confirm_round_inv(1) [OF r1(1)] confirm_round_inv(4) [OF r1(1) r1(3)]] .
qed

lemma flow_reach_confirms:
  assumes "flow_reach L F" "set txs \<subseteq> set (issued1 F) \<union> set (issued2 F)"
  shows "flow_reach L (fold confirm txs F)"
  using assms
proof (induction txs arbitrary: F)
  case (Cons tx txs)
  then have "flow_reach L (confirm tx F)" by (intro flow_confirm) auto
  then show ?case using Cons.IH Cons.prems(2) by (simp add: confirm_frame)
qed simp

lemma flow_reach_round: "flow_reach L F \<Longrightarrow> flow_reach L (confirm_round now F)"
  by (simp add: confirm_round_def Let_def flow_reach_confirms flow_issue del: fold_append)

section \<open>Properties\<close>


text \<open>C23: the manager does not get stuck: from every state it can reach, two rounds of handing out what
  is ready and confirming what was handed out finish every transfer, whatever repeated
  confirmations arrive among them.\<close>

theorem broker_drains:
  assumes "flow_reach L F"
  shows "IsFinished (fm (confirm_round now' (confirm_round now F)))"
  using two_rounds_finish [OF flow_reach_inv [OF assms]] .

section \<open>Examples\<close>

text \<open>One broker, read from a file, and one transfer.\<close>

definition example_broker_file :: string where
  "example_broker_file = ''0x01'' @ [newline]"

definition example_broker_lib :: lib where
  "example_broker_lib =
     \<lparr>sha256 = (\<lambda>b. b), sha512 = (\<lambda>b. b), sha1 = (\<lambda>b. b),
      rlp_tx = (\<lambda>tx. Some [word_of_int (Nonce tx)]), rlp_header = (\<lambda>h. None), rlp_block = (\<lambda>b. None),
      gob_state = (\<lambda>s. None), gob_block = (\<lambda>b. None), gob_unblock = (\<lambda>d. None), gob_loc = (\<lambda>l. None),
      gob_unloc = (\<lambda>d. None), mpt_root = (\<lambda>kvs. None), bs_new = (\<lambda>n. []), bs_set = (\<lambda>b i. b),
      bs_test = (\<lambda>b i. False), bs_len = (\<lambda>b. 0), bs_equal = (=)\<rparr>"

definition example_manager :: Manager where
  "example_manager = \<lparr>broker2Nonce = [(addr_of_bytes [1], 0)], unconfirmedTxInfo = [], readyBroker1TxHashes = [],
     readyBroker2TxHashes = [], brokers = [addr_of_bytes [1]]\<rparr>"

lemma example_manager_read: "NewBrokerManager id 3 (Inr example_broker_file) = Inr example_manager"
proof -
  have "newline \<notin> set ''0x01''" by (simp add: newline_def char_of_def)
  then have "scan_lines example_broker_file = ([''0x01''], False)"
    using scan_lines_line [of "''0x01''" "[]"]
    by (simp add: example_broker_file_def maxTokenSize_def dropCR_def char_of_def)
  moreover have "TrimSpace ''0x01'' = ''0x01''" by (rule TrimSpace_visible) (simp_all add: visible_def)
  moreover have "Hex2Addr ''0x01'' = Inr (addr_of_bytes [1])"
    by (simp add: Hex2Addr_def Hex2Bytes_def has_prefix_def from_hex_char_def)
  ultimately show ?thesis
    by (simp add: NewBrokerManager_def readBrokersFromFile_def Let_def keys_of_def example_manager_def)
qed

definition example_transfer :: transaction where
  "example_transfer = NewTransaction 1 2 5 0 3 0"

lemma example_flow:
  "\<exists>F. flow_reach example_broker_lib F \<and> made F = {[3]}"
proof -
  obtain raw m where raw: "CreateRawTx example_broker_lib example_transfer (addr_of_bytes [1]) example_manager = (Inr raw, m)"
    "BOriginalHash raw = [3]"
    by (simp add: CreateRawTx_def tx_Hash_def tx_Encode_def orErr_def IsBroker_def example_broker_lib_def
        example_manager_def example_transfer_def NewTransaction_def Let_def)
  show ?thesis
    using flow_create [OF flow_init [OF example_manager_read], of example_broker_lib example_transfer "addr_of_bytes [1]" raw m] raw
    by (intro exI [of _ "\<lparr>fm = m, made = {[3]}, issued1 = [], issued2 = []\<rparr>"]) simp
qed


theorem broker_drains_witness:
  "\<exists>F. flow_reach example_broker_lib F \<and> made F = {[3]} \<and> IsFinished (fm (confirm_round 20 (confirm_round 10 F)))"
  using example_flow broker_drains by blast

end
