(* ===== verification/Committee.thy ===== *)
theory Committee
  imports Act Partition TxSource Broker
begin

text \<open>
  The committees of the supervisor (\<open>supervisor/committee\<close>): they read transactions from the
  source, send each shard its own, follow the blocks the shards report, and decide when the
  experiment is over. This theory holds what they share and the two relay committees.
\<close>

section \<open>Common parts\<close>

record stopLogic =
  stopThreshold :: int
  stopCnt :: int

definition stopThresholdPerShard :: int where
  "stopThresholdPerShard = 5"

definition newStopLogic :: "int \<Rightarrow> stopLogic" where
  "newStopLogic shards = \<lparr>stopThreshold = i64 (shards * stopThresholdPerShard), stopCnt = 0\<rparr>"

definition pack_tx :: "int \<Rightarrow> (transaction \<Rightarrow> int result) \<Rightarrow> transaction list list \<Rightarrow> transaction \<Rightarrow> transaction list list result" where
  "pack_tx shardNumber locFunc shardTxs tx =
     bindR (locFunc tx) (\<lambda>shardID.
     if shardID < 0 \<or> shardNumber \<le> shardID then Inr shardTxs
     else bucket_add shardTxs shardID tx)"

definition packShardTxs :: "transaction list \<Rightarrow> int \<Rightarrow> (transaction \<Rightarrow> int result) \<Rightarrow> transaction list list result" where
  "packShardTxs txs shardNumber locFunc =
     (if shardNumber < 0 then Inl (Panic ''makeslice: len out of range'')
      else foldR (pack_tx shardNumber locFunc) (empty_buckets shardNumber) txs)"

text \<open>
  The fields that all four committees have, their environment (the configuration, the topology,
  the encoder, the transaction source), and what changes from call to call: what the source
  finds, the orders in which CLPA iterates over the vertices, and the shuffled brokers and the
  random picks of the broker committees.
\<close>

record 'x committee =
  txSource :: 'x
  sl :: stopLogic
  unsentTxNum :: int

record 'x com_env =
  ce_lib :: lib
  ce_codec :: codec
  ce_resolver :: TopoGetter
  ce_ShardNum :: int
  ce_TxNumber :: int
  ce_TxInjectionSpeed :: int
  ce_EpochDuration :: int
  ce_read :: "source_env \<Rightarrow> int \<Rightarrow> 'x \<Rightarrow> transaction list result \<times> 'x"

record tick_in =
  t_src :: source_env
  t_orders :: "vertex list list"
  t_shuffle :: "nat \<Rightarrow> address list \<Rightarrow> address list"
  t_picks :: "nat list"

abbreviation t_now :: "tick_in \<Rightarrow> time" where
  "t_now V \<equiv> se_now (t_src V)"

definition readTxs :: "'x com_env \<Rightarrow> tick_in \<Rightarrow> (('x, 'm) committee_scheme, transaction list) act" where
  "readTxs E V = (\<lambda>s.
     case ce_read E (t_src V) (min (ce_TxInjectionSpeed E) (unsentTxNum s)) (txSource s) of
       (r, src) \<Rightarrow> (r, s\<lparr>txSource := src\<rparr>, []))"

text \<open>Send each shard its transactions, and count the ones that were read as sent.\<close>

definition sendTxs ::
    "'x com_env \<Rightarrow> (transaction \<Rightarrow> int result) \<Rightarrow> transaction list \<Rightarrow> int \<Rightarrow> (('x, 'm) committee_scheme, unit) act" where
  "sendTxs E loc txs k =
     bindA (liftA (packShardTxs txs (ce_ShardNum E) loc)) (\<lambda>shardTxs.
     bindA (liftA (SendWrappedTxs2Shards (ce_codec E) shardTxs (ce_resolver E))) (\<lambda>ms.
     bindA (sendA ms) (\<lambda>_.
     modA (\<lambda>s. s\<lparr>unsentTxNum := i64 (unsentTxNum s - k)\<rparr>))))"

definition GroupBroadcastMessage :: "NodeInfo list \<Rightarrow> WrappedMsg \<Rightarrow> sends" where
  "GroupBroadcastMessage nodes msg = map (\<lambda>node. (node, msg)) nodes"

text \<open>
  A block counts towards the end once every transaction was sent: an empty one brings it closer,
  one with transactions starts over.
\<close>

definition count_block :: "bool \<Rightarrow> ('x, 'm) committee_scheme \<Rightarrow> ('x, 'm) committee_scheme" where
  "count_block none s =
     (if unsentTxNum s \<le> 0 \<and> none then s\<lparr>sl := (sl s)\<lparr>stopCnt := i64 (stopCnt (sl s) + 1)\<rparr>\<rparr>
      else if unsentTxNum s \<le> 0 then s\<lparr>sl := (sl s)\<lparr>stopCnt := 0\<rparr>\<rparr>
      else s)"

definition threshold_reached :: "('x, 'm) committee_scheme \<Rightarrow> bool" where
  "threshold_reached s \<longleftrightarrow> stopThreshold (sl s) \<le> stopCnt (sl s)"

definition relay_block_empty :: "RelayBlockInfoMsg \<Rightarrow> bool" where
  "relay_block_empty b \<longleftrightarrow>
     length (rb_InnerShardTxs b) + length (rb_Relay1Txs b) + length (rb_Relay2Txs b) = 0"

section \<open>Static relay\<close>

type_synonym 'x StaticRelayCommittee = "'x committee"

definition NewStaticRelayCommittee :: "'x com_env \<Rightarrow> 'x result \<Rightarrow> 'x StaticRelayCommittee result" where
  "NewStaticRelayCommittee E src =
     bindR src (\<lambda>ts.
     Inr \<lparr>txSource = ts, sl = newStopLogic (ce_ShardNum E), unsentTxNum = ce_TxNumber E\<rparr>)"

definition static_relay_getTxLoc :: "'x com_env \<Rightarrow> transaction \<Rightarrow> int result" where
  "static_relay_getTxLoc E tx = DefaultAccountLoc (Sender tx) (ce_ShardNum E)"

definition static_relay_SendTxsAndConsensus :: "'x com_env \<Rightarrow> tick_in \<Rightarrow> ('x StaticRelayCommittee, unit) act" where
  "static_relay_SendTxsAndConsensus E V =
     bindA (readTxs E V) (\<lambda>txs.
     sendTxs E (static_relay_getTxLoc E) txs (int (length txs)))"

definition static_relay_HandleMsg :: "'x com_env \<Rightarrow> WrappedMsg \<Rightarrow> ('x StaticRelayCommittee, unit) act" where
  "static_relay_HandleMsg E msg =
     (if MsgType msg \<noteq> ''RelayBlockInfo'' then retA ()
      else bindA (liftA (orErr ''decode relayBlockInfoMsg'' (dec_relay_block_info (ce_codec E) (Payload msg)))) (\<lambda>bInfo.
           modA (count_block (relay_block_empty bInfo))))"

definition static_relay_ShouldStop :: "'x StaticRelayCommittee \<Rightarrow> bool" where
  "static_relay_ShouldStop s \<longleftrightarrow> threshold_reached s"

section \<open>Epochs of the dynamic committees\<close>

record 'f partitionRunner =
  pr_state :: "'f CLPAState"
  lastRunTime :: time
  epochSynced :: bool
  supervisorEpoch :: int
  shardEpoch :: "int list"

definition CheckEpochSyncAndMark :: "time \<Rightarrow> 'f partitionRunner \<Rightarrow> bool \<times> 'f partitionRunner" where
  "CheckEpochSyncAndMark now p =
     (if epochSynced p then (True, p)
      else if \<not> list_all (\<lambda>e. e = supervisorEpoch p) (shardEpoch p) then (False, p)
      else (True, p\<lparr>lastRunTime := now, epochSynced := True\<rparr>))"

text \<open>\<open>clpaWeightPenalty\<close> and \<open>clpaMaxIterations\<close>.\<close>

definition clpaMaxIterations :: int where
  "clpaMaxIterations = 100"

definition newPartitionRunner :: "'f floats \<Rightarrow> time \<Rightarrow> int \<Rightarrow> 'f partitionRunner result" where
  "newPartitionRunner F now shards =
     bindR (NewCLPAState F (f_div F (f_of_int F 1) (f_of_int F 2)) clpaMaxIterations shards) (\<lambda>cs.
     Inr \<lparr>pr_state = cs, lastRunTime = now, epochSynced = False, supervisorEpoch = 0,
          shardEpoch = replicate (nat shards) 0\<rparr>)"

record ('x, 'f) clpa_committee = "'x committee" +
  runner :: "'f partitionRunner"

text \<open>
  A run of CLPA: the moved accounts go to the leader of every shard. Its state changes in place,
  also when the message cannot be sent.
\<close>

definition repartition :: "'f floats \<Rightarrow> 'x com_env \<Rightarrow> tick_in \<Rightarrow> (('x, 'f, 'm) clpa_committee_scheme, unit) act" where
  "repartition F E V =
     bindA (getA runner) (\<lambda>p.
     bindA (liftA (CLPAPartition F (t_orders V) (pr_state p))) (\<lambda>(modifiedMap, _, cs).
     let epoch = i64 (supervisorEpoch p + 1)
     in bindA (modA (\<lambda>s. s\<lparr>runner := p\<lparr>pr_state := cs, supervisorEpoch := epoch\<rparr>\<rparr>)) (\<lambda>_.
        bindA (liftA (WrapMsg (ce_codec E) (MCLPARepartitionStart \<lparr>cr_Epoch = epoch, cr_ModifiedMap = modifiedMap\<rparr>))) (\<lambda>w.
        bindA (sendA (GroupBroadcastMessage (GetAllLeaders (ce_resolver E)) w)) (\<lambda>_.
        modA (\<lambda>s. s\<lparr>sl := (sl s)\<lparr>stopCnt := 0\<rparr>, runner := (runner s)\<lparr>epochSynced := False\<rparr>\<rparr>))))))"

text \<open>
  \<open>SendTxsAndConsensus\<close> of both dynamic committees. The comparison of the seconds since the last
  run with the epoch's duration is written over nanoseconds.
\<close>

definition clpa_SendTxsAndConsensus ::
    "'f floats \<Rightarrow> 'x com_env \<Rightarrow> tick_in \<Rightarrow> (('x, 'f, 'm) clpa_committee_scheme, unit) act \<Rightarrow>
     (('x, 'f, 'm) clpa_committee_scheme, unit) act" where
  "clpa_SendTxsAndConsensus F E V readTxsAndSend =
     bindA (getA (\<lambda>s. CheckEpochSyncAndMark (t_now V) (runner s))) (\<lambda>(synced, p).
     bindA (modA (\<lambda>s. s\<lparr>runner := p\<rparr>)) (\<lambda>_.
     if \<not> synced then retA ()
     else if ce_EpochDuration E * 1000000000 < t_now V - lastRunTime p then repartition F E V
     else readTxsAndSend))"

definition mark_shard_epoch :: "int \<Rightarrow> int \<Rightarrow> (('x, 'f, 'm) clpa_committee_scheme, unit) act" where
  "mark_shard_epoch shard epoch =
     bindA (getA (shardEpoch \<circ> runner)) (\<lambda>es.
     bindA (liftA (modify_at es shard (\<lambda>e. max e epoch))) (\<lambda>es'.
     modA (\<lambda>s. s\<lparr>runner := (runner s)\<lparr>shardEpoch := es'\<rparr>\<rparr>)))"

definition add_edges :: "transaction list \<Rightarrow> (('x, 'f, 'm) clpa_committee_scheme, unit) act" where
  "add_edges txs =
     bindA (getA (pr_state \<circ> runner)) (\<lambda>cs.
     bindA (liftA (foldR (\<lambda>cs tx. AddEdge (Sender tx) (Recipient tx) cs) cs txs)) (\<lambda>cs'.
     modA (\<lambda>s. s\<lparr>runner := (runner s)\<lparr>pr_state := cs'\<rparr>\<rparr>)))"

section \<open>CLPA relay\<close>

type_synonym ('x, 'f) CLPARelayCommittee = "('x, 'f) clpa_committee"

definition NewCLPARelayCommittee ::
    "'f floats \<Rightarrow> 'x com_env \<Rightarrow> time \<Rightarrow> 'x result \<Rightarrow> ('x, 'f) CLPARelayCommittee result" where
  "NewCLPARelayCommittee F E now src =
     bindR src (\<lambda>ts.
     bindR (newPartitionRunner F now (ce_ShardNum E)) (\<lambda>p.
     Inr \<lparr>txSource = ts, sl = newStopLogic (ce_ShardNum E), unsentTxNum = ce_TxNumber E, runner = p\<rparr>))"

definition clpa_relay_getTxLoc :: "'f CLPAState \<Rightarrow> transaction \<Rightarrow> int result" where
  "clpa_relay_getTxLoc cs tx = getVertexLocation cs (Sender tx)"

definition clpa_relay_readTxsAndSend :: "'x com_env \<Rightarrow> tick_in \<Rightarrow> (('x, 'f) CLPARelayCommittee, unit) act" where
  "clpa_relay_readTxsAndSend E V =
     bindA (readTxs E V) (\<lambda>txs.
     bindA (getA (pr_state \<circ> runner)) (\<lambda>cs.
     sendTxs E (clpa_relay_getTxLoc cs) txs (int (length txs))))"

definition clpa_relay_SendTxsAndConsensus ::
    "'f floats \<Rightarrow> 'x com_env \<Rightarrow> tick_in \<Rightarrow> (('x, 'f) CLPARelayCommittee, unit) act" where
  "clpa_relay_SendTxsAndConsensus F E V = clpa_SendTxsAndConsensus F E V (clpa_relay_readTxsAndSend E V)"

definition clpa_relay_HandleMsg :: "'x com_env \<Rightarrow> WrappedMsg \<Rightarrow> (('x, 'f) CLPARelayCommittee, unit) act" where
  "clpa_relay_HandleMsg E msg =
     (if MsgType msg \<noteq> ''RelayBlockInfo'' then retA ()
      else bindA (liftA (orErr ''decode relayBlockInfoMsg'' (dec_relay_block_info (ce_codec E) (Payload msg)))) (\<lambda>bInfo.
           if ce_ShardNum E \<le> rb_ShardID bInfo then errA ''shard out of range''
           else
             bindA (mark_shard_epoch (rb_ShardID bInfo) (rb_Epoch bInfo)) (\<lambda>_.
             bindA (modA (count_block (relay_block_empty bInfo))) (\<lambda>_.
             bindA (add_edges (rb_InnerShardTxs bInfo)) (\<lambda>_.
             add_edges (rb_Relay2Txs bInfo))))))"

definition clpa_relay_ShouldStop :: "('x, 'f) CLPARelayCommittee \<Rightarrow> bool" where
  "clpa_relay_ShouldStop s \<longleftrightarrow> threshold_reached s"

end
