(* ===== verification/BrokerCommittee.thy ===== *)
theory BrokerCommittee
  imports Committee
begin

text \<open>
  The two committees that act as brokers (\<open>staticbroker.go\<close>, \<open>clpabroker.go\<close>): a transfer between
  shards becomes two broker transactions, or a relay transaction where no broker can pay.
\<close>

section \<open>Common parts\<close>

text \<open>A transfer inside a shard, or one of a broker's own, is sent as it is.\<close>

definition classify_tx ::
    "(address \<Rightarrow> int result) \<Rightarrow> Manager \<Rightarrow> transaction list \<times> transaction list \<Rightarrow> transaction \<Rightarrow>
     (transaction list \<times> transaction list) result" where
  "classify_tx loc m acc tx =
     (case acc of (innerShardTxs, crossShardTxs) \<Rightarrow>
        bindR (loc (Sender tx)) (\<lambda>senderShard.
        bindR (loc (Recipient tx)) (\<lambda>receiverShard.
        if senderShard = receiverShard \<or> IsBroker m (Sender tx) \<or> IsBroker m (Recipient tx)
        then Inr (innerShardTxs @ [tx], crossShardTxs)
        else Inr (innerShardTxs, crossShardTxs @ [tx]))))"

definition classifyTxs ::
    "(address \<Rightarrow> int result) \<Rightarrow> Manager \<Rightarrow> transaction list \<Rightarrow> (transaction list \<times> transaction list) result" where
  "classifyTxs loc m txs = foldR (classify_tx loc m) ([], []) txs"

definition brokerBlockTxCount :: "BrokerBlockInfoMsg \<Rightarrow> int" where
  "brokerBlockTxCount b =
     int (length (bb_InnerShardTxs b) + length (bb_Broker1Txs b) + length (bb_Broker2Txs b) +
          length (bb_Relay1Txs b) + length (bb_Relay2Txs b))"

section \<open>Static broker\<close>

record 'x StaticBrokerCommittee = "'x committee" +
  bManager :: Manager
  brokerBalances :: "(address, int list) gomap"
  pendingDeductions :: "(address, int list) gomap"

definition NewStaticBrokerCommittee :: "'x com_env \<Rightarrow> 'x result \<Rightarrow> Manager result \<Rightarrow> 'x StaticBrokerCommittee result" where
  "NewStaticBrokerCommittee E src bm =
     bindR src (\<lambda>ts.
     bindR bm (\<lambda>bs.
     if brokers bs \<noteq> [] \<and> ce_ShardNum E < 0 then Inl (Panic ''makeslice: len out of range'')
     else
       let filled = (\<lambda>v. fold (\<lambda>b. AList.update b (replicate (nat (ce_ShardNum E)) v)) (brokers bs) [])
       in Inr \<lparr>txSource = ts, sl = newStopLogic (ce_ShardNum E), unsentTxNum = ce_TxNumber E,
               bManager = bs, brokerBalances = filled BrokerInitBalance, pendingDeductions = filled 0\<rparr>))"

text \<open>Reading and changing the amount of a broker in a shard.\<close>

definition amount_at :: "(address, int list) gomap \<Rightarrow> address \<Rightarrow> int \<Rightarrow> int result" where
  "amount_at m b shard = index (get_or [] m b) shard"

definition change_at ::
    "(address, int list) gomap \<Rightarrow> address \<Rightarrow> int \<Rightarrow> (int \<Rightarrow> int) \<Rightarrow> (address, int list) gomap result" where
  "change_at m b shard g = bindR (modify_at (get_or [] m b) shard g) (\<lambda>l. Inr (AList.update b l m))"

text \<open>A confirmed first half pays the broker in the sender's shard.\<close>

definition confirm_broker1 :: "int \<Rightarrow> transaction \<Rightarrow> ('x StaticBrokerCommittee, unit) act" where
  "confirm_broker1 shard tx = (\<lambda>s.
     case ConfirmBrokerTx tx (bManager s) of
       (Inl e, m) \<Rightarrow> (Inr (), s\<lparr>bManager := m\<rparr>, [])
     | (Inr _, m) \<Rightarrow>
         (case change_at (brokerBalances s) (Broker tx) shard (\<lambda>x. x + Value tx) of
            Inl e \<Rightarrow> (Inl e, s\<lparr>bManager := m\<rparr>, [])
          | Inr bal \<Rightarrow> (Inr (), s\<lparr>bManager := m, brokerBalances := bal\<rparr>, [])))"

text \<open>A confirmed second half is paid by the broker in the recipient's shard.\<close>

definition confirm_broker2 :: "int \<Rightarrow> transaction \<Rightarrow> ('x StaticBrokerCommittee, unit) act" where
  "confirm_broker2 shard tx = (\<lambda>s.
     case ConfirmBrokerTx tx (bManager s) of
       (Inl e, m) \<Rightarrow> (Inr (), s\<lparr>bManager := m\<rparr>, [])
     | (Inr _, m) \<Rightarrow>
         (case change_at (brokerBalances s) (Broker tx) shard (\<lambda>x. x - Value tx) of
            Inl e \<Rightarrow> (Inl e, s\<lparr>bManager := m\<rparr>, [])
          | Inr bal \<Rightarrow>
              (case change_at (pendingDeductions s) (Broker tx) shard (\<lambda>x. max 0 (x - Value tx)) of
                 Inl e \<Rightarrow> (Inl e, s\<lparr>bManager := m, brokerBalances := bal\<rparr>, [])
               | Inr pend \<Rightarrow> (Inr (), s\<lparr>bManager := m, brokerBalances := bal, pendingDeductions := pend\<rparr>, []))))"

definition static_broker_HandleMsg :: "'x com_env \<Rightarrow> WrappedMsg \<Rightarrow> ('x StaticBrokerCommittee, unit) act" where
  "static_broker_HandleMsg E msg =
     (if MsgType msg \<noteq> ''BrokerBlockInfo'' then retA ()
      else bindA (liftA (orErr ''decode relayBlockInfoMsg'' (dec_broker_block_info (ce_codec E) (Payload msg)))) (\<lambda>bInfo.
           bindA (modA (count_block (brokerBlockTxCount bInfo = 0))) (\<lambda>_.
           bindA (forA (confirm_broker1 (bb_ShardID bInfo)) (bb_Broker1Txs bInfo)) (\<lambda>_.
           forA (confirm_broker2 (bb_ShardID bInfo)) (bb_Broker2Txs bInfo)))))"

definition static_broker_ShouldStop :: "'x StaticBrokerCommittee \<Rightarrow> bool" where
  "static_broker_ShouldStop s \<longleftrightarrow> threshold_reached s \<and> IsFinished (bManager s)"

text \<open>
  The search for a broker that can pay in the recipient's shard. The deduction is noted before
  the raw transaction is created; when that fails, the search goes on and the note stays.
\<close>

fun find_broker :: "lib \<Rightarrow> transaction \<Rightarrow> int \<Rightarrow> address list \<Rightarrow> ('x StaticBrokerCommittee, bool) act" where
  "find_broker L tx recipientShard [] = retA False"
| "find_broker L tx recipientShard (b # bs) = (\<lambda>s.
     case bindR (amount_at (brokerBalances s) b recipientShard) (\<lambda>balance.
          bindR (amount_at (pendingDeductions s) b recipientShard) (\<lambda>pending. Inr (balance - pending))) of
       Inl e \<Rightarrow> (Inl e, s, [])
     | Inr available \<Rightarrow>
         (if available < Value tx then find_broker L tx recipientShard bs s
          else case change_at (pendingDeductions s) b recipientShard (\<lambda>x. x + Value tx) of
            Inl e \<Rightarrow> (Inl e, s, [])
          | Inr pend \<Rightarrow>
              (case CreateRawTx L tx b (bManager s) of
                 (Inl e, m) \<Rightarrow> find_broker L tx recipientShard bs (s\<lparr>bManager := m, pendingDeductions := pend\<rparr>)
               | (Inr _, m) \<Rightarrow> (Inr True, s\<lparr>bManager := m, pendingDeductions := pend\<rparr>, []))))"

text \<open>A transfer for which no broker was found falls back to a relay transaction.\<close>

definition to_relay :: "lib \<Rightarrow> transaction \<Rightarrow> transaction" where
  "to_relay L tx =
     tx\<lparr>RelayStage := Relay1Tx, ROriginalHash := (case tx_Hash L tx of Inl _ \<Rightarrow> [] | Inr th \<Rightarrow> th)\<rparr>"

definition assign_broker ::
    "'x com_env \<Rightarrow> tick_in \<Rightarrow> transaction list \<Rightarrow> nat \<times> transaction \<Rightarrow> ('x StaticBrokerCommittee, transaction list) act" where
  "assign_broker E V relayTxs it =
     (case it of (k, tx) \<Rightarrow>
        bindA (liftA (DefaultAccountLoc (Sender tx) (ce_ShardNum E))) (\<lambda>_.
        bindA (liftA (DefaultAccountLoc (Recipient tx) (ce_ShardNum E))) (\<lambda>recipientShard.
        bindA (getA (\<lambda>s. t_shuffle V k (brokers (bManager s)))) (\<lambda>shuffledBrokers.
        bindA (find_broker (ce_lib E) tx recipientShard shuffledBrokers) (\<lambda>foundBroker.
        retA (if foundBroker then relayTxs else relayTxs @ [to_relay (ce_lib E) tx]))))))"

definition CreateBrokerTxsA :: "tick_in \<Rightarrow> ('x StaticBrokerCommittee, transaction list \<times> transaction list) act" where
  "CreateBrokerTxsA V = (\<lambda>s. case CreateBrokerTxs (t_now V) (bManager s) of (bs, m) \<Rightarrow> (Inr bs, s\<lparr>bManager := m\<rparr>, []))"

definition static_broker_getTxLoc :: "'x com_env \<Rightarrow> transaction \<Rightarrow> int result" where
  "static_broker_getTxLoc E tx =
     (if TxType tx = NormalTxType \<or> TxType tx = RelayTxType \<and> RelayStage tx = Relay1Tx
      then DefaultAccountLoc (Sender tx) (ce_ShardNum E)
      else if TxType tx = RelayTxType \<and> RelayStage tx = Relay2Tx
      then DefaultAccountLoc (Recipient tx) (ce_ShardNum E)
      else if BrokerStage tx = Sigma1BrokerStage then DefaultAccountLoc (Sender tx) (ce_ShardNum E)
      else DefaultAccountLoc (Recipient tx) (ce_ShardNum E))"

definition static_broker_SendTxsAndConsensus :: "'x com_env \<Rightarrow> tick_in \<Rightarrow> ('x StaticBrokerCommittee, unit) act" where
  "static_broker_SendTxsAndConsensus E V =
     bindA (readTxs E V) (\<lambda>txs.
     bindA (getA bManager) (\<lambda>m.
     bindA (liftA (classifyTxs (\<lambda>a. DefaultAccountLoc a (ce_ShardNum E)) m txs)) (\<lambda>(innerTxs, crossTxs).
     bindA (foldA (assign_broker E V) [] (enumerate 0 crossTxs)) (\<lambda>relayTxs.
     bindA (CreateBrokerTxsA V) (\<lambda>(b1Txs, b2Txs).
     sendTxs E (static_broker_getTxLoc E) (innerTxs @ (relayTxs @ (b1Txs @ b2Txs))) (int (length txs)))))))"

section \<open>CLPA broker\<close>

record ('x, 'f) CLPABrokerCommittee = "('x, 'f) clpa_committee" +
  cb_Manager :: Manager

definition NewCLPABrokerCommittee ::
    "'f floats \<Rightarrow> 'x com_env \<Rightarrow> time \<Rightarrow> 'x result \<Rightarrow> Manager result \<Rightarrow> ('x, 'f) CLPABrokerCommittee result" where
  "NewCLPABrokerCommittee F E now src bm =
     bindR src (\<lambda>ts.
     bindR bm (\<lambda>bs.
     bindR (newPartitionRunner F now (ce_ShardNum E)) (\<lambda>p.
     Inr \<lparr>txSource = ts, sl = newStopLogic (ce_ShardNum E), unsentTxNum = ce_TxNumber E, runner = p,
          cb_Manager = bs\<rparr>)))"

definition clpa_broker_getTxLoc :: "'f CLPAState \<Rightarrow> transaction \<Rightarrow> int result" where
  "clpa_broker_getTxLoc cs tx =
     (if TxType tx = NormalTxType then getVertexLocation cs (Sender tx)
      else if BrokerStage tx = Sigma1BrokerStage then getVertexLocation cs (Sender tx)
      else getVertexLocation cs (Recipient tx))"

text \<open>The raw transactions of the transfers; an error is logged, a panic is not caught.\<close>

definition createRawTxsA ::
    "'x com_env \<Rightarrow> tick_in \<Rightarrow> transaction list \<Rightarrow> (('x, 'f) CLPABrokerCommittee, unit) act" where
  "createRawTxsA E V txs =
     logA (\<lambda>s. case CreateRawTxsRandomBroker (ce_lib E) (zip txs (t_picks V @ replicate (length txs) 0)) (cb_Manager s) of
       (r, m) \<Rightarrow> (bindR r (\<lambda>_. Inr ()), s\<lparr>cb_Manager := m\<rparr>, []))"

definition clpa_broker_readTxsAndSend :: "'x com_env \<Rightarrow> tick_in \<Rightarrow> (('x, 'f) CLPABrokerCommittee, unit) act" where
  "clpa_broker_readTxsAndSend E V =
     bindA (readTxs E V) (\<lambda>txs.
     bindA (getA (\<lambda>s. (pr_state (runner s), cb_Manager s))) (\<lambda>(cs, m).
     bindA (liftA (classifyTxs (getVertexLocation cs) m txs)) (\<lambda>(innerTxs, crossTxs).
     bindA (createRawTxsA E V crossTxs) (\<lambda>_.
     bindA (\<lambda>s. case CreateBrokerTxs (t_now V) (cb_Manager s) of (bs, m) \<Rightarrow> (Inr bs, s\<lparr>cb_Manager := m\<rparr>, []))
       (\<lambda>(b1Txs, b2Txs).
     sendTxs E (clpa_broker_getTxLoc cs) (innerTxs @ (b1Txs @ b2Txs)) (int (length txs)))))))"

definition clpa_broker_SendTxsAndConsensus ::
    "'f floats \<Rightarrow> 'x com_env \<Rightarrow> tick_in \<Rightarrow> (('x, 'f) CLPABrokerCommittee, unit) act" where
  "clpa_broker_SendTxsAndConsensus F E V = clpa_SendTxsAndConsensus F E V (clpa_broker_readTxsAndSend E V)"

definition confirmA :: "transaction \<Rightarrow> (('x, 'f) CLPABrokerCommittee, unit) act" where
  "confirmA tx = (\<lambda>s. case ConfirmBrokerTx tx (cb_Manager s) of (_, m) \<Rightarrow> (Inr (), s\<lparr>cb_Manager := m\<rparr>, []))"

definition handleBlockInfoMsg :: "'x com_env \<Rightarrow> BrokerBlockInfoMsg \<Rightarrow> (('x, 'f) CLPABrokerCommittee, unit) act" where
  "handleBlockInfoMsg E bInfo =
     (if ce_ShardNum E \<le> bb_ShardID bInfo then retA ()
      else
        bindA (mark_shard_epoch (bb_ShardID bInfo) (bb_Epoch bInfo)) (\<lambda>_.
        bindA (getA unsentTxNum) (\<lambda>unsent.
        let none = (length (bb_InnerShardTxs bInfo) + length (bb_Broker1Txs bInfo) + length (bb_Broker2Txs bInfo) = 0)
        in bindA (modA (count_block none)) (\<lambda>_.
           if unsent \<le> 0 \<and> none then retA ()
           else
             bindA (add_edges (bb_InnerShardTxs bInfo)) (\<lambda>_.
             bindA (add_edges (bb_Broker2Txs bInfo)) (\<lambda>_.
             bindA (forA confirmA (bb_Broker1Txs bInfo)) (\<lambda>_.
             forA confirmA (bb_Broker2Txs bInfo))))))))"

definition handleTxSendAgainMsg ::
    "'x com_env \<Rightarrow> tick_in \<Rightarrow> transaction list \<Rightarrow> (('x, 'f) CLPABrokerCommittee, unit) act" where
  "handleTxSendAgainMsg E V txs = createRawTxsA E V txs"

definition clpa_broker_HandleMsg ::
    "'x com_env \<Rightarrow> tick_in \<Rightarrow> WrappedMsg \<Rightarrow> (('x, 'f) CLPABrokerCommittee, unit) act" where
  "clpa_broker_HandleMsg E V msg =
     (if MsgType msg = ''BrokerBlockInfo'' then
        bindA (liftA (orErr ''decode relayBlockInfoMsg failed'' (dec_broker_block_info (ce_codec E) (Payload msg))))
          (handleBlockInfoMsg E)
      else if MsgType msg = ''BrokerCLPATxSendAgain'' then
        bindA (liftA (orErr ''decode relayBlockInfoMsg failed'' (dec_tx_send_again (ce_codec E) (Payload msg))))
          (handleTxSendAgainMsg E V)
      else retA ())"

definition clpa_broker_ShouldStop :: "('x, 'f) CLPABrokerCommittee \<Rightarrow> bool" where
  "clpa_broker_ShouldStop s \<longleftrightarrow> threshold_reached s"

end
