(* ===== verification/Measure.thy ===== *)
theory Measure
  imports Message Partition
begin

text \<open>
  The measures of the supervisor (\<open>supervisor/measure\<close>): counts and latencies per epoch, and one
  line of the detail file per finished transaction. A CSV file is its list of lines; the format of
  a time, floating-point arithmetic and the format \<open>%.2f\<close> are arguments.
\<close>

section \<open>Common parts\<close>

text \<open>\<open>time.Time.Sub\<close> saturates.\<close>

definition time_sub :: "time \<Rightarrow> time \<Rightarrow> int" where
  "time_sub t u = max (- (2 ^ 63)) (min (2 ^ 63 - 1) (t - u))"

text \<open>\<open>m[k] += v\<close> on an \<open>int\<close> or a \<open>time.Duration\<close>.\<close>

definition add_to :: "int \<Rightarrow> int \<Rightarrow> (int, int) gomap \<Rightarrow> (int, int) gomap" where
  "add_to k v m = AList.update k (i64 (get_or 0 m k + v)) m"

definition earlier :: "int \<Rightarrow> time \<Rightarrow> (int, time) gomap \<Rightarrow> (int, time) gomap" where
  "earlier k t m = (case map_of m k of
     Some start \<Rightarrow> if t < start then AList.update k t m else m
   | None \<Rightarrow> AList.update k t m)"

definition later :: "int \<Rightarrow> time \<Rightarrow> (int, time) gomap \<Rightarrow> (int, time) gomap" where
  "later k t m = (case map_of m k of
     Some end' \<Rightarrow> if end' < t then AList.update k t m else m
   | None \<Rightarrow> AList.update k t m)"

definition ConvertTime2Str :: "(time \<Rightarrow> string) \<Rightarrow> time \<Rightarrow> string" where
  "ConvertTime2Str fmt t = (if t = zero_time then [] else fmt t)"

definition show_bool :: "bool \<Rightarrow> string" where
  "show_bool b = (if b then ''true'' else ''false'')"

record measure_env =
  m_lib :: lib
  m_codec :: codec
  m_RFC3339 :: "time \<Rightarrow> string"

section \<open>Relay\<close>

record relayLifeCycle =
  rl_originalTxCreateTime :: time
  rl_originalTxCommitTime :: time
  rl_innerShardTxBlockProposeTime :: time
  rl_relay1BlockProposeTime :: time
  rl_relay2BlockProposeTime :: time
  rl_relay1CommitTime :: time
  rl_relay2CommitTime :: time
  rl_isCrossShardTx :: bool

record RelayStats =
  relay1TCLSum :: "(int, int) gomap"
  relay2TCLSum :: "(int, int) gomap"
  rs_innerShardTCLSum :: "(int, int) gomap"
  rs_innerShardTxNum :: "(int, int) gomap"
  relay1TxNum :: "(int, int) gomap"
  relay2TxNum :: "(int, int) gomap"
  rs_epochStartTime :: "(int, time) gomap"
  rs_epochEndTime :: "(int, time) gomap"
  rs_txLifecycles :: "(bytes, relayLifeCycle) gomap"
  rs_rows :: "string list list"

definition NewRelayStats :: "unit result \<Rightarrow> RelayStats result" where
  "NewRelayStats cs = bindR cs (\<lambda>_. Inr
     \<lparr>relay1TCLSum = [], relay2TCLSum = [], rs_innerShardTCLSum = [], rs_innerShardTxNum = [],
      relay1TxNum = [], relay2TxNum = [], rs_epochStartTime = [], rs_epochEndTime = [],
      rs_txLifecycles = [], rs_rows = []\<rparr>)"

definition new_relay_lifecycle :: "transaction \<Rightarrow> relayLifeCycle" where
  "new_relay_lifecycle tx =
     \<lparr>rl_originalTxCreateTime = CreateTime tx, rl_originalTxCommitTime = zero_time,
      rl_innerShardTxBlockProposeTime = zero_time, rl_relay1BlockProposeTime = zero_time,
      rl_relay2BlockProposeTime = zero_time, rl_relay1CommitTime = zero_time,
      rl_relay2CommitTime = zero_time, rl_isCrossShardTx = True\<rparr>"

definition relay_row :: "measure_env \<Rightarrow> bytes \<Rightarrow> relayLifeCycle \<Rightarrow> string list" where
  "relay_row V txHash lc =
     [EncodeToString txHash,
      ConvertTime2Str (m_RFC3339 V) (rl_originalTxCreateTime lc),
      ConvertTime2Str (m_RFC3339 V) (rl_originalTxCommitTime lc),
      show_bool (rl_isCrossShardTx lc),
      ConvertTime2Str (m_RFC3339 V) (rl_innerShardTxBlockProposeTime lc),
      ConvertTime2Str (m_RFC3339 V) (rl_relay1BlockProposeTime lc),
      ConvertTime2Str (m_RFC3339 V) (rl_relay1CommitTime lc),
      ConvertTime2Str (m_RFC3339 V) (rl_relay2BlockProposeTime lc),
      ConvertTime2Str (m_RFC3339 V) (rl_relay2CommitTime lc)]"

text \<open>\<open>writeTxInfo\<close>. The file is taken to accept the line; every caller only logs its error.\<close>

definition relay_writeTxInfo :: "measure_env \<Rightarrow> bytes \<Rightarrow> relayLifeCycle \<Rightarrow> RelayStats \<Rightarrow> RelayStats" where
  "relay_writeTxInfo V txHash lc r =
     r\<lparr>rs_rows := rs_rows r @ [relay_row V txHash lc]\<rparr>"

definition updateRelayTxTCLByTxLifecycle :: "relayLifeCycle \<Rightarrow> int \<Rightarrow> RelayStats \<Rightarrow> RelayStats" where
  "updateRelayTxTCLByTxLifecycle lc epochID r =
     r\<lparr>relay1TCLSum := add_to epochID (time_sub (rl_relay1CommitTime lc) (rl_originalTxCreateTime lc)) (relay1TCLSum r),
       relay2TCLSum := add_to epochID (time_sub (rl_relay2CommitTime lc) (rl_relay1CommitTime lc)) (relay2TCLSum r)\<rparr>"

definition relay_inner :: "measure_env \<Rightarrow> RelayBlockInfoMsg \<Rightarrow> transaction \<Rightarrow> RelayStats \<Rightarrow> RelayStats" where
  "relay_inner V b tx r =
     (case tx_Hash (m_lib V) tx of
        Inl _ \<Rightarrow> r
      | Inr th \<Rightarrow>
          let lc = (new_relay_lifecycle tx)
                \<lparr>rl_innerShardTxBlockProposeTime := rb_BlockProposeTime b,
                 rl_originalTxCommitTime := rb_BlockCommitTime b, rl_isCrossShardTx := False\<rparr>;
              r1 = r\<lparr>rs_innerShardTCLSum :=
                     add_to (rb_Epoch b) (time_sub (rb_BlockCommitTime b) (CreateTime tx)) (rs_innerShardTCLSum r)\<rparr>
          in (relay_writeTxInfo V th lc r1)\<lparr>rs_txLifecycles := AList.delete th (rs_txLifecycles r)\<rparr>)"

text \<open>A lifecycle whose other half is known is complete: it is counted, written and forgotten.\<close>

definition relay_stage ::
    "measure_env \<Rightarrow> int \<Rightarrow> (relayLifeCycle \<Rightarrow> relayLifeCycle) \<Rightarrow> transaction \<Rightarrow> RelayStats \<Rightarrow> RelayStats" where
  "relay_stage V epochID upd tx r =
     (let h = ROriginalHash tx
      in case map_of (rs_txLifecycles r) h of
           None \<Rightarrow> r\<lparr>rs_txLifecycles := AList.update h (upd (new_relay_lifecycle tx)) (rs_txLifecycles r)\<rparr>
         | Some lc \<Rightarrow>
             (relay_writeTxInfo V h (upd lc) (updateRelayTxTCLByTxLifecycle (upd lc) epochID r))
               \<lparr>rs_txLifecycles := AList.delete h (rs_txLifecycles r)\<rparr>)"

definition set_relay1 :: "RelayBlockInfoMsg \<Rightarrow> relayLifeCycle \<Rightarrow> relayLifeCycle" where
  "set_relay1 b lc = lc\<lparr>rl_relay1BlockProposeTime := rb_BlockProposeTime b, rl_relay1CommitTime := rb_BlockCommitTime b\<rparr>"

definition set_relay2 :: "RelayBlockInfoMsg \<Rightarrow> relayLifeCycle \<Rightarrow> relayLifeCycle" where
  "set_relay2 b lc = lc\<lparr>rl_originalTxCommitTime := rb_BlockCommitTime b,
     rl_relay2BlockProposeTime := rb_BlockProposeTime b, rl_relay2CommitTime := rb_BlockCommitTime b\<rparr>"

definition relay_block :: "measure_env \<Rightarrow> RelayBlockInfoMsg \<Rightarrow> RelayStats \<Rightarrow> RelayStats" where
  "relay_block V b r =
     (let epochID = rb_Epoch b;
          r1 = r\<lparr>rs_epochStartTime := earlier epochID (rb_BlockProposeTime b) (rs_epochStartTime r),
                 rs_epochEndTime := later epochID (rb_BlockCommitTime b) (rs_epochEndTime r),
                 relay1TxNum := add_to epochID (int (length (rb_Relay1Txs b))) (relay1TxNum r),
                 relay2TxNum := add_to epochID (int (length (rb_Relay2Txs b))) (relay2TxNum r),
                 rs_innerShardTxNum := add_to epochID (int (length (rb_InnerShardTxs b))) (rs_innerShardTxNum r)\<rparr>;
          r2 = fold (relay_inner V b) (rb_InnerShardTxs b) r1;
          r3 = fold (relay_stage V epochID (set_relay1 b)) (rb_Relay1Txs b) r2
      in fold (relay_stage V epochID (set_relay2 b)) (rb_Relay2Txs b) r3)"

definition relay_UpdateMeasureRecord :: "measure_env \<Rightarrow> WrappedMsg \<Rightarrow> RelayStats \<Rightarrow> unit result \<times> RelayStats" where
  "relay_UpdateMeasureRecord V msg r =
     (if MsgType msg \<noteq> ''RelayBlockInfo'' then (Inr (), r)
      else case dec_relay_block_info (m_codec V) (Payload msg) of
        None \<Rightarrow> (Inl (Errorf ''decode relayBlockInfoMsg''), r)
      | Some b \<Rightarrow> (Inr (), relay_block V b r))"

text \<open>\<open>time.Duration.Seconds\<close>.\<close>

definition seconds :: "'f floats \<Rightarrow> int \<Rightarrow> 'f" where
  "seconds F d = f_add F (f_of_int F (quot d 1000000000))
     (f_div F (f_of_int F (d - 1000000000 * quot d 1000000000)) (f_of_int F 1000000000))"

definition relay_brief_header :: "string list" where
  "relay_brief_header =
     [''EpochID'', ''Total tx # in this epoch'', ''Inner-shard tx # in this epoch'',
      ''Relay1 tx # in this epoch'', ''Relay2 tx # in this epoch'', ''Epoch start time'',
      ''Epoch end time'', ''Avg. TPS of this epoch (txs per second)'', ''CTX ratio of this epoch'',
      ''Avg. TCL of this epoch (nanosecond)'', ''Avg. inner-shard TCL of this epoch (nanosecond)'',
      ''Avg. relay1 TCL of this epoch (nanosecond)'', ''Avg. relay2 TCL of this epoch (nanosecond)'']"

definition relay_brief_row ::
    "'f floats \<Rightarrow> ('f \<Rightarrow> string) \<Rightarrow> measure_env \<Rightarrow> RelayStats \<Rightarrow> int \<Rightarrow> string list" where
  "relay_brief_row F fmt2 V r epochID =
     (let start = get_or zero_time (rs_epochStartTime r) epochID;
          finish = get_or zero_time (rs_epochEndTime r) epochID;
          inner = get_or 0 (rs_innerShardTxNum r) epochID;
          r1 = get_or 0 (relay1TxNum r) epochID; r2 = get_or 0 (relay2TxNum r) epochID;
          epochDuration = seconds F (time_sub finish start);
          ctxCnt = f_div F (f_of_int F (i64 (r1 + r2))) (f_of_int F 2);
          totalTxCnt = f_add F (f_of_int F inner) ctxCnt;
          relay1TCL = f_of_int F (get_or 0 (relay1TCLSum r) epochID);
          relay2TCL = f_of_int F (get_or 0 (relay2TCLSum r) epochID);
          innerShardTCL = f_of_int F (get_or 0 (rs_innerShardTCLSum r) epochID);
          totalTCL = f_add F (f_add F relay1TCL relay2TCL) innerShardTCL
      in [show_int epochID, fmt2 totalTxCnt, show_int inner, show_int r1, show_int r2,
          m_RFC3339 V start, m_RFC3339 V finish,
          fmt2 (f_div F totalTxCnt epochDuration), fmt2 (f_div F ctxCnt totalTxCnt),
          fmt2 (f_div F totalTCL totalTxCnt), fmt2 (f_div F innerShardTCL (f_of_int F inner)),
          fmt2 (f_div F relay1TCL (f_of_int F r1)), fmt2 (f_div F relay2TCL (f_of_int F r2))])"

text \<open>\<open>OutputResultAndClose\<close>: the lines of the brief file, given the result of creating it.\<close>

definition relay_OutputResultAndClose ::
    "'f floats \<Rightarrow> ('f \<Rightarrow> string) \<Rightarrow> measure_env \<Rightarrow> unit result \<Rightarrow> RelayStats \<Rightarrow> string list list result" where
  "relay_OutputResultAndClose F fmt2 V file r =
     bindR file (\<lambda>_. Inr (relay_brief_header #
       map (relay_brief_row F fmt2 V r) (sort (keys_of (rs_epochStartTime r)))))"

section \<open>Broker\<close>

record brokerLifeCycle =
  bl_originalTxCreateTime :: time
  bl_originalTxCommitTime :: time
  bl_innerShardTxBlockProposeTime :: time
  bl_broker1TxCreateTime :: time
  bl_broker2TxCreateTime :: time
  bl_broker1BlockProposeTime :: time
  bl_broker2BlockProposeTime :: time
  bl_broker1CommitTime :: time
  bl_broker2CommitTime :: time
  bl_isBrokerTx :: bool
  bl_mechanism :: string

record BrokerStats =
  broker1TCLSum :: "(int, int) gomap"
  broker2TCLSum :: "(int, int) gomap"
  bs_innerShardTCLSum :: "(int, int) gomap"
  relayFallbackTCLSum :: "(int, int) gomap"
  bs_innerShardTxNum :: "(int, int) gomap"
  broker1TxNum :: "(int, int) gomap"
  broker2TxNum :: "(int, int) gomap"
  relayFallbackTxNum :: "(int, int) gomap"
  bs_epochStartTime :: "(int, time) gomap"
  bs_epochEndTime :: "(int, time) gomap"
  bs_txLifecycles :: "(bytes, brokerLifeCycle) gomap"
  bs_rows :: "string list list"

definition NewBrokerStats :: "unit result \<Rightarrow> BrokerStats result" where
  "NewBrokerStats cs = bindR cs (\<lambda>_. Inr
     \<lparr>broker1TCLSum = [], broker2TCLSum = [], bs_innerShardTCLSum = [], relayFallbackTCLSum = [],
      bs_innerShardTxNum = [], broker1TxNum = [], broker2TxNum = [], relayFallbackTxNum = [],
      bs_epochStartTime = [], bs_epochEndTime = [], bs_txLifecycles = [], bs_rows = []\<rparr>)"

definition zero_brokerLifeCycle :: brokerLifeCycle where
  "zero_brokerLifeCycle =
     \<lparr>bl_originalTxCreateTime = zero_time, bl_originalTxCommitTime = zero_time,
      bl_innerShardTxBlockProposeTime = zero_time, bl_broker1TxCreateTime = zero_time,
      bl_broker2TxCreateTime = zero_time, bl_broker1BlockProposeTime = zero_time,
      bl_broker2BlockProposeTime = zero_time, bl_broker1CommitTime = zero_time,
      bl_broker2CommitTime = zero_time, bl_isBrokerTx = False, bl_mechanism = []\<rparr>"

definition new_broker_lifecycle :: "transaction \<Rightarrow> brokerLifeCycle" where
  "new_broker_lifecycle tx = zero_brokerLifeCycle
     \<lparr>bl_originalTxCreateTime := OriginalTxCreateTime tx, bl_isBrokerTx := True, bl_mechanism := ''Broker''\<rparr>"

text \<open>The lifecycle of a transaction that one block finishes.\<close>

definition direct_lifecycle :: "BrokerBlockInfoMsg \<Rightarrow> transaction \<Rightarrow> string \<Rightarrow> brokerLifeCycle" where
  "direct_lifecycle b tx mech = zero_brokerLifeCycle
     \<lparr>bl_originalTxCreateTime := CreateTime tx, bl_originalTxCommitTime := bb_BlockCommitTime b,
      bl_innerShardTxBlockProposeTime := bb_BlockProposeTime b, bl_mechanism := mech\<rparr>"

definition broker_row :: "measure_env \<Rightarrow> bytes \<Rightarrow> brokerLifeCycle \<Rightarrow> string list" where
  "broker_row V txHash lc =
     [EncodeToString txHash, bl_mechanism lc,
      ConvertTime2Str (m_RFC3339 V) (bl_originalTxCreateTime lc),
      ConvertTime2Str (m_RFC3339 V) (bl_originalTxCommitTime lc),
      show_bool (bl_isBrokerTx lc),
      ConvertTime2Str (m_RFC3339 V) (bl_innerShardTxBlockProposeTime lc),
      ConvertTime2Str (m_RFC3339 V) (bl_broker1TxCreateTime lc),
      ConvertTime2Str (m_RFC3339 V) (bl_broker1BlockProposeTime lc),
      ConvertTime2Str (m_RFC3339 V) (bl_broker1CommitTime lc),
      ConvertTime2Str (m_RFC3339 V) (bl_broker2TxCreateTime lc),
      ConvertTime2Str (m_RFC3339 V) (bl_broker2BlockProposeTime lc),
      ConvertTime2Str (m_RFC3339 V) (bl_broker2CommitTime lc)]"

definition broker_writeTxInfo :: "measure_env \<Rightarrow> bytes \<Rightarrow> brokerLifeCycle \<Rightarrow> BrokerStats \<Rightarrow> BrokerStats" where
  "broker_writeTxInfo V txHash lc b = b\<lparr>bs_rows := bs_rows b @ [broker_row V txHash lc]\<rparr>"

definition broker_inner :: "measure_env \<Rightarrow> BrokerBlockInfoMsg \<Rightarrow> transaction \<Rightarrow> BrokerStats \<Rightarrow> BrokerStats" where
  "broker_inner V b tx s =
     (case tx_Hash (m_lib V) tx of
        Inl _ \<Rightarrow> s
      | Inr th \<Rightarrow> broker_writeTxInfo V th (direct_lifecycle b tx ''InnerShard'')
          (s\<lparr>bs_innerShardTCLSum :=
               add_to (bb_Epoch b) (time_sub (bb_BlockCommitTime b) (CreateTime tx)) (bs_innerShardTCLSum s)\<rparr>))"

definition broker_fallback :: "measure_env \<Rightarrow> BrokerBlockInfoMsg \<Rightarrow> transaction \<Rightarrow> BrokerStats \<Rightarrow> BrokerStats" where
  "broker_fallback V b tx s =
     (case tx_Hash (m_lib V) tx of
        Inl _ \<Rightarrow> s
      | Inr th \<Rightarrow>
          broker_writeTxInfo V (if ROriginalHash tx \<noteq> [] then ROriginalHash tx else th)
            (direct_lifecycle b tx ''FallbackToRelay'')
            (s\<lparr>relayFallbackTCLSum :=
                 add_to (bb_Epoch b) (time_sub (bb_BlockCommitTime b) (CreateTime tx)) (relayFallbackTCLSum s)\<rparr>))"

definition broker_stage ::
    "measure_env \<Rightarrow> (brokerLifeCycle \<Rightarrow> brokerLifeCycle) \<Rightarrow> transaction \<Rightarrow> BrokerStats \<Rightarrow> BrokerStats" where
  "broker_stage V upd tx s =
     (let h = BOriginalHash tx
      in case map_of (bs_txLifecycles s) h of
           None \<Rightarrow> s\<lparr>bs_txLifecycles := AList.update h (upd (new_broker_lifecycle tx)) (bs_txLifecycles s)\<rparr>
         | Some lc \<Rightarrow> (broker_writeTxInfo V h (upd lc) s)\<lparr>bs_txLifecycles := AList.delete h (bs_txLifecycles s)\<rparr>)"

definition set_broker1 :: "BrokerBlockInfoMsg \<Rightarrow> transaction \<Rightarrow> brokerLifeCycle \<Rightarrow> brokerLifeCycle" where
  "set_broker1 b tx lc = lc\<lparr>bl_broker1TxCreateTime := CreateTime tx,
     bl_broker1BlockProposeTime := bb_BlockProposeTime b, bl_broker1CommitTime := bb_BlockCommitTime b\<rparr>"

definition set_broker2 :: "BrokerBlockInfoMsg \<Rightarrow> transaction \<Rightarrow> brokerLifeCycle \<Rightarrow> brokerLifeCycle" where
  "set_broker2 b tx lc = lc\<lparr>bl_originalTxCommitTime := bb_BlockCommitTime b, bl_broker2TxCreateTime := CreateTime tx,
     bl_broker2BlockProposeTime := bb_BlockProposeTime b, bl_broker2CommitTime := bb_BlockCommitTime b\<rparr>"

definition broker_first :: "measure_env \<Rightarrow> BrokerBlockInfoMsg \<Rightarrow> transaction \<Rightarrow> BrokerStats \<Rightarrow> BrokerStats" where
  "broker_first V b tx s = broker_stage V (set_broker1 b tx) tx
     (s\<lparr>broker1TCLSum := add_to (bb_Epoch b) (time_sub (bb_BlockCommitTime b) (CreateTime tx)) (broker1TCLSum s)\<rparr>)"

definition broker_second :: "measure_env \<Rightarrow> BrokerBlockInfoMsg \<Rightarrow> transaction \<Rightarrow> BrokerStats \<Rightarrow> BrokerStats" where
  "broker_second V b tx s = broker_stage V (set_broker2 b tx) tx
     (s\<lparr>broker2TCLSum := add_to (bb_Epoch b) (time_sub (bb_BlockCommitTime b) (CreateTime tx)) (broker2TCLSum s)\<rparr>)"

definition broker_block :: "measure_env \<Rightarrow> BrokerBlockInfoMsg \<Rightarrow> BrokerStats \<Rightarrow> BrokerStats" where
  "broker_block V b s =
     (let epochID = bb_Epoch b;
          s1 = s\<lparr>bs_innerShardTxNum := add_to epochID (int (length (bb_InnerShardTxs b))) (bs_innerShardTxNum s),
                 broker1TxNum := add_to epochID (int (length (bb_Broker1Txs b))) (broker1TxNum s),
                 broker2TxNum := add_to epochID (int (length (bb_Broker2Txs b))) (broker2TxNum s),
                 bs_epochStartTime := earlier epochID (bb_BlockProposeTime b) (bs_epochStartTime s),
                 bs_epochEndTime := later epochID (bb_BlockCommitTime b) (bs_epochEndTime s)\<rparr>;
          s2 = fold (broker_inner V b) (bb_InnerShardTxs b) s1;
          s3 = s2\<lparr>relayFallbackTxNum := add_to epochID (int (length (bb_Relay2Txs b))) (relayFallbackTxNum s2)\<rparr>;
          s4 = fold (broker_fallback V b) (bb_Relay2Txs b) s3;
          s5 = fold (broker_first V b) (bb_Broker1Txs b) s4
      in fold (broker_second V b) (bb_Broker2Txs b) s5)"

definition broker_UpdateMeasureRecord :: "measure_env \<Rightarrow> WrappedMsg \<Rightarrow> BrokerStats \<Rightarrow> unit result \<times> BrokerStats" where
  "broker_UpdateMeasureRecord V msg s =
     (if MsgType msg \<noteq> ''BrokerBlockInfo'' then (Inr (), s)
      else case dec_broker_block_info (m_codec V) (Payload msg) of
        None \<Rightarrow> (Inl (Errorf ''decode brokerBlockInfoMsg''), s)
      | Some b \<Rightarrow> (Inr (), broker_block V b s))"

definition avgDurationPerTx :: "'f floats \<Rightarrow> ('f \<Rightarrow> string) \<Rightarrow> int \<Rightarrow> int \<Rightarrow> string" where
  "avgDurationPerTx F fmt2 durations n =
     (if n \<le> 0 then ''0.00'' else fmt2 (f_div F (f_of_int F durations) (f_of_int F n)))"

definition broker_brief_header :: "string list" where
  "broker_brief_header =
     [''EpochID'', ''Total tx # in this epoch'', ''Inner-shard tx # in this epoch'',
      ''Broker1 tx # in this epoch'', ''Broker2 tx # in this epoch'',
      ''Fallback-to-relay tx # in this epoch'', ''Epoch start time'', ''Epoch end time'',
      ''Avg. TPS of this epoch (txs per second)'', ''CTX ratio of this epoch'',
      ''Avg. TCL of this epoch (second)'', ''Avg. inner-shard TCL of this epoch (second)'',
      ''Avg. broker1 TCL of this epoch (second)'', ''Avg. broker2 TCL of this epoch (second)'',
      ''Avg. fallback-to-relay TCL of this epoch (second)'']"

definition broker_brief_row ::
    "'f floats \<Rightarrow> ('f \<Rightarrow> string) \<Rightarrow> measure_env \<Rightarrow> BrokerStats \<Rightarrow> int \<Rightarrow> string list" where
  "broker_brief_row F fmt2 V s epochID =
     (let start = get_or zero_time (bs_epochStartTime s) epochID;
          finish = get_or zero_time (bs_epochEndTime s) epochID;
          inner = get_or 0 (bs_innerShardTxNum s) epochID;
          b1 = get_or 0 (broker1TxNum s) epochID; b2 = get_or 0 (broker2TxNum s) epochID;
          fb = get_or 0 (relayFallbackTxNum s) epochID;
          epochDuration = seconds F (time_sub finish start);
          ctxCnt = f_div F (f_of_int F (i64 (b1 + b2))) (f_of_int F 2);
          relayCnt = f_of_int F fb;
          totalTxCnt = f_add F (f_add F (f_of_int F inner) ctxCnt) relayCnt;
          broker1TCL = f_of_int F (get_or 0 (broker1TCLSum s) epochID);
          broker2TCL = f_of_int F (get_or 0 (broker2TCLSum s) epochID);
          innerShardTCL = f_of_int F (get_or 0 (bs_innerShardTCLSum s) epochID);
          relayFallbackTCL = f_of_int F (get_or 0 (relayFallbackTCLSum s) epochID);
          totalTCL = f_add F (f_add F (f_add F broker1TCL broker2TCL) innerShardTCL) relayFallbackTCL
      in [show_int epochID, fmt2 totalTxCnt, show_int inner, show_int b1, show_int b2, show_int fb,
          m_RFC3339 V start, m_RFC3339 V finish,
          fmt2 (f_div F totalTxCnt epochDuration), fmt2 (f_div F ctxCnt totalTxCnt),
          fmt2 (f_div F totalTCL totalTxCnt),
          avgDurationPerTx F fmt2 (get_or 0 (bs_innerShardTCLSum s) epochID) inner,
          avgDurationPerTx F fmt2 (get_or 0 (broker1TCLSum s) epochID) b1,
          avgDurationPerTx F fmt2 (get_or 0 (broker2TCLSum s) epochID) b2,
          avgDurationPerTx F fmt2 (get_or 0 (relayFallbackTCLSum s) epochID) fb])"

definition broker_OutputResultAndClose ::
    "'f floats \<Rightarrow> ('f \<Rightarrow> string) \<Rightarrow> measure_env \<Rightarrow> unit result \<Rightarrow> BrokerStats \<Rightarrow> string list list result" where
  "broker_OutputResultAndClose F fmt2 V file s =
     bindR file (\<lambda>_. Inr (broker_brief_header #
       map (broker_brief_row F fmt2 V s) (sort (keys_of (bs_epochStartTime s)))))"

section \<open>The two halves of a relay transaction\<close>

type_synonym half = "RelayBlockInfoMsg \<times> transaction"

abbreviation half_hash :: "half \<Rightarrow> bytes" where
  "half_hash x \<equiv> ROriginalHash (snd x)"

definition halves1 :: "RelayBlockInfoMsg list \<Rightarrow> half list" where
  "halves1 bs = concat (map (\<lambda>b. map (Pair b) (rb_Relay1Txs b)) bs)"

definition halves2 :: "RelayBlockInfoMsg list \<Rightarrow> half list" where
  "halves2 bs = concat (map (\<lambda>b. map (Pair b) (rb_Relay2Txs b)) bs)"

text \<open>The pairs of halves of one transaction, and the line of such a pair.\<close>

definition pairs :: "half list \<Rightarrow> half list \<Rightarrow> (half \<times> half) multiset" where
  "pairs S1 S2 = filter_mset (\<lambda>(x, y). half_hash x = half_hash y) (mset (List.product S1 S2))"

definition pair_row :: "measure_env \<Rightarrow> half \<times> half \<Rightarrow> string list" where
  "pair_row V p = (case p of ((b1, t1), (b2, t2)) \<Rightarrow>
     relay_row V (ROriginalHash t1) (set_relay2 b2 (set_relay1 b1 (new_relay_lifecycle t1))))"

text \<open>The lines of the transactions inside a shard.\<close>

definition inner_rows :: "measure_env \<Rightarrow> RelayBlockInfoMsg \<Rightarrow> string list list" where
  "inner_rows V b = List.map_filter (\<lambda>tx. case tx_Hash (m_lib V) tx of Inl _ \<Rightarrow> None | Inr th \<Rightarrow>
     Some (relay_row V th ((new_relay_lifecycle tx)\<lparr>rl_innerShardTxBlockProposeTime := rb_BlockProposeTime b,
       rl_originalTxCommitTime := rb_BlockCommitTime b, rl_isCrossShardTx := False\<rparr>))) (rb_InnerShardTxs b)"

definition half_of :: "half list \<Rightarrow> bytes \<Rightarrow> half option" where
  "half_of S h = find (\<lambda>x. half_hash x = h) S"

definition pending :: "half list \<Rightarrow> half list \<Rightarrow> bytes \<Rightarrow> relayLifeCycle option" where
  "pending S1 S2 h = (case (half_of S1 h, half_of S2 h) of
     (Some (b, t), None) \<Rightarrow> Some (set_relay1 b (new_relay_lifecycle t))
   | (None, Some (b, t)) \<Rightarrow> Some (set_relay2 b (new_relay_lifecycle t))
   | _ \<Rightarrow> None)"

definition stats_inv :: "measure_env \<Rightarrow> string list list \<Rightarrow> half list \<Rightarrow> half list \<Rightarrow> RelayStats \<Rightarrow> bool" where
  "stats_inv V inner S1 S2 r \<longleftrightarrow>
     (\<forall>h. map_of (rs_txLifecycles r) h = pending S1 S2 h) \<and>
     mset (rs_rows r) = mset inner + image_mset (pair_row V) (pairs S1 S2)"

lemma filter_unique:
  "distinct (map f xs) \<Longrightarrow> y \<in> set xs \<Longrightarrow> filter (\<lambda>x. f x = f y) xs = [y]"
  by (induction xs) (auto simp: filter_empty_conv image_iff)

lemma pairs_snoc1: "pairs (S1 @ [x]) S2 = pairs S1 S2 + image_mset (Pair x) (mset (filter (\<lambda>y. half_hash x = half_hash y) S2))"
proof -
  have "List.product (S1 @ [x]) S2 = List.product S1 S2 @ map (Pair x) S2"
    by (induction S1) simp_all
  then show ?thesis by (simp add: pairs_def filter_mset_image_mset comp_def)
qed

lemma mset_product_snoc: "mset (List.product S1 (S2 @ [y])) = mset (List.product S1 S2) + image_mset (\<lambda>x. (x, y)) (mset S1)"
  by (induction S1) (simp_all add: ac_simps)

lemma pairs_snoc2: "pairs S1 (S2 @ [y]) = pairs S1 S2 + image_mset (\<lambda>x. (x, y)) (mset (filter (\<lambda>x. half_hash x = half_hash y) S1))"
  by (simp add: pairs_def mset_product_snoc filter_mset_image_mset comp_def)

lemma half_of_snoc: "half_of (S @ [x]) h = (case half_of S h of Some y \<Rightarrow> Some y | None \<Rightarrow> if half_hash x = h then Some x else None)"
  by (induction S) (auto simp: half_of_def)

lemma half_of_None: "half_of S h = None \<longleftrightarrow> h \<notin> half_hash ` set S"
  unfolding half_of_def find_None_iff by blast

lemma half_of_Some: "half_of S h = Some x \<Longrightarrow> x \<in> set S \<and> half_hash x = h"
  by (auto simp: half_of_def find_Some_iff)

lemma half_of_filter: "half_of S h = None \<Longrightarrow> filter (\<lambda>x. half_hash x = h) S = []"
  unfolding half_of_None filter_empty_conv by blast

lemma new_relay_lifecycle_time: "CreateTime t = CreateTime t' \<Longrightarrow> new_relay_lifecycle t = new_relay_lifecycle t'"
  by (simp add: new_relay_lifecycle_def)

lemma set_relay_commute: "set_relay1 b (set_relay2 b' lc) = set_relay2 b' (set_relay1 b lc)"
  by (simp add: set_relay1_def set_relay2_def)

text \<open>The two halves of a transaction were created at the same time.\<close>

definition same_time :: "half list \<Rightarrow> half list \<Rightarrow> bool" where
  "same_time S1 S2 \<longleftrightarrow> (\<forall>x \<in> set S1. \<forall>y \<in> set S2. half_hash x = half_hash y \<longrightarrow> CreateTime (snd x) = CreateTime (snd y))"

lemma stage1_inv:
  assumes inv: "stats_inv V inner S1 S2 r" and d: "distinct (map half_hash (S1 @ [(b, t)]))" "distinct (map half_hash S2)"
    and time: "same_time (S1 @ [(b, t)]) S2"
  shows "stats_inv V inner (S1 @ [(b, t)]) S2 (relay_stage V e (set_relay1 b) t r)"
proof -
  let ?h = "ROriginalHash t"
  have new: "half_of S1 ?h = None" using d(1) by (auto simp: half_of_None)
  have life: "map_of (rs_txLifecycles r) ?h = pending S1 S2 ?h" using inv by (simp add: stats_inv_def)
  show ?thesis
  proof (cases "half_of S2 ?h")
    case None
    then have "filter (\<lambda>y. ?h = half_hash y) S2 = []" by (auto simp: half_of_None filter_empty_conv)
    moreover have "pending S1 S2 ?h = None" using new None by (simp add: pending_def)
    ultimately show ?thesis
      using inv None new life
      by (auto simp: stats_inv_def relay_stage_def Let_def pairs_snoc1 pending_def half_of_snoc split: option.splits)
  next
    case (Some y)
    obtain b2 t2 where y: "y = (b2, t2)" by (cases y)
    note mem = half_of_Some [OF Some]
    have "filter (\<lambda>z. ?h = half_hash z) S2 = [y]"
      using filter_unique [OF d(2), of y] mem by (metis (mono_tags, lifting) filter_cong)
    moreover have "new_relay_lifecycle t2 = new_relay_lifecycle t"
      using time mem y by (intro new_relay_lifecycle_time) (auto simp: same_time_def)
    moreover have "pending S1 S2 ?h = Some (set_relay2 b2 (new_relay_lifecycle t2))"
      using new Some y by (simp add: pending_def)
    ultimately show ?thesis
      using inv Some y new life
      by (auto simp: stats_inv_def relay_stage_def Let_def pairs_snoc1 pending_def half_of_snoc pair_row_def
          relay_writeTxInfo_def updateRelayTxTCLByTxLifecycle_def set_relay_commute split: option.splits)
  qed
qed

lemma stage2_inv:
  assumes inv: "stats_inv V inner S1 S2 r" and d: "distinct (map half_hash S1)" "distinct (map half_hash (S2 @ [(b, t)]))"
    and time: "same_time S1 (S2 @ [(b, t)])"
  shows "stats_inv V inner S1 (S2 @ [(b, t)]) (relay_stage V e (set_relay2 b) t r)"
proof -
  let ?h = "ROriginalHash t"
  have new: "half_of S2 ?h = None" using d(2) by (auto simp: half_of_None)
  have life: "map_of (rs_txLifecycles r) ?h = pending S1 S2 ?h" using inv by (simp add: stats_inv_def)
  show ?thesis
  proof (cases "half_of S1 ?h")
    case None
    then have "filter (\<lambda>x. half_hash x = ?h) S1 = []" by (rule half_of_filter)
    moreover have "pending S1 S2 ?h = None" using new None by (simp add: pending_def)
    ultimately show ?thesis
      using inv None new life
      by (auto simp: stats_inv_def relay_stage_def Let_def pairs_snoc2 pending_def half_of_snoc split: option.splits)
  next
    case (Some x)
    obtain b1 t1 where x: "x = (b1, t1)" by (cases x)
    note mem = half_of_Some [OF Some]
    have "filter (\<lambda>z. half_hash z = ?h) S1 = [x]"
      using filter_unique [OF d(1), of x] mem by (metis (mono_tags, lifting) filter_cong)
    moreover have "pending S1 S2 ?h = Some (set_relay1 b1 (new_relay_lifecycle t1))"
      using new Some x by (simp add: pending_def)
    ultimately show ?thesis
      using inv Some x new life mem
      by (auto simp: stats_inv_def relay_stage_def Let_def pairs_snoc2 pending_def half_of_snoc pair_row_def
          relay_writeTxInfo_def updateRelayTxTCLByTxLifecycle_def split: option.splits)
  qed
qed

lemma stages1_inv:
  "stats_inv V inner S1 S2 r \<Longrightarrow> distinct (map half_hash (S1 @ map (Pair b) ts)) \<Longrightarrow> distinct (map half_hash S2) \<Longrightarrow>
    same_time (S1 @ map (Pair b) ts) S2 \<Longrightarrow>
    stats_inv V inner (S1 @ map (Pair b) ts) S2 (fold (relay_stage V e (set_relay1 b)) ts r)"
proof (induction ts arbitrary: S1 r)
  case (Cons t ts)
  have "stats_inv V inner (S1 @ [(b, t)]) S2 (relay_stage V e (set_relay1 b) t r)"
    using Cons.prems by (intro stage1_inv) (auto simp: same_time_def)
  then show ?case using Cons.IH [of "S1 @ [(b, t)]"] Cons.prems by simp
qed simp

lemma stages2_inv:
  "stats_inv V inner S1 S2 r \<Longrightarrow> distinct (map half_hash S1) \<Longrightarrow> distinct (map half_hash (S2 @ map (Pair b) ts)) \<Longrightarrow>
    same_time S1 (S2 @ map (Pair b) ts) \<Longrightarrow>
    stats_inv V inner S1 (S2 @ map (Pair b) ts) (fold (relay_stage V e (set_relay2 b)) ts r)"
proof (induction ts arbitrary: S2 r)
  case (Cons t ts)
  have "stats_inv V inner S1 (S2 @ [(b, t)]) (relay_stage V e (set_relay2 b) t r)"
    using Cons.prems by (intro stage2_inv) (auto simp: same_time_def)
  then show ?case using Cons.IH [of "S2 @ [(b, t)]"] Cons.prems by simp
qed simp

text \<open>No transaction inside a shard has the hash of a relay transaction.\<close>

definition apart :: "measure_env \<Rightarrow> transaction list \<Rightarrow> half list \<Rightarrow> bool" where
  "apart V txs S \<longleftrightarrow> (\<forall>tx \<in> set txs. \<forall>th. tx_Hash (m_lib V) tx = Inr th \<longrightarrow> th \<notin> half_hash ` set S)"

lemma apart_mono: "apart V txs S \<Longrightarrow> set S' \<subseteq> set S \<Longrightarrow> apart V txs S'"
  unfolding apart_def by blast

lemma same_time_mono: "same_time S1 S2 \<Longrightarrow> set T1 \<subseteq> set S1 \<Longrightarrow> set T2 \<subseteq> set S2 \<Longrightarrow> same_time T1 T2"
  unfolding same_time_def by blast

lemma inner_inv:
  assumes "stats_inv V inner S1 S2 r" "apart V (rb_InnerShardTxs b) (S1 @ S2)"
  shows "stats_inv V (inner @ inner_rows V b) S1 S2 (fold (relay_inner V b) (rb_InnerShardTxs b) r)"
proof -
  let ?row = "\<lambda>tx. case tx_Hash (m_lib V) tx of Inl _ \<Rightarrow> None | Inr th \<Rightarrow>
     Some (relay_row V th ((new_relay_lifecycle tx)\<lparr>rl_innerShardTxBlockProposeTime := rb_BlockProposeTime b,
       rl_originalTxCommitTime := rb_BlockCommitTime b, rl_isCrossShardTx := False\<rparr>))"
  have "stats_inv V (inner @ List.map_filter ?row txs) S1 S2 (fold (relay_inner V b) txs r)"
    if "apart V txs (S1 @ S2)" "stats_inv V inner S1 S2 r" for txs inner r
    using that
  proof (induction txs arbitrary: inner r)
    case (Cons tx txs)
    have ap: "apart V txs (S1 @ S2)" using Cons.prems(1) by (simp add: apart_def)
    show ?case
    proof (cases "tx_Hash (m_lib V) tx")
      case (Inl e)
      then show ?thesis using Cons.IH [OF ap Cons.prems(2)] by (simp add: relay_inner_def List.map_filter_simps)
    next
      case (Inr th)
      have "th \<notin> half_hash ` set (S1 @ S2)" using Cons.prems(1) Inr by (auto simp: apart_def)
      then have "half_of S1 th = None" "half_of S2 th = None" by (auto simp: half_of_None)
      then have "stats_inv V (inner @ [the (?row tx)]) S1 S2 (relay_inner V b tx r)"
        using Cons.prems(2) Inr
        by (auto simp: stats_inv_def relay_inner_def Let_def relay_writeTxInfo_def pending_def)
      from Cons.IH [OF ap this] show ?thesis using Inr by (simp add: List.map_filter_simps)
    qed
  qed (simp add: List.map_filter_simps)
  then show ?thesis using assms by (simp add: inner_rows_def)
qed

text \<open>What the reports of a run satisfy: every half is reported once, and the hashes do not collide.\<close>

definition reports_ok :: "measure_env \<Rightarrow> RelayBlockInfoMsg list \<Rightarrow> bool" where
  "reports_ok V bs \<longleftrightarrow> distinct (map half_hash (halves1 bs)) \<and> distinct (map half_hash (halves2 bs)) \<and>
     same_time (halves1 bs) (halves2 bs) \<and>
     (\<forall>b \<in> set bs. apart V (rb_InnerShardTxs b) (halves1 bs @ halves2 bs))"

lemma block_inv:
  assumes r: "stats_inv V I H1 H2 r" and ap: "apart V (rb_InnerShardTxs b) (H1 @ H2)"
    and ok: "distinct (map half_hash (H1 @ map (Pair b) (rb_Relay1Txs b)))"
      "distinct (map half_hash (H2 @ map (Pair b) (rb_Relay2Txs b)))"
      "same_time (H1 @ map (Pair b) (rb_Relay1Txs b)) (H2 @ map (Pair b) (rb_Relay2Txs b))"
  shows "stats_inv V (I @ inner_rows V b) (H1 @ map (Pair b) (rb_Relay1Txs b)) (H2 @ map (Pair b) (rb_Relay2Txs b))
    (relay_block V b r)"
proof -
  have "stats_inv V I H1 H2 (r\<lparr>rs_epochStartTime := es, rs_epochEndTime := ee, relay1TxNum := n1,
      relay2TxNum := n2, rs_innerShardTxNum := n3\<rparr>)" for es ee n1 n2 n3 using r by (simp add: stats_inv_def)
  note i = inner_inv [OF this ap]
  have "same_time (H1 @ map (Pair b) (rb_Relay1Txs b)) H2" using ok(3) by (auto intro: same_time_mono)
  note one = stages1_inv [OF i _ _ this]
  show ?thesis unfolding relay_block_def Let_def using ok by (intro stages2_inv one) simp_all
qed

lemma reports_inv:
  assumes "NewRelayStats cs = Inr r0" "reports_ok V bs"
  shows "stats_inv V (concat (map (inner_rows V) bs)) (halves1 bs) (halves2 bs) (fold (relay_block V) bs r0)"
  using assms
proof (induction bs rule: rev_induct)
  case Nil
  then show ?case
    by (auto simp: NewRelayStats_def bindR_Inr_iff stats_inv_def pending_def half_of_def halves1_def halves2_def pairs_def)
next
  case (snoc b bs)
  let ?r = "fold (relay_block V) bs r0"
  let ?I = "concat (map (inner_rows V) bs)"
  have halves: "halves1 (bs @ [b]) = halves1 bs @ map (Pair b) (rb_Relay1Txs b)"
    "halves2 (bs @ [b]) = halves2 bs @ map (Pair b) (rb_Relay2Txs b)"
    by (simp_all add: halves1_def halves2_def)
  note ok = snoc.prems(2) [unfolded reports_ok_def halves]
  have "apart V (rb_InnerShardTxs b') (halves1 bs @ halves2 bs)" if "b' \<in> set (bs @ [b])" for b'
    using ok that by (auto intro: apart_mono)
  moreover have "same_time (halves1 bs) (halves2 bs)" using ok by (auto intro: same_time_mono)
  ultimately have "reports_ok V bs" and ap: "apart V (rb_InnerShardTxs b) (halves1 bs @ halves2 bs)"
    using ok by (simp_all add: reports_ok_def)
  from \<open>reports_ok V bs\<close> have IH: "stats_inv V ?I (halves1 bs) (halves2 bs) ?r" using snoc.IH snoc.prems(1) by simp
  have "stats_inv V (?I @ inner_rows V b) (halves1 bs @ map (Pair b) (rb_Relay1Txs b))
      (halves2 bs @ map (Pair b) (rb_Relay2Txs b)) (relay_block V b ?r)"
    using block_inv [OF IH ap] ok by blast
  then show ?case by (simp add: halves)
qed

section \<open>Properties\<close>

text \<open>C24: whatever the order in which the shards report their blocks, the detail file of the relay
  statistics has exactly one line for every transaction inside a shard and one for every
  cross-shard transaction both of whose halves were reported, with the times of the two blocks;
  a transaction with one half reported is kept for later.\<close>

theorem relay_stats_rows:
  assumes "NewRelayStats cs = Inr r0" "reports_ok V bs"
  shows "mset (rs_rows (fold (relay_block V) bs r0)) =
      mset (concat (map (inner_rows V) bs)) + image_mset (pair_row V) (pairs (halves1 bs) (halves2 bs)) \<and>
    (\<forall>h. map_of (rs_txLifecycles (fold (relay_block V) bs r0)) h = pending (halves1 bs) (halves2 bs) h)"
  using reports_inv [OF assms] by (simp add: stats_inv_def)

section \<open>Examples\<close>

text \<open>The second half of a transaction is reported before its first half.\<close>

definition example_measure :: measure_env where
  "example_measure =
     \<lparr>m_lib = \<lparr>sha256 = (\<lambda>b. b), sha512 = (\<lambda>b. b), sha1 = (\<lambda>b. b),
        rlp_tx = (\<lambda>tx. Some [word_of_int (Nonce tx)]), rlp_header = (\<lambda>h. None), rlp_block = (\<lambda>b. None),
        gob_state = (\<lambda>s. None), gob_block = (\<lambda>b. None), gob_unblock = (\<lambda>d. None), gob_loc = (\<lambda>l. None),
        gob_unloc = (\<lambda>d. None), mpt_root = (\<lambda>kvs. None), bs_new = (\<lambda>n. []), bs_set = (\<lambda>b i. b),
        bs_test = (\<lambda>b i. False), bs_len = (\<lambda>b. 0), bs_equal = (=)\<rparr>,
      m_codec = \<lparr>enc = (\<lambda>m. None), dec_preprepare = (\<lambda>b. None), dec_prepare = (\<lambda>b. None), dec_commit = (\<lambda>b. None),
        dec_receive_txs = (\<lambda>b. None), dec_catchup_req = (\<lambda>b. None), dec_catchup_resp = (\<lambda>b. None),
        dec_relay_block_info = (\<lambda>b. None), dec_broker_block_info = (\<lambda>b. None), dec_tx_send_again = (\<lambda>b. None),
        dec_repartition_start = (\<lambda>b. None), dec_account_migration = (\<lambda>b. None)\<rparr>,
      m_RFC3339 = show_int\<rparr>"

definition example_crossing :: transaction where
  "example_crossing = (NewTransaction 1 2 5 0 7 100)\<lparr>RelayStage := 1, ROriginalHash := [7]\<rparr>"

definition example_report :: "transaction list \<Rightarrow> transaction list \<Rightarrow> time \<Rightarrow> int \<Rightarrow> RelayBlockInfoMsg" where
  "example_report r1 r2 t shard =
     \<lparr>rb_InnerShardTxs = [], rb_Relay1Txs = r1, rb_Relay2Txs = r2, rb_Epoch = 0,
      rb_BlockProposeTime = t, rb_BlockCommitTime = t + 1, rb_ShardID = shard\<rparr>"

definition example_reports :: "RelayBlockInfoMsg list" where
  "example_reports =
     [example_report [] [example_crossing\<lparr>RelayStage := 2\<rparr>] 300 1, example_report [example_crossing] [] 200 0]"

definition example_line :: "string list" where
  "example_line = [''07'', ''100'', ''301'', ''true'', '''', ''200'', ''201'', ''300'', ''301'']"

theorem relay_stats_rows_witness:
  "\<exists>r0. NewRelayStats (Inr ()) = Inr r0 \<and> rs_rows (fold (relay_block example_measure) example_reports r0) = [example_line]"
proof -
  obtain r0 where r0: "NewRelayStats (Inr ()) = Inr r0" by (simp add: NewRelayStats_def)
  have "reports_ok example_measure example_reports"
    by (simp add: example_reports_def reports_ok_def halves1_def halves2_def example_report_def same_time_def apart_def)
  note rows = relay_stats_rows [OF r0 this]
  have "image_mset (pair_row example_measure) (pairs (halves1 example_reports) (halves2 example_reports)) = {#example_line#}"
    by (simp add: example_reports_def example_line_def pairs_def halves1_def halves2_def example_report_def pair_row_def
        relay_row_def set_relay1_def set_relay2_def new_relay_lifecycle_def example_crossing_def NewTransaction_def
        ConvertTime2Str_def zero_time_def example_measure_def EncodeToString_def hex_digit_def show_bool_def
        show_int_def show_nat.simps dec_digit_def)
  moreover have "concat (map (inner_rows example_measure) example_reports) = []"
    by (simp add: example_reports_def inner_rows_def example_report_def List.map_filter_simps)
  ultimately have "mset (rs_rows (fold (relay_block example_measure) example_reports r0)) = {#example_line#}"
    using rows by simp
  then show ?thesis using r0 by simp
qed

end
