(* ===== verification/Supervisor.thy ===== *)
theory Supervisor
  imports BrokerCommittee Measure
begin

text \<open>
  The supervisor (\<open>supervisor/supervisor.go\<close>): it builds the committee and the measure of a
  consensus type, and runs them until the committee says that the experiment is over. One element
  of \<open>ticks\<close> is what one tick of the loop finds: the messages in the buffer, and the clock and
  the random choices of each call.
\<close>

section \<open>The committee\<close>

datatype ('x, 'f) any_committee =
    StaticRelay "'x StaticRelayCommittee"
  | StaticBroker "'x StaticBrokerCommittee"
  | CLPARelay "('x, 'f) CLPARelayCommittee"
  | CLPABroker "('x, 'f) CLPABrokerCommittee"

definition inside :: "('s \<Rightarrow> 'c) \<Rightarrow> 'a result \<times> 's \<times> sends \<Rightarrow> 'a result \<times> 'c \<times> sends" where
  "inside C r = (case r of (x, s, ms) \<Rightarrow> (x, C s, ms))"

definition HandleMsg :: "'x com_env \<Rightarrow> tick_in \<Rightarrow> WrappedMsg \<Rightarrow> (('x, 'f) any_committee, unit) act" where
  "HandleMsg E V msg c =
     (case c of
        StaticRelay s \<Rightarrow> inside StaticRelay (static_relay_HandleMsg E msg s)
      | StaticBroker s \<Rightarrow> inside StaticBroker (static_broker_HandleMsg E msg s)
      | CLPARelay s \<Rightarrow> inside CLPARelay (clpa_relay_HandleMsg E msg s)
      | CLPABroker s \<Rightarrow> inside CLPABroker (clpa_broker_HandleMsg E V msg s))"

definition SendTxsAndConsensus ::
    "'f floats \<Rightarrow> 'x com_env \<Rightarrow> tick_in \<Rightarrow> (('x, 'f) any_committee, unit) act" where
  "SendTxsAndConsensus F E V c =
     (case c of
        StaticRelay s \<Rightarrow> inside StaticRelay (static_relay_SendTxsAndConsensus E V s)
      | StaticBroker s \<Rightarrow> inside StaticBroker (static_broker_SendTxsAndConsensus E V s)
      | CLPARelay s \<Rightarrow> inside CLPARelay (clpa_relay_SendTxsAndConsensus F E V s)
      | CLPABroker s \<Rightarrow> inside CLPABroker (clpa_broker_SendTxsAndConsensus F E V s))"

definition ShouldStop :: "('x, 'f) any_committee \<Rightarrow> bool" where
  "ShouldStop c =
     (case c of
        StaticRelay s \<Rightarrow> static_relay_ShouldStop s
      | StaticBroker s \<Rightarrow> static_broker_ShouldStop s
      | CLPARelay s \<Rightarrow> clpa_relay_ShouldStop s
      | CLPABroker s \<Rightarrow> clpa_broker_ShouldStop s)"

section \<open>The measure\<close>

datatype any_measure = RelayMeasure RelayStats | BrokerMeasure BrokerStats

definition UpdateMeasureRecord :: "measure_env \<Rightarrow> WrappedMsg \<Rightarrow> any_measure \<Rightarrow> unit result \<times> any_measure" where
  "UpdateMeasureRecord M msg m =
     (case m of
        RelayMeasure r \<Rightarrow> apsnd RelayMeasure (relay_UpdateMeasureRecord M msg r)
      | BrokerMeasure b \<Rightarrow> apsnd BrokerMeasure (broker_UpdateMeasureRecord M msg b))"

definition OutputResultAndClose ::
    "'f floats \<Rightarrow> ('f \<Rightarrow> string) \<Rightarrow> measure_env \<Rightarrow> unit result \<Rightarrow> any_measure \<Rightarrow> string list list result" where
  "OutputResultAndClose F fmt2 M file m =
     (case m of
        RelayMeasure r \<Rightarrow> relay_OutputResultAndClose F fmt2 M file r
      | BrokerMeasure b \<Rightarrow> broker_OutputResultAndClose F fmt2 M file b)"

text \<open>\<open>measureSubroutine\<close> takes the messages from its buffer in order; an error is logged.\<close>

definition measureSubroutine :: "measure_env \<Rightarrow> WrappedMsg list \<Rightarrow> any_measure \<Rightarrow> any_measure" where
  "measureSubroutine M msgs m = fold (\<lambda>msg m. snd (UpdateMeasureRecord M msg m)) msgs m"

section \<open>The supervisor\<close>

record ('x, 'f) supervisor =
  sv_committee :: "('x, 'f) any_committee"
  sv_measure :: any_measure
  measureMsgBuf :: "WrappedMsg list"

definition NewSupervisor ::
    "'f floats \<Rightarrow> 'x com_env \<Rightarrow> string \<Rightarrow> time \<Rightarrow> 'x result \<Rightarrow> Manager result \<Rightarrow> unit result \<Rightarrow> unit result \<Rightarrow>
     ('x, 'f) supervisor result" where
  "NewSupervisor F E consensusType now src bm csvFile outputDir =
     bindR
       (if consensusType = ''static_relay'' then
          bindR (NewRelayStats csvFile) (\<lambda>ms.
          bindR (NewStaticRelayCommittee E src) (\<lambda>c. Inr (RelayMeasure ms, StaticRelay c)))
        else if consensusType = ''static_broker'' then
          bindR (NewBrokerStats csvFile) (\<lambda>ms.
          bindR (NewStaticBrokerCommittee E src bm) (\<lambda>c. Inr (BrokerMeasure ms, StaticBroker c)))
        else if consensusType = ''clpa_relay'' then
          bindR (NewRelayStats csvFile) (\<lambda>ms.
          bindR (NewCLPARelayCommittee F E now src) (\<lambda>c. Inr (RelayMeasure ms, CLPARelay c)))
        else if consensusType = ''clpa_broker'' then
          bindR (NewBrokerStats csvFile) (\<lambda>ms.
          bindR (NewCLPABrokerCommittee F E now src bm) (\<lambda>c. Inr (BrokerMeasure ms, CLPABroker c)))
        else Inl (Errorf ''undefined consensus type'')) (\<lambda>(ms, com).
     bindR outputDir (\<lambda>_.
     Inr \<lparr>sv_committee = com, sv_measure = ms, measureMsgBuf = []\<rparr>))"

text \<open>A message goes to the measure and to the committee; an error of the committee is logged.\<close>

definition sv_handle :: "'x com_env \<Rightarrow> tick_in \<times> WrappedMsg \<Rightarrow> (('x, 'f) supervisor, unit) act" where
  "sv_handle E it =
     (case it of (V, msg) \<Rightarrow>
        bindA (modA (\<lambda>s. s\<lparr>measureMsgBuf := measureMsgBuf s @ [msg]\<rparr>)) (\<lambda>_.
        zoomA sv_committee (\<lambda>c s. s\<lparr>sv_committee := c\<rparr>) (logA (HandleMsg E V msg))))"

definition sv_tick ::
    "'f floats \<Rightarrow> 'x com_env \<Rightarrow> (tick_in \<times> WrappedMsg) list \<Rightarrow> tick_in \<Rightarrow> (('x, 'f) supervisor, unit) act" where
  "sv_tick F E msgList V =
     bindA (forA (sv_handle E) msgList) (\<lambda>_.
     zoomA sv_committee (\<lambda>c s. s\<lparr>sv_committee := c\<rparr>) (logA (SendTxsAndConsensus F E V)))"

text \<open>The loop over the ticks; the result tells whether the committee ended it.\<close>

fun sv_loop ::
    "'f floats \<Rightarrow> 'x com_env \<Rightarrow> ((tick_in \<times> WrappedMsg) list \<times> tick_in) list \<Rightarrow> (('x, 'f) supervisor, bool) act" where
  "sv_loop F E [] = retA False"
| "sv_loop F E ((msgList, V) # ticks) =
     bindA (getA (ShouldStop \<circ> sv_committee)) (\<lambda>stop.
     if stop then retA True
     else bindA (sv_tick F E msgList V) (\<lambda>_. sv_loop F E ticks))"

text \<open>
  After the loop: the measure handles the rest of its buffer, the results are written to \<open>file\<close> (an
  error is logged), and every node of every shard is told to stop. The value is the written lines.
\<close>

definition stop_nodes :: "'x com_env \<Rightarrow> sends result" where
  "stop_nodes E =
     bindR (WrapMsg (ce_codec E) MStopConsensus) (\<lambda>wMsg.
     bindR (foldR (\<lambda>destNodes i. bindR (GetNodesInShard (ce_resolver E) (int i)) (\<lambda>ls. Inr (destNodes @ ls)))
              [] [0..<nat (ce_ShardNum E)]) (\<lambda>destNodes.
     Inr (GroupBroadcastMessage destNodes wMsg)))"

definition sv_finish ::
    "'f floats \<Rightarrow> ('f \<Rightarrow> string) \<Rightarrow> 'x com_env \<Rightarrow> measure_env \<Rightarrow> unit result \<Rightarrow>
     (('x, 'f) supervisor, string list list result) act" where
  "sv_finish F fmt2 E M file =
     bindA (modA (\<lambda>s. s\<lparr>sv_measure := measureSubroutine M (measureMsgBuf s) (sv_measure s), measureMsgBuf := []\<rparr>)) (\<lambda>_.
     bindA (getA (OutputResultAndClose F fmt2 M file \<circ> sv_measure)) (\<lambda>written.
     bindA (liftA (stop_nodes E)) (\<lambda>ms.
     bindA (sendA ms) (\<lambda>_. retA written))))"

text \<open>\<open>Start\<close> gives what was written when the committee ended the loop, and \<open>None\<close> while it runs.\<close>

definition Start ::
    "'f floats \<Rightarrow> ('f \<Rightarrow> string) \<Rightarrow> 'x com_env \<Rightarrow> measure_env \<Rightarrow> unit result \<Rightarrow>
     ((tick_in \<times> WrappedMsg) list \<times> tick_in) list \<Rightarrow> (('x, 'f) supervisor, string list list result option) act" where
  "Start F fmt2 E M file ticks =
     bindA (sv_loop F E ticks) (\<lambda>stopped.
     if stopped then bindA (sv_finish F fmt2 E M file) (\<lambda>written. retA (Some written)) else retA None)"

section \<open>What a committee promises\<close>

text \<open>
  The contract between the supervisor and its committee: an invariant that both operations keep,
  under which the committee ends the experiment only when everything was injected.
\<close>

locale committee_contract =
  fixes handle :: "tick_in \<Rightarrow> WrappedMsg \<Rightarrow> ('c, unit) act"
    and send :: "tick_in \<Rightarrow> ('c, unit) act"
    and stop :: "'c \<Rightarrow> bool"
    and inv :: "'c \<Rightarrow> bool"
    and injected :: "'c \<Rightarrow> bool"
  assumes handle_keeps: "keeps inv (handle V msg)"
    and send_keeps: "keeps inv (send V)"
    and stop_injected: "inv c \<Longrightarrow> stop c \<Longrightarrow> injected c"
begin

lemma handle_logged: "keeps inv (logA (handle V msg))"
  by (rule keeps_logA [OF handle_keeps])

lemma send_logged: "keeps inv (logA (send V))"
  by (rule keeps_logA [OF send_keeps])

end

end
