(* ===== verification/SupervisorRun.thy ===== *)
theory SupervisorRun
  imports Supervisor
begin

text \<open>
  Every committee injects what it was configured to inject before the experiment ends, and no
  more: the contract \<open>committee_contract\<close> for the four committees, and its consequence for the
  supervisor.
\<close>

section \<open>The invariant\<close>

text \<open>
  Between 0 and \<open>N\<close> transactions are still unsent, and no empty block counts towards the end
  before the last one is sent.
\<close>

definition base_inv :: "int \<Rightarrow> ('x, 'm) committee_scheme \<Rightarrow> bool" where
  "base_inv N s \<longleftrightarrow> in_i64 N \<and> 0 \<le> unsentTxNum s \<and> unsentTxNum s \<le> N \<and>
     (0 < unsentTxNum s \<longrightarrow> stopCnt (sl s) = 0) \<and> 0 < stopThreshold (sl s)"

text \<open>The same, with a known number of unsent transactions.\<close>

definition base_at :: "int \<Rightarrow> int \<Rightarrow> ('x, 'm) committee_scheme \<Rightarrow> bool" where
  "base_at N u s \<longleftrightarrow> base_inv N s \<and> unsentTxNum s = u"

text \<open>The configuration: a source that keeps its contract, and a sensible number of shards.\<close>

definition com_env_ok :: "'x com_env \<Rightarrow> bool" where
  "com_env_ok E \<longleftrightarrow> 0 < ce_ShardNum E \<and> ce_ShardNum E < 2 ^ 60 \<and> 0 \<le> ce_TxInjectionSpeed E \<and>
     (\<forall>V n s txs s'. 0 \<le> n \<longrightarrow> ce_read E V n s = (Inr txs, s') \<longrightarrow> int (length txs) \<le> n)"

lemma base_inv_update:
  "base_inv N s \<Longrightarrow> unsentTxNum s' = unsentTxNum s \<Longrightarrow> sl s' = sl s \<Longrightarrow> base_inv N s'"
  by (simp add: base_inv_def)

lemma base_inv_count [intro]: "base_inv N s \<Longrightarrow> base_inv N (count_block none s)"
  by (auto simp: base_inv_def count_block_def)

lemma new_base_inv:
  assumes "com_env_ok E" "0 \<le> ce_TxNumber E" "in_i64 (ce_TxNumber E)"
    and "unsentTxNum s = ce_TxNumber E" "sl s = newStopLogic (ce_ShardNum E)"
  shows "base_inv (ce_TxNumber E) s"
proof -
  have "i64 (ce_ShardNum E * 5) = ce_ShardNum E * 5"
    using assms(1) by (simp add: com_env_ok_def go_int in_i64_def)
  then show ?thesis using assms by (simp add: base_inv_def newStopLogic_def stopThresholdPerShard_def com_env_ok_def)
qed

text \<open>Reading is followed by a continuation that knows how much was read.\<close>

lemma readTxs_run:
  assumes E: "com_env_ok E" and inv: "base_inv N s" and run: "readTxs E V s = (r, s', ms)"
  shows "base_inv N s' \<and> ms = [] \<and> unsentTxNum s' = unsentTxNum s \<and>
    (\<forall>txs. r = Inr txs \<longrightarrow> int (length txs) \<le> unsentTxNum s)"
proof -
  have "int (length txs) \<le> min (ce_TxInjectionSpeed E) (unsentTxNum s)"
    if "ce_read E W (min (ce_TxInjectionSpeed E) (unsentTxNum s)) x = (Inr txs, x')" for W x txs x'
    using that E inv unfolding com_env_ok_def base_inv_def by (metis min_def)
  then show ?thesis
    using run inv by (fastforce simp: readTxs_def base_inv_def split: prod.splits)
qed

text \<open>An action that starts with \<open>u\<close> unsent transactions and keeps the invariant.\<close>

abbreviation sends_ok :: "int \<Rightarrow> int \<Rightarrow> (('x, 'm) committee_scheme, 'a) act \<Rightarrow> bool" where
  "sends_ok N u m \<equiv> postA (base_at N u) m (\<lambda>_ s _. base_inv N s)"

lemma sendTxs_ok:
  assumes "0 \<le> k" "k \<le> u"
  shows "sends_ok N u (sendTxs E loc txs k)"
  unfolding postA_def
proof (intro allI impI)
  fix s r s' ms assume inv: "base_at N u s" and run: "sendTxs E loc txs k s = (r, s', ms)"
  have "in_i64 (u - k)" using assms(1,2) inv by (auto simp: base_at_def base_inv_def in_i64_def)
  then have "base_inv N (s\<lparr>unsentTxNum := i64 (unsentTxNum s - k)\<rparr>)"
    using assms(1,2) inv by (simp add: base_at_def base_inv_def go_int)
  then show "base_inv N s'"
    using run inv by (auto simp: sendTxs_def base_at_def act_defs split: sum.splits prod.splits)
qed

lemma sends_ok_bind:
  assumes m: "keeps (base_at N u) m" and k: "\<And>x. sends_ok N u (k x)"
  shows "sends_ok N u (bindA m k)"
  unfolding postA_def
proof (intro allI impI)
  fix s r s' ms assume inv: "base_at N u s" and run: "bindA m k s = (r, s', ms)"
  from run show "base_inv N s'"
  proof (cases rule: bindA_cases)
    case 1
    then show ?thesis using keepsD [OF m 1(1) inv] by (simp add: base_at_def)
  next
    case (2 x s1 o1 o2)
    then show ?thesis using keepsD [OF m 2(1) inv] k unfolding postA_def by blast
  qed
qed

lemma read_send_keeps:
  assumes E: "com_env_ok E" and k: "\<And>u txs. int (length txs) \<le> u \<Longrightarrow> sends_ok N u (k txs)"
  shows "keeps (base_inv N) (bindA (readTxs E V) k)"
proof (rule keepsI)
  fix s r s' ms assume inv: "base_inv N s" and run: "bindA (readTxs E V) k s = (r, s', ms)"
  from run show "base_inv N s'"
  proof (cases rule: bindA_cases)
    case 1
    then show ?thesis using readTxs_run [OF E inv 1(1)] by blast
  next
    case (2 txs s1 o1 o2)
    note rd = readTxs_run [OF E inv 2(1)]
    then have "base_at N (unsentTxNum s) s1" by (simp add: base_at_def)
    then show ?thesis using k [of txs "unsentTxNum s"] rd 2(2) unfolding postA_def by blast
  qed
qed

section \<open>Static relay\<close>

lemma static_relay_handle_keeps: "keeps (base_inv N) (static_relay_HandleMsg E msg)"
  unfolding static_relay_HandleMsg_def by (intro keeps_intros keeps_modA) blast

lemma static_relay_send_keeps:
  "com_env_ok E \<Longrightarrow> keeps (base_inv N) (static_relay_SendTxsAndConsensus E V)"
  unfolding static_relay_SendTxsAndConsensus_def by (rule read_send_keeps) (simp_all add: sendTxs_ok)

section \<open>Static broker\<close>

lemma confirm_broker_keeps:
  "keeps (base_at N u) (confirm_broker1 shard tx)" "keeps (base_at N u) (confirm_broker2 shard tx)"
  "keeps (base_inv N) (confirm_broker1 shard tx)" "keeps (base_inv N) (confirm_broker2 shard tx)"
  by (auto simp: keeps_def confirm_broker1_def confirm_broker2_def base_at_def base_inv_def
      split: prod.splits sum.splits)

lemma static_broker_handle_keeps: "keeps (base_inv N) (static_broker_HandleMsg E msg)"
  unfolding static_broker_HandleMsg_def by (intro keeps_intros keeps_modA confirm_broker_keeps) blast

lemma find_broker_frame:
  "find_broker L tx shard bs s = (r, s', ms) \<Longrightarrow> unsentTxNum s' = unsentTxNum s \<and> sl s' = sl s"
  by (induction bs arbitrary: s) (auto simp: act_defs split: sum.splits prod.splits if_splits)

lemma assign_broker_keeps: "keeps (base_at N u) (assign_broker E V relayTxs it)"
proof -
  have "keeps (base_at N u) (find_broker (ce_lib E) tx shard bs)" for tx shard bs
    using find_broker_frame by (fastforce simp: keeps_def base_at_def intro: base_inv_update)
  then show ?thesis unfolding assign_broker_def by (cases it) (auto intro!: keeps_intros)
qed

lemma create_keeps: "keeps (base_at N u) (CreateBrokerTxsA V)"
  by (auto simp: keeps_def CreateBrokerTxsA_def base_at_def base_inv_def split: prod.splits)

lemma static_broker_send_keeps:
  assumes "com_env_ok E"
  shows "keeps (base_inv N) (static_broker_SendTxsAndConsensus E V)"
  unfolding static_broker_SendTxsAndConsensus_def
  by (rule read_send_keeps [OF assms])
    (auto intro!: sends_ok_bind keeps_intros assign_broker_keeps create_keeps sendTxs_ok)

section \<open>The dynamic committees\<close>

lemma runner_update_inv [simp]:
  "base_inv N (s\<lparr>runner := p\<rparr>) = base_inv N s" "base_at N u (s\<lparr>runner := p\<rparr>) = base_at N u s"
  by (simp_all add: base_inv_def base_at_def)

lemma repartition_keeps: "keeps (base_inv N) (repartition F E V)"
  unfolding repartition_def Let_def
  by (auto intro!: keeps_intros keeps_modA simp: base_inv_def)

lemma clpa_send_keeps:
  assumes "keeps (base_inv N) rs"
  shows "keeps (base_inv N) (clpa_SendTxsAndConsensus F E V rs)"
  unfolding clpa_SendTxsAndConsensus_def
  by (auto intro!: keeps_intros keeps_modA repartition_keeps assms)

lemma mark_shard_epoch_keeps: "keeps (base_inv N) (mark_shard_epoch shard e)"
  unfolding mark_shard_epoch_def by (auto intro!: keeps_intros keeps_modA)

lemma add_edges_keeps: "keeps (base_inv N) (add_edges txs)"
  unfolding add_edges_def by (auto intro!: keeps_intros keeps_modA)

lemma clpa_relay_handle_keeps: "keeps (base_inv N) (clpa_relay_HandleMsg E msg)"
  unfolding clpa_relay_HandleMsg_def
  by (auto intro!: keeps_intros keeps_modA mark_shard_epoch_keeps add_edges_keeps)

lemma clpa_relay_send_keeps:
  assumes "com_env_ok E"
  shows "keeps (base_inv N) (clpa_relay_SendTxsAndConsensus F E V)"
proof -
  have "keeps (base_inv N) (clpa_relay_readTxsAndSend E V)"
    unfolding clpa_relay_readTxsAndSend_def
    by (rule read_send_keeps [OF assms]) (auto intro!: sends_ok_bind keeps_intros sendTxs_ok)
  then show ?thesis unfolding clpa_relay_SendTxsAndConsensus_def by (rule clpa_send_keeps)
qed

lemma cb_Manager_update_inv [simp]:
  "base_inv N (s\<lparr>cb_Manager := m\<rparr>) = base_inv N s" "base_at N u (s\<lparr>cb_Manager := m\<rparr>) = base_at N u s"
  by (simp_all add: base_inv_def base_at_def)

lemma keeps_createRawTxsA: "(\<And>s m. I (s\<lparr>cb_Manager := m\<rparr>) = I s) \<Longrightarrow> keeps I (createRawTxsA E V txs)"
  unfolding createRawTxsA_def by (rule keeps_logA) (auto simp: keeps_def split: prod.splits)

lemma createRawTxsA_keeps:
  "keeps (base_inv N) (createRawTxsA E V txs)" "keeps (base_at N u) (createRawTxsA E V txs)"
  by (simp_all add: keeps_createRawTxsA)

lemma clpa_broker_handle_keeps: "keeps (base_inv N) (clpa_broker_HandleMsg E V msg)"
proof -
  have "keeps (base_inv N) (confirmA tx)" for tx
    by (auto simp: keeps_def confirmA_def split: prod.splits)
  then have "keeps (base_inv N) (handleBlockInfoMsg E b)" for b
    unfolding handleBlockInfoMsg_def Let_def
    by (auto intro!: keeps_intros keeps_modA mark_shard_epoch_keeps add_edges_keeps)
  then show ?thesis
    unfolding clpa_broker_HandleMsg_def handleTxSendAgainMsg_def by (auto intro!: keeps_intros createRawTxsA_keeps)
qed

lemma clpa_broker_send_keeps:
  assumes "com_env_ok E"
  shows "keeps (base_inv N) (clpa_broker_SendTxsAndConsensus F E V)"
proof -
  have "keeps (base_at N u) (\<lambda>s. case CreateBrokerTxs (t_now V) (cb_Manager s) of (bs, m) \<Rightarrow> (Inr bs, s\<lparr>cb_Manager := m\<rparr>, []))"
    for u by (auto simp: keeps_def split: prod.splits)
  then have "keeps (base_inv N) (clpa_broker_readTxsAndSend E V)"
    unfolding clpa_broker_readTxsAndSend_def
    by (intro read_send_keeps [OF assms]) (auto intro!: sends_ok_bind keeps_intros sendTxs_ok createRawTxsA_keeps)
  then show ?thesis unfolding clpa_broker_SendTxsAndConsensus_def by (rule clpa_send_keeps)
qed

section \<open>The contract of the committees\<close>

definition com_inv :: "'x com_env \<Rightarrow> int \<Rightarrow> ('x, 'm) committee_scheme \<Rightarrow> bool" where
  "com_inv E N s \<longleftrightarrow> com_env_ok E \<and> base_inv N s"

definition all_sent :: "('x, 'm) committee_scheme \<Rightarrow> bool" where
  "all_sent s \<longleftrightarrow> unsentTxNum s = 0"

lemma keeps_under: "(P \<Longrightarrow> keeps I m) \<Longrightarrow> keeps (\<lambda>s. P \<and> I s) m"
  unfolding keeps_def by blast

lemma com_inv_keeps: "(com_env_ok E \<Longrightarrow> keeps (base_inv N) m) \<Longrightarrow> keeps (com_inv E N) m"
  unfolding com_inv_def [abs_def] by (rule keeps_under)

lemma threshold_all_sent: "com_inv E N s \<Longrightarrow> threshold_reached s \<Longrightarrow> all_sent s"
  by (cases "0 < unsentTxNum s") (auto simp: com_inv_def base_inv_def threshold_reached_def all_sent_def)

interpretation static_relay_committee: committee_contract
  "\<lambda>V. static_relay_HandleMsg E" "static_relay_SendTxsAndConsensus E" static_relay_ShouldStop "com_inv E N" all_sent for E N
  by unfold_locales (auto intro!: com_inv_keeps static_relay_handle_keeps static_relay_send_keeps
      elim: threshold_all_sent simp: static_relay_ShouldStop_def)

interpretation static_broker_committee: committee_contract
  "\<lambda>V. static_broker_HandleMsg E" "static_broker_SendTxsAndConsensus E" static_broker_ShouldStop "com_inv E N" all_sent for E N
  by unfold_locales (auto intro!: com_inv_keeps static_broker_handle_keeps static_broker_send_keeps
      elim: threshold_all_sent simp: static_broker_ShouldStop_def)

interpretation clpa_relay_committee: committee_contract
  "\<lambda>V. clpa_relay_HandleMsg E" "clpa_relay_SendTxsAndConsensus F E" clpa_relay_ShouldStop "com_inv E N" all_sent for E N F
  by unfold_locales (auto intro!: com_inv_keeps clpa_relay_handle_keeps clpa_relay_send_keeps
      elim: threshold_all_sent simp: clpa_relay_ShouldStop_def)

interpretation clpa_broker_committee: committee_contract
  "clpa_broker_HandleMsg E" "clpa_broker_SendTxsAndConsensus F E" clpa_broker_ShouldStop "com_inv E N" all_sent for E N F
  by unfold_locales (auto intro!: com_inv_keeps clpa_broker_handle_keeps clpa_broker_send_keeps
      elim: threshold_all_sent simp: clpa_broker_ShouldStop_def)

text \<open>The committee of a supervisor, whichever it is.\<close>

definition any_inv :: "'x com_env \<Rightarrow> int \<Rightarrow> ('x, 'f) any_committee \<Rightarrow> bool" where
  "any_inv E N c = (case c of
     StaticRelay s \<Rightarrow> com_inv E N s | StaticBroker s \<Rightarrow> com_inv E N s
   | CLPARelay s \<Rightarrow> com_inv E N s | CLPABroker s \<Rightarrow> com_inv E N s)"

definition any_unsent :: "('x, 'f) any_committee \<Rightarrow> int" where
  "any_unsent c = (case c of
     StaticRelay s \<Rightarrow> unsentTxNum s | StaticBroker s \<Rightarrow> unsentTxNum s
   | CLPARelay s \<Rightarrow> unsentTxNum s | CLPABroker s \<Rightarrow> unsentTxNum s)"

lemma inside_keeps: "keeps I m \<Longrightarrow> inside C (m s) = (r, c', ms) \<Longrightarrow> I s \<Longrightarrow> \<exists>s'. c' = C s' \<and> I s'"
  by (cases "m s") (auto simp: inside_def keeps_def)

interpretation any_committee: committee_contract
  "HandleMsg E" "SendTxsAndConsensus F E" ShouldStop "any_inv E N" "\<lambda>c. any_unsent c = 0" for E N F
proof
  show "keeps (any_inv E N) (HandleMsg E V msg)" for V msg
  proof (rule keepsI)
    fix c r c' ms
    assume "any_inv E N c" "HandleMsg E V msg c = (r, c', ms)"
    then show "any_inv E N c'"
      by (cases c) (auto simp: HandleMsg_def any_inv_def
          dest!: inside_keeps [OF static_relay_committee.handle_keeps] inside_keeps [OF static_broker_committee.handle_keeps]
            inside_keeps [OF clpa_relay_committee.handle_keeps] inside_keeps [OF clpa_broker_committee.handle_keeps])
  qed
  show "keeps (any_inv E N) (SendTxsAndConsensus F E V)" for V
  proof (rule keepsI)
    fix c r c' ms
    assume "any_inv E N c" "SendTxsAndConsensus F E V c = (r, c', ms)"
    then show "any_inv E N c'"
      by (cases c) (auto simp: SendTxsAndConsensus_def any_inv_def
          dest!: inside_keeps [OF static_relay_committee.send_keeps] inside_keeps [OF static_broker_committee.send_keeps]
            inside_keeps [OF clpa_relay_committee.send_keeps] inside_keeps [OF clpa_broker_committee.send_keeps])
  qed
  show "any_unsent c = 0" if "any_inv E N c" "ShouldStop c" for c
    using that static_relay_committee.stop_injected static_broker_committee.stop_injected
      clpa_relay_committee.stop_injected clpa_broker_committee.stop_injected
    by (auto simp: any_inv_def any_unsent_def ShouldStop_def all_sent_def split: any_committee.splits)
qed

section \<open>The supervisor\<close>

text \<open>A call to the committee from the object that holds it.\<close>

context committee_contract
begin

lemma zoom_handle_keeps:
  assumes "\<And>c s. g (p c s) = c"
  shows "keeps (\<lambda>s. inv (g s)) (zoomA g p (logA (handle V msg)))"
  using keepsD [OF handle_logged] assms by (intro keeps_zoomA) auto

lemma zoom_send_keeps:
  assumes "\<And>c s. g (p c s) = c"
  shows "keeps (\<lambda>s. inv (g s)) (zoomA g p (logA (send V)))"
  using keepsD [OF send_logged] assms by (intro keeps_zoomA) auto

end

abbreviation sv_inv :: "'x com_env \<Rightarrow> int \<Rightarrow> ('x, 'f) supervisor \<Rightarrow> bool" where
  "sv_inv E N s \<equiv> any_inv E N (sv_committee s)"

lemma sv_tick_keeps: "keeps (sv_inv E N) (sv_tick F E msgs V)"
proof -
  have "keeps (sv_inv E N) (sv_handle E it)" for it
    unfolding sv_handle_def by (cases it) (auto intro!: keeps_intros keeps_modA any_committee.zoom_handle_keeps)
  then show ?thesis
    unfolding sv_tick_def by (auto intro!: keeps_intros any_committee.zoom_send_keeps)
qed

lemma sv_loop_keeps: "keeps (sv_inv E N) (sv_loop F E ticks)"
  by (induction F E ticks rule: sv_loop.induct) (auto intro!: keeps_intros sv_tick_keeps)

lemma sv_loop_stops:
  "sv_loop F E ticks sv = (Inr True, sv', ms) \<Longrightarrow> ShouldStop (sv_committee sv')"
proof (induction F E ticks arbitrary: sv ms rule: sv_loop.induct)
  case (2 F E msgList V ticks)
  show ?case
  proof (cases "ShouldStop (sv_committee sv)")
    case True
    then show ?thesis using 2(2) by (simp add: act_simps)
  next
    case False
    then obtain sv1 o1 o2 where "sv_loop F E ticks sv1 = (Inr True, sv', o2)"
      using 2(2) by (auto simp: act_simps elim!: bindA_InrE)
    then show ?thesis using 2(1) False by blast
  qed
qed (simp add: act_simps)

lemma any_inv_unsent: "any_inv E N c \<Longrightarrow> 0 \<le> any_unsent c \<and> any_unsent c \<le> N"
  by (auto simp: any_inv_def any_unsent_def com_inv_def base_inv_def split: any_committee.splits)

lemma NewSupervisor_inv:
  assumes E: "com_env_ok E" "0 \<le> ce_TxNumber E" "in_i64 (ce_TxNumber E)"
    and new: "NewSupervisor F E ty now src bm csv out = Inr sv"
  shows "sv_inv E (ce_TxNumber E) sv"
proof -
  note base = new_base_inv [OF E]
  show ?thesis using new E(1)
    by (auto simp: NewSupervisor_def bindR_Inr_iff any_inv_def com_inv_def NewStaticRelayCommittee_def
        NewStaticBrokerCommittee_def NewCLPARelayCommittee_def NewCLPABrokerCommittee_def Let_def
        intro!: base split: if_splits)
qed

lemma sv_finish_committee: "sv_finish F fmt2 E M file sv = (r, sv', ms) \<Longrightarrow> sv_committee sv' = sv_committee sv"
  by (cases "stop_nodes E") (auto simp: sv_finish_def act_simps)

lemma stop_nodes_all:
  assumes "stop_nodes E = Inr ms" "int i < ce_ShardNum E" "GetNodesInShard (ce_resolver E) (int i) = Inr ns" "n \<in> set ns"
  shows "\<exists>w. (n, w) \<in> set ms \<and> MsgType w = ''StopConsensus''"
proof -
  obtain w dest where w: "WrapMsg (ce_codec E) MStopConsensus = Inr w" "ms = GroupBroadcastMessage dest w"
    and dest: "foldR (\<lambda>destNodes i. bindR (GetNodesInShard (ce_resolver E) (int i)) (\<lambda>ls. Inr (destNodes @ ls)))
              [] [0..<nat (ce_ShardNum E)] = Inr dest"
    using assms(1) by (auto simp: stop_nodes_def bindR_Inr_iff)
  let ?step = "\<lambda>destNodes i. bindR (GetNodesInShard (ce_resolver E) (int i)) (\<lambda>ls. Inr (destNodes @ ls))"
  have "set acc \<subseteq> set dest' \<and> (\<forall>k \<in> set ks. \<forall>ns. GetNodesInShard (ce_resolver E) (int k) = Inr ns \<longrightarrow> set ns \<subseteq> set dest')"
    if "foldR ?step acc ks = Inr dest'" for ks acc dest' using that
  proof (induction ks arbitrary: acc)
    case (Cons k ks)
    then obtain ls where ls: "GetNodesInShard (ce_resolver E) (int k) = Inr ls" "foldR ?step (acc @ ls) ks = Inr dest'"
      by (auto simp: bindR_Inr_iff)
    show ?case using Cons.IH [OF ls(2)] ls(1) by simp
  qed simp
  moreover have "i \<in> set [0..<nat (ce_ShardNum E)]" using assms(2) by auto
  ultimately have "n \<in> set dest" using dest assms(3,4) by blast
  then show ?thesis using w by (auto simp: GroupBroadcastMessage_def getMsgType_def)
qed


section \<open>Examples\<close>

text \<open>One shard, one random transfer, and five empty blocks after it.\<close>

definition example_empty_block :: RelayBlockInfoMsg where
  "example_empty_block = \<lparr>rb_InnerShardTxs = [], rb_Relay1Txs = [], rb_Relay2Txs = [], rb_Epoch = 0,
     rb_BlockProposeTime = 0, rb_BlockCommitTime = 1, rb_ShardID = 0\<rparr>"

definition example_com_codec :: codec where
  "example_com_codec = (m_codec example_measure)
     \<lparr>enc := (\<lambda>m. Some []), dec_relay_block_info := (\<lambda>b. Some example_empty_block)\<rparr>"

definition example_com_env :: "tx_source com_env" where
  "example_com_env =
     \<lparr>ce_lib = m_lib example_measure, ce_codec = example_com_codec,
      ce_resolver = \<lparr>leaders = [(0, NodeInfo 0 0)], shard2nodes = [(0, [NodeInfo 0 0])]\<rparr>,
      ce_ShardNum = 1, ce_TxNumber = 1, ce_TxInjectionSpeed = 10, ce_EpochDuration = 10, ce_read = ReadTxs\<rparr>"

lemma example_com_env_ok: "com_env_ok example_com_env"
  using source.read_at_most by (auto simp: com_env_ok_def example_com_env_def)

definition example_tick :: tick_in where
  "example_tick = \<lparr>t_src = \<lparr>se_now = 5, se_draws = [\<lparr>d_sender = 1, d_receiver = [1, 2], d_amount = 30\<rparr>],
     se_unmarshal = (\<lambda>l. None)\<rparr>, t_orders = [], t_shuffle = (\<lambda>k bs. bs), t_picks = []\<rparr>"

definition example_ticks :: "((tick_in \<times> WrappedMsg) list \<times> tick_in) list" where
  "example_ticks =
     [([], example_tick),
      (replicate 5 (example_tick, \<lparr>MsgType = ''RelayBlockInfo'', Payload = []\<rparr>), example_tick),
      ([], example_tick)]"

definition example_supervisor :: "(tx_source, int) supervisor" where
  "example_supervisor =
     \<lparr>sv_committee = StaticRelay \<lparr>txSource = Random NewRandomSource, sl = newStopLogic 1, unsentTxNum = 1\<rparr>,
      sv_measure = RelayMeasure (projr (NewRelayStats (Inr ()))), measureMsgBuf = []\<rparr>"

lemmas example_com_defs = example_com_env_def example_com_codec_def example_tick_def example_ticks_def
  example_supervisor_def

lemma example_read:
  "\<exists>tx src. ReadTxs (t_src example_tick) 1 (Random NewRandomSource) = (Inr [tx], Random src)"
  by (simp add: ReadTxs_def random_ReadTxs_def generateRandomTransaction_def example_tick_def Let_def numeral_eq_Suc)

lemma example_loc: "DefaultAccountLoc a 1 = Inr 0"
  by (simp add: DefaultAccountLoc_def)

lemma example_read_none: "ReadTxs V 0 (Random src) = (Inr [], Random src)"
  by (simp add: ReadTxs_def random_ReadTxs_def)

lemma example_new:
  "NewSupervisor F example_com_env ''static_relay'' 0 (Inr (Random NewRandomSource)) bm (Inr ()) (Inr ()) = Inr example_supervisor"
  by (simp add: NewSupervisor_def NewRelayStats_def NewStaticRelayCommittee_def example_com_defs)

lemma example_send:
  "\<exists>src ms. static_relay_SendTxsAndConsensus example_com_env example_tick
     \<lparr>txSource = Random NewRandomSource, sl = newStopLogic 1, unsentTxNum = 1\<rparr>
   = (Inr (), \<lparr>txSource = Random src, sl = newStopLogic 1, unsentTxNum = 0\<rparr>, ms)"
proof -
  obtain tx src where rd: "ReadTxs (t_src example_tick) 1 (Random NewRandomSource) = (Inr [tx], Random src)"
    using example_read by blast
  show ?thesis
    by (simp add: static_relay_SendTxsAndConsensus_def readTxs_def sendTxs_def example_com_env_def example_com_codec_def
        run_bindA rd packShardTxs_def pack_tx_def static_relay_getTxLoc_def example_loc act_simps
        SendWrappedTxs2Shards_def wrap_txs_for_def empty_buckets_def bucket_add_def modify_at_def GetLeader_def WrapMsg_def go_int in_i64_def)
qed

lemma example_idle:
  "static_relay_SendTxsAndConsensus example_com_env example_tick \<lparr>txSource = Random src, sl = l, unsentTxNum = 0\<rparr>
   = (Inr (), \<lparr>txSource = Random src, sl = l, unsentTxNum = 0\<rparr>, [])"
  by (simp add: static_relay_SendTxsAndConsensus_def readTxs_def sendTxs_def example_com_env_def example_com_codec_def
      run_bindA example_read_none packShardTxs_def act_simps SendWrappedTxs2Shards_def wrap_txs_for_def
      empty_buckets_def GetLeader_def go_int in_i64_def)

lemma example_blocks:
  "forA (sv_handle example_com_env) (replicate n (example_tick, \<lparr>MsgType = ''RelayBlockInfo'', Payload = []\<rparr>))
     \<lparr>sv_committee = StaticRelay \<lparr>txSource = x, sl = \<lparr>stopThreshold = t, stopCnt = int k\<rparr>, unsentTxNum = 0\<rparr>,
      sv_measure = m, measureMsgBuf = buf\<rparr>
   = (Inr (), \<lparr>sv_committee = StaticRelay \<lparr>txSource = x, sl = \<lparr>stopThreshold = t, stopCnt = int (k + n)\<rparr>, unsentTxNum = 0\<rparr>,
      sv_measure = m, measureMsgBuf = buf @ replicate n \<lparr>MsgType = ''RelayBlockInfo'', Payload = []\<rparr>\<rparr>, [])"
  if "k + n < 100"
  using that
proof (induction n arbitrary: k buf)
  case (Suc n)
  have "i64 (int k + 1) = int (Suc k)" using Suc.prems by (simp add: go_int in_i64_def)
  then show ?case
    using Suc.IH [of "Suc k"] Suc.prems
    by (simp add: sv_handle_def act_simps zoomA_def logA_def HandleMsg_def inside_def static_relay_HandleMsg_def
        example_com_env_def example_com_codec_def run_bindA orErr_def count_block_def relay_block_empty_def
        example_empty_block_def )
qed (simp add: act_simps)

lemma example_stop_nodes: "\<exists>ms. stop_nodes example_com_env = Inr ms"
  by (simp add: stop_nodes_def example_com_env_def example_com_codec_def WrapMsg_def GetNodesInShard_def)

lemma example_start:
  "\<exists>written sv' ms. Start F fmt2 example_com_env M file example_ticks example_supervisor = (Inr (Some written), sv', ms)"
proof -
  obtain src ms where send: "static_relay_SendTxsAndConsensus example_com_env example_tick
     \<lparr>txSource = Random NewRandomSource, sl = newStopLogic 1, unsentTxNum = 1\<rparr>
   = (Inr (), \<lparr>txSource = Random src, sl = newStopLogic 1, unsentTxNum = 0\<rparr>, ms)" using example_send by blast
  obtain ms2 where "stop_nodes example_com_env = Inr ms2" using example_stop_nodes by blast
  moreover have "newStopLogic 1 = \<lparr>stopThreshold = 5, stopCnt = int 0\<rparr>" by (simp add: newStopLogic_def stopThresholdPerShard_def go_int in_i64_def)
  ultimately show ?thesis
    using send
    by (simp add: example_blocks [of 0 5, simplified] Start_def example_ticks_def example_supervisor_def sv_loop.simps act_simps run_bindA sv_tick_def
        zoomA_def logA_def SendTxsAndConsensus_def inside_def ShouldStop_def static_relay_ShouldStop_def
        threshold_reached_def example_idle  sv_finish_def)
qed


end
