(* ===== verification/Network.thy ===== *)
theory Network
  imports Message
begin

text \<open>
  The connections of the nodes over gRPC (\<open>pkg/network/clientconnrpc/rpcconn.go\<close>) and the handler that
  broadcasts over them (\<open>pkg/network/network.go\<close>). A network is the connections of all nodes; gRPC
  runs the method of the server that listens at an address. Sends of one node are serialised by its
  lock, and a buffer is guarded by another, so a network changes one message at a time.
\<close>

section \<open>The buffer\<close>

definition msgBufferSize :: nat where
  "msgBufferSize = 1048576"

definition add2LocalBuffer :: "WrappedMsg \<Rightarrow> WrappedMsg list \<Rightarrow> unit result \<times> WrappedMsg list" where
  "add2LocalBuffer msg buf =
     (if length buf < msgBufferSize then (Inr (), buf @ [msg]) else (Inl (Errorf ''message buffer is full or closed''), buf))"

section \<open>A connection\<close>

record RPCConn =
  rpc_me :: NodeInfo
  info2Host :: "(NodeInfo, string) gomap"
  msgBuffer :: "WrappedMsg list"
  clientPool :: "(NodeInfo, string) gomap"

definition NewRPCConn :: "NodeInfo \<Rightarrow> (NodeInfo, string) gomap \<Rightarrow> RPCConn" where
  "NewRPCConn me table = \<lparr>rpc_me = me, info2Host = table, msgBuffer = [], clientPool = []\<rparr>"

text \<open>The address at which \<open>ListenStart\<close> listens; a missing entry is the empty string.\<close>

definition listen_addr :: "RPCConn \<Rightarrow> string" where
  "listen_addr c = get_or [] (info2Host c) (rpc_me c)"

definition HandleMessage :: "WrappedMsg \<Rightarrow> RPCConn \<Rightarrow> unit result \<times> RPCConn" where
  "HandleMessage msg c = (case add2LocalBuffer msg (msgBuffer c) of (r, buf) \<Rightarrow> (r, c\<lparr>msgBuffer := buf\<rparr>))"

definition DrainMsgBuffer :: "RPCConn \<Rightarrow> WrappedMsg list \<times> RPCConn" where
  "DrainMsgBuffer c = (msgBuffer c, c\<lparr>msgBuffer := []\<rparr>)"

text \<open>The client for a node: its address, from the pool or, if \<open>grpc.NewClient\<close> accepts it, new.\<close>

definition client_for :: "(string \<Rightarrow> bool) \<Rightarrow> NodeInfo \<Rightarrow> RPCConn \<Rightarrow> string result \<times> RPCConn" where
  "client_for newClient dest c =
     (case map_of (info2Host c) dest of
        None \<Rightarrow> (Inl (Errorf ''node not exist in the p2p connection''), c)
      | Some addr \<Rightarrow>
          (case map_of (clientPool c) dest of
             Some a \<Rightarrow> (Inr a, c)
           | None \<Rightarrow>
               if \<not> newClient addr then (Inl (Errorf ''gRPC client fail to connect''), c)
               else (Inr addr, c\<lparr>clientPool := AList.update dest addr (clientPool c)\<rparr>)))"

section \<open>The network\<close>

type_synonym net = "(NodeInfo, RPCConn) gomap"

text \<open>Only one server can listen at an address: the first that was started.\<close>

definition server_at :: "string \<Rightarrow> net \<Rightarrow> NodeInfo option" where
  "server_at addr net = map_option fst (find (\<lambda>(n, c). listen_addr c = addr) net)"

definition sendMessage :: "(string \<Rightarrow> bool) \<Rightarrow> NodeInfo \<Rightarrow> NodeInfo \<Rightarrow> WrappedMsg \<Rightarrow> net \<Rightarrow> unit result \<times> net" where
  "sendMessage newClient src dest msg net =
     (case map_of net src of
        None \<Rightarrow> (Inl (Errorf ''no such node''), net)
      | Some c \<Rightarrow>
          if rpc_me c = dest then
            (case HandleMessage msg c of (r, c') \<Rightarrow> (r, AList.update src c' net))
          else
            (case client_for newClient dest c of
               (Inl e, c') \<Rightarrow> (Inl e, AList.update src c' net)
             | (Inr addr, c') \<Rightarrow>
                 let net1 = AList.update src c' net
                 in case server_at addr net1 of
                      None \<Rightarrow> (Inl (Errorf ''gRPC client fail to send message''), net1)
                    | Some d \<Rightarrow>
                        (case map_of net1 d of
                           None \<Rightarrow> (Inl (Errorf ''gRPC client fail to send message''), net1)
                         | Some cd \<Rightarrow> (case HandleMessage msg cd of (r, cd') \<Rightarrow> (r, AList.update d cd' net1)))))"

text \<open>An error is logged and dropped.\<close>

definition SendMsg2Dest :: "(string \<Rightarrow> bool) \<Rightarrow> NodeInfo \<Rightarrow> NodeInfo \<Rightarrow> WrappedMsg \<Rightarrow> net \<Rightarrow> net" where
  "SendMsg2Dest newClient src dest msg net = snd (sendMessage newClient src dest msg net)"

text \<open>
  Both broadcasts start a goroutine per message and wait for all; the list is in the order in which
  the messages are sent, which may be any.
\<close>

definition MSendDifferentMessages :: "(string \<Rightarrow> bool) \<Rightarrow> NodeInfo \<Rightarrow> sends \<Rightarrow> net \<Rightarrow> net" where
  "MSendDifferentMessages newClient src node2Msg net = fold (\<lambda>(d, m). SendMsg2Dest newClient src d m) node2Msg net"

definition GroupBroadcastMessage :: "(string \<Rightarrow> bool) \<Rightarrow> NodeInfo \<Rightarrow> NodeInfo list \<Rightarrow> WrappedMsg \<Rightarrow> net \<Rightarrow> net" where
  "GroupBroadcastMessage newClient src group' msg net = fold (\<lambda>d. SendMsg2Dest newClient src d msg) group' net"

section \<open>Delivery\<close>

text \<open>Every node runs with one table, in which no two nodes share an address.\<close>

definition table_ok :: "(NodeInfo, string) gomap \<Rightarrow> bool" where
  "table_ok table \<longleftrightarrow> (\<forall>n m a. map_of table n = Some a \<longrightarrow> map_of table m = Some a \<longrightarrow> n = m)"

definition net_ok :: "(NodeInfo, string) gomap \<Rightarrow> net \<Rightarrow> bool" where
  "net_ok table net \<longleftrightarrow> gomap net \<and>
     (\<forall>n c. map_of net n = Some c \<longrightarrow> rpc_me c = n \<and> info2Host c = table \<and> map_of table n \<noteq> None \<and>
        (\<forall>d a. map_of (clientPool c) d = Some a \<longrightarrow> map_of table d = Some a))"

definition buffer_of :: "net \<Rightarrow> NodeInfo \<Rightarrow> WrappedMsg list" where
  "buffer_of net n = (case map_of net n of None \<Rightarrow> [] | Some c \<Rightarrow> msgBuffer c)"

lemma net_ok_update:
  assumes "net_ok table net" "rpc_me c = n" "info2Host c = table" "map_of table n \<noteq> None"
    "\<forall>d a. map_of (clientPool c) d = Some a \<longrightarrow> map_of table d = Some a"
  shows "net_ok table (AList.update n c net)"
  using assms by (simp add: net_ok_def)

lemma find_SomeD: "find P xs = Some x \<Longrightarrow> x \<in> set xs \<and> P x"
  by (induction xs) (auto split: if_splits)

lemma server_at_own:
  assumes "table_ok table" "net_ok table net" "map_of net d = Some c" "map_of table d = Some addr"
  shows "server_at addr net = Some d"
proof -
  have own: "listen_addr c = a" if "map_of net n = Some c" "map_of table n = Some a" for n c a
  proof -
    have "rpc_me c = n" "info2Host c = table" using assms(2) that(1) unfolding net_ok_def by blast+
    then show ?thesis using that(2) by (simp add: listen_addr_def get_or_def)
  qed
  have d: "(d, c) \<in> set net" "listen_addr c = addr" using map_of_SomeD [OF assms(3)] own [OF assms(3,4)] .
  have "find (\<lambda>(n, c). listen_addr c = addr) net \<noteq> None"
  proof
    assume "find (\<lambda>(n, c). listen_addr c = addr) net = None"
    then have "\<not> (\<exists>x. x \<in> set net \<and> (\<lambda>(n, c). listen_addr c = addr) x)" by (rule find_None_iff [THEN iffD1])
    moreover have "(d, c) \<in> set net \<and> (\<lambda>(n, c). listen_addr c = addr) (d, c)" using d by simp
    ultimately show False by (rule notE [OF _ exI])
  qed
  then obtain n c' where f: "find (\<lambda>(n, c). listen_addr c = addr) net = Some (n, c')" by (elim not_None_eq [THEN iffD1, THEN exE]) (metis surj_pair)
  have n: "(n, c') \<in> set net" "listen_addr c' = addr" using find_SomeD [OF f] by (simp_all only: split_conv)
  have "gomap net" using assms(2) unfolding net_ok_def by (rule conjunct1)
  then have "map_of net n = Some c'" using n(1) by (simp only: gomap_map_of)
  moreover from this obtain a where "map_of table n = Some a" using assms(2) unfolding net_ok_def by blast
  ultimately have "map_of table n = Some addr" using own n(2) by simp
  then have "n = d" using assms(1,4) unfolding table_ok_def by blast
  then show ?thesis using f by (simp add: server_at_def)
qed

lemma send_delivers:
  assumes T: "table_ok table" and N: "net_ok table net" and new: "\<forall>a. newClient a"
    and src: "map_of net src \<noteq> None" and dest: "map_of net dest \<noteq> None" and room: "length (buffer_of net dest) < msgBufferSize"
  shows "net_ok table (SendMsg2Dest newClient src dest msg net) \<and>
    (\<forall>n. (map_of (SendMsg2Dest newClient src dest msg net) n = None) = (map_of net n = None)) \<and>
    buffer_of (SendMsg2Dest newClient src dest msg net) = (buffer_of net)(dest := buffer_of net dest @ [msg])"
proof -
  obtain c where c: "map_of net src = Some c" "rpc_me c = src" "info2Host c = table" "map_of table src \<noteq> None"
    "\<forall>d a. map_of (clientPool c) d = Some a \<longrightarrow> map_of table d = Some a"
    using src N by (auto simp: net_ok_def)
  show ?thesis
  proof (cases "src = dest")
    case True
    let ?c = "c\<lparr>msgBuffer := msgBuffer c @ [msg]\<rparr>"
    have "length (msgBuffer c) < msgBufferSize" using room True c(1) by (simp add: buffer_of_def)
    then have run: "SendMsg2Dest newClient src dest msg net = AList.update src ?c net"
      using c(1,2) True by (simp add: SendMsg2Dest_def sendMessage_def HandleMessage_def add2LocalBuffer_def)
    have "net_ok table (AList.update src ?c net)" using c by (intro net_ok_update [OF N]) simp_all
    then show ?thesis unfolding run using c(1) True by (auto simp: buffer_of_def fun_eq_iff)
  next
    case False
    obtain cd where cd: "map_of net dest = Some cd" "map_of table dest \<noteq> None" using dest N by (auto simp: net_ok_def)
    then obtain addr where addr: "map_of table dest = Some addr" by blast
    obtain c' where c': "client_for newClient dest c = (Inr addr, c')" "rpc_me c' = src" "info2Host c' = table"
      "\<forall>d a. map_of (clientPool c') d = Some a \<longrightarrow> map_of table d = Some a" "msgBuffer c' = msgBuffer c"
      using c addr new by (cases "map_of (clientPool c) dest") (auto simp: client_for_def)
    let ?net = "AList.update src c' net" let ?cd = "cd\<lparr>msgBuffer := msgBuffer cd @ [msg]\<rparr>"
    have N1: "net_ok table ?net" using c(4) c' by (intro net_ok_update [OF N])
    have d1: "map_of ?net dest = Some cd" using cd(1) False by simp
    have "length (msgBuffer cd) < msgBufferSize" using room cd(1) by (simp add: buffer_of_def)
    then have run: "SendMsg2Dest newClient src dest msg net = AList.update dest ?cd ?net"
      using c(1,2) False c'(1) server_at_own [OF T N1 d1 addr] d1
      by (simp add: SendMsg2Dest_def sendMessage_def HandleMessage_def add2LocalBuffer_def Let_def)
    have "net_ok table (AList.update dest ?cd ?net)"
      using N cd(1) by (intro net_ok_update [OF N1]) (auto simp: net_ok_def)
    then show ?thesis unfolding run using c(1) cd(1) False c'(5) by (auto simp: buffer_of_def fun_eq_iff)
  qed
qed

text \<open>What a list of sends brings to a node.\<close>

definition for_node :: "sends \<Rightarrow> NodeInfo \<Rightarrow> WrappedMsg list" where
  "for_node ss n = map snd (filter (\<lambda>(d, m). d = n) ss)"

lemma sends_deliver:
  assumes T: "table_ok table" and N: "net_ok table net" and new: "\<forall>a. newClient a" and src: "map_of net src \<noteq> None"
    and dest: "\<forall>(d, m) \<in> set ss. map_of net d \<noteq> None"
    and room: "\<forall>n. length (buffer_of net n) + length (for_node ss n) \<le> msgBufferSize"
  shows "net_ok table (MSendDifferentMessages newClient src ss net) \<and>
    buffer_of (MSendDifferentMessages newClient src ss net) = (\<lambda>n. buffer_of net n @ for_node ss n)"
  using N src dest room
proof (induction ss arbitrary: net)
  case Nil
  then show ?case by (simp add: MSendDifferentMessages_def for_node_def)
next
  case (Cons s ss)
  obtain d m where s: "s = (d, m)" by fastforce
  let ?net = "SendMsg2Dest newClient src d m net"
  have "length (buffer_of net d) + length (for_node (s # ss) d) \<le> msgBufferSize" using Cons.prems(4) by blast
  then have "length (buffer_of net d) < msgBufferSize" unfolding s for_node_def by simp
  then have step: "net_ok table ?net" "\<forall>n. (map_of ?net n = None) = (map_of net n = None)"
    "buffer_of ?net = (buffer_of net)(d := buffer_of net d @ [m])"
    using send_delivers [OF T Cons.prems(1) new Cons.prems(2), of d m] Cons.prems(3) s by auto
  have split: "for_node (s # ss) n = (if n = d then [m] else []) @ for_node ss n" for n by (simp add: s for_node_def)
  have "length (buffer_of ?net n) + length (for_node ss n) \<le> msgBufferSize" for n
    using Cons.prems(4) [rule_format, of n] unfolding split step(3) by (simp split: if_splits)
  then have "net_ok table (MSendDifferentMessages newClient src ss ?net) \<and>
      buffer_of (MSendDifferentMessages newClient src ss ?net) = (\<lambda>n. buffer_of ?net n @ for_node ss n)"
    using Cons.prems(2,3) step(1,2) by (intro Cons.IH) auto
  moreover have "MSendDifferentMessages newClient src (s # ss) net = MSendDifferentMessages newClient src ss ?net"
    by (simp add: MSendDifferentMessages_def s)
  ultimately show ?case unfolding split step(3) by (simp add: fun_eq_iff)
qed

lemma broadcast_as_sends: "GroupBroadcastMessage newClient src group' msg = MSendDifferentMessages newClient src (map (\<lambda>d. (d, msg)) group')"
  by (simp add: GroupBroadcastMessage_def MSendDifferentMessages_def fold_map comp_def fun_eq_iff)

lemma for_node_broadcast: "for_node (map (\<lambda>d. (d, msg)) group') n = replicate (count_list group' n) msg"
  by (induction group') (simp_all add: for_node_def)

end
