(* ===== verification/LibP2P.thy ===== *)
theory LibP2P
  imports Network
begin

text \<open>
  The connections over libp2p (\<open>pkg/network/connlibp2p\<close>): the nodes register with the supervisor, which
  keeps the map from nodes to peers and broadcasts it, and every node derives its topology from it.
  The host, its streams, the hash table and the relay of libp2p, and JSON, are parameters.
\<close>

section \<open>State\<close>

record LibP2PConn =
  lp_me :: NodeInfo
  info2PeerID :: "(int, (int, string) gomap) gomap"
  lp_buffer :: "WrappedMsg list"
  lp_nodeM :: TopoGetter
  lp_BootstrapPeer :: string

record NodeRegisterMsg =
  nr_ShardID :: int
  nr_NodeID :: int
  nr_PeerID :: string

definition NewLibP2PConn :: "string \<Rightarrow> NodeInfo \<Rightarrow> TopoGetter \<Rightarrow> LibP2PConn" where
  "NewLibP2PConn bootstrapPeer me nodeM =
     \<lparr>lp_me = me, info2PeerID = [(SupervisorShardID, [(0, bootstrapPeer)])], lp_buffer = [], lp_nodeM = nodeM,
      lp_BootstrapPeer = bootstrapPeer\<rparr>"

section \<open>Messages\<close>

definition lp_DrainMsgBuffer :: "LibP2PConn \<Rightarrow> WrappedMsg list \<times> LibP2PConn" where
  "lp_DrainMsgBuffer l = (lp_buffer l, l\<lparr>lp_buffer := []\<rparr>)"

definition lp_add2LocalBuffer :: "WrappedMsg \<Rightarrow> LibP2PConn \<Rightarrow> unit result \<times> LibP2PConn" where
  "lp_add2LocalBuffer msg l = (case add2LocalBuffer msg (lp_buffer l) of (r, buf) \<Rightarrow> (r, l\<lparr>lp_buffer := buf\<rparr>))"

text \<open>The data of a stream, what was read of it before an error included, is decoded and buffered.\<close>

definition lp_handleMessage :: "(string \<Rightarrow> WrappedMsg option) \<Rightarrow> string \<Rightarrow> LibP2PConn \<Rightarrow> LibP2PConn" where
  "lp_handleMessage unmarshal data l =
     (case unmarshal data of None \<Rightarrow> l | Some msg \<Rightarrow> snd (lp_add2LocalBuffer msg l))"

text \<open>\<open>sendMessage\<close>: a message to oneself is buffered, any other is written to a stream to the peer.\<close>

definition lp_sendMessage ::
    "(string \<Rightarrow> string option) \<Rightarrow> (string \<Rightarrow> bool) \<Rightarrow> (WrappedMsg \<Rightarrow> string option) \<Rightarrow> (string \<Rightarrow> bool) \<Rightarrow> NodeInfo \<Rightarrow> WrappedMsg \<Rightarrow>
     LibP2PConn \<Rightarrow> unit result \<times> LibP2PConn \<times> (string \<times> string) list" where
  "lp_sendMessage decodePeer newStream marshal written dest msg l =
     (if lp_me l = dest then (case lp_add2LocalBuffer msg l of (r, l') \<Rightarrow> (r, l', []))
      else
        (case decodePeer (get_or [] (get_or [] (info2PeerID l) (ShardID dest)) (NodeID dest)) of
           None \<Rightarrow> (Inl (Errorf ''invalid peer ID''), l, [])
         | Some target \<Rightarrow>
             if \<not> newStream target then (Inl (Errorf ''p2pDial failed to open stream''), l, [])
             else (case marshal msg of
                None \<Rightarrow> (Inl (Errorf ''failed to marshal message''), l, [])
              | Some data \<Rightarrow>
                  if \<not> written target then (Inl (Errorf ''write message to stream failed''), l, [])
                  else (Inr (), l, [(target, data)]))))"

section \<open>Registration\<close>

text \<open>What a node writes to the supervisor; the host is \<open>None\<close> before it is initialised.\<close>

definition registerNodeInfo ::
    "(string \<Rightarrow> string option) \<Rightarrow> (NodeRegisterMsg \<Rightarrow> string option) \<Rightarrow> string option \<Rightarrow> LibP2PConn \<Rightarrow> (string \<times> string) result" where
  "registerNodeInfo decodePeer marshal host l =
     (case host of
        None \<Rightarrow> Inl (Errorf ''libp2p not initialized'')
      | Some peerID \<Rightarrow>
          bindR (orErr ''invalid relay peer ID'' (decodePeer (lp_BootstrapPeer l))) (\<lambda>relay.
          bindR (orErr ''marshal node info failed''
                   (marshal \<lparr>nr_ShardID = ShardID (lp_me l), nr_NodeID = NodeID (lp_me l), nr_PeerID = peerID\<rparr>)) (\<lambda>data.
          Inr (relay, data))))"

text \<open>
  The supervisor's handler of a registration: the acknowledgement it writes, whether it wakes the
  broadcaster, and its state.
\<close>

definition handleRegisterStream ::
    "(string \<Rightarrow> NodeRegisterMsg option) \<Rightarrow> string \<Rightarrow> string result \<Rightarrow> LibP2PConn \<Rightarrow> string option \<times> bool \<times> LibP2PConn" where
  "handleRegisterStream unmarshal remotePeer stream l =
     (case bindR stream (\<lambda>data. orErr ''invalid node info JSON'' (unmarshal data)) of
        Inl e \<Rightarrow> (None, False, l)
      | Inr info \<Rightarrow>
          if nr_PeerID info \<noteq> remotePeer then (Some ''registered failed'', False, l)
          else
            let row = get_or [] (info2PeerID l) (nr_ShardID info);
                m = AList.update (nr_ShardID info) (AList.update (nr_NodeID info) (nr_PeerID info) row) (info2PeerID l)
            in (Some ''registered succeed'', True, l\<lparr>info2PeerID := m, lp_nodeM := SetTopoGetter m\<rparr>))"

text \<open>The broadcast of the map to all connected peers but the host itself.\<close>

definition broadcastNode2PeerIdMap ::
    "((int, (int, string) gomap) gomap \<Rightarrow> string option) \<Rightarrow> string list \<Rightarrow> string \<Rightarrow> LibP2PConn \<Rightarrow> (string \<times> string) list result" where
  "broadcastNode2PeerIdMap marshal conns host l =
     bindR (orErr ''failed to marshal node-to-Peer Msg'' (marshal (info2PeerID l))) (\<lambda>data.
     Inr (map (\<lambda>p. (p, data)) (filter (\<lambda>p. p \<noteq> host) conns)))"

definition handleIdMapMessage ::
    "(string \<Rightarrow> (int, (int, string) gomap) gomap option) \<Rightarrow> string result \<Rightarrow> LibP2PConn \<Rightarrow> LibP2PConn" where
  "handleIdMapMessage unmarshal stream l =
     (case bindR stream (\<lambda>data. orErr ''failed to unmarshal id map'' (unmarshal data)) of
        Inl e \<Rightarrow> l
      | Inr m \<Rightarrow> l\<lparr>info2PeerID := m, lp_nodeM := SetTopoGetter m\<rparr>)"

text \<open>The broadcaster: it broadcasts at a tick if the map was updated since the last broadcast.\<close>

datatype sender_event = IdMapUpdate | SenderTick

fun throttledSender :: "bool \<Rightarrow> sender_event list \<Rightarrow> bool list" where
  "throttledSender hasNewMsg [] = []"
| "throttledSender hasNewMsg (IdMapUpdate # es) = False # throttledSender True es"
| "throttledSender hasNewMsg (SenderTick # es) = hasNewMsg # throttledSender False es"

section \<open>The bootstrap key\<close>

definition loadBootstrapKey :: "(string \<Rightarrow> 'k option) \<Rightarrow> string result \<Rightarrow> 'k result" where
  "loadBootstrapKey unmarshal file' = bindR file' (\<lambda>data. orErr ''failed to unmarshal private key'' (unmarshal data))"

text \<open>A new key, with the data that is saved.\<close>

definition generateBootstrapKey :: "('k \<Rightarrow> string option) \<Rightarrow> 'k result \<Rightarrow> unit result \<Rightarrow> ('k \<times> string) result" where
  "generateBootstrapKey marshal generated saved =
     bindR generated (\<lambda>sk.
     bindR (orErr ''failed to marshal key'' (marshal sk)) (\<lambda>data.
     bindR saved (\<lambda>_. Inr (sk, data))))"

definition loadOrInitBootstrapKey ::
    "(string \<Rightarrow> 'k option) \<Rightarrow> ('k \<Rightarrow> string option) \<Rightarrow> string result \<Rightarrow> 'k result \<Rightarrow> unit result \<Rightarrow> ('k \<times> string option) result" where
  "loadOrInitBootstrapKey unmarshal marshal file' generated saved =
     (case loadBootstrapKey unmarshal file' of
        Inr sk \<Rightarrow> Inr (sk, None)
      | Inl _ \<Rightarrow> bindR (generateBootstrapKey marshal generated saved) (\<lambda>(sk, data). Inr (sk, Some data)))"

section \<open>What they promise\<close>

text \<open>A key that was generated and saved is the one that the next start loads.\<close>

lemma bootstrap_key_kept:
  assumes "\<forall>k data. marshal k = Some data \<longrightarrow> unmarshal data = Some k"
    and "loadOrInitBootstrapKey unmarshal marshal file' generated saved = Inr (sk, Some data)"
  shows "loadOrInitBootstrapKey unmarshal marshal (Inr data) generated' saved' = Inr (sk, None)"
  using assms by (auto simp: loadOrInitBootstrapKey_def loadBootstrapKey_def generateBootstrapKey_def bindR_Inr_iff orErr_def
      split: sum.splits option.splits)

text \<open>The tick after an update broadcasts.\<close>

lemma update_is_broadcast:
  assumes "SenderTick \<notin> set es"
  shows "throttledSender b (IdMapUpdate # es @ SenderTick # es') ! Suc (length es)"
proof -
  have "throttledSender True (es @ SenderTick # es') ! length es"
    using assms
  proof (induction es)
    case (Cons e es)
    then show ?case by (cases e) simp_all
  qed simp
  then show ?thesis by simp
qed

text \<open>What a map says is registered, and what a topology knows.\<close>

definition registered :: "(int, (int, string) gomap) gomap \<Rightarrow> (int \<times> int) set" where
  "registered m = {(s, n). \<exists>row p. map_of m s = Some row \<and> map_of row n = Some p}"

definition idmap_ok :: "(int, (int, string) gomap) gomap \<Rightarrow> bool" where
  "idmap_ok m \<longleftrightarrow> gomap m \<and> (\<forall>s row. map_of m s = Some row \<longrightarrow> gomap row)"

definition topo_knows :: "TopoGetter \<Rightarrow> (int \<times> int) set \<Rightarrow> bool" where
  "topo_knows t R \<longleftrightarrow>
     gomap (leaders t) \<and>
     (\<forall>s. s \<noteq> SupervisorShardID \<longrightarrow> map_of (leaders t) s = (if (s, 0) \<in> R then Some (NodeInfo 0 s) else None)) \<and>
     map_of (leaders t) SupervisorShardID = Some (NodeInfo 0 SupervisorShardID) \<and>
     (\<forall>s. s \<noteq> SupervisorShardID \<longrightarrow>
        distinct (get_or [] (shard2nodes t) s) \<and> set (get_or [] (shard2nodes t) s) = {NodeInfo n s |n. (s, n) \<in> R} \<and>
        (map_of (shard2nodes t) s = None \<longleftrightarrow> (\<forall>n. (s, n) \<notin> R)))"

end
