(* ===== verification/AgentTrace.thy ===== *)
theory AgentTrace
  imports CoreTypes Scan "HOL-Library.List_Lexorder" "HOL-Library.Product_Lexorder"
begin

text \<open>
  The inputs of the agent emulator: its configuration (\<open>agentsupervisor/config.go\<close>) and the trace
  of agent actions and plain transfers (\<open>agentsupervisor/trace.go\<close>). The YAML and JSON packages
  are functions that decode a file and a line.
\<close>

section \<open>Configuration\<close>

record Config =
  BlockEmulatorConfig :: string
  ResultDir :: string
  ModuleRoot :: string
  Seed :: int
  TracePath :: string
  ChainEnabled :: bool
  RunTimeoutSeconds :: int
  NodeExitGraceSeconds :: int
  MaxRounds :: int
  PayPlugin :: string
  PayContractAddress :: string
  IdentityPlugin :: string
  IdentityContractAddress :: string

definition default_int :: "int \<Rightarrow> int \<Rightarrow> int" where
  "default_int d x = (if x \<le> 0 then d else x)"

definition LoadConfig :: "(string \<Rightarrow> Config option) \<Rightarrow> string result \<Rightarrow> Config result" where
  "LoadConfig unmarshal file =
     bindR file (\<lambda>b.
     bindR (orErr ''unmarshal agentemu config'' (unmarshal b)) (\<lambda>cfg.
     if ResultDir cfg = [] \<or> TracePath cfg = [] then
       Inl (Errorf ''base.result_dir and experiment.trace are required'')
     else
       let cfg1 = (if ModuleRoot cfg = [] then cfg\<lparr>ModuleRoot := ''.''\<rparr> else cfg)
       in if ChainEnabled cfg1 \<and> BlockEmulatorConfig cfg1 = [] then
            Inl (Errorf ''base.blockemulator_config is required when chain.enabled is true'')
          else
            let cfg2 = cfg1\<lparr>RunTimeoutSeconds := default_int 600 (RunTimeoutSeconds cfg1),
                            NodeExitGraceSeconds := default_int 15 (NodeExitGraceSeconds cfg1),
                            MaxRounds := default_int 1 (MaxRounds cfg1)\<rparr>
            in if PayPlugin cfg2 = [] \<or> IdentityPlugin cfg2 = [] then
                 Inl (Errorf ''a plugin must be selected for pay and identity'')
               else if PayPlugin cfg2 \<noteq> ''direct-pay'' then
                 Inl (Errorf ''initial release only supports protocols.pay.plugin=direct-pay'')
               else Inr cfg2))"

lemma LoadConfig_valid:
  "LoadConfig um file = Inr cfg \<Longrightarrow> ResultDir cfg \<noteq> [] \<and> TracePath cfg \<noteq> [] \<and> ModuleRoot cfg \<noteq> [] \<and>
     (ChainEnabled cfg \<longrightarrow> BlockEmulatorConfig cfg \<noteq> []) \<and> 0 < RunTimeoutSeconds cfg \<and>
     0 < NodeExitGraceSeconds cfg \<and> 0 < MaxRounds cfg \<and> PayPlugin cfg = ''direct-pay'' \<and> IdentityPlugin cfg \<noteq> []"
  by (auto simp: LoadConfig_def Let_def default_int_def bindR_Inr_iff split: if_splits)

section \<open>Traces\<close>

text \<open>Actions are strings; \<open>raw_tx\<close> is the one that \<open>LoadTrace\<close> makes up for plain transfers.\<close>

abbreviation (input) "ActionPay \<equiv> ''pay''"
abbreviation (input) "ActionJoin \<equiv> ''join''"
abbreviation (input) "ActionLeave \<equiv> ''leave''"
abbreviation (input) "ActionRawTx \<equiv> ''raw_tx''"

record RawTxSpec =
  spec_Sender :: string
  spec_Recipient :: string
  spec_Value :: string

record Record =
  r_AgentID :: string
  r_Action :: string
  r_Target :: string
  r_Amount :: int
  r_TS :: int
  r_RequestID :: string
  r_ParamsHash :: string
  r_RawTx :: "RawTxSpec option"
  r_Seq :: int

text \<open>What a line decodes to: \<open>Seq\<close> and \<open>RawTx\<close> of the record are never read from it.\<close>

record probe = RawTxSpec +
  p_Record :: Record

definition zero_Record :: Record where
  "zero_Record = \<lparr>r_AgentID = [], r_Action = [], r_Target = [], r_Amount = 0, r_TS = 0, r_RequestID = [],
     r_ParamsHash = [], r_RawTx = None, r_Seq = 0\<rparr>"

text \<open>One line, with the time stamp of the last agent action before it.\<close>

definition trace_record :: "int \<Rightarrow> nat \<Rightarrow> probe \<Rightarrow> (Record \<times> int) result" where
  "trace_record lastTS line p =
     (let rec = p_Record p
      in if spec_Sender p \<noteq> [] then
           if r_AgentID rec \<noteq> [] \<or> r_Action rec \<noteq> [] then Inl (Errorf ''ambiguous trace line'')
           else if spec_Recipient p = [] \<or> spec_Value p = [] then Inl (Errorf ''invalid plain transfer line'')
           else Inr (zero_Record\<lparr>r_Action := ActionRawTx, r_TS := lastTS,
                       r_RawTx := Some (RawTxSpec.truncate p), r_Seq := int line\<rparr>, lastTS)
         else
           if r_AgentID rec = [] \<or> r_Action rec = [] \<or> r_TS rec < 0 then Inl (Errorf ''invalid trace line'')
           else Inr (rec\<lparr>r_RawTx := None, r_Seq := int line\<rparr>, r_TS rec))"

fun trace_records :: "(string \<Rightarrow> probe option) \<Rightarrow> int \<Rightarrow> nat \<Rightarrow> string list \<Rightarrow> Record list result" where
  "trace_records unmarshal lastTS line [] = Inr []"
| "trace_records unmarshal lastTS line (l # ls) =
     bindR (orErr ''decode trace line'' (unmarshal l)) (\<lambda>p.
     bindR (trace_record lastTS line p) (\<lambda>(rec, lastTS').
     bindR (trace_records unmarshal lastTS' (line + 1) ls) (\<lambda>records. Inr (rec # records))))"

definition record_key :: "Record \<Rightarrow> int \<times> int" where
  "record_key r = (r_TS r, r_Seq r)"

definition LoadTrace :: "(string \<Rightarrow> probe option) \<Rightarrow> string result \<Rightarrow> Record list result" where
  "LoadTrace unmarshal file =
     bindR file (\<lambda>content.
     case scan_lines content of (ls, tooLong) \<Rightarrow>
       bindR (trace_records unmarshal 0 1 ls) (\<lambda>records.
       if tooLong then Inl (Errorf ''read trace'') else Inr (sort_key record_key records)))"

section \<open>The order of a trace\<close>

lemma trace_records_seq:
  "trace_records um lastTS k ls = Inr rs \<Longrightarrow> map r_Seq rs = map int [k..<k + length ls]"
proof (induction ls arbitrary: lastTS k rs)
  case (Cons l ls)
  obtain p rec ts' rs' where r: "trace_record lastTS k p = Inr (rec, ts')" "trace_records um ts' (k + 1) ls = Inr rs'" "rs = rec # rs'"
    using Cons.prems by (auto simp: bindR_Inr_iff)
  have "r_Seq rec = int k" using r(1) by (auto simp: trace_record_def Let_def split: if_splits)
  moreover have "[k..<k + length (l # ls)] = k # [Suc k..<k + length (l # ls)]" by (rule upt_conv_Cons) simp
  ultimately show ?case using Cons.IH [OF r(2)] r(3) by (simp del: upt_Suc)
qed simp

text \<open>A plain transfer has the time stamp of the line before it.\<close>

lemma trace_records_inherit:
  assumes "trace_records um lastTS k ls = Inr rs"
  shows "(\<forall>i. Suc i < length rs \<longrightarrow> r_RawTx (rs ! Suc i) \<noteq> None \<longrightarrow> r_TS (rs ! Suc i) = r_TS (rs ! i)) \<and>
    (rs \<noteq> [] \<longrightarrow> r_RawTx (hd rs) \<noteq> None \<longrightarrow> r_TS (hd rs) = lastTS)"
  using assms
proof (induction ls arbitrary: lastTS k rs)
  case (Cons l ls)
  obtain p rec ts' rs' where r: "trace_record lastTS k p = Inr (rec, ts')" "trace_records um ts' (k + 1) ls = Inr rs'" "rs = rec # rs'"
    using Cons.prems by (auto simp: bindR_Inr_iff)
  have rec: "r_TS rec = ts'" "r_RawTx rec \<noteq> None \<longrightarrow> ts' = lastTS"
    using r(1) by (auto simp: trace_record_def Let_def split: if_splits)
  show ?case using Cons.IH [OF r(2)] r(3) rec by (auto simp: nth_Cons hd_conv_nth split: nat.split)
qed simp

lemma adjacent_keys:
  assumes "sorted (map f xs)" "distinct (map f xs)" "i < length xs" "j < length xs" "f (xs ! i) < f (xs ! j)"
    and "\<And>x. x \<in> set xs \<Longrightarrow> \<not> (f (xs ! i) < f x \<and> f x < f (xs ! j))"
  shows "j = Suc i"
proof -
  have "sorted_wrt (<) (map f xs)" using assms(1,2) by (simp add: strict_sorted_iff)
  then have mono: "f (xs ! a) < f (xs ! b)" if "a < b" "b < length xs" for a b
    using that by (auto dest!: sorted_wrt_nth_less [of _ _ a b])
  have "i < j"
    using mono [of j i] assms(3,5) by (metis less_asym linorder_neqE_nat less_irrefl)
  moreover have "\<not> Suc i < j"
    using mono [of i "Suc i"] mono [of "Suc i" j] assms(4) assms(6) [of "xs ! Suc i"] by auto
  ultimately show ?thesis by simp
qed

text \<open>C36: loading a trace keeps every line as one record, orders the records by time stamp and, among equal
  ones, by line, and leaves a plain transfer, which has no time stamp of its own, directly behind
  the line it followed in the file.\<close>

theorem LoadTrace_order:
  assumes "LoadTrace um (Inr content) = Inr rs"
  shows "sorted (map record_key rs) \<and> mset (map r_Seq rs) = mset (map int [1..<Suc (length rs)]) \<and>
    (\<forall>i j. i < length rs \<longrightarrow> j < length rs \<longrightarrow> r_RawTx (rs ! j) \<noteq> None \<longrightarrow> r_Seq (rs ! j) = r_Seq (rs ! i) + 1 \<longrightarrow>
       j = Suc i)"
proof -
  obtain ls recs where recs: "trace_records um 0 1 ls = Inr recs" "rs = sort_key record_key recs"
    using assms by (auto simp: LoadTrace_def bindR_Inr_iff split: prod.splits if_splits)
  have seq: "map r_Seq recs = map int [1..<Suc (length recs)]"
    using trace_records_seq [OF recs(1)] by (metis add.commute length_map length_upt diff_add_inverse plus_1_eq_Suc)
  have sorted: "sorted (map record_key rs)" using recs(2) by simp
  have same: "mset rs = mset recs" using recs(2) by simp
  have mset: "mset (map r_Seq rs) = mset (map int [1..<Suc (length rs)])"
    using seq same by (metis mset_map size_mset)
  have dist: "distinct (map record_key rs)"
  proof -
    have "distinct (map int [1..<Suc (length rs)])" by (simp add: distinct_map)
    then have "distinct (map r_Seq rs)" using mset by (metis mset_eq_imp_distinct_iff)
    then show ?thesis by (auto simp: distinct_map inj_on_def record_key_def)
  qed
  have nth: "r_Seq (recs ! n) = int n + 1" if "n < length recs" for n
  proof -
    have "map r_Seq recs ! n = map int [1..<Suc (length recs)] ! n" using seq by simp
    then show ?thesis using that by (simp del: upt_Suc)
  qed
  have "j = Suc i" if ij: "i < length rs" "j < length rs" and raw: "r_RawTx (rs ! j) \<noteq> None"
    and next_line: "r_Seq (rs ! j) = r_Seq (rs ! i) + 1" for i j
  proof -
    have "rs ! i \<in> set recs" "rs ! j \<in> set recs" using ij recs(2) by (metis nth_mem set_sort)+
    then obtain a b where ab: "a < length recs" "b < length recs" "recs ! a = rs ! i" "recs ! b = rs ! j"
      by (metis in_set_conv_nth)
    then have "b = Suc a" using nth [of a] nth [of b] next_line by simp
    then have ts: "r_TS (rs ! j) = r_TS (rs ! i)"
      using trace_records_inherit [OF recs(1)] ab raw by metis
    then have lt: "record_key (rs ! i) < record_key (rs ! j)" using next_line by (simp add: record_key_def)
    have "\<not> (record_key (rs ! i) < record_key x \<and> record_key x < record_key (rs ! j))" for x
      using ts next_line by (auto simp: record_key_def)
    then show ?thesis using adjacent_keys [OF sorted dist ij(1,2) lt] by blast
  qed
  then show ?thesis using sorted mset by blast
qed

section \<open>Example\<close>

text \<open>Two actions out of order, and a plain transfer behind the first line.\<close>

definition example_action :: "string \<Rightarrow> string \<Rightarrow> string \<Rightarrow> int \<Rightarrow> int \<Rightarrow> Record" where
  "example_action agent action target amount ts =
     zero_Record\<lparr>r_AgentID := agent, r_Action := action, r_Target := target, r_Amount := amount, r_TS := ts\<rparr>"

definition example_decoder :: "string \<Rightarrow> probe option" where
  "example_decoder l =
     (if l = ''a'' then Some \<lparr>spec_Sender = [], spec_Recipient = [], spec_Value = [], p_Record = example_action ''x'' ''join'' [] 0 1\<rparr>
      else if l = ''b'' then Some \<lparr>spec_Sender = [], spec_Recipient = [], spec_Value = [], p_Record = example_action ''y'' ''join'' [] 0 2\<rparr>
      else if l = ''t'' then Some \<lparr>spec_Sender = ''01'', spec_Recipient = ''02'', spec_Value = ''7'', p_Record = zero_Record\<rparr>
      else None)"

definition example_trace :: string where
  "example_trace = ''b'' @ newline # ''t'' @ newline # ''a'' @ [newline]"

text \<open>A line of visible characters is its own token.\<close>

lemma visible_line:
  assumes "\<forall>c \<in> set l. visible c \<or> c = CHR '' ''"
  shows "newline \<notin> set l \<and> dropCR l = l"
proof -
  have no: "\<not> visible newline" "\<not> visible (char_of (13 :: nat))" "newline \<noteq> CHR '' ''" "char_of (13 :: nat) \<noteq> CHR '' ''"
    by (simp_all add: visible_def newline_def flip: of_char_eq_iff [where 'a = nat])
  then have "l = [] \<or> last l \<noteq> char_of (13 :: nat)" using assms last_in_set by metis
  then show ?thesis using no assms by (auto simp: dropCR_def)
qed

lemma example_trace_lines: "scan_lines example_trace = ([''b'', ''t'', ''a''], False)"
proof -
  have "scan_lines (concat (map (\<lambda>l. l @ [newline]) [''b'', ''t'', ''a''])) = ([''b'', ''t'', ''a''], False)"
    using visible_line [of "''b''"] visible_line [of "''t''"] visible_line [of "''a''"]
    by (intro scan_lines_roundtrip) (auto simp: visible_def maxTokenSize_def)
  then show ?thesis by (simp add: example_trace_def)
qed

lemma example_trace_loaded: "\<exists>rs. LoadTrace example_decoder (Inr example_trace) = Inr rs \<and> map r_Seq rs = [3, 1, 2]"
  by (simp add: LoadTrace_def example_trace_lines trace_record_def example_decoder_def example_action_def zero_Record_def
      record_key_def)

theorem LoadTrace_order_witness:
  "\<exists>rs. LoadTrace example_decoder (Inr example_trace) = Inr rs \<and> map r_Seq rs = [3, 1, 2] \<and>
     sorted (map record_key rs)"
proof -
  obtain rs where rs: "LoadTrace example_decoder (Inr example_trace) = Inr rs" "map r_Seq rs = [3, 1, 2]"
    using example_trace_loaded by auto
  then show ?thesis using LoadTrace_order [OF rs(1)] by (intro exI [of _ rs]) simp
qed

end
