(* ===== verification/Paths.thy ===== *)
theory Paths
  imports Format
begin

text \<open>
  What the program uses of \<open>path/filepath\<close>, on a POSIX system: \<open>Clean\<close>, \<open>Join\<close>, \<open>Abs\<close>, \<open>IsAbs\<close> and \<open>Dir\<close>.
\<close>

function split_path :: "string \<Rightarrow> string list" where
  "split_path s = takeWhile (\<lambda>c. c \<noteq> CHR ''/'') s #
     (case dropWhile (\<lambda>c. c \<noteq> CHR ''/'') s of [] \<Rightarrow> [] | c # rest \<Rightarrow> split_path rest)"
  by pat_completeness auto

termination
proof (relation "measure length", goal_cases)
  case (2 s c rest)
  then show ?case using length_dropWhile_le [of "\<lambda>c. c \<noteq> CHR ''/''" s] by simp
qed simp

declare split_path.simps [simp del]

definition clean_step :: "bool \<Rightarrow> string \<Rightarrow> string list \<Rightarrow> string list" where
  "clean_step rooted part acc =
     (if part = [] \<or> part = ''.'' then acc
      else if part = ''..'' then
        (if acc \<noteq> [] \<and> hd acc \<noteq> ''..'' then tl acc else if rooted then acc else part # acc)
      else part # acc)"

definition path_Clean :: "string \<Rightarrow> string" where
  "path_Clean p =
     (let rooted = has_prefix p ''/'';
          parts = rev (fold (clean_step rooted) (split_path p) []);
          body = concat (map (\<lambda>(i, part). if i = 0 then part else CHR ''/'' # part) (enumerate 0 parts))
      in if rooted then CHR ''/'' # body else if parts = [] then ''.'' else body)"

definition path_Join :: "string list \<Rightarrow> string" where
  "path_Join ps =
     (case filter (\<lambda>p. p \<noteq> []) ps of
        [] \<Rightarrow> []
      | p # qs \<Rightarrow> path_Clean (concat (p # map (\<lambda>q. CHR ''/'' # q) qs)))"

text \<open>\<open>filepath.Abs\<close> with the working directory.\<close>

definition path_Abs :: "string result \<Rightarrow> string \<Rightarrow> string result" where
  "path_Abs cwd p = (if has_prefix p ''/'' then Inr (path_Clean p) else bindR cwd (\<lambda>d. Inr (path_Join [d, p])))"

definition path_IsAbs :: "string \<Rightarrow> bool" where
  "path_IsAbs p \<longleftrightarrow> has_prefix p ''/''"

text \<open>The part up to the last slash.\<close>

definition path_Dir :: "string \<Rightarrow> string" where
  "path_Dir p = path_Clean (rev (dropWhile (\<lambda>c. c \<noteq> CHR ''/'') (rev p)))"

lemma path_examples:
  "path_Join [''w'', ''r/../a''] = ''w/a''" "path_Dir ''a/b/c.txt'' = ''a/b''" "path_Dir ''c.txt'' = ''.''" "path_Clean ''/../x//y/'' = ''/x/y''"
  by code_simp+

end
