(* ===== verification/ChainRunner.thy ===== *)
theory ChainRunner
  imports AgentTrace CoreTypes Paths
begin

text \<open>
  The runner of a private chain (\<open>agentsupervisor/chainrunner.go\<close>): for every round it derives a
  configuration and an address table, starts the nodes and the supervisor, and waits for them.
  YAML and JSON encoders are parameters; starting and killing processes is I/O, of which the model
  keeps the commands and the bookkeeping.
\<close>

section \<open>Documents\<close>

text \<open>What YAML decodes a value to; \<open>YOther\<close> is a value the runner never looks into.\<close>

datatype 'f yaml =
    YInt int
  | YInt64 int
  | YUint64 int
  | YFloat 'f
  | YString string
  | YBool bool
  | YMap "(string \<times> 'f yaml) list"
  | YOther string

type_synonym 'f doc = "(string, 'f yaml) gomap"

text \<open>Writing at a path: what is no map on the way is replaced by one. An empty path panics.\<close>

fun set_path :: "'f doc \<Rightarrow> string \<Rightarrow> string list \<Rightarrow> 'f yaml \<Rightarrow> 'f doc" where
  "set_path m key [] v = AList.update key v m"
| "set_path m key (k # ks) v =
     AList.update key (YMap (set_path (case map_of m key of Some (YMap sub) \<Rightarrow> sub | _ \<Rightarrow> []) k ks v)) m"

definition setYAMLPath :: "'f doc option \<Rightarrow> string list \<Rightarrow> 'f yaml \<Rightarrow> 'f doc option result" where
  "setYAMLPath d path v =
     (case path of
        [] \<Rightarrow> Inl (Panic ''slice bounds out of range'')
      | k # ks \<Rightarrow>
          (case d of
             None \<Rightarrow> Inl (Panic ''assignment to entry in nil map'')
           | Some m \<Rightarrow> Inr (Some (set_path m k ks v))))"

fun get_path :: "'f yaml \<Rightarrow> string list \<Rightarrow> 'f yaml result" where
  "get_path cur [] = Inr cur"
| "get_path (YMap m) (k # ks) = bindR (orErr ''config key not found'' (map_of m k)) (\<lambda>v. get_path v ks)"
| "get_path _ (k # ks) = Inl (Errorf ''config path is missing'')"

definition yamlInt :: "('f \<Rightarrow> int) \<Rightarrow> 'f doc option \<Rightarrow> string list \<Rightarrow> int result" where
  "yamlInt trunc d path =
     bindR (get_path (YMap (case d of None \<Rightarrow> [] | Some m \<Rightarrow> m)) path) (\<lambda>v.
     case v of
       YInt i \<Rightarrow> Inr i
     | YInt64 i \<Rightarrow> Inr i
     | YUint64 i \<Rightarrow> Inr (i64 i)
     | YFloat f \<Rightarrow> Inr (trunc f)
     | _ \<Rightarrow> Inl (Errorf ''config key is not a number''))"

section \<open>The address table\<close>

type_synonym ip_table = "(string, (string, string) gomap) gomap"

definition node_port :: "int \<Rightarrow> int \<Rightarrow> int" where
  "node_port shard node = i64 (32207 + shard * 100 + (node + 1) * 10)"

definition supervisorEP :: string where
  "supervisorEP = ''127.0.0.1:38800''"

definition node_ep :: "int \<Rightarrow> int \<Rightarrow> string" where
  "node_ep shard node = ''127.0.0.1:'' @ show_int (node_port shard node)"

definition ip_table_of :: "int \<Rightarrow> int \<Rightarrow> ip_table" where
  "ip_table_of shards nodes =
     AList.update ''2147483647'' [(''0'', supervisorEP)]
       (fold (\<lambda>s t. AList.update (show_int (int s))
                (fold (\<lambda>n m. AList.update (show_int (int n)) (node_ep (int s) (int n)) m) [0..<nat nodes] []) t)
          [0..<nat shards] [])"

definition writeIPTable :: "(ip_table \<Rightarrow> string option) \<Rightarrow> int \<Rightarrow> int \<Rightarrow> string result" where
  "writeIPTable marshal shards nodes =
     bindR (orErr ''encode ip table'' (marshal (ip_table_of shards nodes))) (\<lambda>b. Inr (b @ [char_of (10 :: nat)]))"

section \<open>A round's configuration\<close>

record RoundSpec =
  rs_Round :: int
  rs_PlanPath :: string
  rs_TxCount :: int

record 'f runner_env =
  ru_unmarshal :: "string \<Rightarrow> 'f doc option option"
  ru_marshal :: "'f doc option \<Rightarrow> string option"
  ru_trunc :: "'f \<Rightarrow> int"
  ru_marshal_table :: "ip_table \<Rightarrow> string option"
  ru_base :: "string result"
  ru_cwd :: "string result"
  ru_windows :: bool

record ChainRunner =
  cr_ModuleRoot :: string
  cr_BaseConfig :: string
  cr_WorkRoot :: string
  cr_RunTimeout :: int
  cr_NodeExitGrace :: int

definition loadBaseConfig :: "'f runner_env \<Rightarrow> 'f doc option result" where
  "loadBaseConfig R =
     bindR (ru_base R) (\<lambda>raw. orErr ''parse base blockemulator config'' (ru_unmarshal R raw))"

definition clusterShape :: "'f runner_env \<Rightarrow> (int \<times> int) result" where
  "clusterShape R =
     bindR (loadBaseConfig R) (\<lambda>d.
     bindR (yamlInt (ru_trunc R) d [''system'', ''shard_num'']) (\<lambda>shardCnt.
     bindR (yamlInt (ru_trunc R) d [''system'', ''node_num'']) (\<lambda>nodeCnt.
     if shardCnt \<le> 0 \<or> nodeCnt \<le> 0 then Inl (Errorf ''system.shard_num and system.node_num must be positive'')
     else Inr (shardCnt, nodeCnt))))"

text \<open>The paths that are set, in the order of the code, with their values.\<close>

definition round_settings :: "string \<Rightarrow> string \<Rightarrow> RoundSpec \<Rightarrow> (string list \<times> 'f yaml) list" where
  "round_settings chainDir planPath spec =
     (let dataDir = path_Join [chainDir, ''data''] in
      [([''system'', ''log'', ''log_dir''], YString (path_Join [chainDir, ''logs''])),
       ([''consensus_node'', ''blockchain'', ''storage'', ''bolt'', ''file_path_dir''], YString (path_Join [dataDir, ''boltdb''])),
       ([''consensus_node'', ''blockchain'', ''storage'', ''eth_storage'', ''level_file_path_dir''],
          YString (path_Join [dataDir, ''trie_db''])),
       ([''consensus_node'', ''block_record_dir''], YString (path_Join [dataDir, ''block_record''])),
       ([''supervisor'', ''result_output_dir''], YString (path_Join [chainDir, ''results''])),
       ([''supervisor'', ''tx_source'', ''tx_source_type''], YString ''trace_source_JSONL''),
       ([''supervisor'', ''tx_source'', ''tx_source_file''], YString planPath),
       ([''supervisor'', ''tx_source'', ''exclude_contract_txs''], YBool False),
       ([''supervisor'', ''tx_number''], YInt (rs_TxCount spec))])"

definition derive_config :: "'f runner_env \<Rightarrow> string \<Rightarrow> RoundSpec \<Rightarrow> 'f doc option result" where
  "derive_config R chainDir spec =
     bindR (loadBaseConfig R) (\<lambda>d.
     bindR (path_Abs (ru_cwd R) (rs_PlanPath spec)) (\<lambda>planPath.
     foldR (\<lambda>d (path, v). setYAMLPath d path v) d (round_settings chainDir planPath spec)))"

text \<open>\<open>prepare\<close>: the files it writes, the paths of the two, and the directory of the results.\<close>

definition prepare :: "'f runner_env \<Rightarrow> string \<Rightarrow> RoundSpec \<Rightarrow> ((string \<times> string) list \<times> string \<times> string \<times> string) result" where
  "prepare R chainDir spec =
     bindR (derive_config R chainDir spec) (\<lambda>d.
     bindR (orErr ''marshal derived blockemulator config'' (ru_marshal R d)) (\<lambda>cfgBytes.
     let cfgPath = path_Join [chainDir, ''config.yaml''] in
     bindR (clusterShape R) (\<lambda>(shardCnt, nodeCnt).
     let tablePath = path_Join [chainDir, ''ip_table.json''] in
     bindR (writeIPTable (ru_marshal_table R) shardCnt nodeCnt) (\<lambda>table.
     Inr ([(cfgPath, cfgBytes), (tablePath, table)], cfgPath, tablePath, path_Join [chainDir, ''results''])))))"

definition pad3 :: "string \<Rightarrow> string" where
  "pad3 s = replicate (3 - length s) (CHR ''0'') @ s"

text \<open>\<open>%03d\<close> of a round, which is positive.\<close>

definition roundDirName :: "int \<Rightarrow> string" where
  "roundDirName round = ''round_'' @ pad3 (show_int round)"

definition binaryName :: "bool \<Rightarrow> string \<Rightarrow> string" where
  "binaryName windows name = (if windows then name @ ''.exe'' else name)"

definition binaryPath :: "'f runner_env \<Rightarrow> ChainRunner \<Rightarrow> string \<Rightarrow> string result" where
  "binaryPath R c name =
     path_Abs (ru_cwd R) (path_Join [cr_ModuleRoot c, ''agentemu-bin'', binaryName (ru_windows R) name])"

definition graceDuration :: "ChainRunner \<Rightarrow> int" where
  "graceDuration c = (if 0 < cr_NodeExitGrace c then cr_NodeExitGrace c else 15000000000)"

section \<open>Processes\<close>

text \<open>
  Every process has a channel of capacity one into which its goroutine puts the exit status, once.
\<close>

record processGroup =
  pg_procs :: "int list"
  pg_done :: "(int, unit result option) gomap"

definition newProcessGroup :: processGroup where
  "newProcessGroup = \<lparr>pg_procs = [], pg_done = []\<rparr>"

definition pg_start :: "int result \<Rightarrow> processGroup \<Rightarrow> int result \<times> processGroup" where
  "pg_start started g =
     (case started of
        Inl e \<Rightarrow> (Inl e, g)
      | Inr pid \<Rightarrow> (Inr pid, g\<lparr>pg_procs := pg_procs g @ [pid], pg_done := AList.update pid None (pg_done g)\<rparr>))"

text \<open>A process ends, and its goroutine reports it.\<close>

definition pg_exit :: "int \<times> unit result \<Rightarrow> processGroup \<Rightarrow> processGroup" where
  "pg_exit ex g =
     (case ex of (pid, status) \<Rightarrow>
        if map_of (pg_done g) pid = None then g else g\<lparr>pg_done := AList.update pid (Some status) (pg_done g)\<rparr>)"

datatype event = Exits "(int \<times> unit result) list" | Deadline | Abort

text \<open>
  \<open>wait\<close> takes the status out of the channel; it returns \<open>None\<close> while it is blocked. A closed
  \<open>abort\<close> stays closed, so \<open>Abort\<close> is left in place for the next wait; a \<open>Deadline\<close> counts for the
  timer of \<open>waitGrace\<close> only.
\<close>

fun pg_wait :: "int \<Rightarrow> event list \<Rightarrow> processGroup \<Rightarrow> (unit result \<times> event list \<times> processGroup) option" where
  "pg_wait pid evs g =
     (case map_of (pg_done g) pid of
        None \<Rightarrow> Some (Inl (Errorf ''unknown pid''), evs, g)
      | Some (Some status) \<Rightarrow> Some (status, evs, g\<lparr>pg_done := AList.update pid None (pg_done g)\<rparr>)
      | Some None \<Rightarrow>
          (case evs of
             [] \<Rightarrow> None
           | Abort # evs' \<Rightarrow> Some (Inl (Errorf ''context canceled''), evs, g)
           | Deadline # evs' \<Rightarrow> pg_wait pid evs' g
           | Exits exs # evs' \<Rightarrow> pg_wait pid evs' (fold pg_exit exs g)))"

datatype outcome = AllExited | KilledAfterDeadline | KilledOnAbort

text \<open>A pass over the channels forgets the processes whose status it finds.\<close>

definition reap :: "processGroup \<Rightarrow> processGroup" where
  "reap g = g\<lparr>pg_done := filter (\<lambda>(pid, ch). ch = None) (pg_done g)\<rparr>"

fun waitGrace :: "event list \<Rightarrow> processGroup \<Rightarrow> (outcome \<times> processGroup) option" where
  "waitGrace evs g =
     (let g1 = reap g
      in if pg_done g1 = [] then Some (AllExited, g1)
         else case evs of
           [] \<Rightarrow> None
         | Deadline # _ \<Rightarrow> Some (KilledAfterDeadline, g1)
         | Abort # _ \<Rightarrow> Some (KilledOnAbort, g1)
         | Exits exs # evs' \<Rightarrow> waitGrace evs' (fold pg_exit exs g1))"

declare pg_wait.simps [simp del] waitGrace.simps [simp del]

section \<open>A run\<close>

record ChainOutcome =
  co_ChainDir :: string
  co_ResultDir :: string
  co_ShardNum :: int

text \<open>A command: the binary, the name of its log, the arguments.\<close>

type_synonym command = "string \<times> string \<times> string list"

definition node_command :: "string \<Rightarrow> string \<Rightarrow> string \<Rightarrow> int \<Rightarrow> int \<Rightarrow> command" where
  "node_command nodeBin cfgPath tablePath shard node =
     (nodeBin, ''node_s'' @ show_int shard @ ''_n'' @ show_int node,
      [''-shard_id'', show_int shard, ''-node_id'', show_int node, ''-config'', cfgPath, ''-ip_table'', tablePath])"

definition supervisor_command :: "string \<Rightarrow> string \<Rightarrow> string \<Rightarrow> command" where
  "supervisor_command supBin cfgPath tablePath =
     (supBin, ''supervisor'', [''-shard_id'', ''2147483647'', ''-node_id'', ''0'', ''-config'', cfgPath, ''-ip_table'', tablePath])"

definition all_commands :: "string \<Rightarrow> string \<Rightarrow> string \<Rightarrow> string \<Rightarrow> int \<Rightarrow> int \<Rightarrow> command list" where
  "all_commands nodeBin supBin cfgPath tablePath shards nodes =
     concat (map (\<lambda>s. map (\<lambda>n. node_command nodeBin cfgPath tablePath (int s) (int n)) [0..<nat nodes]) [0..<nat shards]) @
     [supervisor_command supBin cfgPath tablePath]"

fun start_all :: "(command \<Rightarrow> int result) \<Rightarrow> command list \<Rightarrow> processGroup \<Rightarrow> unit result \<times> processGroup" where
  "start_all start [] g = (Inr (), g)"
| "start_all start (cmd # cmds) g =
     (case pg_start (start cmd) g of
        (Inl e, g') \<Rightarrow> (Inl e, g')
      | (Inr _, g') \<Rightarrow> start_all start cmds g')"

text \<open>
  \<open>Run\<close>, from the files it writes to the outcome: \<open>start\<close> gives the process of a command, \<open>evs\<close>
  what happens while it waits, and \<open>ctxErr\<close> whether the context was cancelled at the end. The last
  component lists the processes that the deferred \<open>killAll\<close> kills, on every path.
\<close>

definition chain_Run ::
    "'f runner_env \<Rightarrow> (command \<Rightarrow> int result) \<Rightarrow> event list \<Rightarrow> unit result \<Rightarrow> ChainRunner \<Rightarrow> RoundSpec \<Rightarrow>
     (ChainOutcome result \<times> (string \<times> string) list \<times> int list) option" where
  "chain_Run R start evs ctxErr c spec =
     (let chainDir = path_Join [cr_WorkRoot c, roundDirName (rs_Round spec), ''chain'']
      in case prepare R chainDir spec of
           Inl e \<Rightarrow> Some (Inl e, [], [])
         | Inr (files, cfgPath, tablePath, resultDir) \<Rightarrow>
             (case bindR (clusterShape R) (\<lambda>shape.
                   bindR (binaryPath R c ''supervisor'') (\<lambda>supBin.
                   bindR (binaryPath R c ''consensusnode'') (\<lambda>nodeBin. Inr (shape, supBin, nodeBin)))) of
                Inl e \<Rightarrow> Some (Inl e, files, [])
              | Inr ((shardCnt, nodeCnt), supBin, nodeBin) \<Rightarrow>
                  (case start_all start (all_commands nodeBin supBin cfgPath tablePath shardCnt nodeCnt) newProcessGroup of
                     (Inl e, g) \<Rightarrow> Some (Inl e, files, pg_procs g)
                   | (Inr _, g) \<Rightarrow>
                       (case pg_wait (last (pg_procs g)) evs g of
                          None \<Rightarrow> None
                        | Some (supErr, evs', g1) \<Rightarrow>
                            map_option (\<lambda>(_, g2).
                              (bindR ctxErr (\<lambda>_. bindR supErr (\<lambda>_.
                                 Inr \<lparr>co_ChainDir = chainDir, co_ResultDir = resultDir, co_ShardNum = shardCnt\<rparr>)),
                               files, pg_procs g2)) (waitGrace evs' g1)))))"

section \<open>The configuration of a round\<close>

definition yaml_lookup :: "'f doc \<Rightarrow> string list \<Rightarrow> 'f yaml option" where
  "yaml_lookup m path = (case get_path (YMap m) path of Inl e \<Rightarrow> None | Inr v \<Rightarrow> Some v)"

text \<open>Two paths that part before either ends.\<close>

fun diverge :: "string list \<Rightarrow> string list \<Rightarrow> bool" where
  "diverge (a # as) (b # bs) \<longleftrightarrow> a \<noteq> b \<or> diverge as bs"
| "diverge _ _ \<longleftrightarrow> False"

lemma get_set_same: "yaml_lookup (set_path m k ks v) (k # ks) = Some v"
  by (induction m k ks v rule: set_path.induct) (simp_all add: yaml_lookup_def)

lemma get_path_no_map: "(\<And>m. u \<noteq> YMap m) \<Longrightarrow> \<exists>e. get_path u (k # ks) = Inl e"
  by (cases u) auto

lemma get_set_other: "diverge (k # ks) q \<Longrightarrow> yaml_lookup (set_path m k ks v) q = yaml_lookup m q"
proof (induction m k ks v arbitrary: q rule: set_path.induct)
  case (1 m key v)
  then show ?case by (cases q) (auto simp: yaml_lookup_def)
next
  case (2 m key k ks v)
  let ?sub = "case map_of m key of Some (YMap sub) \<Rightarrow> sub | _ \<Rightarrow> []"
  obtain b bs where q: "q = b # bs" using 2(2) by (cases q) auto
  show ?case
  proof (cases "b = key")
    case False
    then show ?thesis using q by (simp add: yaml_lookup_def)
  next
    case True
    then have d: "diverge (k # ks) bs" using 2(2) q by simp
    then obtain c cs where bs: "bs = c # cs" by (cases bs) auto
    have "yaml_lookup (set_path ?sub k ks v) bs = yaml_lookup ?sub bs" using 2(1) d by blast
    moreover have "yaml_lookup ?sub bs = yaml_lookup m q"
      using q True bs by (auto simp: yaml_lookup_def orErr_def split: option.splits yaml.splits)
    moreover have "yaml_lookup (set_path m key (k # ks) v) q = yaml_lookup (set_path ?sub k ks v) bs"
      using q True by (simp add: yaml_lookup_def)
    ultimately show ?thesis by simp
  qed
qed

lemma diverge_sym: "diverge p q = diverge q p"
  by (induction p q rule: diverge.induct) auto

text \<open>Settings whose paths part pairwise do not disturb each other.\<close>

lemma settings_apply:
  assumes "sorted_wrt diverge (map fst ss)" "\<forall>(p, v) \<in> set ss. p \<noteq> []"
  shows "\<exists>m'. foldR (\<lambda>d (path, v). setYAMLPath d path v) (Some m) ss = Inr (Some m') \<and>
    (\<forall>(p, v) \<in> set ss. yaml_lookup m' p = Some v) \<and>
    (\<forall>q. (\<forall>(p, v) \<in> set ss. diverge p q) \<longrightarrow> yaml_lookup m' q = yaml_lookup m q)"
  using assms
proof (induction ss arbitrary: m)
  case (Cons s ss)
  obtain k ks v where s: "s = (k # ks, v)" using Cons.prems(2) by (cases s; cases "fst s") auto
  let ?m = "set_path m k ks v"
  obtain m' where m': "foldR (\<lambda>d (path, v). setYAMLPath d path v) (Some ?m) ss = Inr (Some m')"
    "\<forall>(p, v) \<in> set ss. yaml_lookup m' p = Some v"
    "\<forall>q. (\<forall>(p, v) \<in> set ss. diverge p q) \<longrightarrow> yaml_lookup m' q = yaml_lookup ?m q"
    using Cons.IH [of ?m] Cons.prems by auto
  have "\<forall>(p, v) \<in> set ss. diverge p (k # ks)" using Cons.prems(1) s diverge_sym by fastforce
  then have "yaml_lookup m' (k # ks) = Some v" using m'(3) get_set_same by metis
  moreover have "yaml_lookup m' q = yaml_lookup m q" if "\<forall>(p, v) \<in> set (s # ss). diverge p q" for q
    using that m'(3) get_set_other [of k ks q] s by simp
  ultimately show ?case using m'(1,2) s by (intro exI [of _ m']) (simp add: setYAMLPath_def)
qed simp

lemma round_settings_diverge:
  "sorted_wrt diverge (map fst (round_settings chainDir planPath spec)) \<and>
     (\<forall>(p, v) \<in> set (round_settings chainDir planPath spec). p \<noteq> [])"
  by (simp add: round_settings_def Let_def)


section \<open>The address table\<close>

definition ip_lookup :: "ip_table \<Rightarrow> string \<Rightarrow> string \<Rightarrow> string option" where
  "ip_lookup t shard node = (case map_of t shard of None \<Rightarrow> None | Some m \<Rightarrow> map_of m node)"

lemma show_int_inj: "show_int a = show_int b \<longleftrightarrow> a = b"
  using parse_int_show_int by (metis option.inject)

lemma fold_update_other:
  "k \<notin> g ` set ys \<Longrightarrow> map_of (fold (\<lambda>x. AList.update (g x) (h x)) ys m) k = map_of m k"
  by (induction ys arbitrary: m) auto

lemma fold_update_keys:
  assumes "inj_on g (set xs)" "x \<in> set xs"
  shows "map_of (fold (\<lambda>x. AList.update (g x) (h x)) xs m) (g x) = Some (h x)"
  using assms
proof (induction xs arbitrary: m)
  case (Cons y ys)
  show ?case
  proof (cases "x \<in> set ys")
    case True
    then show ?thesis using Cons by simp
  next
    case False
    then have "x = y" using Cons.prems(2) by simp
    moreover have "g y \<notin> g ` set ys" using Cons.prems(1) False \<open>x = y\<close> by (auto simp: inj_on_def)
    ultimately show ?thesis by (simp add: fold_update_other)
  qed
qed simp

lemma inj_show_int: "inj_on (\<lambda>n. show_int (int n)) A"
  by (simp add: inj_on_def show_int_inj)

lemma node_port_small:
  "0 \<le> s \<Longrightarrow> s < 333 \<Longrightarrow> 0 \<le> n \<Longrightarrow> n < 10 \<Longrightarrow> node_port s n = 32217 + s * 100 + n * 10"
  by (simp add: node_port_def go_int in_i64_def)

lemma ip_lookup_node:
  assumes "0 \<le> s" "s < shards" "0 \<le> n" "n < nodes" "show_int s \<noteq> ''2147483647''"
  shows "ip_lookup (ip_table_of shards nodes) (show_int s) (show_int n) = Some (node_ep s n)"
proof -
  let ?row = "\<lambda>s. fold (\<lambda>n m. AList.update (show_int (int n)) (node_ep (int s) (int n)) m) [0..<nat nodes] []"
  have ns: "nat n \<in> set [0..<nat nodes]" "nat s \<in> set [0..<nat shards]" using assms by auto
  have "map_of (?row (nat s)) (show_int (int (nat n))) = Some (node_ep (int (nat s)) (int (nat n)))"
    by (rule fold_update_keys [OF inj_show_int ns(1)])
  moreover have "map_of (fold (\<lambda>s t. AList.update (show_int (int s)) (?row s) t) [0..<nat shards] []) (show_int (int (nat s))) = Some (?row (nat s))"
    by (rule fold_update_keys [OF inj_show_int ns(2)])
  ultimately show ?thesis using assms(1,3,5) by (simp add: ip_table_of_def ip_lookup_def)
qed

lemma dec_digits:
  "dec_digit 0 = CHR ''0''" "dec_digit (Suc 0) = CHR ''1''" "dec_digit 2 = CHR ''2''" "dec_digit 3 = CHR ''3''"
  "dec_digit 4 = CHR ''4''" "dec_digit 5 = CHR ''5''" "dec_digit 6 = CHR ''6''" "dec_digit 7 = CHR ''7''"
  "dec_digit 8 = CHR ''8''" "dec_digit 9 = CHR ''9''"
  by (simp_all add: dec_digit_def)

lemma show_nat_step:
  "10 \<le> n \<Longrightarrow> show_nat n = show_nat (n div 10) @ [dec_digit (n mod 10)]" "n < 10 \<Longrightarrow> show_nat n = [dec_digit n]"
  by (subst show_nat.simps, simp)+

lemma show_ports: "show_int 2147483647 = ''2147483647''" "show_int 38800 = ''38800''"
  by (simp_all add: show_int_def show_nat_step dec_digits)

lemma shard_not_supervisor: "s < 2147483647 \<Longrightarrow> show_int s \<noteq> ''2147483647''"
  using show_int_inj [of s 2147483647] unfolding show_ports by simp

text \<open>For up to ten nodes per shard and 333 shards, the address table gives every node an address of
  its own: the ports are valid and pairwise distinct, and differ from the supervisor's.\<close>

lemma ip_table_distinct:
  assumes "shards \<le> 333" "nodes \<le> 10"
    and "0 \<le> s" "s < shards" "0 \<le> n" "n < nodes" "0 \<le> s'" "s' < shards" "0 \<le> n'" "n' < nodes"
  shows "ip_lookup (ip_table_of shards nodes) (show_int s) (show_int n) = Some (node_ep s n) \<and>
    ip_lookup (ip_table_of shards nodes) ''2147483647'' ''0'' = Some supervisorEP \<and>
    (node_ep s n = node_ep s' n' \<longleftrightarrow> s = s' \<and> n = n') \<and> node_ep s n \<noteq> supervisorEP \<and>
    0 < node_port s n \<and> node_port s n \<le> 65535"
proof -
  have found: "ip_lookup (ip_table_of shards nodes) (show_int s) (show_int n) = Some (node_ep s n)"
    using assms by (intro ip_lookup_node shard_not_supervisor) simp_all
  have sup: "ip_lookup (ip_table_of shards nodes) ''2147483647'' ''0'' = Some supervisorEP"
    by (simp add: ip_lookup_def ip_table_of_def)
  have ports: "node_port s n = 32217 + s * 100 + n * 10" "node_port s' n' = 32217 + s' * 100 + n' * 10"
    using assms by (simp_all add: node_port_small)
  have "s = s' \<and> n = n'" if "node_port s n = node_port s' n'"
  proof -
    have "s * 100 + n * 10 = s' * 100 + n' * 10" using that unfolding ports by simp
    moreover from this have "s = s'" using assms(2,5,6,9,10) by (cases s s' rule: linorder_cases) linarith+
    ultimately show ?thesis by simp
  qed
  then have "node_port s n = node_port s' n' \<longleftrightarrow> s = s' \<and> n = n'" by auto
  then have eps: "node_ep s n = node_ep s' n' \<longleftrightarrow> s = s' \<and> n = n'" by (simp add: node_ep_def show_int_inj)
  have "node_port s n \<noteq> 38800" unfolding ports by presburger
  then have "show_int (node_port s n) \<noteq> show_int 38800" by (simp only: show_int_inj not_False_eq_True)
  then have "node_ep s n \<noteq> supervisorEP" unfolding show_ports(2) by (simp add: node_ep_def supervisorEP_def)
  moreover have "0 < node_port s n \<and> node_port s n \<le> 65535" unfolding ports using assms by linarith
  ultimately show ?thesis using found sup eps by blast
qed

text \<open>With an eleventh node in a shard the table gives one address to two nodes of different shards.\<close>

theorem ip_table_collides:
  "ip_lookup (ip_table_of 2 11) (show_int 0) (show_int 10) = ip_lookup (ip_table_of 2 11) (show_int 1) (show_int 0) \<and>
     ip_lookup (ip_table_of 2 11) (show_int 1) (show_int 0) = Some (node_ep 1 0)"
proof -
  have "node_ep 0 10 = node_ep 1 0" by (simp add: node_ep_def node_port_def go_int in_i64_def)
  moreover have "ip_lookup (ip_table_of 2 11) (show_int 0) (show_int 10) = Some (node_ep 0 10)"
    by (intro ip_lookup_node shard_not_supervisor) simp_all
  moreover have "ip_lookup (ip_table_of 2 11) (show_int 1) (show_int 0) = Some (node_ep 1 0)"
    by (intro ip_lookup_node shard_not_supervisor) simp_all
  ultimately show ?thesis by argo
qed

section \<open>Waiting\<close>

lemma pg_wait_open:
  assumes "map_of (pg_done g) pid = Some None"
  shows "pg_wait pid [] g = None"
    "pg_wait pid (Exits exs # evs) g = pg_wait pid evs (fold pg_exit exs g)"
    "pg_wait pid (Deadline # evs) g = pg_wait pid evs g"
    "pg_wait pid (Abort # evs) g = Some (Inl (Errorf ''context canceled''), Abort # evs, g)"
  by (subst pg_wait.simps, simp add: assms)+

lemma pg_wait_status:
  "map_of (pg_done g) pid = Some (Some st) \<Longrightarrow>
     pg_wait pid evs g = Some (st, evs, g\<lparr>pg_done := AList.update pid None (pg_done g)\<rparr>)"
  by (subst pg_wait.simps) simp

lemma waitGrace_alive:
  assumes "pg_done (reap g) \<noteq> []"
  shows "waitGrace [] g = None"
    "waitGrace (Exits exs # evs) g = waitGrace evs (fold pg_exit exs (reap g))"
    "waitGrace (Deadline # evs) g = Some (KilledAfterDeadline, reap g)"
    "waitGrace (Abort # evs) g = Some (KilledOnAbort, reap g)"
  by (subst waitGrace.simps, simp add: assms Let_def)+

lemma waitGrace_dead: "pg_done (reap g) = [] \<Longrightarrow> waitGrace evs g = Some (AllExited, reap g)"
  by (subst waitGrace.simps) (simp add: Let_def)

lemma pg_exit_procs [simp]: "pg_procs (pg_exit ex g) = pg_procs g"
  by (simp add: pg_exit_def split: prod.splits)

lemma fold_exit_procs [simp]: "pg_procs (fold pg_exit exs g) = pg_procs g"
  by (induction exs arbitrary: g) simp_all

lemma reap_procs [simp]: "pg_procs (reap g) = pg_procs g"
  by (simp add: reap_def)

lemma pg_wait_procs: "pg_wait pid evs g = Some (r, evs', g') \<Longrightarrow> pg_procs g' = pg_procs g"
proof (induction pid evs g rule: pg_wait.induct)
  case (1 pid evs g)
  then show ?case
    by (subst (asm) (3) pg_wait.simps) (auto split: option.splits list.splits event.splits)
qed

lemma waitGrace_procs: "waitGrace evs g = Some (out, g') \<Longrightarrow> pg_procs g' = pg_procs g"
proof (induction evs arbitrary: g)
  case Nil
  then show ?case by (cases "pg_done (reap g) = []") (auto simp: waitGrace_alive waitGrace_dead)
next
  case (Cons e evs)
  show ?case
  proof (cases "pg_done (reap g) = []")
    case False
    then show ?thesis using Cons by (cases e) (auto simp: waitGrace_alive)
  qed (use Cons.prems in \<open>auto simp: waitGrace_dead\<close>)
qed

text \<open>The processes whose end an event reports.\<close>

definition reported :: "event list \<Rightarrow> int list" where
  "reported evs = concat (map (\<lambda>e. case e of Exits exs \<Rightarrow> map fst exs | _ \<Rightarrow> []) evs)"

lemma update_keeps: "(a, b) \<in> set m \<Longrightarrow> a \<noteq> k \<Longrightarrow> (a, b) \<in> set (AList.update k v m)"
  by (induction m) auto

lemma exits_keep: "(pid, None) \<in> set (pg_done g) \<Longrightarrow> pid \<notin> fst ` set exs \<Longrightarrow> (pid, None) \<in> set (pg_done (fold pg_exit exs g))"
proof (induction exs arbitrary: g)
  case (Cons ex exs)
  have "(pid, None) \<in> set (pg_done (pg_exit ex g))"
    using Cons.prems by (auto simp: pg_exit_def intro!: update_keeps split: prod.splits)
  then show ?case using Cons.IH Cons.prems(2) by simp
qed simp

text \<open>A process whose status was taken out of its channel is never seen to exit.\<close>

lemma waitGrace_stuck:
  assumes "(pid, None) \<in> set (pg_done g)" "pid \<notin> set (reported evs)" "waitGrace evs g = Some (out, g')"
  shows "out \<noteq> AllExited \<and> (Deadline \<in> set evs \<or> Abort \<in> set evs)"
  using assms
proof (induction evs arbitrary: g)
  case Nil
  then have "pg_done (reap g) \<noteq> []" by (auto simp: reap_def filter_empty_conv)
  then show ?case using Nil.prems(3) by (simp add: waitGrace_alive)
next
  case (Cons e evs)
  have alive: "(pid, None) \<in> set (pg_done (reap g))" using Cons.prems(1) by (simp add: reap_def)
  then have ne: "pg_done (reap g) \<noteq> []" by auto
  show ?case
  proof (cases e)
    case (Exits exs)
    then have "waitGrace evs (fold pg_exit exs (reap g)) = Some (out, g')"
      using Cons.prems(3) by (simp add: waitGrace_alive [OF ne])
    moreover have "(pid, None) \<in> set (pg_done (fold pg_exit exs (reap g)))"
      using Cons.prems(2) Exits by (intro exits_keep alive) (auto simp: reported_def)
    ultimately show ?thesis using Cons.IH Cons.prems(2) by (auto simp: reported_def)
  qed (use Cons.prems(3) in \<open>auto simp: waitGrace_alive [OF ne]\<close>)
qed

lemma exits_none: "map_of (pg_done g) pid = Some None \<Longrightarrow> pid \<notin> fst ` set exs \<Longrightarrow> map_of (pg_done (fold pg_exit exs g)) pid = Some None"
  by (induction exs arbitrary: g) (auto simp: pg_exit_def split: prod.splits)

lemma exits_some:
  "map_of (pg_done g) pid = Some None \<Longrightarrow> pid \<in> fst ` set exs \<Longrightarrow> \<exists>st. map_of (pg_done (fold pg_exit exs g)) pid = Some (Some st)"
proof -
  have kept: "map_of (pg_done g) pid = Some (Some st) \<Longrightarrow> \<exists>st. map_of (pg_done (fold pg_exit exs g)) pid = Some (Some st)"
    for exs and g :: processGroup and st
  proof (induction exs arbitrary: g st)
    case (Cons ex exs)
    have "\<exists>st. map_of (pg_done (pg_exit ex g)) pid = Some (Some st)"
      using Cons.prems by (cases "fst ex = pid") (auto simp: pg_exit_def split: prod.splits)
    then show ?case using Cons.IH by auto
  qed simp
  show "map_of (pg_done g) pid = Some None \<Longrightarrow> pid \<in> fst ` set exs \<Longrightarrow> \<exists>st. map_of (pg_done (fold pg_exit exs g)) pid = Some (Some st)"
  proof (induction exs arbitrary: g)
    case (Cons ex exs)
    show ?case
    proof (cases "fst ex = pid")
      case True
      then have "map_of (pg_done (pg_exit ex g)) pid = Some (Some (snd ex))" using Cons.prems(1) by (auto simp: pg_exit_def split: prod.splits)
      then show ?thesis using kept by simp
    next
      case False
      then have "map_of (pg_done (pg_exit ex g)) pid = Some None" using Cons.prems(1) by (auto simp: pg_exit_def split: prod.splits)
      then show ?thesis using Cons.IH Cons.prems(2) False by auto
    qed
  qed simp
qed

lemma update_None_in: "(k, v) \<in> set (AList.update k v m)"
  by (induction m) auto

text \<open>After a wait that ended with the exit of its process, the channel is empty and stays so.\<close>

lemma pg_wait_result:
  assumes "pg_wait pid evs g = Some (Inr (), evs', g')" "map_of (pg_done g) pid = Some None" "distinct (reported evs)"
  shows "(pid, None) \<in> set (pg_done g') \<and> pid \<notin> set (reported evs') \<and> set evs' \<subseteq> set evs"
  using assms
proof (induction evs arbitrary: g)
  case Nil
  then show ?case by (simp add: pg_wait_open)
next
  case (Cons e evs)
  show ?case
  proof (cases e)
    case (Exits exs)
    then have run: "pg_wait pid evs (fold pg_exit exs g) = Some (Inr (), evs', g')"
      using Cons.prems(1,2) by (simp add: pg_wait_open)
    show ?thesis
    proof (cases "pid \<in> fst ` set exs")
      case True
      obtain st where "map_of (pg_done (fold pg_exit exs g)) pid = Some (Some st)" using exits_some [OF Cons.prems(2) True] by blast
      then have "evs' = evs" "(pid, None) \<in> set (pg_done g')"
        using run by (auto simp: pg_wait_status update_None_in)
      moreover have "pid \<notin> set (reported evs)" using Cons.prems(3) True Exits by (auto simp: reported_def)
      ultimately show ?thesis by auto
    next
      case False
      then show ?thesis using Cons.IH [OF run exits_none [OF Cons.prems(2) False]] Cons.prems(3) Exits by (auto simp: reported_def)
    qed
  next
    case Deadline
    then have "pg_wait pid evs g = Some (Inr (), evs', g')" "distinct (reported evs)"
      using Cons.prems by (simp_all add: pg_wait_open reported_def)
    then show ?thesis using Cons.IH Cons.prems(2) by auto
  next
    case Abort
    then show ?thesis using Cons.prems by (simp add: pg_wait_open)
  qed
qed

lemma start_all_result:
  assumes "start_all start cmds g = (Inr (), g')"
  shows "\<exists>pids. mapR start cmds = Inr pids \<and> pg_procs g' = pg_procs g @ pids \<and>
    (\<forall>pid. map_of (pg_done g') pid = (if pid \<in> set pids then Some None else map_of (pg_done g) pid))"
  using assms
proof (induction cmds arbitrary: g)
  case (Cons cmd cmds)
  obtain p g1 where p: "start cmd = Inr p" "start_all start cmds g1 = (Inr (), g')"
    "g1 = g\<lparr>pg_procs := pg_procs g @ [p], pg_done := AList.update p None (pg_done g)\<rparr>"
    using Cons.prems by (cases "start cmd") (auto simp: pg_start_def)
  then show ?case using Cons.IH [OF p(2)] by auto
qed simp

text \<open>C40: a successful run never ends early. The supervisor's exit status is taken out of its channel by
  \<open>wait\<close>, so the wait for the remaining processes counts it as alive for ever: although everything
  exited, the whole grace period passes and every process, the finished ones too, is killed.\<close>

theorem grace_period_always_expires:
  assumes "chain_Run R start evs ctxErr c spec = Some (Inr co, files, killed)" "distinct (reported evs)"
  shows "(Deadline \<in> set evs \<or> Abort \<in> set evs) \<and>
    (\<exists>nodeBin supBin cfgPath tablePath nodes.
       mapR start (all_commands nodeBin supBin cfgPath tablePath (co_ShardNum co) nodes) = Inr killed)"
proof -
  obtain cfgPath tablePath resultDir where prep:
    "prepare R (path_Join [cr_WorkRoot c, roundDirName (rs_Round spec), ''chain'']) spec = Inr (files, cfgPath, tablePath, resultDir)"
    using assms(1) by (auto simp: chain_Run_def Let_def split: sum.splits prod.splits option.splits)
  obtain nodes supBin nodeBin g where g: "clusterShape R = Inr (co_ShardNum co, nodes)"
    "start_all start (all_commands nodeBin supBin cfgPath tablePath (co_ShardNum co) nodes) newProcessGroup = (Inr (), g)"
    "\<exists>evs' g1 out g2. pg_wait (last (pg_procs g)) evs g = Some (Inr (), evs', g1) \<and> waitGrace evs' g1 = Some (out, g2) \<and> killed = pg_procs g2"
    using assms(1) prep by (auto simp: chain_Run_def Let_def bindR_Inr_iff split: sum.splits prod.splits option.splits)
  let ?cmds = "all_commands nodeBin supBin cfgPath tablePath (co_ShardNum co) nodes"
  obtain evs' g1 out g2 where w: "pg_wait (last (pg_procs g)) evs g = Some (Inr (), evs', g1)"
    "waitGrace evs' g1 = Some (out, g2)" "killed = pg_procs g2" using g(3) by blast
  obtain pids where pids: "mapR start ?cmds = Inr pids" "pg_procs g = pids"
    "\<forall>pid. map_of (pg_done g) pid = (if pid \<in> set pids then Some None else None)"
    using start_all_result [OF g(2)] by (auto simp: newProcessGroup_def)
  have "?cmds \<noteq> []" by (simp add: all_commands_def)
  then have "pids \<noteq> []" using mapR_length [OF pids(1)] by auto
  then have "map_of (pg_done g) (last (pg_procs g)) = Some None" using pids(2,3) by simp
  note wait = pg_wait_result [OF w(1) this assms(2)]
  have grace: "Deadline \<in> set evs' \<or> Abort \<in> set evs'" using waitGrace_stuck wait w(2) by blast
  have "pg_procs g1 = pg_procs g" "pg_procs g2 = pg_procs g1" using pg_wait_procs [OF w(1)] waitGrace_procs [OF w(2)] .
  then have "mapR start ?cmds = Inr killed" using pids(1,2) w(3) by simp
  then show ?thesis using grace wait by blast
qed

section \<open>A concrete chain\<close>

definition example_doc :: "int doc" where
  "example_doc = [(''system'', YMap [(''shard_num'', YInt 1), (''node_num'', YInt 1)])]"

definition example_runner_env :: "int runner_env" where
  "example_runner_env = \<lparr>ru_unmarshal = (\<lambda>_. Some (Some example_doc)), ru_marshal = (\<lambda>_. Some ''c''), ru_trunc = id,
     ru_marshal_table = (\<lambda>_. Some ''t''), ru_base = Inr ''b'', ru_cwd = Inr ''/d'', ru_windows = False\<rparr>"

definition example_chain :: ChainRunner where
  "example_chain = \<lparr>cr_ModuleRoot = ''m'', cr_BaseConfig = ''b'', cr_WorkRoot = ''w'', cr_RunTimeout = 0, cr_NodeExitGrace = 0\<rparr>"

definition example_round :: RoundSpec where
  "example_round = \<lparr>rs_Round = 1, rs_PlanPath = ''p'', rs_TxCount = 3\<rparr>"

definition example_start :: "command \<Rightarrow> int result" where
  "example_start cmd = Inr (if fst (snd cmd) = ''supervisor'' then 2 else 1)"

text \<open>Both processes exit, the supervisor first, before the grace period is over.\<close>

definition example_exits :: "event list" where
  "example_exits = [Exits [(2, Inr ())], Exits [(1, Inr ())], Deadline]"

lemma example_chain_Run:
  "\<exists>co files. chain_Run example_runner_env example_start example_exits (Inr ()) example_chain example_round = Some (Inr co, files, [1, 2])"
proof -
  have "case chain_Run example_runner_env example_start example_exits (Inr ()) example_chain example_round of
      Some (Inr co, files, killed) \<Rightarrow> killed = [1, 2] | _ \<Rightarrow> False"
    by code_simp
  then show ?thesis by (auto split: option.splits prod.splits sum.splits)
qed

theorem grace_period_always_expires_witness:
  "\<exists>co files. chain_Run example_runner_env example_start example_exits (Inr ()) example_chain example_round = Some (Inr co, files, [1, 2]) \<and>
     (Deadline \<in> set example_exits \<or> Abort \<in> set example_exits) \<and>
     (\<exists>nodeBin supBin cfgPath tablePath nodes.
        mapR example_start (all_commands nodeBin supBin cfgPath tablePath (co_ShardNum co) nodes) = Inr [1, 2])"
proof -
  obtain co files where run: "chain_Run example_runner_env example_start example_exits (Inr ()) example_chain example_round =
    Some (Inr co, files, [1, 2])"
    using example_chain_Run by blast
  have "distinct (reported example_exits)" by (simp add: example_exits_def reported_def)
  then show ?thesis using run grace_period_always_expires [OF run] by blast
qed



end
