(* ===== verification/LoadNetwork.thy ===== *)
theory LoadNetwork
  imports LibP2P ChainRunner
begin

text \<open>
  Starting the network (\<open>cmd/loadnetwork/loadnetwork.go\<close>): over gRPC the topology is read from the
  address table, over libp2p it grows with the registrations until it is complete. The table that
  the chain runner writes yields a network in which every message reaches its node.
\<close>

section \<open>Reading the address table\<close>

definition valid_shard :: "int \<Rightarrow> int \<Rightarrow> bool" where
  "valid_shard shardNum s \<longleftrightarrow> s = SupervisorShardID \<or> \<not> (shardNum \<le> s \<or> s < 0)"

definition read_row :: "int \<Rightarrow> int \<Rightarrow> (int, string) gomap \<Rightarrow> (NodeInfo, string) gomap \<Rightarrow> (NodeInfo, string) gomap" where
  "read_row nodeNum s row ret =
     fold (\<lambda>(n, ip) ret. if nodeNum \<le> n \<or> n < 0 then ret else AList.update (NodeInfo n s) ip ret) row ret"

definition readIpTableFromFile ::
    "(string \<Rightarrow> (int, (int, string) gomap) gomap option) \<Rightarrow> string result \<Rightarrow> int \<Rightarrow> int \<Rightarrow> (NodeInfo, string) gomap result" where
  "readIpTableFromFile unmarshal file' shardNum nodeNum =
     bindR file' (\<lambda>b.
     bindR (orErr ''readIpTableFromFile'' (unmarshal b)) (\<lambda>ipMap.
     Inr (fold (\<lambda>(s, row) ret. if \<not> valid_shard shardNum s then ret else read_row nodeNum s row ret) ipMap [])))"

definition table_node ::
    "NodeInfo \<Rightarrow> (int, NodeInfo) gomap \<times> (int, NodeInfo list) gomap \<Rightarrow> (int, NodeInfo) gomap \<times> (int, NodeInfo list) gomap" where
  "table_node node ls =
     (case ls of (shardLeader, shardNodeInfo) \<Rightarrow>
        let s = ShardID node
        in (if NodeID node = 0 then AList.update s node shardLeader else shardLeader,
            AList.update s (get_or [] shardNodeInfo s @ [node]) shardNodeInfo))"

definition loadDirectNetwork ::
    "(string \<Rightarrow> (int, (int, string) gomap) gomap option) \<Rightarrow> string result \<Rightarrow> int \<Rightarrow> int \<Rightarrow> NodeInfo \<Rightarrow> (RPCConn \<times> TopoGetter) result" where
  "loadDirectNetwork unmarshal file' shardNum nodeNum me =
     bindR (readIpTableFromFile unmarshal file' shardNum nodeNum) (\<lambda>table.
     case fold table_node (keys_of table) ([], []) of (shardLeader, shardNodeInfo) \<Rightarrow>
       Inr (NewRPCConn me table, NewTopoGetter shardLeader shardNodeInfo))"

definition initLibP2PNetwork :: "string \<Rightarrow> NodeInfo \<Rightarrow> LibP2PConn \<times> TopoGetter" where
  "initLibP2PNetwork bootstrapPeer me =
     (let m = NewTopoGetter [] [] in (NewLibP2PConn bootstrapPeer me m, m))"

section \<open>Waiting for the topology\<close>

definition checkNodeMapperReady :: "int \<Rightarrow> int \<Rightarrow> TopoGetter \<Rightarrow> unit result" where
  "checkNodeMapperReady shardNum nodeNum t =
     (if int (length (GetAllLeaders t)) \<noteq> shardNum then Inl (Errorf ''node mapper is not ready'')
      else foldR (\<lambda>_ s.
             bindR (GetLeader t (int s)) (\<lambda>_.
             bindR (GetNodesInShard t (int s)) (\<lambda>nodeInfos.
             if int (length nodeInfos) \<noteq> nodeNum then Inl (Errorf ''node mapper is not ready'') else Inr ()))) () [0..<nat shardNum])"

definition nodeMapperCheckTimes :: nat where
  "nodeMapperCheckTimes = 30"

text \<open>
  The topologies are those that the checks find, two seconds apart; \<open>retry\<close> stands for the library's
  \<open>retry.Do\<close> with a number of attempts.
\<close>

definition waitForNodeMapperReady ::
    "(nat \<Rightarrow> (TopoGetter \<Rightarrow> unit result) \<Rightarrow> TopoGetter list \<Rightarrow> unit result) \<Rightarrow> int \<Rightarrow> int \<Rightarrow> TopoGetter list \<Rightarrow> unit result" where
  "waitForNodeMapperReady retry shardNum nodeNum topos = retry nodeMapperCheckTimes (checkNodeMapperReady shardNum nodeNum) topos"

datatype p2p = RPC RPCConn | LibP2P LibP2PConn

definition PrepareNetworkByCfg ::
    "(nat \<Rightarrow> (TopoGetter \<Rightarrow> unit result) \<Rightarrow> TopoGetter list \<Rightarrow> unit result) \<Rightarrow> string \<Rightarrow> (string \<Rightarrow> (int, (int, string) gomap) gomap option) \<Rightarrow>
     string result \<Rightarrow> string \<Rightarrow> TopoGetter list \<Rightarrow>
     int \<Rightarrow> int \<Rightarrow> NodeInfo \<Rightarrow> (p2p \<times> TopoGetter) result" where
  "PrepareNetworkByCfg retry mode unmarshal file' bootstrapPeer topos shardNum nodeNum me =
     (if mode = ''direct'' then
        bindR (loadDirectNetwork unmarshal file' shardNum nodeNum me) (\<lambda>(p, t). Inr (RPC p, t))
      else if mode = ''libp2p'' then
        (case initLibP2PNetwork bootstrapPeer me of (p, t) \<Rightarrow>
           bindR (waitForNodeMapperReady retry shardNum nodeNum topos) (\<lambda>_. Inr (LibP2P p, t)))
      else Inl (Errorf ''unknown communication Mode''))"

section \<open>When a topology is ready\<close>

lemma checks_iff:
  "foldR (\<lambda>_ s. bindR (GetLeader t (int s)) (\<lambda>_.
      bindR (GetNodesInShard t (int s)) (\<lambda>nodeInfos.
      if int (length nodeInfos) \<noteq> nodeNum then Inl (Errorf ''node mapper is not ready'') else Inr ()))) () ss = Inr () \<longleftrightarrow>
   (\<forall>s \<in> set ss. map_of (leaders t) (int s) \<noteq> None \<and>
      (\<exists>ns. map_of (shard2nodes t) (int s) = Some ns \<and> int (length ns) = nodeNum))"
  by (induction ss) (auto simp: bindR_Inr_iff GetLeader_def GetNodesInShard_def orErr_def split: option.splits if_splits)

lemma card_full:
  fixes N :: int
  assumes "A \<subseteq> {0..<N}" "0 < N"
  shows "int (card A) = N \<longleftrightarrow> A = {0..<N}"
proof
  assume "int (card A) = N"
  then have "card A = card {0..<N}" by simp
  then show "A = {0..<N}" by (rule card_subset_eq [OF finite_atLeastLessThan_int assms(1)])
qed (use assms(2) in simp)

text \<open>A topology that knows nodes of the configured shards only is ready when it knows all of them.\<close>

lemma ready_iff:
  assumes T: "topo_knows t R" and R: "\<forall>(s, n) \<in> R. s = SupervisorShardID \<or> 0 \<le> s \<and> s < shardNum \<and> 0 \<le> n \<and> n < nodeNum"
    and pos: "0 < shardNum" "shardNum \<le> SupervisorShardID" "0 < nodeNum"
  shows "checkNodeMapperReady shardNum nodeNum t = Inr () \<longleftrightarrow>
    (\<forall>s n. 0 \<le> s \<and> s < shardNum \<and> 0 \<le> n \<and> n < nodeNum \<longrightarrow> (s, n) \<in> R)"
proof -
  have lead: "\<And>s. s \<noteq> SupervisorShardID \<Longrightarrow> map_of (leaders t) s = (if (s, 0) \<in> R then Some (NodeInfo 0 s) else None)"
    and nodes: "\<And>s. s \<noteq> SupervisorShardID \<Longrightarrow> distinct (get_or [] (shard2nodes t) s)"
      "\<And>s. s \<noteq> SupervisorShardID \<Longrightarrow> set (get_or [] (shard2nodes t) s) = {NodeInfo n s |n. (s, n) \<in> R}"
      "\<And>s. s \<noteq> SupervisorShardID \<Longrightarrow> map_of (shard2nodes t) s = None \<longleftrightarrow> (\<forall>n. (s, n) \<notin> R)"
    and sup: "map_of (leaders t) SupervisorShardID = Some (NodeInfo 0 SupervisorShardID)" and dist: "gomap (leaders t)"
    using T unfolding topo_knows_def by blast+
  have leaders: "int (length (GetAllLeaders t)) = int (card {s. 0 \<le> s \<and> s < shardNum \<and> (s, 0) \<in> R})"
  proof -
    have own: "ShardID v = k" if "(k, v) \<in> set (leaders t)" for k v
    proof -
      have "map_of (leaders t) k = Some v" using dist that by (simp only: gomap_map_of)
      then show ?thesis using lead [of k] sup by (cases "k = SupervisorShardID") (auto split: if_splits)
    qed
    have "length (GetAllLeaders t) = length (filter (\<lambda>k. k \<noteq> SupervisorShardID) (map fst (leaders t)))"
      unfolding GetAllLeaders_def filter_map length_map
      by (rule arg_cong [where f = length], rule filter_cong) (use own in \<open>fastforce simp: comp_def\<close>)+
    also have "\<dots> = card {k. k \<noteq> SupervisorShardID \<and> k \<in> fst ` set (leaders t)}"
    proof -
      have "distinct (filter (\<lambda>k. k \<noteq> SupervisorShardID) (map fst (leaders t)))" using dist by (simp add: gomap_def)
      then have "card (set (filter (\<lambda>k. k \<noteq> SupervisorShardID) (map fst (leaders t)))) =
        length (filter (\<lambda>k. k \<noteq> SupervisorShardID) (map fst (leaders t)))" by (rule distinct_card)
      then show ?thesis by (simp add: conj_commute)
    qed
    also have "{k. k \<noteq> SupervisorShardID \<and> k \<in> fst ` set (leaders t)} = {s. 0 \<le> s \<and> s < shardNum \<and> (s, 0) \<in> R}"
    proof -
      have "k \<in> fst ` set (leaders t) \<longleftrightarrow> (k, 0) \<in> R" if "k \<noteq> SupervisorShardID" for k
        using lead [OF that] map_of_eq_None_iff [of "leaders t" k] by (auto split: if_splits)
      then show ?thesis using R pos(2) by auto
    qed
    finally show ?thesis by simp
  qed
  have count: "length (get_or [] (shard2nodes t) s) = card {n. (s, n) \<in> R}" if "s \<noteq> SupervisorShardID" for s
  proof -
    have "{NodeInfo n s |n. (s, n) \<in> R} = (\<lambda>n. NodeInfo n s) ` {n. (s, n) \<in> R}" by blast
    moreover have "inj_on (\<lambda>n. NodeInfo n s) {n. (s, n) \<in> R}" by (simp add: inj_on_def)
    ultimately show ?thesis using distinct_card [OF nodes(1) [OF that]] nodes(2) [OF that] by (simp add: card_image)
  qed
  have sub: "{n. (s, n) \<in> R} \<subseteq> {0..<nodeNum}" if "s \<noteq> SupervisorShardID" for s using R that by auto
  have full: "int (card {n. (s, n) \<in> R}) = nodeNum \<longleftrightarrow> {n. (s, n) \<in> R} = {0..<nodeNum}" if "s \<noteq> SupervisorShardID" for s
    by (rule card_full [OF sub [OF that] pos(3)])
  have fullL: "int (card {s. 0 \<le> s \<and> s < shardNum \<and> (s, 0) \<in> R}) = shardNum \<longleftrightarrow> (\<forall>s. 0 \<le> s \<and> s < shardNum \<longrightarrow> (s, 0) \<in> R)"
  proof -
    have "{s. 0 \<le> s \<and> s < shardNum \<and> (s, 0) \<in> R} \<subseteq> {0..<shardNum}" by auto
    then have "int (card {s. 0 \<le> s \<and> s < shardNum \<and> (s, 0) \<in> R}) = shardNum \<longleftrightarrow> {s. 0 \<le> s \<and> s < shardNum \<and> (s, 0) \<in> R} = {0..<shardNum}"
      by (rule card_full [OF _ pos(1)])
    also have "\<dots> \<longleftrightarrow> (\<forall>s. 0 \<le> s \<and> s < shardNum \<longrightarrow> (s, 0) \<in> R)" by (simp only: set_eq_iff mem_Collect_eq atLeastLessThan_iff) blast
    finally show ?thesis .
  qed
  have ns: "int s \<noteq> SupervisorShardID" if "s \<in> set [0..<nat shardNum]" for s using that pos(2) by auto
  have shard: "(\<exists>ns. map_of (shard2nodes t) (int s) = Some ns \<and> int (length ns) = nodeNum) \<longleftrightarrow> {n. (int s, n) \<in> R} = {0..<nodeNum}"
    if "s \<in> set [0..<nat shardNum]" for s
  proof (cases "map_of (shard2nodes t) (int s)")
    case None
    then have "{n. (int s, n) \<in> R} = {}" using nodes(3) [OF ns [OF that]] by blast
    then show ?thesis using None pos(3) by simp
  next
    case (Some l)
    then have "length l = card {n. (int s, n) \<in> R}" using count [OF ns [OF that]] by (simp add: get_or_def)
    then show ?thesis using Some full [OF ns [OF that]] by simp
  qed
  show ?thesis (is "_ \<longleftrightarrow> ?all")
  proof
    assume "checkNodeMapperReady shardNum nodeNum t = Inr ()"
    then have "\<forall>s \<in> set [0..<nat shardNum]. (\<exists>ns. map_of (shard2nodes t) (int s) = Some ns \<and> int (length ns) = nodeNum)"
      using checks_iff [of t nodeNum "[0..<nat shardNum]"] by (auto simp: checkNodeMapperReady_def split: if_splits)
    then have all: "\<forall>s \<in> set [0..<nat shardNum]. {n. (int s, n) \<in> R} = {0..<nodeNum}" using shard by blast
    show ?all
    proof (intro allI impI)
      fix s n assume sn: "0 \<le> s \<and> s < shardNum \<and> 0 \<le> n \<and> n < nodeNum"
      then have "{n. (int (nat s), n) \<in> R} = {0..<nodeNum}" using all by (intro bspec [OF all]) auto
      then show "(s, n) \<in> R" using sn by auto
    qed
  next
    assume all: ?all
    then have "int (length (GetAllLeaders t)) = shardNum" unfolding leaders fullL using pos(3) by blast
    moreover have "\<forall>s \<in> set [0..<nat shardNum]. map_of (leaders t) (int s) \<noteq> None \<and>
      (\<exists>ns. map_of (shard2nodes t) (int s) = Some ns \<and> int (length ns) = nodeNum)"
    proof
      fix s assume s: "s \<in> set [0..<nat shardNum]"
      then have "(int s, n) \<in> R" if "0 \<le> n" "n < nodeNum" for n using all that by auto
      then have "{n. (int s, n) \<in> R} = {0..<nodeNum}" "(int s, 0) \<in> R" using sub [OF ns [OF s]] pos(3) by auto
      then show "map_of (leaders t) (int s) \<noteq> None \<and> (\<exists>ns. map_of (shard2nodes t) (int s) = Some ns \<and> int (length ns) = nodeNum)"
        using shard [OF s] lead [OF ns [OF s]] by simp
    qed
    ultimately show "checkNodeMapperReady shardNum nodeNum t = Inr ()"
      using checks_iff [of t nodeNum "[0..<nat shardNum]"] by (simp add: checkNodeMapperReady_def)
  qed
qed

section \<open>The topology of a list of nodes\<close>

lemma table_nodes_spec:
  assumes "fold table_node ks ([], []) = (l, sn)"
  shows "gomap l \<and> gomap sn \<and>
    (\<forall>s. map_of l s = (if NodeInfo 0 s \<in> set ks then Some (NodeInfo 0 s) else None)) \<and>
    (\<forall>s. map_of sn s = (if \<exists>k \<in> set ks. ShardID k = s then Some (filter (\<lambda>k. ShardID k = s) ks) else None))"
  using assms
proof (induction ks arbitrary: l sn rule: rev_induct)
  case Nil
  then show ?case by (simp add: gomap_def)
next
  case (snoc k ks)
  obtain l0 sn0 where r: "fold table_node ks ([], []) = (l0, sn0)" by fastforce
  note IH = snoc.IH [OF r]
  obtain n s where k: "k = NodeInfo n s" by (cases k)
  have out: "l = (if n = 0 then AList.update s k l0 else l0)" "sn = AList.update s (get_or [] sn0 s @ [k]) sn0"
    using snoc.prems by (auto simp: r table_node_def [of "NodeInfo n s" "(l0, sn0)"] k Let_def)
  have g: "get_or [] sn0 s = filter (\<lambda>k. ShardID k = s) ks" using IH by (simp add: get_or_def)
  have "gomap l" "gomap sn" using IH unfolding out by simp_all
  moreover have "map_of l s' = (if NodeInfo 0 s' \<in> set (ks @ [k]) then Some (NodeInfo 0 s') else None)" for s'
    using IH unfolding out by (auto simp: k)
  moreover have "map_of sn s' = (if \<exists>k \<in> set (ks @ [k]). ShardID k = s' then Some (filter (\<lambda>k. ShardID k = s') (ks @ [k])) else None)" for s'
    using IH unfolding out g by (auto simp: k)
  ultimately show ?case by blast
qed

text \<open>Distinct nodes, the supervisor among them, give a topology that knows them.\<close>

lemma table_nodes_know:
  assumes "distinct ks" and "fold table_node ks ([], []) = (l, sn)"
  shows "topo_knows \<lparr>leaders = AList.update SupervisorShardID (NodeInfo 0 SupervisorShardID) l,
      shard2nodes = AList.update SupervisorShardID x sn\<rparr> {(s, n). NodeInfo n s \<in> set ks}"
    and "NodeInfo 0 SupervisorShardID \<in> set ks \<Longrightarrow> topo_knows (NewTopoGetter l sn) {(s, n). NodeInfo n s \<in> set ks}"
proof -
  have S: "gomap l" "\<And>s. map_of l s = (if NodeInfo 0 s \<in> set ks then Some (NodeInfo 0 s) else None)"
    "\<And>s. map_of sn s = (if \<exists>k \<in> set ks. ShardID k = s then Some (filter (\<lambda>k. ShardID k = s) ks) else None)"
    using table_nodes_spec [OF assms(2)] by blast+
  have nodes: "set (filter (\<lambda>k. ShardID k = s) ks) = {NodeInfo n s |n. NodeInfo n s \<in> set ks}" for s
  proof (intro equalityI subsetI)
    fix k assume "k \<in> set (filter (\<lambda>k. ShardID k = s) ks)"
    then have "k \<in> set ks" "k = NodeInfo (NodeID k) s" by auto
    then show "k \<in> {NodeInfo n s |n. NodeInfo n s \<in> set ks}" by (intro CollectI exI [of _ "NodeID k"] conjI) simp_all
  qed auto
  have get: "get_or [] sn s = filter (\<lambda>k. ShardID k = s) ks" for s by (auto simp: get_or_def S(3))
  have none: "map_of sn s = None \<longleftrightarrow> (\<forall>n. NodeInfo n s \<notin> set ks)" for s
    using nodes [of s] unfolding S(3) by auto
  show "topo_knows \<lparr>leaders = AList.update SupervisorShardID (NodeInfo 0 SupervisorShardID) l,
      shard2nodes = AList.update SupervisorShardID x sn\<rparr> {(s, n). NodeInfo n s \<in> set ks}"
    unfolding topo_knows_def using assms(1) S(1,2) nodes get none by (auto simp: get_or_def)
  show "topo_knows (NewTopoGetter l sn) {(s, n). NodeInfo n s \<in> set ks}" if "NodeInfo 0 SupervisorShardID \<in> set ks"
    unfolding topo_knows_def NewTopoGetter_def using assms(1) S(1,2) nodes get none that by auto
qed

text \<open>\<open>SetTopoGetter\<close> makes the topology of the nodes of a map.\<close>

definition flat_nodes :: "(int, (int, string) gomap) gomap \<Rightarrow> NodeInfo list" where
  "flat_nodes m = concat (map (\<lambda>(s, row). map (\<lambda>nd. NodeInfo (fst nd) s) row) m)"

lemma set_topo_nodes:
  "(leaders (foldl (set_topo_node s) t row), shard2nodes (foldl (set_topo_node s) t row)) =
     fold table_node (map (\<lambda>nd. NodeInfo (fst nd) s) row) (leaders t, shard2nodes t)"
proof (induction row arbitrary: t)
  case (Cons nd row)
  have "(leaders (set_topo_node s t nd), shard2nodes (set_topo_node s t nd)) =
      table_node (NodeInfo (fst nd) s) (leaders t, shard2nodes t)"
    by (simp add: set_topo_node_def table_node_def Let_def)
  then show ?case using Cons.IH [of "set_topo_node s t nd"] by simp
qed simp

lemma set_topo_flat:
  "(leaders (foldl (\<lambda>t (s, row). foldl (set_topo_node s) t row) t m),
    shard2nodes (foldl (\<lambda>t (s, row). foldl (set_topo_node s) t row) t m)) =
     fold table_node (flat_nodes m) (leaders t, shard2nodes t)"
proof (induction m arbitrary: t)
  case (Cons x m)
  obtain s row where x: "x = (s, row)" by fastforce
  show ?case using Cons.IH [of "foldl (set_topo_node s) t row"] set_topo_nodes [of s t row] by (simp add: x flat_nodes_def)
qed (simp add: flat_nodes_def)

lemma flat_nodes_iff:
  assumes "idmap_ok m"
  shows "NodeInfo n s \<in> set (flat_nodes m) \<longleftrightarrow> (s, n) \<in> registered m"
proof -
  have "NodeInfo n s \<in> set (flat_nodes m) \<longleftrightarrow> (\<exists>row p. (s, row) \<in> set m \<and> (n, p) \<in> set row)"
    by (force simp: flat_nodes_def)
  also have "\<dots> \<longleftrightarrow> (s, n) \<in> registered m"
  proof -
    have "gomap m" "\<And>s row. map_of m s = Some row \<Longrightarrow> gomap row" using assms unfolding idmap_ok_def by blast+
    then show ?thesis unfolding registered_def by (simp add: gomap_map_of) (metis gomap_map_of)
  qed
  finally show ?thesis .
qed

lemma flat_nodes_distinct:
  assumes "idmap_ok m" shows "distinct (flat_nodes m)"
proof -
  have "distinct (concat (map (\<lambda>(s, row). map (\<lambda>nd. NodeInfo (fst nd) s) row) m))"
    if "distinct (map fst m)" "\<forall>(s, row) \<in> set m. distinct (map fst row)" for m :: "(int, (int, string) gomap) gomap"
    using that
  proof (induction m)
    case (Cons x m)
    obtain s row where x: "x = (s, row)" by fastforce
    have "distinct (map (\<lambda>nd. NodeInfo (fst nd) s) row)"
      using Cons.prems(2) by (auto simp: x distinct_map inj_on_def)
    moreover have "set (map (\<lambda>nd. NodeInfo (fst nd) s) row) \<inter>
        set (concat (map (\<lambda>(s, row). map (\<lambda>nd. NodeInfo (fst nd) s) row) m)) = {}"
      using Cons.prems(1) by (force simp: x)
    ultimately show ?case using Cons by (simp add: x)
  qed simp
  moreover have "distinct (map fst m)" "\<forall>(s, row) \<in> set m. distinct (map fst row)"
    using assms by (auto simp: idmap_ok_def gomap_def dest: gomap_map_of [OF assms [unfolded idmap_ok_def, THEN conjunct1], THEN iffD2])
  ultimately show ?thesis unfolding flat_nodes_def by blast
qed

lemma SetTopoGetter_knows:
  assumes "idmap_ok m" shows "topo_knows (SetTopoGetter m) (registered m)"
proof -
  obtain l sn where r: "fold table_node (flat_nodes m) ([], []) = (l, sn)" by fastforce
  let ?t = "foldl (\<lambda>t (s, row). foldl (set_topo_node s) t row) \<lparr>leaders = [], shard2nodes = []\<rparr> m"
  have "leaders ?t = l" "shard2nodes ?t = sn"
    using set_topo_flat [of "\<lparr>leaders = [], shard2nodes = []\<rparr>" m] r by simp_all
  then have "SetTopoGetter m = \<lparr>leaders = AList.update SupervisorShardID (NodeInfo 0 SupervisorShardID) l,
      shard2nodes = AList.update SupervisorShardID (get_or [] sn SupervisorShardID @ [NodeInfo 0 SupervisorShardID]) sn\<rparr>"
    unfolding SetTopoGetter_def Let_def by (cases ?t) simp
  moreover have "{(s, n). NodeInfo n s \<in> set (flat_nodes m)} = registered m" using flat_nodes_iff [OF assms] by auto
  ultimately show ?thesis using table_nodes_know(1) [OF flat_nodes_distinct [OF assms] r] by simp
qed

section \<open>The network of an address table\<close>

definition idmap_get :: "(int, (int, string) gomap) gomap \<Rightarrow> int \<Rightarrow> int \<Rightarrow> string option" where
  "idmap_get m s n = (case map_of m s of None \<Rightarrow> None | Some row \<Rightarrow> map_of row n)"

lemma read_row_lookup:
  assumes "gomap row"
  shows "map_of (read_row nodeNum s row ret) (NodeInfo n s') =
    (if s' = s \<and> 0 \<le> n \<and> n < nodeNum \<and> map_of row n \<noteq> None then map_of row n else map_of ret (NodeInfo n s'))"
  using assms
proof (induction row arbitrary: ret)
  case Nil
  then show ?case by (simp add: read_row_def)
next
  case (Cons x row)
  obtain k ip where x: "x = (k, ip)" by fastforce
  let ?ret = "if nodeNum \<le> k \<or> k < 0 then ret else AList.update (NodeInfo k s) ip ret"
  have "read_row nodeNum s (x # row) ret = read_row nodeNum s row ?ret" by (simp add: read_row_def x)
  moreover have "gomap row" "map_of row k = None" using Cons.prems by (auto simp: gomap_def x map_of_eq_None_iff)
  ultimately show ?case using Cons.IH [of ?ret] by (auto simp: x)
qed

lemma read_row_gomap: "gomap ret \<Longrightarrow> gomap (read_row nodeNum s row ret)"
  unfolding read_row_def by (induction row arbitrary: ret) (auto split: if_splits)

lemma read_table_lookup:
  assumes "idmap_ok m" and "unmarshal b = Some m"
  obtains table where "readIpTableFromFile unmarshal (Inr b) shardNum nodeNum = Inr table" "gomap table"
    "\<And>n s. map_of table (NodeInfo n s) = (if valid_shard shardNum s \<and> 0 \<le> n \<and> n < nodeNum then idmap_get m s n else None)"
proof -
  let ?step = "\<lambda>(s, row) ret. if \<not> valid_shard shardNum s then ret else read_row nodeNum s row ret"
  have fold: "gomap (fold ?step m ret) \<and> map_of (fold ?step m ret) (NodeInfo n s) =
      (if valid_shard shardNum s \<and> 0 \<le> n \<and> n < nodeNum \<and> idmap_get m s n \<noteq> None then idmap_get m s n else map_of ret (NodeInfo n s))"
    if "gomap m" "\<forall>(s, row) \<in> set m. gomap row" "gomap ret" for m :: "(int, (int, string) gomap) gomap" and ret n s
    using that
  proof (induction m arbitrary: ret)
    case Nil
    then show ?case by (simp add: idmap_get_def)
  next
    case (Cons x m)
    obtain k row where x: "x = (k, row)" by fastforce
    have g: "gomap m" "map_of m k = None" "gomap row" using Cons.prems(1,2) by (auto simp: gomap_def x map_of_eq_None_iff)
    have "gomap (?step x ret)" using Cons.prems(3) by (simp add: x read_row_gomap)
    then have "gomap (fold ?step m (?step x ret)) \<and> map_of (fold ?step m (?step x ret)) (NodeInfo n s) =
        (if valid_shard shardNum s \<and> 0 \<le> n \<and> n < nodeNum \<and> idmap_get m s n \<noteq> None then idmap_get m s n
         else map_of (?step x ret) (NodeInfo n s))"
      using g(1) Cons.prems(2) by (intro Cons.IH) (simp_all add: x)
    moreover have "fold ?step (x # m) ret = fold ?step m (?step x ret)" by simp
    ultimately show ?case using read_row_lookup [OF g(3)] g(2) by (auto simp: x idmap_get_def)
  qed
  have ok: "gomap m" "\<forall>(s, row) \<in> set m. gomap row"
    using assms(1) by (auto simp: idmap_ok_def dest: gomap_map_of [OF assms(1) [unfolded idmap_ok_def, THEN conjunct1], THEN iffD2])
  show thesis
  proof (rule that)
    show "readIpTableFromFile unmarshal (Inr b) shardNum nodeNum = Inr (fold ?step m [])"
      by (simp add: readIpTableFromFile_def bindR_def orErr_def assms(2))
    show "gomap (fold ?step m [])" using fold [OF ok gomap_empty] by blast
    show "map_of (fold ?step m []) (NodeInfo n s) = (if valid_shard shardNum s \<and> 0 \<le> n \<and> n < nodeNum then idmap_get m s n else None)" for n s
      using fold [OF ok gomap_empty, of n s] by (simp split: if_splits)
  qed
qed

text \<open>The topology over gRPC is that of the nodes of the table.\<close>

lemma loadDirectNetwork_knows:
  assumes table: "readIpTableFromFile unmarshal file' shardNum nodeNum = Inr table" "gomap table"
    and sup: "map_of table (NodeInfo 0 SupervisorShardID) \<noteq> None"
  obtains t where "\<And>me. loadDirectNetwork unmarshal file' shardNum nodeNum me = Inr (NewRPCConn me table, t)"
    "topo_knows t {(s, n). map_of table (NodeInfo n s) \<noteq> None}"
proof -
  obtain l sn where r: "fold table_node (keys_of table) ([], []) = (l, sn)" by fastforce
  have "distinct (keys_of table)" using table(2) by (simp add: gomap_def keys_of_def)
  moreover have "NodeInfo 0 SupervisorShardID \<in> set (keys_of table)" using sup by (simp add: keys_of_iff)
  ultimately have "topo_knows (NewTopoGetter l sn) {(s, n). NodeInfo n s \<in> set (keys_of table)}" by (rule table_nodes_know(2) [OF _ r])
  then have "topo_knows (NewTopoGetter l sn) {(s, n). map_of table (NodeInfo n s) \<noteq> None}" by (simp add: keys_of_iff)
  with _ show thesis by (rule that) (simp add: loadDirectNetwork_def table(1) bindR_def r)
qed

text \<open>All nodes of a table, started.\<close>

definition started :: "(NodeInfo, string) gomap \<Rightarrow> net" where
  "started table = map (\<lambda>n. (n, NewRPCConn n table)) (keys_of table)"

lemma started_lookup: "map_of (started table) n = (if map_of table n \<noteq> None then Some (NewRPCConn n table) else None)"
proof -
  have "map_of (map (\<lambda>n. (n, f n)) ks) n = (if n \<in> set ks then Some (f n) else None)" for f :: "NodeInfo \<Rightarrow> RPCConn" and ks
    by (induction ks) auto
  then show ?thesis by (simp add: started_def keys_of_iff)
qed

lemma net_ok_started: "gomap table \<Longrightarrow> net_ok table (started table)"
  by (simp add: net_ok_def started_lookup NewRPCConn_def) (simp add: gomap_def started_def keys_of_def comp_def)

text \<open>A broadcast within a group of distinct nodes of the network reaches each of them once.\<close>

lemma broadcast_delivers:
  assumes "table_ok table" "net_ok table net" "\<forall>a. newClient a" "map_of net src \<noteq> None"
    and ns: "distinct ns" "\<forall>d \<in> set ns. map_of net d \<noteq> None" and room: "\<forall>n. length (buffer_of net n) < msgBufferSize"
  shows "buffer_of (GroupBroadcastMessage newClient src ns msg net) = (\<lambda>n. buffer_of net n @ (if n \<in> set ns then [msg] else []))"
proof -
  have c: "for_node (map (\<lambda>d. (d, msg)) ns) n = (if n \<in> set ns then [msg] else [])" for n
    unfolding for_node_broadcast using ns(1) by (induction ns) auto
  have "length (buffer_of net n) + length (for_node (map (\<lambda>d. (d, msg)) ns) n) \<le> msgBufferSize" for n
    using room [rule_format, of n] unfolding c by simp
  then have "buffer_of (MSendDifferentMessages newClient src (map (\<lambda>d. (d, msg)) ns) net) =
      (\<lambda>n. buffer_of net n @ for_node (map (\<lambda>d. (d, msg)) ns) n)"
    using assms ns(2) by (intro sends_deliver [THEN conjunct2, OF assms(1-4)]) auto
  then show ?thesis unfolding broadcast_as_sends c .
qed

text \<open>JSON reads a table back: the keys of its objects are the decimals of the map's.\<close>

definition decodes_table :: "(string \<Rightarrow> (int, (int, string) gomap) gomap option) \<Rightarrow> string \<Rightarrow> ip_table \<Rightarrow> bool" where
  "decodes_table unmarshal b t \<longleftrightarrow>
     (\<exists>m. unmarshal b = Some m \<and> idmap_ok m \<and> (\<forall>s n. idmap_get m s n = ip_lookup t (show_int s) (show_int n)))"

lemma ip_table_lookup:
  assumes "valid_shard shards s" "0 \<le> n" "n < nodes" "shards \<le> 333"
  shows "ip_lookup (ip_table_of shards nodes) (show_int s) (show_int n) =
    (if s = SupervisorShardID then if n = 0 then Some supervisorEP else None else Some (node_ep s n))"
proof (cases "s = SupervisorShardID")
  case True
  have "show_int n = ''0'' \<longleftrightarrow> n = 0" using show_int_inj [of n 0] by (simp add: show_int_def show_nat_step dec_digits)
  then show ?thesis using True show_ports(1) by (auto simp: SupervisorShardID_def ip_lookup_def ip_table_of_def)
next
  case False
  then have "0 \<le> s" "s < shards" using assms(1) by (auto simp: valid_shard_def)
  then show ?thesis using assms False by (simp add: ip_lookup_node shard_not_supervisor)
qed

lemma runner_table:
  assumes B: "0 < shards" "shards \<le> 333" "0 < nodes" "nodes \<le> 10" and D: "decodes_table unmarshal b (ip_table_of shards nodes)"
  obtains table t where "\<And>me. loadDirectNetwork unmarshal (Inr b) shards nodes me = Inr (NewRPCConn me table, t)"
    "gomap table" "table_ok table"
    "\<And>n s. map_of table (NodeInfo n s) \<noteq> None \<longleftrightarrow> s = SupervisorShardID \<and> n = 0 \<or> 0 \<le> s \<and> s < shards \<and> 0 \<le> n \<and> n < nodes"
    "topo_knows t {(s, n). map_of table (NodeInfo n s) \<noteq> None}"
proof -
  obtain m where m: "unmarshal b = Some m" "idmap_ok m" "\<And>s n. idmap_get m s n = ip_lookup (ip_table_of shards nodes) (show_int s) (show_int n)"
    using D unfolding decodes_table_def by blast
  obtain table where table: "readIpTableFromFile unmarshal (Inr b) shards nodes = Inr table" "gomap table"
    "\<And>n s. map_of table (NodeInfo n s) = (if valid_shard shards s \<and> 0 \<le> n \<and> n < nodes then idmap_get m s n else None)"
    by (rule read_table_lookup [where unmarshal = unmarshal and b = b, OF m(2,1)]) (rule that)
  have addr: "map_of table (NodeInfo n s) =
      (if s = SupervisorShardID then if n = 0 then Some supervisorEP else None
       else if 0 \<le> s \<and> s < shards \<and> 0 \<le> n \<and> n < nodes then Some (node_ep s n) else None)" for n s
    using B(3) ip_table_lookup [of shards s n nodes] B(2) unfolding table(3) m(3) by (auto simp: valid_shard_def SupervisorShardID_def)
  have "table_ok table"
    unfolding table_ok_def
  proof (intro allI impI)
    fix k k' a assume k: "map_of table k = Some a" "map_of table k' = Some a"
    obtain n s n' s' where kk: "k = NodeInfo n s" "k' = NodeInfo n' s'" by (metis NodeInfo.exhaust)
    show "k = k'"
      using k ip_table_distinct [of shards nodes s n s' n'] ip_table_distinct [of shards nodes s' n' s' n']
        ip_table_distinct [of shards nodes s n s n] B(2,4)
      unfolding kk addr by (auto split: if_splits)
  qed
  moreover have "map_of table (NodeInfo n s) \<noteq> None \<longleftrightarrow> s = SupervisorShardID \<and> n = 0 \<or> 0 \<le> s \<and> s < shards \<and> 0 \<le> n \<and> n < nodes" for n s
    unfolding addr using B(2) by (auto simp: SupervisorShardID_def)
  moreover obtain t where "\<And>me. loadDirectNetwork unmarshal (Inr b) shards nodes me = Inr (NewRPCConn me table, t)"
    "topo_knows t {(s, n). map_of table (NodeInfo n s) \<noteq> None}"
    by (rule loadDirectNetwork_knows [OF table(1,2)]) (simp_all add: addr)
  ultimately show thesis using that table(2) by blast
qed

lemma topo_nodes:
  assumes "topo_knows t R" "s \<noteq> SupervisorShardID" "(s, n) \<in> R"
  obtains ns where "GetNodesInShard t s = Inr ns" "distinct ns" "set ns = {NodeInfo n s |n. (s, n) \<in> R}"
proof -
  have K: "distinct (get_or [] (shard2nodes t) s)" "set (get_or [] (shard2nodes t) s) = {NodeInfo n s |n. (s, n) \<in> R}"
    "map_of (shard2nodes t) s = None \<longleftrightarrow> (\<forall>n. (s, n) \<notin> R)"
    using assms(1,2) unfolding topo_knows_def by blast+
  then obtain ns where "map_of (shard2nodes t) s = Some ns" using assms(3) by blast
  with K(1,2) show thesis by (intro that [of ns]) (simp_all add: get_or_def GetNodesInShard_def orErr_def)
qed


section \<open>Registration over libp2p\<close>

text \<open>A node registers with its peer identity: what it writes is what the supervisor handles.\<close>

definition register_node ::
    "(string \<Rightarrow> string option) \<Rightarrow> (NodeRegisterMsg \<Rightarrow> string option) \<Rightarrow> (string \<Rightarrow> NodeRegisterMsg option) \<Rightarrow>
     string \<Rightarrow> NodeInfo \<times> string \<Rightarrow> LibP2PConn \<Rightarrow> LibP2PConn" where
  "register_node decodePeer marshal unmarshal bootstrapPeer r l =
     (case registerNodeInfo decodePeer marshal (Some (snd r)) (fst (initLibP2PNetwork bootstrapPeer (fst r))) of
        Inl e \<Rightarrow> l
      | Inr (relay, data) \<Rightarrow> snd (snd (handleRegisterStream unmarshal (snd r) (Inr data) l)))"

definition reg_msg :: "NodeInfo \<times> string \<Rightarrow> NodeRegisterMsg" where
  "reg_msg r = \<lparr>nr_ShardID = ShardID (fst r), nr_NodeID = NodeID (fst r), nr_PeerID = snd r\<rparr>"

lemma register_node_map:
  assumes "decodePeer bootstrapPeer \<noteq> None" "marshal (reg_msg r) = Some data" "unmarshal data = Some (reg_msg r)" and l: "idmap_ok (info2PeerID l)"
  shows "idmap_ok (info2PeerID (register_node decodePeer marshal unmarshal bootstrapPeer r l))"
    and "idmap_get (info2PeerID (register_node decodePeer marshal unmarshal bootstrapPeer r l)) s n =
      (if NodeInfo n s = fst r then Some (snd r) else idmap_get (info2PeerID l) s n)"
    and "lp_nodeM (register_node decodePeer marshal unmarshal bootstrapPeer r l) =
      SetTopoGetter (info2PeerID (register_node decodePeer marshal unmarshal bootstrapPeer r l))"
proof -
  obtain k sh p where r: "r = (NodeInfo k sh, p)" by (metis NodeInfo.exhaust surj_pair)
  let ?m = "AList.update sh (AList.update k p (get_or [] (info2PeerID l) sh)) (info2PeerID l)"
  have run: "register_node decodePeer marshal unmarshal bootstrapPeer r l = l\<lparr>info2PeerID := ?m, lp_nodeM := SetTopoGetter ?m\<rparr>"
    using assms(1-3) by (auto simp: register_node_def registerNodeInfo_def initLibP2PNetwork_def NewLibP2PConn_def Let_def bindR_def orErr_def
        handleRegisterStream_def reg_msg_def r)
  have row: "gomap (get_or [] (info2PeerID l) sh)" using l by (auto simp: idmap_ok_def get_or_def split: option.splits)
  show "idmap_ok (info2PeerID (register_node decodePeer marshal unmarshal bootstrapPeer r l))"
    using l row unfolding run by (auto simp: idmap_ok_def)
  show "idmap_get (info2PeerID (register_node decodePeer marshal unmarshal bootstrapPeer r l)) s n =
      (if NodeInfo n s = fst r then Some (snd r) else idmap_get (info2PeerID l) s n)"
    unfolding run by (auto simp: idmap_get_def r get_or_def split: option.splits)
  show "lp_nodeM (register_node decodePeer marshal unmarshal bootstrapPeer r l) =
      SetTopoGetter (info2PeerID (register_node decodePeer marshal unmarshal bootstrapPeer r l))"
    unfolding run by simp
qed

text \<open>The peer that was registered last for a node; the supervisor's is known from the start.\<close>

definition peer_of :: "string \<Rightarrow> (NodeInfo \<times> string) list \<Rightarrow> int \<Rightarrow> int \<Rightarrow> string option" where
  "peer_of bootstrapPeer regs s n =
     (case map_of (rev regs) (NodeInfo n s) of
        Some p \<Rightarrow> Some p
      | None \<Rightarrow> if NodeInfo n s = NodeInfo 0 SupervisorShardID then Some bootstrapPeer else None)"

lemma registrations:
  assumes "decodePeer bootstrapPeer \<noteq> None" and "\<forall>r \<in> set regs. \<exists>data. marshal (reg_msg r) = Some data \<and> unmarshal data = Some (reg_msg r)"
  shows "idmap_ok (info2PeerID (fold (register_node decodePeer marshal unmarshal bootstrapPeer) regs (fst (initLibP2PNetwork bootstrapPeer me)))) \<and>
    (\<forall>s n. idmap_get (info2PeerID (fold (register_node decodePeer marshal unmarshal bootstrapPeer) regs (fst (initLibP2PNetwork bootstrapPeer me)))) s n =
       peer_of bootstrapPeer regs s n) \<and>
    (regs \<noteq> [] \<longrightarrow> lp_nodeM (fold (register_node decodePeer marshal unmarshal bootstrapPeer) regs (fst (initLibP2PNetwork bootstrapPeer me))) =
       SetTopoGetter (info2PeerID (fold (register_node decodePeer marshal unmarshal bootstrapPeer) regs (fst (initLibP2PNetwork bootstrapPeer me)))))"
  using assms(2)
proof (induction regs rule: rev_induct)
  case Nil
  then show ?case by (simp add: initLibP2PNetwork_def NewLibP2PConn_def idmap_ok_def idmap_get_def peer_of_def gomap_def Let_def)
next
  case (snoc r regs)
  let ?l = "fold (register_node decodePeer marshal unmarshal bootstrapPeer) regs (fst (initLibP2PNetwork bootstrapPeer me))"
  have IH: "idmap_ok (info2PeerID ?l)" "\<And>s n. idmap_get (info2PeerID ?l) s n = peer_of bootstrapPeer regs s n"
    using snoc by auto
  obtain data where "marshal (reg_msg r) = Some data" "unmarshal data = Some (reg_msg r)" using snoc.prems by auto
  note step = register_node_map [where decodePeer = decodePeer and marshal = marshal and unmarshal = unmarshal, OF assms(1) this IH(1)]
  have "peer_of bootstrapPeer (regs @ [r]) s n = (if NodeInfo n s = fst r then Some (snd r) else peer_of bootstrapPeer regs s n)" for s n
    by (cases r) (auto simp: peer_of_def)
  then show ?case using step IH(2) by simp
qed

lemma registered_iff: "(s, n) \<in> registered m \<longleftrightarrow> idmap_get m s n \<noteq> None"
  by (auto simp: registered_def idmap_get_def split: option.splits)

lemma peer_of_iff:
  "peer_of bootstrapPeer regs s n \<noteq> None \<longleftrightarrow> NodeInfo n s \<in> fst ` set regs \<or> s = SupervisorShardID \<and> n = 0"
  using map_of_eq_None_iff [of "rev regs" "NodeInfo n s"] by (auto simp: peer_of_def split: option.splits)

text \<open>The topology of a map of the registered peers is ready when every node is registered.\<close>

lemma peers_ready_iff:
  assumes "0 < shardNum" "shardNum \<le> SupervisorShardID" "0 < nodeNum"
    and known: "\<forall>(r, p) \<in> set regs. ShardID r = SupervisorShardID \<or> 0 \<le> ShardID r \<and> ShardID r < shardNum \<and> 0 \<le> NodeID r \<and> NodeID r < nodeNum"
    and m: "idmap_ok m" "\<forall>s n. idmap_get m s n = peer_of bootstrapPeer regs s n"
  shows "checkNodeMapperReady shardNum nodeNum (SetTopoGetter m) = Inr () \<longleftrightarrow>
    (\<forall>s n. 0 \<le> s \<and> s < shardNum \<and> 0 \<le> n \<and> n < nodeNum \<longrightarrow> NodeInfo n s \<in> fst ` set regs)"
proof -
  have R: "(s, n) \<in> registered m \<longleftrightarrow> NodeInfo n s \<in> fst ` set regs \<or> s = SupervisorShardID \<and> n = 0" for s n
    unfolding registered_iff using m(2) peer_of_iff [of bootstrapPeer regs s n] by simp
  have "\<forall>(s, n) \<in> registered m. s = SupervisorShardID \<or> 0 \<le> s \<and> s < shardNum \<and> 0 \<le> n \<and> n < nodeNum"
    using known by (fastforce simp: R)
  from ready_iff [OF SetTopoGetter_knows [OF m(1)] this assms(1-3)]
  have "checkNodeMapperReady shardNum nodeNum (SetTopoGetter m) = Inr () \<longleftrightarrow>
    (\<forall>s n. 0 \<le> s \<and> s < shardNum \<and> 0 \<le> n \<and> n < nodeNum \<longrightarrow> (s, n) \<in> registered m)" .
  moreover have "(s, n) \<in> registered m \<longleftrightarrow> NodeInfo n s \<in> fst ` set regs" if "s < shardNum" for s n
    unfolding R using that assms(2) by auto
  ultimately show ?thesis by simp
qed


section \<open>Concrete networks\<close>

definition small_table :: "(int, (int, string) gomap) gomap" where
  "small_table = [(2147483647, [(0, supervisorEP)]), (0, [(1, node_ep 0 1), (0, node_ep 0 0)])]"

lemma small_table_decodes: "decodes_table (\<lambda>b. Some small_table) b (ip_table_of 1 2)"
proof -
  have k: "show_int s = ''2147483647'' \<longleftrightarrow> s = 2147483647" "show_int s = ''0'' \<longleftrightarrow> s = 0" "show_int s = ''1'' \<longleftrightarrow> s = 1" for s
    using show_int_inj [of s 2147483647] show_int_inj [of s 0] show_int_inj [of s 1] show_ports(1)
    by (simp_all add: show_int_def show_nat_step dec_digits)
  have v: "show_int 0 = ''0''" "show_int 1 = ''1''" by (simp_all add: k)
  have "idmap_get small_table s n = ip_lookup (ip_table_of 1 2) (show_int s) (show_int n)" for s n
    by (auto simp: idmap_get_def small_table_def ip_lookup_def ip_table_of_def k v upt_conv_Cons numeral_eq_Suc split: if_splits)
  moreover have "idmap_ok small_table" by (auto simp: idmap_ok_def small_table_def gomap_def split: if_splits)
  ultimately show ?thesis unfolding decodes_table_def by blast
qed



end
