(* ===== verification/Startup.thy ===== *)
theory Startup
  imports LoadNetwork
begin

text \<open>
  What a command does before its node runs: the configuration and the local parameters (\<open>config\<close>), the
  log file and level (\<open>pkg/logger\<close>), and the CSV files that nodes write (\<open>pkg/csvwrite\<close>). JSON, YAML
  and \<open>encoding/csv\<close> are parameters; the files are a map from paths to contents.
\<close>

section \<open>Configuration\<close>

record LogCfg =
  lc_LogDir :: string
  lc_LogLevel :: string

record SystemCfg =
  sc_ShardNum :: int
  sc_NodeNum :: int
  sc_ConsensusType :: string
  sc_BlockSizeLimit :: int
  sc_LogCfg :: LogCfg

record TxSourceCfg =
  ts_TxSourceType :: string
  ts_TxSourceFile :: string
  ts_ExcludeContractTxs :: bool

record BrokerModuleCfg =
  bm_BrokerFilePath :: string
  bm_BrokerNum :: int

record SupervisorCfg =
  su_SystemCfg :: SystemCfg
  su_TxNumber :: int
  su_TxInjectionSpeed :: int
  su_ResultOutputDir :: string
  su_EpochDuration :: int
  su_TxSourceCfg :: TxSourceCfg
  su_BrokerModuleCfg :: BrokerModuleCfg

record BloomFilterCfg =
  bf_BitsetLen :: int
  bf_FilterHashFunc :: "string list"

record EthStorageCfg =
  es_IsMemoryDB :: bool
  es_LevelFilePathDir :: string
  es_OldStateRoot :: string

record StorageCfg =
  st_BlockStorageType :: string
  st_TrieStorageType :: string
  st_BoltFilePathDir :: string
  st_EthStorageCfg :: EthStorageCfg

record VMCfg =
  vc_ChainID :: int
  vc_VMStateDir :: string

record BlockchainCfg =
  bc_SystemCfg :: SystemCfg
  bc_BloomFilterCfg :: BloomFilterCfg
  bc_StorageCfg :: StorageCfg
  bc_VMCfg :: VMCfg

record ConsensusNodeCfg =
  cn_BlockchainCfg :: BlockchainCfg
  cn_TxPoolType :: string
  cn_BlockInterval :: int
  cn_BlockRecordDir :: string

record LibP2PConnCfg =
  lb_BootstrapKeyFp :: string
  lb_BootstrapPeer :: string
  lb_BootstrapIP :: string
  lb_BootstrapPort :: int

record NetworkCfg =
  nw_Bandwidth :: int
  nw_Latency :: int
  nw_CommunicationMode :: string
  nw_LibP2PConnCfg :: LibP2PConnCfg

record EmulatorConfig =
  GlobalSys :: SystemCfg
  cfg_Consensus :: ConsensusNodeCfg
  cfg_Supervisor :: SupervisorCfg
  cfg_Network :: NetworkCfg

text \<open>\<open>filepath.Ext\<close>: the part from the last dot of the last element.\<close>

definition path_Ext :: "string \<Rightarrow> string" where
  "path_Ext p =
     (let base = takeWhile (\<lambda>c. c \<noteq> CHR ''/'') (rev p)
      in if CHR ''.'' \<in> set base then CHR ''.'' # rev (takeWhile (\<lambda>c. c \<noteq> CHR ''.'') base) else [])"

definition pass_system :: "EmulatorConfig \<Rightarrow> EmulatorConfig" where
  "pass_system cfg =
     (let cfg1 = cfg\<lparr>cfg_Supervisor := (cfg_Supervisor cfg)\<lparr>su_SystemCfg := GlobalSys cfg\<rparr>\<rparr>;
          node = cfg_Consensus cfg1
      in cfg1\<lparr>cfg_Consensus := node\<lparr>cn_BlockchainCfg := (cn_BlockchainCfg node)\<lparr>bc_SystemCfg := GlobalSys cfg1\<rparr>\<rparr>\<rparr>)"

definition LoadEmulatorConfig ::
    "(string \<Rightarrow> EmulatorConfig option) \<Rightarrow> (string \<Rightarrow> EmulatorConfig option) \<Rightarrow> string \<Rightarrow> string result \<Rightarrow> EmulatorConfig result" where
  "LoadEmulatorConfig json yaml path file' =
     bindR file' (\<lambda>data.
     bindR (if path_Ext path = ''.json'' then orErr ''json unmarshal'' (json data)
            else if path_Ext path = ''.yaml'' \<or> path_Ext path = ''.yml'' then orErr ''yaml unmarshal'' (yaml data)
            else Inl (Errorf ''unsupported cfg type'')) (\<lambda>cfg.
     Inr (pass_system cfg)))"

record LocalParams =
  lp_NodeID :: int
  lp_ShardID :: int
  lp_WalletAddr :: address

definition LoadLocalParams :: "string \<Rightarrow> int \<Rightarrow> int \<Rightarrow> LocalParams result" where
  "LoadLocalParams accountAddr localNodeID localShardID =
     bindR (Hex2Addr accountAddr) (\<lambda>walletAddr.
     if localNodeID < 0 \<or> localShardID < 0 then Inl (Errorf ''invalid local params'')
     else Inr \<lparr>lp_NodeID = localNodeID, lp_ShardID = localShardID, lp_WalletAddr = walletAddr\<rparr>)"

text \<open>The supervisor and the consensus node see one system configuration, that of the file.\<close>

lemma config_systems_agree:
  "LoadEmulatorConfig json yaml path file' = Inr cfg \<Longrightarrow>
     su_SystemCfg (cfg_Supervisor cfg) = GlobalSys cfg \<and> bc_SystemCfg (cn_BlockchainCfg (cfg_Consensus cfg)) = GlobalSys cfg"
  by (auto simp: LoadEmulatorConfig_def bindR_Inr_iff pass_system_def Let_def)

section \<open>Log file and level\<close>

datatype log_level = LevelDebug | LevelInfo | LevelWarn | LevelError

definition getSlogLevel :: "LogCfg \<Rightarrow> log_level" where
  "getSlogLevel cfg =
     (if lc_LogLevel cfg = ''debug'' then LevelDebug
      else if lc_LogLevel cfg = ''info'' then LevelInfo
      else if lc_LogLevel cfg = ''warn'' then LevelWarn
      else if lc_LogLevel cfg = ''error'' then LevelError
      else LevelInfo)"

text \<open>The log file, opened and truncated; none without a directory.\<close>

definition setLogFile :: "(string \<Rightarrow> unit result) \<Rightarrow> (string \<Rightarrow> unit result) \<Rightarrow> LocalParams \<Rightarrow> LogCfg \<Rightarrow> string option result" where
  "setLogFile mkdirAll openFile lp cfg =
     (if lc_LogDir cfg = [] then Inr None
      else
        let logFp = path_Join [lc_LogDir cfg,
              ''logs/shard='' @ show_int (lp_ShardID lp) @ ''_node='' @ show_int (lp_NodeID lp) @ ''/'' @ lc_LogLevel cfg @ ''.log'']
        in bindR (mkdirAll (path_Dir logFp)) (\<lambda>_. bindR (openFile logFp) (\<lambda>_. Inr (Some logFp))))"

definition InitLogger :: "(string \<Rightarrow> unit result) \<Rightarrow> (string \<Rightarrow> unit result) \<Rightarrow> LocalParams \<Rightarrow> LogCfg \<Rightarrow> (string option \<times> log_level \<times> string) result" where
  "InitLogger mkdirAll openFile lp cfg =
     bindR (setLogFile mkdirAll openFile lp cfg) (\<lambda>logFile.
     Inr (logFile, getSlogLevel cfg, ''S{'' @ show_int (lp_ShardID lp) @ ''}_N{'' @ show_int (lp_NodeID lp) @ ''}''))"

section \<open>CSV files\<close>

text \<open>
  \<open>line\<close> is the text of a record; \<open>written\<close> is the part of a text that a file takes, all of it unless
  writing fails.
\<close>

definition createFileWithDirs :: "(string \<Rightarrow> unit result) \<Rightarrow> string \<Rightarrow> (string, string) gomap \<Rightarrow> unit result \<times> (string, string) gomap" where
  "createFileWithDirs mkdirAll path fs =
     (case mkdirAll (path_Dir path) of
        Inl e \<Rightarrow> (Inl e, fs)
      | Inr _ \<Rightarrow> if map_of fs path \<noteq> None then (Inl (Errorf ''file already exists''), fs) else (Inr (), AList.update path [] fs))"

definition append_file :: "(string \<Rightarrow> string) \<Rightarrow> string \<Rightarrow> string \<Rightarrow> (string, string) gomap \<Rightarrow> unit result \<times> (string, string) gomap" where
  "append_file written path t fs =
     (if written t = t then Inr () else Inl (Errorf ''failed to write''), AList.update path (get_or [] fs path @ written t) fs)"

definition WriteAllToCSV ::
    "(string \<Rightarrow> unit result) \<Rightarrow> (string \<Rightarrow> string) \<Rightarrow> (string list \<Rightarrow> string) \<Rightarrow> string \<Rightarrow> string list \<Rightarrow> string list list \<Rightarrow>
     (string, string) gomap \<Rightarrow> unit result \<times> (string, string) gomap" where
  "WriteAllToCSV mkdirAll written line path header rows fs =
     (case createFileWithDirs mkdirAll path fs of
        (Inl e, fs1) \<Rightarrow> (Inl e, fs1)
      | (Inr _, fs1) \<Rightarrow> append_file written path (concat (map line (header # rows))) fs1)"

text \<open>A sequential writer keeps the first failure of its file: later lines fail too.\<close>

record CSVSeqWriter =
  sw_path :: string
  sw_failed :: bool

definition WriteLine2CSV ::
    "(string \<Rightarrow> string) \<Rightarrow> (string list \<Rightarrow> string) \<Rightarrow> string list \<Rightarrow> CSVSeqWriter \<Rightarrow> (string, string) gomap \<Rightarrow>
     unit result \<times> CSVSeqWriter \<times> (string, string) gomap" where
  "WriteLine2CSV written line cells w fs =
     (if sw_failed w then (Inl (Errorf ''failed to write''), w, fs)
      else (case append_file written (sw_path w) (line cells) fs of
        (Inl e, fs1) \<Rightarrow> (Inl e, w\<lparr>sw_failed := True\<rparr>, fs1)
      | (Inr _, fs1) \<Rightarrow> (Inr (), w, fs1)))"

definition NewCSVSeqWriter ::
    "(string \<Rightarrow> unit result) \<Rightarrow> (string \<Rightarrow> string) \<Rightarrow> (string list \<Rightarrow> string) \<Rightarrow> string \<Rightarrow> string list \<Rightarrow> (string, string) gomap \<Rightarrow>
     CSVSeqWriter result \<times> (string, string) gomap" where
  "NewCSVSeqWriter mkdirAll written line path title fs =
     (case createFileWithDirs mkdirAll path fs of
        (Inl e, fs1) \<Rightarrow> (Inl e, fs1)
      | (Inr _, fs1) \<Rightarrow>
          (case append_file written path (line title) fs1 of
             (Inl e, fs2) \<Rightarrow> (Inl e, fs2)
           | (Inr _, fs2) \<Rightarrow> (Inr \<lparr>sw_path = path, sw_failed = False\<rparr>, fs2)))"

text \<open>Lines one after another, as a node appends its blocks.\<close>

definition write_lines ::
    "(string \<Rightarrow> string) \<Rightarrow> (string list \<Rightarrow> string) \<Rightarrow> string list list \<Rightarrow> CSVSeqWriter \<Rightarrow> (string, string) gomap \<Rightarrow>
     CSVSeqWriter \<times> (string, string) gomap" where
  "write_lines written line rows w fs = fold (\<lambda>cells (w, fs). snd (WriteLine2CSV written line cells w fs)) rows (w, fs)"

lemma write_lines_file:
  assumes "\<forall>t. written t = t" "\<not> sw_failed w"
  shows "fst (write_lines written line rows w fs) = w \<and>
    map_of (snd (write_lines written line rows w fs)) (sw_path w) =
      (if rows = [] then map_of fs (sw_path w) else Some (get_or [] fs (sw_path w) @ concat (map line rows))) \<and>
    (\<forall>p. p \<noteq> sw_path w \<longrightarrow> map_of (snd (write_lines written line rows w fs)) p = map_of fs p)"
proof (induction rows arbitrary: fs)
  case (Cons r rows)
  let ?fs = "AList.update (sw_path w) (get_or [] fs (sw_path w) @ line r) fs"
  have "write_lines written line (r # rows) w fs = write_lines written line rows w ?fs"
    using assms by (simp add: write_lines_def WriteLine2CSV_def append_file_def)
  then show ?case using Cons.IH [of ?fs] by simp
qed (simp add: write_lines_def)

text \<open>A sequence of lines gives the file that writing all at once gives; neither overwrites a file.\<close>

lemma csv_writers_agree:
  assumes "\<forall>t. written t = t" and "NewCSVSeqWriter mkdirAll written line path title fs = (Inr w, fs1)"
  shows "\<exists>fs2. WriteAllToCSV mkdirAll written line path title rows fs = (Inr (), fs2) \<and>
    map_of fs2 = map_of (snd (write_lines written line rows w fs1)) \<and> fst (WriteAllToCSV mkdirAll written line path title rows fs2) \<noteq> Inr ()"
proof -
  have ok: "\<exists>u. mkdirAll (path_Dir path) = Inr u" "map_of fs path = None"
    and w: "w = \<lparr>sw_path = path, sw_failed = False\<rparr>" "fs1 = AList.update path ([] @ line title) (AList.update path [] fs)"
    using assms by (auto simp: NewCSVSeqWriter_def createFileWithDirs_def append_file_def split: sum.splits if_splits)
  let ?fs2 = "AList.update path (line title @ concat (map line rows)) (AList.update path [] fs)"
  have run: "WriteAllToCSV mkdirAll written line path title rows fs = (Inr (), ?fs2)"
    using ok assms(1) by (auto simp: WriteAllToCSV_def createFileWithDirs_def append_file_def)
  have "map_of ?fs2 p = map_of (snd (write_lines written line rows w fs1)) p" for p
    using write_lines_file [OF assms(1), of w line rows fs1] unfolding w by (cases "p = path") simp_all
  then have "map_of ?fs2 = map_of (snd (write_lines written line rows w fs1))" by (rule ext)
  moreover have "fst (WriteAllToCSV mkdirAll written line path title rows ?fs2) \<noteq> Inr ()"
    using ok(1) by (auto simp: WriteAllToCSV_def createFileWithDirs_def)
  ultimately show ?thesis using run by blast
qed

end
