(* ===== verification/AgentRegistry.thy ===== *)
theory AgentRegistry
  imports CoreTypes Format "HOL-Library.List_Lexorder"
begin

text \<open>
  The registry of agents (\<open>agentsupervisor/registry.go\<close>): who ever joined, under which DID, and who
  is active. It is kept in a file between rounds; the JSON package is a pair of functions.
\<close>

record Agent =
  ag_AgentID :: string
  ag_DID :: string
  ag_Active :: bool

record Registry =
  reg_seed :: int
  reg_agents :: "(string, Agent) gomap"

record agent_json =
  json_marshal :: "Agent list \<Rightarrow> string option"
  json_unmarshal :: "string \<Rightarrow> Agent list option"

text \<open>The file: \<open>None\<close> where there is none.\<close>

definition load_agent :: "(string, Agent) gomap \<Rightarrow> Agent \<Rightarrow> (string, Agent) gomap result" where
  "load_agent m agent =
     (if ag_AgentID agent = [] \<or> ag_DID agent = [] then Inl (Errorf ''agent registry contains an invalid entry'')
      else Inr (AList.update (ag_AgentID agent) agent m))"

definition LoadRegistry :: "agent_json \<Rightarrow> string option result \<Rightarrow> int \<Rightarrow> Registry result" where
  "LoadRegistry J file seed =
     bindR file (\<lambda>b.
     case b of
       None \<Rightarrow> Inr \<lparr>reg_seed = seed, reg_agents = []\<rparr>
     | Some text \<Rightarrow>
         bindR (orErr ''decode agent registry'' (json_unmarshal J text)) (\<lambda>agents.
         bindR (foldR load_agent [] agents) (\<lambda>m. Inr \<lparr>reg_seed = seed, reg_agents = m\<rparr>)))"

text \<open>The bytes of a string; a DID carries the last twenty bytes of a hash.\<close>

definition to_bytes :: "string \<Rightarrow> bytes" where
  "to_bytes s = map (\<lambda>c. word_of_nat (of_char c)) s"

definition allocatedDID :: "lib \<Rightarrow> int \<Rightarrow> string \<Rightarrow> string" where
  "allocatedDID L seed agentID =
     (let h = sha256 L (to_bytes (show_int seed @ '':'' @ agentID))
      in ''did:broker:0x'' @ EncodeToString (drop (length h - 20) h))"

definition Join :: "lib \<Rightarrow> string \<Rightarrow> Registry \<Rightarrow> (Agent \<times> bool \<times> Registry) result" where
  "Join L agentID r =
     (if agentID = [] then Inl (Errorf ''agent_id is required'')
      else
        let agent = get_or \<lparr>ag_AgentID = agentID, ag_DID = allocatedDID L (reg_seed r) agentID, ag_Active = False\<rparr>
                      (reg_agents r) agentID;
            agent' = agent\<lparr>ag_Active := True\<rparr>
        in Inr (agent', \<not> ag_Active agent, r\<lparr>reg_agents := AList.update agentID agent' (reg_agents r)\<rparr>))"

definition Leave :: "string \<Rightarrow> Registry \<Rightarrow> (Agent \<times> Registry) result" where
  "Leave agentID r =
     (case map_of (reg_agents r) agentID of
        None \<Rightarrow> Inl (Errorf ''agent is not active'')
      | Some agent \<Rightarrow>
          if \<not> ag_Active agent then Inl (Errorf ''agent is not active'')
          else
            let agent' = agent\<lparr>ag_Active := False\<rparr>
            in Inr (agent', r\<lparr>reg_agents := AList.update agentID agent' (reg_agents r)\<rparr>))"

definition Active :: "string \<Rightarrow> Registry \<Rightarrow> Agent result" where
  "Active agentID r =
     (case map_of (reg_agents r) agentID of
        None \<Rightarrow> Inl (Errorf ''agent is not active; a join action is required'')
      | Some agent \<Rightarrow>
          if \<not> ag_Active agent then Inl (Errorf ''agent is not active; a join action is required'')
          else Inr agent)"

text \<open>The text that \<open>Write\<close> leaves in the file: the agents in the order of their names.\<close>

definition Registry_Write :: "agent_json \<Rightarrow> Registry \<Rightarrow> string result" where
  "Registry_Write J r =
     bindR (orErr ''encode agent registry''
              (json_marshal J (map (\<lambda>id. the (map_of (reg_agents r) id)) (sort (keys_of (reg_agents r)))))) (\<lambda>b.
     Inr (b @ [char_of (10 :: nat)]))"

section \<open>What the registry promises\<close>

text \<open>
  The contract of the agent supervisor with its registry, over what can be observed: the DID of a
  name, whether it is active. The first name of an agent fixes its DID for good.
\<close>

locale registry_contract =
  fixes join :: "string \<Rightarrow> 'r \<Rightarrow> ('a \<times> bool \<times> 'r) result"
    and leave :: "string \<Rightarrow> 'r \<Rightarrow> ('a \<times> 'r) result"
    and active :: "string \<Rightarrow> 'r \<Rightarrow> 'a result"
    and did :: "'a \<Rightarrow> string"
    and inv :: "'r \<Rightarrow> bool"
    and did_of :: "'r \<Rightarrow> string \<Rightarrow> string"
    and is_active :: "'r \<Rightarrow> string \<Rightarrow> bool"
  assumes join_fails: "inv r \<Longrightarrow> (\<exists>e. join i r = Inl e) \<longleftrightarrow> i = []"
    and join_ok: "inv r \<Longrightarrow> join i r = Inr (a, changed, r') \<Longrightarrow>
      inv r' \<and> did a = did_of r i \<and> changed = (\<not> is_active r i) \<and> did_of r' = did_of r \<and>
      is_active r' = (is_active r)(i := True)"
    and leave_fails: "inv r \<Longrightarrow> (\<exists>e. leave i r = Inl e) \<longleftrightarrow> \<not> is_active r i"
    and leave_ok: "inv r \<Longrightarrow> leave i r = Inr (a, r') \<Longrightarrow>
      inv r' \<and> did a = did_of r i \<and> did_of r' = did_of r \<and> is_active r' = (is_active r)(i := False)"
    and active_fails: "inv r \<Longrightarrow> (\<exists>e. active i r = Inl e) \<longleftrightarrow> \<not> is_active r i"
    and active_ok: "inv r \<Longrightarrow> active i r = Inr a \<Longrightarrow> did a = did_of r i"
begin

lemma join_total: "inv r \<Longrightarrow> i \<noteq> [] \<Longrightarrow> \<exists>a r'. join i r = Inr (a, \<not> is_active r i, r') \<and> did a = did_of r i \<and>
    inv r' \<and> did_of r' = did_of r \<and> is_active r' = (is_active r)(i := True)"
  using join_fails [of r i] join_ok [of r i] by (cases "join i r") auto

lemma leave_total: "inv r \<Longrightarrow> is_active r i \<Longrightarrow> \<exists>a r'. leave i r = Inr (a, r') \<and> did a = did_of r i \<and>
    inv r' \<and> did_of r' = did_of r \<and> is_active r' = (is_active r)(i := False)"
  using leave_fails [of r i] leave_ok [of r i] by (cases "leave i r") auto

lemma active_total: "inv r \<Longrightarrow> is_active r i \<Longrightarrow> \<exists>a. active i r = Inr a \<and> did a = did_of r i"
  using active_fails [of r i] active_ok [of r i] by (cases "active i r") auto

lemma rejected: "inv r \<Longrightarrow> \<not> is_active r i \<Longrightarrow> (\<exists>e. leave i r = Inl e) \<and> (\<exists>e. active i r = Inl e)"
  using leave_fails active_fails by blast

end

text \<open>The DID that a name has, or will be given.\<close>

definition reg_did :: "lib \<Rightarrow> Registry \<Rightarrow> string \<Rightarrow> string" where
  "reg_did L r i = (case map_of (reg_agents r) i of None \<Rightarrow> allocatedDID L (reg_seed r) i | Some a \<Rightarrow> ag_DID a)"

definition reg_active :: "Registry \<Rightarrow> string \<Rightarrow> bool" where
  "reg_active r i = (case map_of (reg_agents r) i of None \<Rightarrow> False | Some a \<Rightarrow> ag_Active a)"

text \<open>Every entry is filed under its own name, and has a DID.\<close>

definition reg_ok :: "Registry \<Rightarrow> bool" where
  "reg_ok r \<longleftrightarrow> gomap (reg_agents r) \<and> map_of (reg_agents r) [] = None \<and>
     (\<forall>i a. map_of (reg_agents r) i = Some a \<longrightarrow> ag_AgentID a = i \<and> ag_DID a \<noteq> [])"

lemma allocatedDID_nonempty [simp]: "allocatedDID L seed i \<noteq> []"
  by (simp add: allocatedDID_def Let_def)

lemma reg_did_nonempty: "reg_ok r \<Longrightarrow> reg_did L r i \<noteq> []"
  by (auto simp: reg_did_def reg_ok_def split: option.splits)

lemma Join_ok:
  assumes "reg_ok r" "Join L i r = Inr (a, changed, r')"
  shows "reg_ok r' \<and> ag_DID a = reg_did L r i \<and> changed = (\<not> reg_active r i) \<and> reg_did L r' = reg_did L r \<and>
    reg_active r' = (reg_active r)(i := True)"
  using assms by (auto simp: Join_def Let_def reg_did_def reg_active_def reg_ok_def get_or_def fun_eq_iff
      split: if_splits option.splits)

lemma Leave_ok:
  assumes r: "reg_ok r" and run: "Leave i r = Inr (a, r')"
  shows "reg_ok r' \<and> ag_DID a = reg_did L r i \<and> reg_did L r' = reg_did L r \<and>
    reg_active r' = (reg_active r)(i := False)"
proof -
  obtain b where b: "map_of (reg_agents r) i = Some b" "a = b\<lparr>ag_Active := False\<rparr>"
    "r' = r\<lparr>reg_agents := AList.update i a (reg_agents r)\<rparr>"
    using run by (auto simp: Leave_def Let_def split: option.splits if_splits)
  then have "ag_AgentID b = i" "i \<noteq> []" "ag_DID b \<noteq> []" using r by (auto simp: reg_ok_def)
  then show ?thesis using b r by (auto simp: reg_did_def reg_active_def reg_ok_def fun_eq_iff split: option.split)
qed

interpretation registry: registry_contract "Join L" Leave Active ag_DID reg_ok "reg_did L" reg_active for L
proof
  show "(\<exists>e. Join L i r = Inl e) \<longleftrightarrow> i = []" for i r by (simp add: Join_def Let_def)
  show "(\<exists>e. Leave i r = Inl e) \<longleftrightarrow> \<not> reg_active r i" for i r
    by (simp add: Leave_def Let_def reg_active_def split: option.split)
  show "(\<exists>e. Active i r = Inl e) \<longleftrightarrow> \<not> reg_active r i" for i r
    by (simp add: Active_def reg_active_def split: option.split)
  show "ag_DID a = reg_did L r i" if "Active i r = Inr a" for i r a
    using that by (auto simp: Active_def reg_did_def split: option.splits if_splits)
qed (use Join_ok Leave_ok in blast)+

section \<open>The file\<close>

text \<open>What \<open>encoding/json\<close> promises: a list of agents is read back from its text, white space aside.\<close>

definition json_laws :: "agent_json \<Rightarrow> bool" where
  "json_laws J \<longleftrightarrow> (\<forall>as b. json_marshal J as = Some b \<longrightarrow> json_unmarshal J (b @ [char_of (10 :: nat)]) = Some as)"

abbreviation filed :: "Agent list \<Rightarrow> (string, Agent) gomap \<Rightarrow> (string, Agent) gomap" where
  "filed as m \<equiv> fold (\<lambda>a. AList.update (ag_AgentID a) a) as m"

lemma load_agents:
  "(\<And>a. a \<in> set as \<Longrightarrow> ag_AgentID a \<noteq> [] \<and> ag_DID a \<noteq> []) \<Longrightarrow> foldR load_agent m as = Inr (filed as m)"
  by (induction as arbitrary: m) (simp_all add: load_agent_def)

lemma filed_gomap: "gomap m \<Longrightarrow> gomap (filed as m)"
  by (induction as arbitrary: m) simp_all

lemma filed_other: "i \<notin> ag_AgentID ` set as \<Longrightarrow> map_of (filed as m) i = map_of m i"
  by (induction as arbitrary: m) auto

lemma filed_own: "distinct (map ag_AgentID as) \<Longrightarrow> a \<in> set as \<Longrightarrow> map_of (filed as m) (ag_AgentID a) = Some a"
  by (induction as arbitrary: m) (auto simp: filed_other)

text \<open>The file does not hold the seed, so it may be loaded under another one.\<close>

lemma registry_reload:
  assumes "json_laws J" "reg_ok r" "Registry_Write J r = Inr text"
  shows "\<exists>r'. LoadRegistry J (Inr (Some text)) seed = Inr r' \<and> reg_ok r' \<and> reg_seed r' = seed \<and>
    map_of (reg_agents r') = map_of (reg_agents r)"
proof -
  let ?m = "reg_agents r" let ?as = "map (\<lambda>id. the (map_of ?m id)) (sort (keys_of ?m))"
  have parsed: "json_unmarshal J text = Some ?as"
    using assms(1,3) by (auto simp: Registry_Write_def json_laws_def bindR_Inr_iff)
  have entry: "map_of ?m i = Some a \<Longrightarrow> ag_AgentID a = i \<and> i \<noteq> [] \<and> ag_DID a \<noteq> []" for i a
    using assms(2) by (auto simp: reg_ok_def)
  have as: "a \<in> set ?as \<longleftrightarrow> map_of ?m (ag_AgentID a) = Some a" for a
  proof
    assume "a \<in> set ?as"
    then obtain i where "i \<in> set (keys_of ?m)" "a = the (map_of ?m i)" by auto
    then show "map_of ?m (ag_AgentID a) = Some a" using entry by (auto simp: keys_of_iff)
  next
    assume a: "map_of ?m (ag_AgentID a) = Some a"
    then have "ag_AgentID a \<in> set (sort (keys_of ?m))" by (simp add: keys_of_iff)
    then show "a \<in> set ?as" using a by (force intro!: image_eqI [of a _ "ag_AgentID a"])
  qed
  have ids: "map ag_AgentID ?as = sort (keys_of ?m)"
  proof -
    have "ag_AgentID (the (map_of ?m i)) = i" if "i \<in> set (sort (keys_of ?m))" for i
      using that entry by (auto simp: keys_of_iff)
    then show ?thesis unfolding map_map comp_def by (rule map_idI)
  qed
  have dist: "distinct (map ag_AgentID ?as)"
    using assms(2) ids by (simp add: reg_ok_def gomap_def keys_of_def)
  have loaded: "foldR load_agent [] ?as = Inr (filed ?as [])" using as entry by (intro load_agents) blast
  have "map_of (filed ?as []) i = map_of ?m i" for i
  proof (cases "map_of ?m i")
    case (Some a)
    then have key: "ag_AgentID a = i" using entry by blast
    then have "a \<in> set ?as" using as Some by blast
    then have "map_of (filed ?as []) i = Some a" using filed_own [OF dist, of a "[]"] unfolding key by blast
    then show ?thesis using Some by (simp only:)
  next
    case None
    have "i \<notin> ag_AgentID ` set ?as"
    proof
      assume "i \<in> ag_AgentID ` set ?as"
      then obtain a where "a \<in> set ?as" "i = ag_AgentID a" by blast
      then show False using as None by fastforce
    qed
    then show ?thesis using filed_other [of i ?as "[]"] None by (simp only: map_of.simps not_False_eq_True)
  qed
  then have same: "map_of (filed ?as []) = map_of ?m" by blast
  have "gomap (filed ?as [])" by (simp only: filed_gomap gomap_empty)
  then obtain m' where m': "foldR load_agent [] ?as = Inr m'" "gomap m'" "map_of m' = map_of ?m"
    using loaded same by blast
  have "LoadRegistry J (Inr (Some text)) seed = Inr \<lparr>reg_seed = seed, reg_agents = m'\<rparr>"
    by (simp only: LoadRegistry_def parsed orErr_simps bindR_simps option.case m'(1))
  then show ?thesis using m'(2,3) assms(2) by (simp add: reg_ok_def)
qed


section \<open>Example\<close>

text \<open>A package that can encode one list.\<close>

definition example_agents :: "Agent list" where
  "example_agents = [\<lparr>ag_AgentID = ''alice'', ag_DID = ''did:broker:0x01'', ag_Active = True\<rparr>,
     \<lparr>ag_AgentID = ''bob'', ag_DID = ''did:broker:0x02'', ag_Active = False\<rparr>]"

definition example_json :: agent_json where
  "example_json = \<lparr>json_marshal = (\<lambda>as. if as = example_agents then Some ''x'' else None),
     json_unmarshal = (\<lambda>b. Some example_agents)\<rparr>"

definition example_registry :: Registry where
  "example_registry = \<lparr>reg_seed = 7, reg_agents = map (\<lambda>a. (ag_AgentID a, a)) (rev example_agents)\<rparr>"

lemma example_registry_ok: "json_laws example_json" "reg_ok example_registry"
    "\<exists>text. Registry_Write example_json example_registry = Inr text"
  by (auto simp: json_laws_def example_json_def reg_ok_def gomap_def example_registry_def example_agents_def
      Registry_Write_def keys_of_def split: if_splits)


end
