(* ===== verification/AgentPlan.thy ===== *)
theory AgentPlan
  imports AgentTrace AgentRegistry TxSource
begin

text \<open>
  The agent supervisor (\<open>agentsupervisor/agentsupervisor.go\<close>) compiles a trace of agent actions
  into a plan of transactions, which the trace source of the chain's supervisor later replays. Its
  only caller drops it after an error, so an error is a result without a state.
\<close>

section \<open>State\<close>

record MetricEvent =
  mv_Kind :: string
  mv_TS :: int
  mv_RequestID :: string
  mv_Value :: int

record ActionTxLink =
  lk_Seq :: int
  lk_Action :: string
  lk_AgentID :: string
  lk_Target :: string
  lk_Amount :: int
  lk_TS :: int
  lk_RequestID :: string
  lk_ParamsHash :: string
  lk_TxHashes :: "string list"

record AgentSupervisor =
  as_cfg :: Config
  nonces :: "(address, int) gomap"
  as_registry :: Registry
  as_metrics :: "MetricEvent list"
  as_txs :: "transaction list"
  links :: "ActionTxLink list"
  curLink :: int

text \<open>
  What the supervisor calls: the hashes and encoders of the core, and the ABI encoder of the two
  functions of its contract.
\<close>

record agent_env =
  ae_lib :: lib
  ae_register :: "bytes \<Rightarrow> bytes \<Rightarrow> bytes option"
  ae_revoke :: "bytes \<Rightarrow> bytes option"

definition NewAgentSupervisor ::
    "agent_json \<Rightarrow> unit result \<Rightarrow> Config \<Rightarrow> string option result \<Rightarrow> AgentSupervisor result" where
  "NewAgentSupervisor J parsedABI cfg registryFile =
     bindR parsedABI (\<lambda>_.
     bindR (LoadRegistry J registryFile (Seed cfg)) (\<lambda>registry.
     Inr \<lparr>as_cfg = cfg, nonces = [], as_registry = registry, as_metrics = [], as_txs = [], links = [], curLink = 0\<rparr>))"

section \<open>Addresses\<close>

definition didAddress :: "string \<Rightarrow> address result" where
  "didAddress did =
     (if \<not> has_prefix did ''did:broker:'' then Inl (Errorf ''invalid DID'')
      else
        let hexAddr = trim_prefix did ''did:broker:''
        in if length (trim_prefix hexAddr ''0x'') \<noteq> 40 then Inl (Errorf ''DID must carry a 20-byte address'')
           else Hex2Addr hexAddr)"

definition rawTxAddr :: "string \<Rightarrow> address result" where
  "rawTxAddr hexAddr =
     bindR (Hex2Bytes hexAddr) (\<lambda>b.
     if length b \<noteq> 20 then Inl (Errorf ''raw tx field must be a 20-byte address'')
     else Inr (addr_of_bytes b))"

section \<open>Compiling actions\<close>

definition appendTx :: "address \<Rightarrow> address \<Rightarrow> int \<Rightarrow> bytes \<Rightarrow> int \<Rightarrow> AgentSupervisor \<Rightarrow> AgentSupervisor" where
  "appendTx sender to amount data ts s =
     (let nonce = get_or 0 (nonces s) sender;
          tx = (NewTransaction sender to amount 0 nonce (ts * 1000000))\<lparr>Data := data\<rparr>
      in s\<lparr>nonces := AList.update sender (u64 (nonce + 1)) (nonces s), as_txs := as_txs s @ [tx]\<rparr>)"

definition linkLastTxTo :: "lib \<Rightarrow> int \<Rightarrow> AgentSupervisor \<Rightarrow> AgentSupervisor result" where
  "linkLastTxTo L linkIdx s =
     bindR (index (as_txs s) (int (length (as_txs s)) - 1)) (\<lambda>tx.
     case tx_Hash L tx of
       Inl e \<Rightarrow> Inr s
     | Inr h \<Rightarrow>
         bindR (modify_at (links s) linkIdx (\<lambda>l. l\<lparr>lk_TxHashes := lk_TxHashes l @ [EncodeToString h]\<rparr>)) (\<lambda>ls.
         Inr (s\<lparr>links := ls\<rparr>)))"

definition metric :: "string \<Rightarrow> Record \<Rightarrow> AgentSupervisor \<Rightarrow> AgentSupervisor" where
  "metric kind r s =
     s\<lparr>as_metrics := as_metrics s @
        [\<lparr>mv_Kind = kind, mv_TS = r_TS r, mv_RequestID = r_RequestID r, mv_Value = r_Amount r\<rparr>]\<rparr>"

definition appendContractTx :: "address \<Rightarrow> string \<Rightarrow> bytes \<Rightarrow> int \<Rightarrow> AgentSupervisor \<Rightarrow> AgentSupervisor result" where
  "appendContractTx sender addr data ts s =
     bindR (Hex2Addr addr) (\<lambda>to. Inr (appendTx sender to 0 data ts s))"

definition processIdentity :: "agent_env \<Rightarrow> Record \<Rightarrow> Agent \<Rightarrow> string \<Rightarrow> AgentSupervisor \<Rightarrow> AgentSupervisor result" where
  "processIdentity E r agent operation s =
     bindR (didAddress (ag_DID agent)) (\<lambda>sender.
     let didHash = sha256 (ae_lib E) (to_bytes (ag_DID agent))
     in bindR
          (if operation = ''register'' then
             orErr ''pack DID operation'' (ae_register E didHash (sha256 (ae_lib E) (to_bytes (r_ParamsHash r))))
           else if operation = ''revoke'' then orErr ''pack DID operation'' (ae_revoke E didHash)
           else Inl (Errorf ''unknown DID operation'')) (\<lambda>data.
        bindR (appendContractTx sender (IdentityContractAddress (as_cfg s)) data (r_TS r) s) (\<lambda>s1.
        bindR (linkLastTxTo (ae_lib E) (curLink s1) s1) (\<lambda>s2.
        Inr (metric (''did_'' @ operation) r s2)))))"

definition processJoin :: "agent_env \<Rightarrow> Record \<Rightarrow> AgentSupervisor \<Rightarrow> AgentSupervisor result" where
  "processJoin E r s =
     bindR (Join (ae_lib E) (r_AgentID r) (as_registry s)) (\<lambda>(agent, changed, reg).
     let s1 = s\<lparr>as_registry := reg\<rparr>
     in if \<not> changed then Inr s1 else processIdentity E r agent ''register'' s1)"

definition processLeave :: "agent_env \<Rightarrow> Record \<Rightarrow> AgentSupervisor \<Rightarrow> AgentSupervisor result" where
  "processLeave E r s =
     bindR (Leave (r_AgentID r) (as_registry s)) (\<lambda>(agent, reg).
     processIdentity E r agent ''revoke'' (s\<lparr>as_registry := reg\<rparr>))"

definition processPay :: "agent_env \<Rightarrow> Record \<Rightarrow> AgentSupervisor \<Rightarrow> AgentSupervisor result" where
  "processPay E r s =
     bindR (Active (r_AgentID r) (as_registry s)) (\<lambda>fromAgent.
     bindR (Active (r_Target r) (as_registry s)) (\<lambda>toAgent.
     bindR (didAddress (ag_DID fromAgent)) (\<lambda>sender.
     bindR (didAddress (ag_DID toAgent)) (\<lambda>to.
     let s1 = appendTx sender to (r_Amount r) [] (r_TS r) s
     in bindR (linkLastTxTo (ae_lib E) (curLink s1) s1) (\<lambda>s2.
        Inr (metric ''pay_onchain'' r s2))))))"

text \<open>A record without a transfer is a nil pointer here.\<close>

definition processRawTx :: "agent_env \<Rightarrow> Record \<Rightarrow> AgentSupervisor \<Rightarrow> AgentSupervisor result" where
  "processRawTx E r s =
     (case r_RawTx r of
        None \<Rightarrow> Inl (Panic ''invalid memory address or nil pointer dereference'')
      | Some spec \<Rightarrow>
          bindR (rawTxAddr (spec_Sender spec)) (\<lambda>sender.
          bindR (rawTxAddr (spec_Recipient spec)) (\<lambda>to.
          bindR (orErr ''parse raw tx value'' (parse_int (spec_Value spec))) (\<lambda>val.
          if val < 0 \<or> 2 ^ 64 \<le> val then Inl (Errorf ''raw tx value exceeds uint64'')
          else
            let s1 = appendTx sender to val [] (r_TS r) s
            in bindR (linkLastTxTo (ae_lib E) (curLink s1) s1) (\<lambda>s2.
               Inr (s2\<lparr>as_metrics := as_metrics s2 @
                  [\<lparr>mv_Kind = ''raw_tx'', mv_TS = r_TS r, mv_RequestID = [], mv_Value = val\<rparr>]\<rparr>))))))"

definition new_link :: "Record \<Rightarrow> ActionTxLink" where
  "new_link r =
     \<lparr>lk_Seq = r_Seq r, lk_Action = r_Action r, lk_AgentID = r_AgentID r, lk_Target = r_Target r,
      lk_Amount = r_Amount r, lk_TS = r_TS r, lk_RequestID = r_RequestID r, lk_ParamsHash = r_ParamsHash r,
      lk_TxHashes = []\<rparr>"

definition process :: "agent_env \<Rightarrow> AgentSupervisor \<Rightarrow> Record \<Rightarrow> AgentSupervisor result" where
  "process E s r =
     (let s1 = s\<lparr>curLink := int (length (links s)), links := links s @ [new_link r]\<rparr>
      in if r_Action r = ActionJoin then processJoin E r s1
         else if r_Action r = ActionLeave then processLeave E r s1
         else if r_Action r = ActionPay then processPay E r s1
         else if r_Action r = ActionRawTx then processRawTx E r s1
         else Inl (Errorf ''unsupported action''))"

text \<open>The \<open>Result\<close> of \<open>Process\<close> is the pair of the transactions and the metrics of the new state.\<close>

definition Process :: "agent_env \<Rightarrow> Record list \<Rightarrow> AgentSupervisor \<Rightarrow> AgentSupervisor result" where
  "Process E records s = foldR (process E) s records"

section \<open>Files\<close>

text \<open>One line of the plan.\<close>

definition quote :: string where
  "quote = [char_of (34 :: nat)]"

definition json_str :: "string \<Rightarrow> string \<Rightarrow> string" where
  "json_str key val = quote @ key @ quote @ '':'' @ quote @ val @ quote"

definition plan_line :: "bytes \<Rightarrow> transaction \<Rightarrow> string" where
  "plan_line h tx =
     ''{'' @ json_str ''hash'' (EncodeToString h) @ '','' @
     json_str ''sender'' (''0x'' @ EncodeToString (bytes_of_addr (Sender tx))) @ '','' @
     json_str ''recipient'' (''0x'' @ EncodeToString (bytes_of_addr (Recipient tx))) @ '','' @
     json_str ''value'' (show_int (Value tx)) @ '','' @
     quote @ ''nonce'' @ quote @ '':'' @ show_int (Nonce tx) @ '','' @
     json_str ''data'' (''0x'' @ EncodeToString (Data tx)) @ ''}''"

definition plan_lines :: "lib \<Rightarrow> transaction list \<Rightarrow> string list result" where
  "plan_lines L txs = mapR (\<lambda>tx. bindR (tx_Hash L tx) (\<lambda>h. Inr (plan_line h tx))) txs"

definition metric_line :: "MetricEvent \<Rightarrow> string" where
  "metric_line e = mv_Kind e @ '','' @ show_int (mv_TS e) @ '','' @ mv_RequestID e @ '','' @ show_int (mv_Value e)"

definition file_of :: "string list \<Rightarrow> string" where
  "file_of ls = concat (map (\<lambda>l. l @ [newline]) ls)"

text \<open>The map from actions to transactions, a line for each action; the JSON package encodes a link.\<close>

definition writeActionTxMap :: "(ActionTxLink \<Rightarrow> string option) \<Rightarrow> ActionTxLink list \<Rightarrow> (string \<times> string) result" where
  "writeActionTxMap marshalLink ls =
     bindR (mapR (\<lambda>l. orErr ''encode action tx map entry'' (marshalLink l)) ls) (\<lambda>linkLines.
     Inr (''agent_action_txs.jsonl'', file_of linkLines))"

text \<open>The plan and the metrics.\<close>

definition writeResult :: "lib \<Rightarrow> transaction list \<Rightarrow> MetricEvent list \<Rightarrow> (string \<times> string) list result" where
  "writeResult L txs metrics =
     bindR (plan_lines L txs) (\<lambda>plan.
     Inr [(''agent_transactions.jsonl'', file_of plan),
          (''Agent_Events.csv'', file_of (''kind,ts,request_id,value'' # map metric_line metrics))])"

text \<open>The files of a round, in the order in which they are written.\<close>

definition WriteResult ::
    "agent_json \<Rightarrow> (ActionTxLink \<Rightarrow> string option) \<Rightarrow> lib \<Rightarrow> AgentSupervisor \<Rightarrow> (string \<times> string) list result" where
  "WriteResult J marshalLink L s =
     bindR (Registry_Write J (as_registry s)) (\<lambda>reg.
     bindR (writeActionTxMap marshalLink (links s)) (\<lambda>linkFile.
     bindR (writeResult L (as_txs s) (as_metrics s)) (\<lambda>resultFiles.
     Inr ((''agent_registry.json'', reg) # linkFile # resultFiles))))"

lemmas WriteResult_defs = WriteResult_def writeActionTxMap_def writeResult_def

end
