(* ===== verification/AgentFlow.thy ===== *)
theory AgentFlow
  imports AgentPlan
begin

text \<open>
  What the agent supervisor promises: it implements the life cycle of agents (join, pay, leave),
  numbers the transactions of every account without gaps, joins every action to its transactions,
  and its plan is replayed by the chain as it was compiled.
\<close>

section \<open>One action\<close>

text \<open>The hash a transaction is recorded under, if it has one.\<close>

definition hash_hex :: "lib \<Rightarrow> transaction \<Rightarrow> string list" where
  "hash_hex L tx = (case tx_Hash L tx of Inl _ \<Rightarrow> [] | Inr h \<Rightarrow> [EncodeToString h])"

definition planned :: "AgentSupervisor \<Rightarrow> address \<Rightarrow> address \<Rightarrow> int \<Rightarrow> bytes \<Rightarrow> int \<Rightarrow> transaction" where
  "planned s sender to amount data ts =
     (NewTransaction sender to amount 0 (get_or 0 (nonces s) sender) (ts * 1000000))\<lparr>Data := data\<rparr>"

text \<open>\<open>s'\<close> comes from \<open>s\<close> by an action \<open>r\<close> that compiled into \<open>new\<close>, at most one transaction.\<close>

definition compiled :: "lib \<Rightarrow> Record \<Rightarrow> AgentSupervisor \<Rightarrow> transaction list \<Rightarrow> AgentSupervisor \<Rightarrow> bool" where
  "compiled L r s new s' \<longleftrightarrow>
     as_cfg s' = as_cfg s \<and> as_txs s' = as_txs s @ new \<and>
     links s' = links s @ [(new_link r)\<lparr>lk_TxHashes := concat (map (hash_hex L) new)\<rparr>] \<and>
     (new = [] \<and> nonces s' = nonces s \<or>
      (\<exists>tx. new = [tx] \<and> Nonce tx = get_or 0 (nonces s) (Sender tx) \<and> GasLimit tx = 1000000 \<and>
         untimed tx = untimed (planned s (Sender tx) (Recipient tx) (Value tx) (Data tx) 0) \<and>
         nonces s' = AList.update (Sender tx) (u64 (Nonce tx + 1)) (nonces s)))"

abbreviation opened :: "AgentSupervisor \<Rightarrow> Record \<Rightarrow> AgentSupervisor" where
  "opened s r \<equiv> s\<lparr>curLink := int (length (links s)), links := links s @ [new_link r]\<rparr>"

lemma link_last:
  assumes "links s = ls @ [l]" "curLink s = int (length ls)"
  shows "linkLastTxTo L (curLink s) (appendTx sender to amount data ts s) =
    Inr ((appendTx sender to amount data ts s)
      \<lparr>links := ls @ [l\<lparr>lk_TxHashes := lk_TxHashes l @ hash_hex L (planned s sender to amount data ts)\<rparr>]\<rparr>)"
  using assms
  by (cases s) (auto simp: linkLastTxTo_def appendTx_def index_def modify_at_def hash_hex_def planned_def Let_def
      nth_append bindR_def split: sum.split)

text \<open>An emitted transaction is linked, whatever is done to the registry and the metrics.\<close>

lemma emit_compiled:
  assumes "s1 = (opened s r)\<lparr>as_registry := reg\<rparr>"
  shows "\<exists>s2. linkLastTxTo L (curLink s1) (appendTx sender to amount data ts s1) = Inr s2 \<and>
    as_registry s2 = reg \<and>
    (\<forall>ms. compiled L r s [planned s sender to amount data ts] (s2\<lparr>as_metrics := ms\<rparr>))"
proof -
  have "links s1 = links s @ [new_link r]" "curLink s1 = int (length (links s))" using assms by simp_all
  note link = link_last [OF this, of L sender to amount data ts]
  have "planned s1 sender to amount data ts = planned s sender to amount data ts"
    using assms by (simp add: planned_def)
  then show ?thesis unfolding link
    using assms by (simp add: compiled_def appendTx_def Let_def planned_def NewTransaction_def new_link_def)
qed

lemma curLink_appendTx [simp]: "curLink (appendTx sender to amount data ts s) = curLink s"
  by (simp add: appendTx_def Let_def)

section \<open>The life cycle\<close>

text \<open>
  The abstract machine: who is active, and the intents of the actions. \<open>None\<close> rejects an action.
\<close>

datatype intent =
    Register string string
  | Revoke string
  | Pay string string int
  | Plain address address int

definition plain_intent :: "RawTxSpec \<Rightarrow> intent option" where
  "plain_intent spec =
     (case (rawTxAddr (spec_Sender spec), rawTxAddr (spec_Recipient spec), parse_int (spec_Value spec)) of
        (Inr a, Inr b, Some v) \<Rightarrow> if v < 0 \<or> 2 ^ 64 \<le> v then None else Some (Plain a b v)
      | _ \<Rightarrow> None)"

definition life_step :: "(string \<Rightarrow> bool) \<Rightarrow> Record \<Rightarrow> ((string \<Rightarrow> bool) \<times> intent list) option" where
  "life_step A r =
     (let i = r_AgentID r
      in if r_Action r = ActionJoin then
           (if i = [] then None else Some (A(i := True), if A i then [] else [Register i (r_ParamsHash r)]))
         else if r_Action r = ActionLeave then (if A i then Some (A(i := False), [Revoke i]) else None)
         else if r_Action r = ActionPay then
           (if A i \<and> A (r_Target r) then Some (A, [Pay i (r_Target r) (r_Amount r)]) else None)
         else if r_Action r = ActionRawTx then
           (case r_RawTx r of None \<Rightarrow> None | Some spec \<Rightarrow> map_option (\<lambda>it. (A, [it])) (plain_intent spec))
         else None)"

fun life_run :: "(string \<Rightarrow> bool) \<Rightarrow> Record list \<Rightarrow> ((string \<Rightarrow> bool) \<times> intent list) option" where
  "life_run A [] = Some (A, [])"
| "life_run A (r # rs) =
     (case life_step A r of
        None \<Rightarrow> None
      | Some (A', is) \<Rightarrow> map_option (\<lambda>(A'', is'). (A'', is @ is')) (life_run A' rs))"

text \<open>The account of an agent: the last twenty bytes of the hash of the seed and its name.\<close>

definition agent_address :: "lib \<Rightarrow> int \<Rightarrow> string \<Rightarrow> address" where
  "agent_address L seed i =
     (let h = sha256 L (to_bytes (show_int seed @ '':'' @ i)) in addr_of_bytes (drop (length h - 20) h))"

text \<open>The transaction an intent stands for: sender, recipient, value and call data.\<close>

definition intent_tx :: "agent_env \<Rightarrow> int \<Rightarrow> address \<Rightarrow> intent \<Rightarrow> address \<times> address \<times> int \<times> bytes" where
  "intent_tx E seed contract it =
     (let L = ae_lib E; did = (\<lambda>i. sha256 L (to_bytes (allocatedDID L seed i)))
      in case it of
           Register i doc \<Rightarrow>
             (agent_address L seed i, contract, 0, the (ae_register E (did i) (sha256 L (to_bytes doc))))
         | Revoke i \<Rightarrow> (agent_address L seed i, contract, 0, the (ae_revoke E (did i)))
         | Pay i j amount \<Rightarrow> (agent_address L seed i, agent_address L seed j, amount, [])
         | Plain a b v \<Rightarrow> (a, b, v, []))"

definition tx_core :: "transaction \<Rightarrow> address \<times> address \<times> int \<times> bytes" where
  "tx_core tx = (Sender tx, Recipient tx, Value tx, Data tx)"

text \<open>The environment: a 32-byte hash, an ABI that encodes, and a contract with an address.\<close>

definition agent_env_ok :: "agent_env \<Rightarrow> Config \<Rightarrow> address \<Rightarrow> bool" where
  "agent_env_ok E cfg contract \<longleftrightarrow>
     (\<forall>b. length (sha256 (ae_lib E) b) = 32) \<and> (\<forall>a b. ae_register E a b \<noteq> None) \<and> (\<forall>a. ae_revoke E a \<noteq> None) \<and>
     Hex2Addr (IdentityContractAddress cfg) = Inr contract"

text \<open>The registry gave every agent it knows the DID of its name.\<close>

definition allocated :: "lib \<Rightarrow> int \<Rightarrow> Registry \<Rightarrow> bool" where
  "allocated L seed r \<longleftrightarrow> reg_ok r \<and> (\<forall>i. reg_did L r i = allocatedDID L seed i)"

lemma allocated_new [simp]: "allocated L seed \<lparr>reg_seed = seed, reg_agents = []\<rparr>"
  by (simp add: allocated_def reg_ok_def reg_did_def)

lemma didAddress_allocated:
  assumes "\<forall>b. length (sha256 L b) = 32"
  shows "didAddress (allocatedDID L seed i) = Inr (agent_address L seed i)"
proof -
  let ?h = "sha256 L (to_bytes (show_int seed @ '':'' @ i))"
  have "length (drop 12 ?h) = 20" using assms by simp
  then show ?thesis
    using assms Hex2Bytes_roundtrip [of "drop 12 ?h"]
    by (simp add: didAddress_def allocatedDID_def Let_def has_prefix_def trim_prefix_def Hex2Addr_def agent_address_def)
qed

lemma identity_step:
  assumes E: "agent_env_ok E (as_cfg s) contract" and did: "ag_DID agent = allocatedDID (ae_lib E) seed i"
    and op: "operation = ''register'' \<and> it = Register i (r_ParamsHash r) \<or> operation = ''revoke'' \<and> it = Revoke i"
    and s1: "s1 = (opened s r)\<lparr>as_registry := reg\<rparr>"
  shows "\<exists>s' tx. processIdentity E r agent operation s1 = Inr s' \<and> as_registry s' = reg \<and>
    compiled (ae_lib E) r s [tx] s' \<and> tx_core tx = intent_tx E seed contract it"
proof -
  let ?sender = "agent_address (ae_lib E) seed i"
  obtain data where data: "(if operation = ''register'' then
             orErr ''pack DID operation'' (ae_register E (sha256 (ae_lib E) (to_bytes (ag_DID agent)))
               (sha256 (ae_lib E) (to_bytes (r_ParamsHash r))))
           else if operation = ''revoke'' then
             orErr ''pack DID operation'' (ae_revoke E (sha256 (ae_lib E) (to_bytes (ag_DID agent))))
           else Inl (Errorf ''unknown DID operation'')) = Inr data" "intent_tx E seed contract it = (?sender, contract, 0, data)"
    using E op did by (force simp: agent_env_ok_def intent_tx_def Let_def)
  have sender: "didAddress (ag_DID agent) = Inr ?sender"
    using didAddress_allocated E did by (simp add: agent_env_ok_def)
  have to: "Hex2Addr (IdentityContractAddress (as_cfg s1)) = Inr contract" using E s1 by (simp add: agent_env_ok_def)
  obtain s2 where s2: "linkLastTxTo (ae_lib E) (curLink s1) (appendTx ?sender contract 0 data (r_TS r) s1) = Inr s2"
    "as_registry s2 = reg" "\<forall>ms. compiled (ae_lib E) r s [planned s ?sender contract 0 data (r_TS r)] (s2\<lparr>as_metrics := ms\<rparr>)"
    using emit_compiled [OF s1] by blast
  have "processIdentity E r agent operation s1 = Inr (metric (''did_'' @ operation) r s2)"
    unfolding processIdentity_def Let_def sender data(1) bindR_simps appendContractTx_def to
    by (simp add: s2(1))
  then show ?thesis
    using s2(2,3) data(2)
    by (intro exI [of _ "metric (''did_'' @ operation) r s2"] exI [of _ "planned s ?sender contract 0 data (r_TS r)"])
      (simp add: metric_def tx_core_def planned_def NewTransaction_def)
qed

lemma opened_registry: "(opened s r)\<lparr>as_registry := as_registry s\<rparr> = opened s r"
  by (cases s) simp

text \<open>A transfer is compiled, and the registry stays as it is.\<close>

lemma transfer_step:
  "\<exists>s2. linkLastTxTo L (curLink (opened s r)) (appendTx sender to amount data ts (opened s r)) = Inr s2 \<and>
    as_registry s2 = as_registry s \<and>
    (\<forall>ms. compiled L r s [planned s sender to amount data ts] (s2\<lparr>as_metrics := ms\<rparr>))"
  using emit_compiled [where reg = "as_registry s", of "opened s r" s r] by (simp only: opened_registry simp_thms)

text \<open>Each action does what the abstract machine does, and is rejected where it is.\<close>

definition refines :: "agent_env \<Rightarrow> int \<Rightarrow> address \<Rightarrow> AgentSupervisor \<Rightarrow> Record \<Rightarrow> AgentSupervisor result \<Rightarrow>
    ((string \<Rightarrow> bool) \<times> intent list) option \<Rightarrow> bool" where
  "refines E seed contract s r res step \<longleftrightarrow>
     (case step of
        None \<Rightarrow> \<exists>e. res = Inl e
      | Some (A, is) \<Rightarrow> \<exists>s' new. res = Inr s' \<and> compiled (ae_lib E) r s new s' \<and>
          allocated (ae_lib E) seed (as_registry s') \<and> reg_active (as_registry s') = A \<and>
          map tx_core new = map (intent_tx E seed contract) is)"

lemma tx_core_planned [simp]: "tx_core (planned s sender to amount data ts) = (sender, to, amount, data)"
  by (simp add: tx_core_def planned_def NewTransaction_def)

lemma refines_one:
  assumes "res = Inr s'" "compiled (ae_lib E) r s [tx] s'" "tx_core tx = intent_tx E seed contract it"
    and "allocated (ae_lib E) seed (as_registry s')" "reg_active (as_registry s') = A"
  shows "refines E seed contract s r res (Some (A, [it]))"
  using assms unfolding refines_def by (auto intro!: exI [of _ s'] exI [of _ "[tx]"])

lemma join_refines:
  assumes E: "agent_env_ok E (as_cfg s) contract" and R: "allocated (ae_lib E) seed (as_registry s)"
    and act: "r_Action r = ActionJoin"
  shows "refines E seed contract s r (process E s r) (life_step (reg_active (as_registry s)) r)"
proof (cases "r_AgentID r = []")
  case True
  then show ?thesis
    using registry.join_fails [where L = "ae_lib E" and r = "as_registry s" and i = "[]"] R act
    by (auto simp: refines_def life_step_def process_def processJoin_def allocated_def)
next
  case False
  let ?i = "r_AgentID r" let ?L = "ae_lib E" let ?A = "reg_active (as_registry s)"
  obtain a reg where j: "Join ?L ?i (as_registry s) = Inr (a, \<not> ?A ?i, reg)" "ag_DID a = reg_did ?L (as_registry s) ?i"
    "reg_ok reg" "reg_did ?L reg = reg_did ?L (as_registry s)" "reg_active reg = ?A(?i := True)"
    using registry.join_total [where L = ?L and r = "as_registry s" and i = ?i] R False by (auto simp: allocated_def)
  have reg: "allocated ?L seed reg" using j(3,4) R by (simp add: allocated_def)
  let ?s1 = "(opened s r)\<lparr>as_registry := reg\<rparr>"
  have run: "process E s r = (if ?A ?i then Inr ?s1 else processIdentity E r a ''register'' ?s1)"
    using act j(1) by (simp add: process_def processJoin_def Let_def)
  show ?thesis
  proof (cases "?A ?i")
    case True
    have "compiled ?L r s [] ?s1" by (simp add: compiled_def new_link_def)
    then show ?thesis using run True False act reg j(5) by (simp add: refines_def life_step_def Let_def)
  next
    case inactive: False
    have did: "ag_DID a = allocatedDID ?L seed ?i" using j(2) R by (simp add: allocated_def)
    obtain s' tx where "processIdentity E r a ''register'' ?s1 = Inr s'" "as_registry s' = reg"
      "compiled ?L r s [tx] s'" "tx_core tx = intent_tx E seed contract (Register ?i (r_ParamsHash r))"
      using identity_step [where operation = "''register''", OF E did _ refl] by blast
    then show ?thesis
      using run inactive False act reg j(5) by (simp add: life_step_def Let_def refines_one)
  qed
qed

lemma leave_refines:
  assumes E: "agent_env_ok E (as_cfg s) contract" and R: "allocated (ae_lib E) seed (as_registry s)"
    and act: "r_Action r = ActionLeave"
  shows "refines E seed contract s r (process E s r) (life_step (reg_active (as_registry s)) r)"
proof (cases "reg_active (as_registry s) (r_AgentID r)")
  case False
  then show ?thesis
    using registry.rejected [where r = "as_registry s" and i = "r_AgentID r"] R act
    by (auto simp: refines_def life_step_def process_def processLeave_def allocated_def)
next
  case True
  let ?i = "r_AgentID r" let ?L = "ae_lib E"
  obtain a reg where l: "Leave ?i (as_registry s) = Inr (a, reg)" "ag_DID a = reg_did ?L (as_registry s) ?i"
    "reg_ok reg" "reg_did ?L reg = reg_did ?L (as_registry s)" "reg_active reg = (reg_active (as_registry s))(?i := False)"
    using registry.leave_total [where L = ?L and r = "as_registry s" and i = ?i] R True by (auto simp: allocated_def)
  have reg: "allocated ?L seed reg" using l(3,4) R by (simp add: allocated_def)
  have did: "ag_DID a = allocatedDID ?L seed ?i" using l(2) R by (simp add: allocated_def)
  obtain s' tx where "processIdentity E r a ''revoke'' ((opened s r)\<lparr>as_registry := reg\<rparr>) = Inr s'" "as_registry s' = reg"
    "compiled ?L r s [tx] s'" "tx_core tx = intent_tx E seed contract (Revoke ?i)"
    using identity_step [where operation = "''revoke''", OF E did _ refl] by blast
  then show ?thesis
    using l(1,5) True act reg by (simp add: life_step_def process_def processLeave_def Let_def refines_one)
qed

lemma pay_refines:
  assumes E: "agent_env_ok E (as_cfg s) contract" and R: "allocated (ae_lib E) seed (as_registry s)"
    and act: "r_Action r = ActionPay"
  shows "refines E seed contract s r (process E s r) (life_step (reg_active (as_registry s)) r)"
proof (cases "reg_active (as_registry s) (r_AgentID r) \<and> reg_active (as_registry s) (r_Target r)")
  case False
  have "(\<exists>e. Active (r_AgentID r) (as_registry s) = Inl e) \<or> (\<exists>e. Active (r_Target r) (as_registry s) = Inl e)"
    using False registry.active_fails [where r = "as_registry s"] R by (auto simp: allocated_def)
  then have "\<exists>e. processPay E r (opened s r) = Inl e"
    by (cases "Active (r_AgentID r) (as_registry s)") (auto simp: processPay_def)
  then show ?thesis using False act by (auto simp: refines_def life_step_def process_def Let_def)
next
  case True
  let ?L = "ae_lib E" let ?to = "agent_address ?L seed (r_Target r)" let ?from = "agent_address ?L seed (r_AgentID r)"
  obtain a b where ab: "Active (r_AgentID r) (as_registry s) = Inr a" "Active (r_Target r) (as_registry s) = Inr b"
    "ag_DID a = reg_did ?L (as_registry s) (r_AgentID r)" "ag_DID b = reg_did ?L (as_registry s) (r_Target r)"
    using registry.active_total [where L = ?L and r = "as_registry s"] R True by (metis allocated_def)
  have did: "didAddress (ag_DID a) = Inr ?from" "didAddress (ag_DID b) = Inr ?to"
    using ab(3,4) R E by (simp_all add: allocated_def agent_env_ok_def didAddress_allocated)
  obtain s2 where s2: "linkLastTxTo ?L (curLink (opened s r)) (appendTx ?from ?to (r_Amount r) [] (r_TS r) (opened s r)) = Inr s2"
    "as_registry s2 = as_registry s"
    "\<forall>ms. compiled ?L r s [planned s ?from ?to (r_Amount r) [] (r_TS r)] (s2\<lparr>as_metrics := ms\<rparr>)"
    using transfer_step by blast
  have run: "process E s r = Inr (metric ''pay_onchain'' r s2)"
    using act ab(1,2) did s2(1) by (simp add: process_def processPay_def Let_def)
  have step: "life_step (reg_active (as_registry s)) r =
      Some (reg_active (as_registry s), [Pay (r_AgentID r) (r_Target r) (r_Amount r)])"
    using True act by (simp add: life_step_def Let_def)
  show ?thesis unfolding run step
    by (rule refines_one [OF refl, where tx = "planned s ?from ?to (r_Amount r) [] (r_TS r)"])
      (use s2(2,3) R in \<open>simp_all add: metric_def tx_core_planned intent_tx_def Let_def\<close>)
qed

lemma raw_refines:
  assumes R: "allocated (ae_lib E) seed (as_registry s)" and act: "r_Action r = ActionRawTx"
  shows "refines E seed contract s r (process E s r) (life_step (reg_active (as_registry s)) r)"
proof (cases "r_RawTx r")
  case None
  then show ?thesis using act by (simp add: refines_def life_step_def process_def processRawTx_def Let_def)
next
  case (Some spec)
  let ?L = "ae_lib E"
  show ?thesis
  proof (cases "plain_intent spec")
    case None
    then have "\<exists>e. processRawTx E r (opened s r) = Inl e"
      using Some by (auto simp: plain_intent_def processRawTx_def bindR_def split: sum.splits option.splits if_splits)
    then show ?thesis using None Some act by (auto simp: refines_def life_step_def process_def Let_def)
  next
    case it: (Some it)
    then obtain a b v where p: "rawTxAddr (spec_Sender spec) = Inr a" "rawTxAddr (spec_Recipient spec) = Inr b"
      "parse_int (spec_Value spec) = Some v" "\<not> (v < 0 \<or> 2 ^ 64 \<le> v)" "it = Plain a b v"
      by (auto simp: plain_intent_def split: sum.splits option.splits if_splits)
    obtain s2 where s2: "linkLastTxTo ?L (curLink (opened s r)) (appendTx a b v [] (r_TS r) (opened s r)) = Inr s2"
      "as_registry s2 = as_registry s" "\<forall>ms. compiled ?L r s [planned s a b v [] (r_TS r)] (s2\<lparr>as_metrics := ms\<rparr>)"
      using transfer_step by blast
    let ?ms = "as_metrics s2 @ [\<lparr>mv_Kind = ''raw_tx'', mv_TS = r_TS r, mv_RequestID = [], mv_Value = v\<rparr>]"
    have run: "process E s r = Inr (s2\<lparr>as_metrics := ?ms\<rparr>)"
      using act Some p s2(1) by (simp add: process_def processRawTx_def Let_def)
    have step: "life_step (reg_active (as_registry s)) r = Some (reg_active (as_registry s), [Plain a b v])"
      using act Some it p(5) by (simp add: life_step_def Let_def)
    show ?thesis unfolding run step
      by (rule refines_one [OF refl, where tx = "planned s a b v [] (r_TS r)"])
        (use s2(2,3) R in \<open>simp_all add: tx_core_planned intent_tx_def Let_def\<close>)
  qed
qed

lemma process_refines:
  assumes "agent_env_ok E (as_cfg s) contract" "allocated (ae_lib E) seed (as_registry s)"
  shows "refines E seed contract s r (process E s r) (life_step (reg_active (as_registry s)) r)"
proof -
  consider "r_Action r = ActionJoin" | "r_Action r = ActionLeave" | "r_Action r = ActionPay" | "r_Action r = ActionRawTx"
    | "r_Action r \<notin> {ActionJoin, ActionLeave, ActionPay, ActionRawTx}" by blast
  then show ?thesis
  proof cases
    case 5
    then show ?thesis by (simp add: refines_def life_step_def process_def Let_def)
  qed (use assms join_refines leave_refines pay_refines raw_refines in blast)+
qed

text \<open>A whole trace.\<close>

lemma Process_life:
  assumes "agent_env_ok E (as_cfg s) contract" "allocated (ae_lib E) seed (as_registry s)"
  shows "case life_run (reg_active (as_registry s)) records of
      None \<Rightarrow> \<exists>e. Process E records s = Inl e
    | Some (A, is) \<Rightarrow> \<exists>s'. Process E records s = Inr s' \<and> reg_active (as_registry s') = A \<and>
        allocated (ae_lib E) seed (as_registry s') \<and>
        map tx_core (as_txs s') = map tx_core (as_txs s) @ map (intent_tx E seed contract) is"
  using assms
proof (induction records arbitrary: s)
  case (Cons r records)
  note step = process_refines [OF Cons.prems, of r, unfolded refines_def]
  show ?case
  proof (cases "life_step (reg_active (as_registry s)) r")
    case None
    then show ?thesis using step by (auto simp: Process_def)
  next
    case (Some Ais)
    obtain A "is" where Ais: "Ais = (A, is)" by (cases Ais)
    obtain s1 new where s1: "process E s r = Inr s1" "compiled (ae_lib E) r s new s1"
      "allocated (ae_lib E) seed (as_registry s1)" "reg_active (as_registry s1) = A"
      "map tx_core new = map (intent_tx E seed contract) is"
      using step unfolding Some Ais by auto
    have cfg: "as_cfg s1 = as_cfg s" "as_txs s1 = as_txs s @ new" using s1(2) by (simp_all add: compiled_def)
    have "Process E (r # records) s = Process E records s1" using s1(1) by (simp add: Process_def)
    then show ?thesis
      using Cons.IH [of s1] Cons.prems(1) s1(3-5) cfg Some Ais by (cases "life_run A records") auto
  qed
qed (simp add: Process_def)

text \<open>C28: the agent supervisor implements the life cycle of agents. It rejects a trace exactly where the
  abstract machine does (an empty name, leaving or paying without having joined, a malformed
  transfer); otherwise the agents it holds active are those of the machine, and its plan is the
  sequence of the machine's intents: sender, recipient, value and call data of each.\<close>

theorem agent_refines_life:
  assumes "agent_env_ok E (as_cfg s) contract" "allocated (ae_lib E) seed (as_registry s)"
  shows "case life_run (reg_active (as_registry s)) records of
      None \<Rightarrow> \<exists>e. Process E records s = Inl e
    | Some (A, is) \<Rightarrow> \<exists>s'. Process E records s = Inr s' \<and> reg_active (as_registry s') = A \<and>
        map tx_core (as_txs s') = map tx_core (as_txs s) @ map (intent_tx E seed contract) is"
  using Process_life [OF assms, of records] by (auto split: option.splits)

section \<open>Nonces and hashes\<close>

lemma emitted_compiled:
  assumes "s1 = (opened s r)\<lparr>as_registry := reg\<rparr>" "linkLastTxTo L (curLink s1) (appendTx sender to amount data ts s1) = Inr s2"
  shows "\<exists>tx. compiled L r s [tx] (s2\<lparr>as_metrics := ms\<rparr>)"
  using emit_compiled [OF assms(1), of L sender to amount data ts] assms(2) by auto

lemma identity_compiled:
  assumes "s1 = (opened s r)\<lparr>as_registry := reg\<rparr>" "processIdentity E r a operation s1 = Inr s'"
  shows "\<exists>tx. compiled (ae_lib E) r s [tx] s'"
  using assms emitted_compiled [OF assms(1)]
  by (auto simp: processIdentity_def Let_def bindR_Inr_iff appendContractTx_def metric_def)

lemma process_compiled:
  assumes "process E s r = Inr s'"
  shows "\<exists>new. compiled (ae_lib E) r s new s'"
proof -
  have same: "opened s r = (opened s r)\<lparr>as_registry := as_registry s\<rparr>" by simp
  have kept: "compiled (ae_lib E) r s [] ((opened s r)\<lparr>as_registry := reg\<rparr>)" for reg
    by (simp add: compiled_def new_link_def)
  consider "processJoin E r (opened s r) = Inr s'" | "processLeave E r (opened s r) = Inr s'"
    | "processPay E r (opened s r) = Inr s'" | "processRawTx E r (opened s r) = Inr s'"
    using assms by (auto simp: process_def Let_def split: if_splits)
  then show ?thesis
  proof cases
    case 1
    then show ?thesis using identity_compiled [OF refl] kept
      by (fastforce simp: processJoin_def bindR_Inr_iff Let_def split: if_splits)
  next
    case 2
    then show ?thesis using identity_compiled [OF refl] by (fastforce simp: processLeave_def bindR_Inr_iff)
  next
    case 3
    then show ?thesis using emitted_compiled [OF same] by (fastforce simp: processPay_def bindR_Inr_iff Let_def metric_def)
  next
    case 4
    then show ?thesis using emitted_compiled [OF same]
      by (fastforce simp: processRawTx_def bindR_Inr_iff Let_def split: option.splits if_splits)
  qed
qed

text \<open>The transactions of an account, and what their nonces should be.\<close>

abbreviation sent_by :: "address \<Rightarrow> transaction list \<Rightarrow> transaction list" where
  "sent_by a txs \<equiv> filter (\<lambda>tx. Sender tx = a) txs"

definition nonces_ok :: "AgentSupervisor \<Rightarrow> bool" where
  "nonces_ok s \<longleftrightarrow> (\<forall>a. get_or 0 (nonces s) a = u64 (int (length (sent_by a (as_txs s)))) \<and>
     map Nonce (sent_by a (as_txs s)) = map (\<lambda>k. u64 (int k)) [0..<length (sent_by a (as_txs s))])"

definition links_ok :: "lib \<Rightarrow> AgentSupervisor \<Rightarrow> bool" where
  "links_ok L s \<longleftrightarrow> concat (map lk_TxHashes (links s)) = concat (map (hash_hex L) (as_txs s)) \<and>
     (\<forall>l \<in> set (links s). length (lk_TxHashes l) \<le> 1)"

lemma u64_Suc: "u64 (1 + u64 x) = u64 (1 + x)" "u64 (u64 x + 1) = u64 (1 + x)"
  by (simp_all add: u64_def mod_add_right_eq mod_add_left_eq add.commute)

lemma hash_hex_length: "length (hash_hex L tx) \<le> 1"
  by (simp add: hash_hex_def split: sum.split)

lemma compiled_keeps:
  assumes "compiled L r s new s'"
  shows "nonces_ok s \<Longrightarrow> nonces_ok s'" and "links_ok L s \<Longrightarrow> links_ok L s'"
proof -
  show "nonces_ok s'" if ok: "nonces_ok s"
  proof (cases "new = []")
    case True
    then show ?thesis using assms ok by (auto simp: compiled_def nonces_ok_def)
  next
    case False
    then obtain tx where "as_txs s' = as_txs s @ [tx]" "Nonce tx = get_or 0 (nonces s) (Sender tx)"
      "nonces s' = AList.update (Sender tx) (u64 (Nonce tx + 1)) (nonces s)"
      using assms by (auto simp: compiled_def)
    then show ?thesis using ok by (auto simp: nonces_ok_def u64_Suc add.commute)
  qed
  show "links_ok L s'" if "links_ok L s"
    using assms that hash_hex_length by (fastforce simp: compiled_def links_ok_def)
qed

lemma Process_keeps:
  assumes "Process E records s = Inr s'"
  shows "nonces_ok s \<Longrightarrow> nonces_ok s'" and "links_ok (ae_lib E) s \<Longrightarrow> links_ok (ae_lib E) s'"
    and "map lk_Seq (links s') = map lk_Seq (links s) @ map r_Seq records"
proof -
  have "(nonces_ok s \<longrightarrow> nonces_ok s') \<and> (links_ok (ae_lib E) s \<longrightarrow> links_ok (ae_lib E) s') \<and>
      map lk_Seq (links s') = map lk_Seq (links s) @ map r_Seq records"
    using assms
  proof (induction records arbitrary: s)
    case (Cons r records)
    then obtain s1 where s1: "process E s r = Inr s1" "Process E records s1 = Inr s'"
      by (auto simp: Process_def bindR_Inr_iff)
    obtain new where new: "compiled (ae_lib E) r s new s1" using process_compiled [OF s1(1)] by blast
    then have "map lk_Seq (links s1) = map lk_Seq (links s) @ [r_Seq r]" by (simp add: compiled_def new_link_def)
    then show ?case using Cons.IH [OF s1(2)] compiled_keeps [OF new] by auto
  qed (simp add: Process_def)
  then show "nonces_ok s \<Longrightarrow> nonces_ok s'" "links_ok (ae_lib E) s \<Longrightarrow> links_ok (ae_lib E) s'"
    "map lk_Seq (links s') = map lk_Seq (links s) @ map r_Seq records" by auto
qed


section \<open>The plan is replayed\<close>

text \<open>
  The object of a line of the plan, over its fields. What \<open>encoding/json\<close> promises: strings without
  quotes, backslashes and control characters are decoded to themselves, and an integer literal to
  its value.
\<close>

definition plan_json :: "string \<Rightarrow> string \<Rightarrow> string \<Rightarrow> string \<Rightarrow> int \<Rightarrow> string \<Rightarrow> string" where
  "plan_json h sender recipient val nonce data =
     ''{'' @ json_str ''hash'' h @ '','' @ json_str ''sender'' sender @ '','' @ json_str ''recipient'' recipient @ '','' @
     json_str ''value'' val @ '','' @ quote @ ''nonce'' @ quote @ '':'' @ show_int nonce @ '','' @
     json_str ''data'' data @ ''}''"

definition plain_char :: "char \<Rightarrow> bool" where
  "plain_char c \<longleftrightarrow> visible c \<and> c \<noteq> char_of (34 :: nat) \<and> c \<noteq> char_of (92 :: nat)"

abbreviation plain :: "string \<Rightarrow> bool" where
  "plain s \<equiv> list_all plain_char s"

definition decodes_plan :: "(string \<Rightarrow> traceLine option) \<Rightarrow> bool" where
  "decodes_plan um \<longleftrightarrow>
     (\<forall>h sender recipient val nonce data.
        plain h \<and> plain sender \<and> plain recipient \<and> plain val \<and> plain data \<and> 0 \<le> nonce \<and> nonce < 2 ^ 64 \<longrightarrow>
        um (plan_json h sender recipient val nonce data) =
          Some \<lparr>tl_Hash = h, tl_Sender = sender, tl_Recipient = recipient, tl_Value = val, tl_Nonce = nonce, tl_Data = data\<rparr>)"

lemma plan_line_json:
  "plan_line h tx = plan_json (EncodeToString h) (''0x'' @ EncodeToString (bytes_of_addr (Sender tx)))
     (''0x'' @ EncodeToString (bytes_of_addr (Recipient tx))) (show_int (Value tx)) (Nonce tx)
     (''0x'' @ EncodeToString (Data tx))"
  by (simp add: plan_line_def plan_json_def)

lemma plain_hex_digit: "n < 16 \<Longrightarrow> plain_char (hex_digit n)"
proof -
  have "\<forall>n \<in> set [0..<16]. plain_char (hex_digit n)" by code_simp
  then show "n < 16 \<Longrightarrow> ?thesis" by simp
qed

lemma plain_EncodeToString [simp]: "plain (EncodeToString bs)"
proof (induction bs)
  case (Cons b bs)
  have "unat b < 256" using unsigned_less [of b, where 'a = nat] by simp
  then have "plain_char (hex_digit (unat b div 16))" "plain_char (hex_digit (unat b mod 16))"
    by (auto intro: plain_hex_digit)
  then show ?case using Cons by (simp add: EncodeToString_def)
qed (simp add: EncodeToString_def)

lemma plain_dec_digit: "n < 10 \<Longrightarrow> plain_char (dec_digit n)"
proof -
  have "\<forall>n \<in> set [0..<10]. plain_char (dec_digit n)" by code_simp
  then show "n < 10 \<Longrightarrow> ?thesis" by simp
qed

lemma plain_show_nat [simp]: "plain (show_nat n)"
proof (induction n rule: show_nat.induct)
  case (1 n)
  then show ?case by (subst show_nat.simps) (auto simp: plain_dec_digit)
qed

lemma plain_show_int [simp]: "plain (show_int i)"
proof -
  have "plain_char (CHR ''-'')" by code_simp
  then show ?thesis by (simp add: show_int_def)
qed

lemma plain_0x: "plain ''0x''"
  by code_simp

lemma plan_line_visible: "\<forall>c \<in> set (plan_line h tx). visible c"
proof -
  have v: "plain s \<Longrightarrow> c \<in> set s \<Longrightarrow> visible c" for s c by (auto simp: list_all_iff plain_char_def)
  have q: "list_all visible quote" by code_simp
  have lits: "list_all visible (''{}:,hash'' @ ''sender'' @ ''recipient'' @ ''value'' @ ''nonce'' @ ''data'' @ ''0x'')"
    by code_simp
  show ?thesis
    using lits q v [OF plain_EncodeToString] v [OF plain_show_int] unfolding plan_line_json plan_json_def json_str_def
    by (auto simp: list_all_iff)
qed

text \<open>A transaction is read back from its line, but for the time of its creation.\<close>

definition plan_form :: "transaction \<Rightarrow> bool" where
  "plan_form tx \<longleftrightarrow> 0 \<le> Nonce tx \<and> Nonce tx < 2 ^ 64 \<and>
     untimed tx = untimed ((NewTransaction (Sender tx) (Recipient tx) (Value tx) 0 (Nonce tx) 0)\<lparr>Data := Data tx\<rparr>)"

lemma plan_line_decoded:
  assumes "decodes_plan um" "plan_form tx"
  shows "\<exists>tx'. trace_line2Tx um now (plan_line h tx) = Inr tx' \<and> untimed tx' = untimed tx"
proof -
  have "um (plan_line h tx) = Some \<lparr>tl_Hash = EncodeToString h, tl_Sender = ''0x'' @ EncodeToString (bytes_of_addr (Sender tx)),
      tl_Recipient = ''0x'' @ EncodeToString (bytes_of_addr (Recipient tx)), tl_Value = show_int (Value tx),
      tl_Nonce = Nonce tx, tl_Data = ''0x'' @ EncodeToString (Data tx)\<rparr>"
    unfolding plan_line_json using assms plain_0x by (simp add: decodes_plan_def plan_form_def)
  then show ?thesis
    using assms(2) Hex2Addr_roundtrip [of "Sender tx"] Hex2Addr_roundtrip [of "Recipient tx"] Hex2Bytes_roundtrip [of "Data tx"]
    by (simp add: trace_line2Tx_def parse_int_show_int plan_form_def NewTransaction_def)
qed

lemma plan_lines_decoded:
  assumes "decodes_plan um" "plan_lines L txs = Inr ls" "\<forall>tx \<in> set txs. plan_form tx"
  shows "\<exists>txs'. mapR (trace_line2Tx um now) ls = Inr txs' \<and> map untimed txs' = map untimed txs"
  using assms(2,3)
proof (induction txs arbitrary: ls)
  case (Cons tx txs)
  obtain h ls' where ls: "ls = plan_line h tx # ls'" "plan_lines L txs = Inr ls'"
    using Cons.prems(1) by (auto simp: plan_lines_def bindR_Inr_iff)
  obtain tx' where "trace_line2Tx um now (plan_line h tx) = Inr tx'" "untimed tx' = untimed tx"
    using plan_line_decoded [OF assms(1)] Cons.prems(2) by (metis list.set_intros(1))
  then show ?case using Cons.IH [OF ls(2)] Cons.prems(2) ls(1) by auto
qed (simp add: plan_lines_def)

lemma compiled_form:
  assumes "compiled L r s new s'" "nonces_ok s" "\<forall>tx \<in> set (as_txs s). plan_form tx"
  shows "\<forall>tx \<in> set (as_txs s'). plan_form tx"
proof -
  have "0 \<le> get_or 0 (nonces s) a \<and> get_or 0 (nonces s) a < 2 ^ 64" for a
    using assms(2) by (simp add: nonces_ok_def u64_def)
  then show ?thesis using assms(1,3) by (auto simp: compiled_def plan_form_def planned_def)
qed

lemma Process_form:
  assumes "Process E records s = Inr s'" "nonces_ok s" "\<forall>tx \<in> set (as_txs s). plan_form tx"
  shows "\<forall>tx \<in> set (as_txs s'). plan_form tx"
  using assms
proof (induction records arbitrary: s)
  case (Cons r records)
  then obtain s1 where s1: "process E s r = Inr s1" "Process E records s1 = Inr s'"
    by (auto simp: Process_def bindR_Inr_iff)
  obtain new where new: "compiled (ae_lib E) r s new s1" using process_compiled [OF s1(1)] by blast
  show ?case using Cons.IH [OF s1(2)] compiled_keeps(1) [OF new] compiled_form [OF new] Cons.prems(2,3) by blast
qed (simp add: Process_def)

text \<open>C31: the plan of a round is replayed as it was compiled: when the chain's trace source reads the
  written file, in batches of any sizes that add up to the plan's, it gives the transactions of the
  plan in their order, with their senders, recipients, values, nonces and call data; only the time
  of creation is its own.\<close>

theorem plan_replays:
  assumes "NewAgentSupervisor J abi cfg file = Inr s" "Process E records s = Inr s'"
    and "WriteResult J ml (ae_lib E) s' = Inr files" "decodes_plan um"
    and "\<forall>tx \<in> set (as_txs s'). \<forall>h. tx_Hash (ae_lib E) tx = Inr h \<longrightarrow> length (plan_line h tx) < maxTokenSize"
    and "\<forall>(now, n) \<in> set calls. 0 \<le> n" "int (length (as_txs s')) \<le> sum_list (map snd calls)"
  shows "\<exists>plan src out. map_of files ''agent_transactions.jsonl'' = Some plan \<and>
    NewTraceSourceJSONL (Inr plan) = Inr src \<and> replay um calls src = Inr out \<and>
    map untimed out = map untimed (as_txs s')"
proof -
  have s: "nonces s = []" "as_txs s = []" using assms(1) by (auto simp: NewAgentSupervisor_def bindR_Inr_iff)
  then have form: "\<forall>tx \<in> set (as_txs s'). plan_form tx"
    using Process_form [OF assms(2)] by (simp add: nonces_ok_def get_or_def u64_def)
  obtain ls where ls: "plan_lines (ae_lib E) (as_txs s') = Inr ls" "map_of files ''agent_transactions.jsonl'' = Some (file_of ls)"
    using assms(3) by (auto simp: WriteResult_defs bindR_Inr_iff)
  have fits: "newline \<notin> set l \<and> length l < maxTokenSize \<and> dropCR l = l" if l: "l \<in> set ls" for l
  proof -
    obtain tx h where "tx \<in> set (as_txs s')" "tx_Hash (ae_lib E) tx = Inr h" "l = plan_line h tx"
      using mapR_set [OF ls(1) [unfolded plan_lines_def] l] by (auto simp: bindR_Inr_iff)
    then show ?thesis using assms(5) visible_line plan_line_visible by blast
  qed
  have scan: "scan_lines (file_of ls) = (ls, False)" unfolding file_of_def by (rule scan_lines_roundtrip) (rule fits)
  let ?src = "\<lparr>ts_rest = ls, ts_tooLong = False, ts_done = False, ts_line = 0\<rparr>"
  have src: "NewTraceSourceJSONL (Inr (file_of ls)) = Inr ?src" by (simp add: NewTraceSourceJSONL_def scan)
  obtain txs' where txs': "mapR (trace_line2Tx um 0) ls = Inr txs'" "map untimed txs' = map untimed (as_txs s')"
    using plan_lines_decoded [OF assms(4) ls(1) form] by blast
  then have "length txs' = length (as_txs s')" by (metis length_map)
  then obtain out where "replay um calls ?src = Inr out" "map untimed out = map untimed txs'"
    using replay_batches [of um ?src txs' calls] txs'(1) assms(6,7) by auto
  then show ?thesis using ls(2) src txs'(2) by metis
qed

section \<open>An action nobody may write\<close>

text \<open>The action that \<open>LoadTrace\<close> makes up for plain transfers is accepted from a trace file as well:
  a line whose action is \<open>raw_tx\<close> loads without an error, and processing it dereferences a nil
  pointer.\<close>

theorem raw_tx_action_panics:
  assumes "scan_lines content = ([l], False)" "um l = Some p" "spec_Sender p = []"
    and "r_AgentID (p_Record p) \<noteq> []" "r_Action (p_Record p) = ''raw_tx''" "0 \<le> r_TS (p_Record p)"
  shows "\<exists>r. LoadTrace um (Inr content) = Inr [r] \<and>
    Process E [r] s = Inl (Panic ''invalid memory address or nil pointer dereference'')"
  using assms by (simp add: LoadTrace_def trace_record_def Let_def Process_def process_def processRawTx_def)

section \<open>Examples\<close>

text \<open>Two agents join, and one pays the other.\<close>

definition example_agent_lib :: lib where
  "example_agent_lib =
     \<lparr>sha256 = (\<lambda>b. take 32 (b @ replicate 32 0)), sha512 = (\<lambda>b. b), sha1 = (\<lambda>b. b),
      rlp_tx = (\<lambda>tx. Some []), rlp_header = (\<lambda>h. None), rlp_block = (\<lambda>b. None),
      gob_state = (\<lambda>s. None), gob_block = (\<lambda>b. None), gob_unblock = (\<lambda>d. None), gob_loc = (\<lambda>l. None),
      gob_unloc = (\<lambda>d. None), mpt_root = (\<lambda>kvs. None), bs_new = (\<lambda>n. []), bs_set = (\<lambda>b i. b),
      bs_test = (\<lambda>b i. False), bs_len = (\<lambda>b. 0), bs_equal = (=)\<rparr>"

definition example_agent_env :: agent_env where
  "example_agent_env = \<lparr>ae_lib = example_agent_lib, ae_register = (\<lambda>a b. Some [1]), ae_revoke = (\<lambda>a. Some [2])\<rparr>"

definition example_cfg :: Config where
  "example_cfg =
     \<lparr>BlockEmulatorConfig = [], ResultDir = ''out'', ModuleRoot = ''.'', Seed = 7, TracePath = ''trace'', ChainEnabled = False,
      RunTimeoutSeconds = 600, NodeExitGraceSeconds = 15, MaxRounds = 1, PayPlugin = ''direct-pay'',
      PayContractAddress = [], IdentityPlugin = ''did'', IdentityContractAddress = ''00''\<rparr>"

definition example_agent_json :: agent_json where
  "example_agent_json = \<lparr>json_marshal = (\<lambda>as. Some []), json_unmarshal = (\<lambda>b. None)\<rparr>"

definition example_sup :: AgentSupervisor where
  "example_sup = \<lparr>as_cfg = example_cfg, nonces = [], as_registry = \<lparr>reg_seed = 7, reg_agents = []\<rparr>, as_metrics = [],
     as_txs = [], links = [], curLink = 0\<rparr>"

definition example_actions :: "Record list" where
  "example_actions = [example_action ''a'' ''join'' [] 0 1, example_action ''b'' ''join'' [] 0 2,
     example_action ''a'' ''pay'' ''b'' 5 3]"

lemmas example_agent_defs = example_agent_env_def example_agent_lib_def example_cfg_def example_sup_def
  example_actions_def example_action_def zero_Record_def

lemma example_agent_new: "NewAgentSupervisor example_agent_json (Inr ()) example_cfg (Inr None) = Inr example_sup"
  by (simp add: NewAgentSupervisor_def LoadRegistry_def example_sup_def example_cfg_def)

lemma example_agent_ok: "agent_env_ok example_agent_env (as_cfg example_sup) 0"
    "allocated (ae_lib example_agent_env) 7 (as_registry example_sup)"
proof -
  have "Hex2Addr ''00'' = Inr 0" by code_simp
  then show "agent_env_ok example_agent_env (as_cfg example_sup) 0"
    by (simp add: agent_env_ok_def example_agent_defs min_def)
qed (simp add: example_sup_def)

lemma example_life:
  "life_run (reg_active (as_registry example_sup)) example_actions =
     Some ((\<lambda>_. False)(''a'' := True, ''b'' := True), [Register ''a'' [], Register ''b'' [], Pay ''a'' ''b'' 5])"
  by (simp add: example_actions_def example_action_def zero_Record_def life_step_def Let_def reg_active_def example_sup_def
      fun_eq_iff)

theorem agent_refines_life_witness:
  "\<exists>s'. Process example_agent_env example_actions example_sup = Inr s' \<and>
     reg_active (as_registry s') = (\<lambda>_. False)(''a'' := True, ''b'' := True) \<and> length (as_txs s') = 3"
proof -
  obtain s' where s': "Process example_agent_env example_actions example_sup = Inr s'"
    "reg_active (as_registry s') = (\<lambda>_. False)(''a'' := True, ''b'' := True)"
    "map tx_core (as_txs s') = map tx_core (as_txs example_sup) @
       map (intent_tx example_agent_env 7 0) [Register ''a'' [], Register ''b'' [], Pay ''a'' ''b'' 5]"
    using agent_refines_life [OF example_agent_ok, of example_actions] unfolding example_life by auto
  have "length (map tx_core (as_txs s')) = 3" unfolding s'(3) by (simp add: example_sup_def)
  then show ?thesis using s'(1,2) by auto
qed

lemma example_processed: "\<exists>s'. Process example_agent_env example_actions example_sup = Inr s' \<and> length (as_txs s') = 3 \<and>
   (\<forall>tx \<in> set (as_txs s'). length (Data tx) \<le> 1 \<and> 0 \<le> Value tx \<and> Value tx < 2 ^ 64)"
proof -
  obtain s' where s': "Process example_agent_env example_actions example_sup = Inr s'"
    "map tx_core (as_txs s') = map (intent_tx example_agent_env 7 0) [Register ''a'' [], Register ''b'' [], Pay ''a'' ''b'' 5]"
    using Process_life [OF example_agent_ok, of example_actions] unfolding example_life by (auto simp: example_sup_def)
  have "length (map tx_core (as_txs s')) = 3" unfolding s'(2) by simp
  moreover have "\<forall>c \<in> set (map tx_core (as_txs s')). case c of (a, b, v, d) \<Rightarrow> length d \<le> 1 \<and> 0 \<le> v \<and> v < 2 ^ 64"
    unfolding s'(2) by (simp add: intent_tx_def example_agent_env_def Let_def)
  ultimately show ?thesis using s'(1) by (auto simp: tx_core_def)
qed


text \<open>A small decoder for the lines of a plan: the parts between quotation marks.\<close>

function split_quotes :: "string \<Rightarrow> string list" where
  "split_quotes s = takeWhile (\<lambda>c. c \<noteq> char_of (34 :: nat)) s #
     (case dropWhile (\<lambda>c. c \<noteq> char_of (34 :: nat)) s of [] \<Rightarrow> [] | c # rest \<Rightarrow> split_quotes rest)"
  by pat_completeness auto

termination
proof (relation "measure length", goal_cases)
  case (2 s c rest)
  then show ?case using length_dropWhile_le [of "\<lambda>c. c \<noteq> char_of (34 :: nat)" s] by simp
qed simp

declare split_quotes.simps [simp del]

definition example_um :: "string \<Rightarrow> traceLine option" where
  "example_um l =
     (let p = split_quotes l
      in map_option (\<lambda>n. \<lparr>tl_Hash = p ! 3, tl_Sender = p ! 7, tl_Recipient = p ! 11, tl_Value = p ! 15, tl_Nonce = n,
           tl_Data = p ! 21\<rparr>) (parse_int (butlast (tl (p ! 18)))))"

abbreviation noq :: "string \<Rightarrow> bool" where
  "noq s \<equiv> char_of (34 :: nat) \<notin> set s"

lemma split_quotes_part:
  assumes "noq s"
  shows "split_quotes (s @ quote @ rest) = s # split_quotes rest" "split_quotes s = [s]"
proof -
  let ?P = "\<lambda>c. c \<noteq> char_of (34 :: nat)"
  have "takeWhile ?P s = s" "dropWhile ?P s = []" using assms by auto
  then show "split_quotes s = [s]" unfolding split_quotes.simps [of s] by (simp only: list.case)
  have "takeWhile ?P (s @ quote @ rest) = s" "dropWhile ?P (s @ quote @ rest) = char_of (34 :: nat) # rest"
    using assms by (auto simp: quote_def takeWhile_append dropWhile_append)
  then show "split_quotes (s @ quote @ rest) = s # split_quotes rest" by (subst split_quotes.simps) simp
qed

lemma plain_no_quote: "plain s \<Longrightarrow> char_of (34 :: nat) \<notin> set s"
  by (auto simp: list_all_iff plain_char_def)

lemma example_um_decodes: "decodes_plan example_um"
  unfolding decodes_plan_def
proof (intro allI impI, elim conjE)
  fix h sender recipient val nonce data
  assume P: "plain h" "plain sender" "plain recipient" "plain val" "plain data"
  note q = P [THEN plain_no_quote] plain_no_quote [OF plain_show_int [of nonce]]
  have lit: "noq ''{''" "noq ''hash''" "noq '':''" "noq '',''" "noq ''sender''" "noq ''recipient''" "noq ''value''"
    "noq ''nonce''" "noq ''data''" "noq ''}''"
    by code_simp+
  let ?n = "'':'' @ show_int nonce @ '',''"
  have n: "noq ?n" using q(6) lit(3,4) by simp
  have parts: "plan_json h sender recipient val nonce data =
    ''{'' @ quote @ ''hash'' @ quote @ '':'' @ quote @ h @ quote @ '','' @ quote @ ''sender'' @ quote @ '':'' @ quote @
    sender @ quote @ '','' @ quote @ ''recipient'' @ quote @ '':'' @ quote @ recipient @ quote @ '','' @ quote @ ''value'' @
    quote @ '':'' @ quote @ val @ quote @ '','' @ quote @ ''nonce'' @ quote @ ?n @ quote @ ''data'' @ quote @
    '':'' @ quote @ data @ quote @ ''}''"
    by (simp only: plan_json_def json_str_def append_assoc)
  have "split_quotes (plan_json h sender recipient val nonce data) =
    [''{'', ''hash'', '':'', h, '','', ''sender'', '':'', sender, '','', ''recipient'', '':'', recipient, '','', ''value'', '':'',
     val, '','', ''nonce'', ?n, ''data'', '':'', data, ''}'']"
    unfolding parts by (simp only: split_quotes_part q lit n not_False_eq_True)
  then show "example_um (plan_json h sender recipient val nonce data) =
      Some \<lparr>tl_Hash = h, tl_Sender = sender, tl_Recipient = recipient, tl_Value = val, tl_Nonce = nonce, tl_Data = data\<rparr>"
    by (simp add: example_um_def Let_def parse_int_show_int butlast_append)
qed

lemma length_show_nat: "n < 10 ^ k \<Longrightarrow> 0 < k \<Longrightarrow> length (show_nat n) \<le> k"
proof (induction n arbitrary: k rule: show_nat.induct)
  case (1 n)
  show ?case
  proof (cases "n < 10")
    case False
    then obtain m where m: "k = Suc m" "0 < m" using "1.prems" by (cases k; cases "k - 1") auto
    then have "n div 10 < 10 ^ m" using "1.prems"(1) by (simp add: less_mult_imp_div_less mult.commute)
    then show ?thesis using "1.IH" [OF False _ m(2)] False m(1) by (subst show_nat.simps) simp
  qed (use 1 in \<open>subst show_nat.simps, simp\<close>)
qed

lemma length_show_int: "0 \<le> v \<Longrightarrow> v < 2 ^ 64 \<Longrightarrow> length (show_int v) \<le> 20"
  using length_show_nat [of "nat v" 20] by (simp add: show_int_def nat_less_iff)

lemma plan_line_fits:
  assumes "length h = 32" "length (Data tx) \<le> 1000" "0 \<le> Value tx" "Value tx < 2 ^ 64" "plan_form tx"
  shows "length (plan_line h tx) < maxTokenSize"
  using assms length_show_int [of "Value tx"] length_show_int [of "Nonce tx"]
  by (simp add: plan_line_def json_str_def quote_def maxTokenSize_def plan_form_def)

theorem plan_replays_witness:
  "\<exists>s' files plan src out. Process example_agent_env example_actions example_sup = Inr s' \<and>
     WriteResult example_agent_json (\<lambda>l. Some []) (ae_lib example_agent_env) s' = Inr files \<and>
     map_of files ''agent_transactions.jsonl'' = Some plan \<and> NewTraceSourceJSONL (Inr plan) = Inr src \<and>
     replay example_um [(100, 2), (200, 2)] src = Inr out \<and> map untimed out = map untimed (as_txs s') \<and> length out = 3"
proof -
  let ?L = "ae_lib example_agent_env" let ?ml = "\<lambda>l :: ActionTxLink. Some [] :: string option"
  obtain s' where s': "Process example_agent_env example_actions example_sup = Inr s'" "length (as_txs s') = 3"
    "\<forall>tx \<in> set (as_txs s'). length (Data tx) \<le> 1 \<and> 0 \<le> Value tx \<and> Value tx < 2 ^ 64"
    using example_processed by blast
  have hash: "tx_Hash ?L tx = Inr (replicate 32 0)" for tx
    by (simp add: tx_Hash_def tx_Encode_def example_agent_env_def example_agent_lib_def)
  have "\<exists>ls. plan_lines ?L (as_txs s') = Inr ls"
    unfolding plan_lines_def hash bindR_simps
    using mapR_total [of "as_txs s'" "\<lambda>tx. Inr (plan_line (replicate 32 0) tx)"] by blast
  moreover have "\<exists>ls. mapR (\<lambda>l. orErr ''encode action tx map entry'' (?ml l)) (links s') = Inr ls"
    using mapR_total [of "links s'" "\<lambda>l. orErr ''encode action tx map entry'' (?ml l)" "\<lambda>_. []"] by auto
  ultimately obtain files where files: "WriteResult example_agent_json ?ml ?L s' = Inr files"
    by (auto simp: WriteResult_defs Registry_Write_def example_agent_json_def)
  have "nonces_ok example_sup" by (simp add: nonces_ok_def example_sup_def get_or_def u64_def)
  then have form: "\<forall>tx \<in> set (as_txs s'). plan_form tx"
    using Process_form [OF s'(1)] by (simp add: example_sup_def)
  have fits: "\<forall>tx \<in> set (as_txs s'). \<forall>h. tx_Hash ?L tx = Inr h \<longrightarrow> length (plan_line h tx) < maxTokenSize"
    using s'(3) form hash by (fastforce intro!: plan_line_fits)
  obtain plan src out where "map_of files ''agent_transactions.jsonl'' = Some plan" "NewTraceSourceJSONL (Inr plan) = Inr src"
    "replay example_um [(100, 2), (200, 2)] src = Inr out" and same: "map untimed out = map untimed (as_txs s')"
    using plan_replays [OF example_agent_new s'(1) files example_um_decodes fits, of "[(100, 2), (200, 2)]"] s'(2) by auto
  moreover have "length out = 3" using arg_cong [OF same, of length] s'(2) by simp
  ultimately show ?thesis using s'(1) files by blast
qed

theorem raw_tx_action_panics_witness:
  "\<exists>r. LoadTrace (\<lambda>l. Some \<lparr>spec_Sender = [], spec_Recipient = [], spec_Value = [], p_Record = example_action ''x'' ''raw_tx'' [] 0 1\<rparr>)
       (Inr ''a'') = Inr [r] \<and>
     Process example_agent_env [r] example_sup = Inl (Panic ''invalid memory address or nil pointer dereference'')"
proof -
  have "scan_lines ''a'' = ([''a''], False)"
    by code_simp
  then show ?thesis
    by (rule raw_tx_action_panics [OF _ refl]) (simp_all add: example_action_def zero_Record_def)
qed

end
