(* ===== verification/AgentCsv.thy ===== *)
theory AgentCsv
  imports AgentPlan Chain "HOL-Library.Product_Lexorder"
begin

text \<open>
  The CSV files of the agents (\<open>agentsupervisor/agentcsv.go\<close>): after a run of the chain, the blocks
  of every shard are read back from its block store, and every agent gets the list of the committed
  transactions it took part in, with the balance of its account after each.
\<close>

section \<open>Reading the blocks of a shard\<close>

text \<open>
  The walk from the newest block back along the parents. The blocks are collected oldest first, so
  the head of \<open>acc\<close> is the block read last. A store whose parents form a cycle is walked forever:
  \<open>None\<close>.
\<close>

partial_function (option) walk_blocks :: "lib \<Rightarrow> BoltStore \<Rightarrow> bytes \<Rightarrow> block list \<Rightarrow> block list result option" where
  "walk_blocks L st h acc =
     (if h = [] then Some (Inr acc)
      else case GetBlockByHash h st of
        Inl e \<Rightarrow>
          (case acc of
             b # _ \<Rightarrow> if Number b \<le> 1 then Some (Inr acc) else Some (Inl (Errorf ''read block''))
           | [] \<Rightarrow> Some (Inl (Errorf ''read block'')))
      | Inr raw \<Rightarrow>
          (case DecodeBlock L raw of
             Inl e \<Rightarrow> Some (Inl e)
           | Inr b \<Rightarrow> walk_blocks L st (ParentBlockHash b) (b # acc)))"

definition readShardBlocks :: "lib \<Rightarrow> BoltStore result \<Rightarrow> block list result option" where
  "readShardBlocks L store =
     (case bindR store GetNewestBlockHash of
        Inl e \<Rightarrow> Some (Inl e)
      | Inr newest \<Rightarrow> (case store of Inl e \<Rightarrow> Some (Inl e) | Inr st \<Rightarrow> walk_blocks L st newest []))"

section \<open>The rows of the agents\<close>

record agentTxRow =
  ar_blockHeight :: int
  ar_txHash :: string
  ar_sender :: string
  ar_recipient :: string
  ar_value :: string
  ar_balance :: string
  ar_blockTimeMs :: int

record txRef =
  ref_time :: time
  ref_shard :: int
  ref_height :: int
  ref_index :: int
  ref_tx :: transaction

definition block_refs :: "int \<Rightarrow> block \<Rightarrow> txRef list" where
  "block_refs shard b =
     map (\<lambda>(i, tx). \<lparr>ref_time = h_CreateTime b, ref_shard = shard, ref_height = Number b, ref_index = int i, ref_tx = tx\<rparr>)
       (enumerate 0 (TxList b))"

definition ref_key :: "txRef \<Rightarrow> time \<times> int \<times> int \<times> int" where
  "ref_key r = (ref_time r, ref_shard r, ref_height r, ref_index r)"

definition sorted_refs :: "block list list \<Rightarrow> txRef list" where
  "sorted_refs perShard =
     sort_key ref_key (concat (map (\<lambda>(shard, blocks). concat (map (block_refs (int shard)) blocks)) (enumerate 0 perShard)))"

text \<open>The hash of the transfer: for the halves of a relay transaction that of the original.\<close>

definition txHexHash :: "lib \<Rightarrow> transaction \<Rightarrow> string" where
  "txHexHash L tx =
     (if ROriginalHash tx \<noteq> [] then EncodeToString (ROriginalHash tx)
      else case tx_Hash L tx of Inl e \<Rightarrow> [] | Inr h \<Rightarrow> EncodeToString h)"

definition agent_row :: "lib \<Rightarrow> txRef \<Rightarrow> int \<Rightarrow> agentTxRow" where
  "agent_row L r bal =
     \<lparr>ar_blockHeight = ref_height r, ar_txHash = txHexHash L (ref_tx r),
      ar_sender = EncodeToString (bytes_of_addr (Sender (ref_tx r))),
      ar_recipient = EncodeToString (bytes_of_addr (Recipient (ref_tx r))),
      ar_value = show_int (Value (ref_tx r)), ar_balance = show_int bal,
      ar_blockTimeMs = ref_time r div 1000000\<rparr>"

text \<open>The balances of the accounts that were touched, and the rows of the agents by name.\<close>

type_synonym books = "(address, int) gomap \<times> (string, agentTxRow list) gomap"

definition touch :: "(address, int) gomap \<Rightarrow> address \<Rightarrow> int" where
  "touch balances a = get_or NormalInitBalance balances a"

definition book :: "lib \<Rightarrow> txRef \<Rightarrow> address \<Rightarrow> string \<Rightarrow> int \<Rightarrow> books \<Rightarrow> books" where
  "book L r a name change bk =
     (case bk of (balances, rows) \<Rightarrow>
        let bal = touch balances a + change
        in (AList.update a bal balances, AList.update name (get_or [] rows name @ [agent_row L r bal]) rows))"

text \<open>One side of a transaction: it is booked if the account is an agent's and the side is executed.\<close>

definition book_leg :: "lib \<Rightarrow> (address, string) gomap \<Rightarrow> txRef \<Rightarrow> address \<Rightarrow> bool \<Rightarrow> int \<Rightarrow> books \<Rightarrow> books" where
  "book_leg L agents r a executed change bk =
     (case map_of agents a of
        None \<Rightarrow> bk
      | Some name \<Rightarrow> if executed then book L r a name change bk else bk)"

definition book_tx :: "lib \<Rightarrow> (address, string) gomap \<Rightarrow> txRef \<Rightarrow> books \<Rightarrow> books" where
  "book_tx L agents r bk =
     (let tx = ref_tx r
      in book_leg L agents r (Recipient tx) (RelayStage tx = Relay2Tx \<or> RelayStage tx = 0) (Value tx)
           (book_leg L agents r (Sender tx) (RelayStage tx \<noteq> Relay2Tx) (- Value tx) bk))"

definition buildAgentRows :: "lib \<Rightarrow> block list list \<Rightarrow> (address, string) gomap \<Rightarrow> (string, agentTxRow list) gomap" where
  "buildAgentRows L perShard agents = snd (fold (book_tx L agents) (sorted_refs perShard) ([], []))"

section \<open>Files\<close>

definition agentCSVHeader :: "string list" where
  "agentCSVHeader = [''block_height'', ''tx_hash'', ''sender'', ''recipient'', ''value'', ''balance'', ''block_time_ms'']"

definition writeAgentCSV :: "agentTxRow list \<Rightarrow> string list list" where
  "writeAgentCSV rows = agentCSVHeader # map (\<lambda>r. [show_int (ar_blockHeight r), ar_txHash r, ar_sender r, ar_recipient r,
     ar_value r, ar_balance r, show_int (ar_blockTimeMs r)]) rows"

text \<open>
  The number of bytes of the first rune of a string, as \<open>unicode/utf8\<close> decodes it: a byte that
  begins no valid encoding is a rune of its own.
\<close>

definition cont :: "nat \<Rightarrow> bool" where
  "cont b \<longleftrightarrow> 128 \<le> b \<and> b < 192"

definition rune_len :: "nat list \<Rightarrow> nat" where
  "rune_len bs =
     (case bs of
        a # b # rest \<Rightarrow>
          if 194 \<le> a \<and> a < 224 \<and> cont b then 2
          else (case rest of
            c # rest' \<Rightarrow>
              if 224 \<le> a \<and> a < 240 \<and> cont b \<and> cont c \<and> (a = 224 \<longrightarrow> 160 \<le> b) \<and> (a = 237 \<longrightarrow> b < 160) then 3
              else (case rest' of
                d # _ \<Rightarrow>
                  if 240 \<le> a \<and> a < 245 \<and> cont b \<and> cont c \<and> cont d \<and> (a = 240 \<longrightarrow> 144 \<le> b) \<and> (a = 244 \<longrightarrow> b < 144)
                  then 4 else 1
              | [] \<Rightarrow> 1)
          | [] \<Rightarrow> 1)
      | _ \<Rightarrow> 1)"

lemma rune_len_pos: "0 < rune_len bs"
  by (simp add: rune_len_def split: list.splits)

definition safe_char :: "char \<Rightarrow> bool" where
  "safe_char c \<longleftrightarrow> (CHR ''a'' \<le> c \<and> c \<le> CHR ''z'') \<or> (CHR ''A'' \<le> c \<and> c \<le> CHR ''Z'') \<or>
     (CHR ''0'' \<le> c \<and> c \<le> CHR ''9'') \<or> c = CHR ''.'' \<or> c = CHR ''-'' \<or> c = CHR ''_''"

function safe_name :: "string \<Rightarrow> string" where
  "safe_name s =
     (case s of
        [] \<Rightarrow> []
      | c # _ \<Rightarrow> (if safe_char c then c else CHR ''_'') # safe_name (drop (rune_len (map of_char s)) s))"
  by pat_completeness auto

termination
  by (relation "measure length") (use rune_len_pos in auto)

declare safe_name.simps [simp del]

definition agentFileName :: "string \<Rightarrow> string" where
  "agentFileName agentID = safe_name agentID @ ''.csv''"

text \<open>
  \<open>WriteAgentCSVs\<close>: the agents by address, where Go leaves the order of the registry open, the
  blocks of every shard, and one file per agent with rows, in the order of the names. \<open>None\<close> where
  a walk does not end.
\<close>

definition agent_addresses :: "Registry \<Rightarrow> (address, string) gomap result" where
  "agent_addresses reg =
     foldR (\<lambda>m (id, agent). bindR (didAddress (ag_DID agent)) (\<lambda>addr. Inr (AList.update addr (ag_AgentID agent) m)))
       [] (reg_agents reg)"

fun read_shards :: "lib \<Rightarrow> BoltStore result list \<Rightarrow> block list list result option" where
  "read_shards L [] = Some (Inr [])"
| "read_shards L (st # sts) =
     (case readShardBlocks L st of
        None \<Rightarrow> None
      | Some (Inl e) \<Rightarrow> Some (Inl e)
      | Some (Inr bs) \<Rightarrow> map_option (\<lambda>r. bindR r (\<lambda>bss. Inr (bs # bss))) (read_shards L sts))"

definition WriteAgentCSVs :: "lib \<Rightarrow> Registry \<Rightarrow> BoltStore result list \<Rightarrow> (string \<times> string list list) list result option" where
  "WriteAgentCSVs L reg stores =
     (case agent_addresses reg of
        Inl e \<Rightarrow> Some (Inl e)
      | Inr agents \<Rightarrow>
          map_option (\<lambda>r. bindR r (\<lambda>blocks.
            let rows = buildAgentRows L blocks agents;
                ids = sort (map (ag_AgentID \<circ> snd) (reg_agents reg))
            in Inr (List.map_filter (\<lambda>id. map_option (\<lambda>rs. (agentFileName id, writeAgentCSV rs)) (map_of rows id)) ids)))
          (read_shards L stores))"

section \<open>What they promise\<close>

lemma walk_stored:
  assumes "stored_chain L st h bs" "\<forall>i < length bs. Number (bs ! i) = int (length bs) - int i" "\<forall>b \<in> set bs. ParentBlockHash b \<noteq> []"
    and "h \<noteq> []" "bs \<noteq> []" "\<exists>e. GetBlockByHash (ParentBlockHash (last bs)) st = Inl e"
  shows "walk_blocks L st h acc = Some (Inr (rev bs @ acc))"
  using assms
proof (induction bs arbitrary: h acc)
  case (Cons b bs)
  obtain d where d: "GetBlockByHash h st = Inr d" "DecodeBlock L d = Inr b" using Cons.prems(1) by auto
  have step: "walk_blocks L st h acc = walk_blocks L st (ParentBlockHash b) (b # acc)"
    using d Cons.prems(4) by (subst walk_blocks.simps) simp
  show ?case
  proof (cases bs)
    case Nil
    have "Number b = 1" using Cons.prems(2) [rule_format, of 0] Nil by simp
    then show ?thesis unfolding step using Cons.prems(3,6) Nil by (subst walk_blocks.simps) auto
  next
    case more: (Cons c cs)
    have heights: "\<forall>i < length bs. Number (bs ! i) = int (length bs) - int i"
    proof (intro allI impI)
      fix i assume "i < length bs"
      then show "Number (bs ! i) = int (length bs) - int i" using Cons.prems(2) [rule_format, of "Suc i"] by simp
    qed
    show ?thesis unfolding step using Cons.IH [of "ParentBlockHash b" "b # acc"] Cons.prems heights more by simp
  qed
qed simp

text \<open>C34: the walk ends, and gives the blocks of a shard oldest first: exactly the chain behind the newest
  hash of the store, down to the first block, whose parent is not stored.\<close>

theorem readShardBlocks_history:
  assumes "GetNewestBlockHash st = Inr h" "stored_chain L st h bs" "bs \<noteq> []" "h \<noteq> []"
    and "\<forall>i < length bs. Number (bs ! i) = int (length bs) - int i" "\<forall>b \<in> set bs. ParentBlockHash b \<noteq> []"
    and "GetBlockByHash (ParentBlockHash (last bs)) st = Inl e"
  shows "readShardBlocks L (Inr st) = Some (Inr (rev bs))"
  using walk_stored [OF assms(2,5,6,4,3), of "[]"] assms(1,7) by (simp add: readShardBlocks_def)

text \<open>
  What a transaction does to the account of an agent: the debit of its first half or of the whole,
  then the credit of its second half or of the whole.
\<close>

definition legs :: "address \<Rightarrow> transaction \<Rightarrow> int list" where
  "legs a tx =
     (if Sender tx = a \<and> RelayStage tx \<noteq> Relay2Tx then [- Value tx] else []) @
     (if Recipient tx = a \<and> (RelayStage tx = Relay2Tx \<or> RelayStage tx = 0) then [Value tx] else [])"

fun sums :: "int \<Rightarrow> int list \<Rightarrow> int list" where
  "sums b [] = []"
| "sums b (x # xs) = (b + x) # sums (b + x) xs"

lemma sums_append: "sums b (xs @ ys) = sums b xs @ sums (b + sum_list xs) ys"
  by (induction xs arbitrary: b) (simp_all add: add.assoc)

definition named_once :: "(address, string) gomap \<Rightarrow> bool" where
  "named_once agents \<longleftrightarrow> (\<forall>a b n. map_of agents a = Some n \<longrightarrow> map_of agents b = Some n \<longrightarrow> a = b)"

abbreviation balances_of :: "string \<Rightarrow> (string, agentTxRow list) gomap \<Rightarrow> string list" where
  "balances_of n rows \<equiv> map ar_balance (get_or [] rows n)"

lemma book_effect:
  assumes "named_once agents" "map_of agents a = Some n" "map_of agents b = Some m" "book L r b m x (bal, rows) = (bal', rows')"
  shows "touch bal' a = touch bal a + (if b = a then x else 0)"
    and "balances_of n rows' = balances_of n rows @ (if b = a then [show_int (touch bal a + x)] else [])"
proof -
  have "m = n \<longleftrightarrow> b = a" using assms(1-3) by (auto simp: named_once_def)
  then show "touch bal' a = touch bal a + (if b = a then x else 0)"
    "balances_of n rows' = balances_of n rows @ (if b = a then [show_int (touch bal a + x)] else [])"
    using assms(4) by (auto simp: book_def touch_def Let_def agent_row_def)
qed

lemma book_leg_effect:
  assumes "named_once agents" "map_of agents a = Some n" "book_leg L agents r b c x (bal, rows) = (bal', rows')"
  shows "touch bal' a = touch bal a + (if b = a \<and> c then x else 0) \<and>
    balances_of n rows' = balances_of n rows @ (if b = a \<and> c then [show_int (touch bal a + x)] else [])"
  using assms(3) book_effect [OF assms(1,2), of b _ L r x bal rows bal' rows'] assms(2)
  by (auto simp: book_leg_def split: option.splits if_splits)

lemma book_tx_effect:
  assumes "named_once agents" "map_of agents a = Some n" "book_tx L agents r (bal, rows) = (bal', rows')"
  shows "touch bal' a = touch bal a + sum_list (legs a (ref_tx r)) \<and>
    balances_of n rows' = balances_of n rows @ map show_int (sums (touch bal a) (legs a (ref_tx r)))"
proof -
  let ?tx = "ref_tx r"
  obtain bal1 rows1 where bk1: "book_leg L agents r (Sender ?tx) (RelayStage ?tx \<noteq> Relay2Tx) (- Value ?tx) (bal, rows) = (bal1, rows1)"
    by (cases "book_leg L agents r (Sender ?tx) (RelayStage ?tx \<noteq> Relay2Tx) (- Value ?tx) (bal, rows)")
  have "book_leg L agents r (Recipient ?tx) (RelayStage ?tx = Relay2Tx \<or> RelayStage ?tx = 0) (Value ?tx) (bal1, rows1) = (bal', rows')"
    using assms(3) bk1 by (simp add: book_tx_def Let_def)
  then show ?thesis
    using book_leg_effect [OF assms(1,2) bk1] book_leg_effect [OF assms(1,2)] by (auto simp: legs_def)
qed

lemma book_txs_effect:
  assumes "named_once agents" "map_of agents a = Some n" "fold (book_tx L agents) refs (bal, rows) = (bal', rows')"
  shows "balances_of n rows' = balances_of n rows @ map show_int (sums (touch bal a) (concat (map (legs a \<circ> ref_tx) refs)))"
  using assms(3)
proof (induction refs arbitrary: bal rows)
  case (Cons r refs)
  obtain bal1 rows1 where s: "book_tx L agents r (bal, rows) = (bal1, rows1)" by (cases "book_tx L agents r (bal, rows)")
  then show ?case
    using Cons.IH [of bal1 rows1] Cons.prems book_tx_effect [OF assms(1,2) s] by (simp add: sums_append)
qed simp

lemma block_refs_txs: "map ref_tx (block_refs k bl) = TxList bl"
  by (simp add: block_refs_def comp_def case_prod_beta)

lemma mset_sorted_refs: "mset (map ref_tx (sorted_refs perShard)) = mset (concat (map TxList (concat perShard)))"
proof -
  have bs: "map ref_tx (concat (map (block_refs k) bls)) = concat (map TxList bls)" for k bls
    by (induction bls) (simp_all add: block_refs_txs)
  have "map ref_tx (concat (map (\<lambda>(shard, blocks). concat (map (block_refs (int shard)) blocks)) (enumerate k perShard)))
      = concat (map TxList (concat perShard))" for k
  proof (induction perShard arbitrary: k)
    case (Cons bls perShard)
    show ?case using Cons.IH [of "Suc k"] bs [of "int k" bls] by simp
  qed simp
  from this [of 0] show ?thesis unfolding sorted_refs_def mset_map mset_sort by (simp only: flip: mset_map)
qed


text \<open>The two halves of a broker transaction are not told apart: each has the sender and the recipient
  of the transfer and no relay stage, so the sender of one transfer is charged twice.\<close>

theorem broker_halves_charged_twice:
  assumes "named_once agents" "map_of agents (Sender tx) = Some n" "RelayStage tx = 0" "Recipient tx \<noteq> Sender tx"
    and "TxList b1 = [tx\<lparr>BrokerStage := 1\<rparr>]" "TxList b2 = [tx\<lparr>BrokerStage := 2\<rparr>]" "h_CreateTime b1 < h_CreateTime b2"
  shows "map ar_balance (get_or [] (buildAgentRows L [[b1], [b2]] agents) n) =
    [show_int (NormalInitBalance - Value tx), show_int (NormalInitBalance - 2 * Value tx)]"
proof -
  obtain bal' rows' where f: "fold (book_tx L agents) (sorted_refs [[b1], [b2]]) ([], []) = (bal', rows')"
    by (cases "fold (book_tx L agents) (sorted_refs [[b1], [b2]]) ([], [])")
  have "map ref_tx (sorted_refs [[b1], [b2]]) = [tx\<lparr>BrokerStage := 1\<rparr>, tx\<lparr>BrokerStage := 2\<rparr>]"
    using assms(5-7) by (simp add: sorted_refs_def block_refs_def ref_key_def)
  then have "concat (map (legs (Sender tx) \<circ> ref_tx) (sorted_refs [[b1], [b2]])) = [- Value tx, - Value tx]"
    using assms(3,4) by (simp add: legs_def flip: map_map)
  then show ?thesis
    using book_txs_effect [OF assms(1,2) f] f by (simp add: buildAgentRows_def get_or_def touch_def)
qed

text \<open>Two agents whose names differ only in characters a file name may not have share one file, and the
  rows written first are lost.\<close>

theorem agent_files_collide:
  "agentFileName ''a/b'' = agentFileName ''a_b'' \<and> agentFileName ''a/b'' = ''a_b.csv''"
  by code_simp

section \<open>Examples\<close>

text \<open>A store with two blocks, and one transfer between the shards of two agents.\<close>

definition example_store :: BoltStore where
  "example_store = \<lparr>bucketBlock = Some [([1], [1]), ([2], [2])], bucketBlockHeader = Some [],
     bucketNewestBlock = Some [(newestBlockKey, [2])]\<rparr>"

theorem readShardBlocks_history_witness:
  "readShardBlocks example_lib (Inr example_store) = Some (Inr [example_genesis, example_next])"
proof -
  let ?bs = "[example_next, example_genesis]"
  have 1: "GetNewestBlockHash example_store = Inr [2]" by (simp add: GetNewestBlockHash_def example_store_def)
  have 2: "stored_chain example_lib example_store [2] ?bs"
    by (simp add: example_chain_defs chain_run example_store_def)
  have 3: "\<forall>i < length ?bs. Number (?bs ! i) = int (length ?bs) - int i"
    by (simp add: example_chain_defs nth_Cons' numeral_2_eq_2 less_Suc_eq)
  have 4: "\<forall>b \<in> set ?bs. ParentBlockHash b \<noteq> []" by (simp add: example_chain_defs)
  have 5: "GetBlockByHash (ParentBlockHash (last ?bs)) example_store = Inl (Errorf ''get block by hash in bucketBlock failed'')"
    by (simp add: example_chain_defs example_store_def GetBlockByHash_def)
  show ?thesis using readShardBlocks_history [OF 1 2 _ _ 3 4 5] by simp
qed

definition example_payment :: transaction where
  "example_payment = (NewTransaction 1 2 5 0 0 100)\<lparr>ROriginalHash := [7]\<rparr>"

definition example_paid :: "int \<Rightarrow> time \<Rightarrow> block" where
  "example_paid stage t = (example_block 2 [1] [] [])\<lparr>h_CreateTime := t, TxList := [example_payment\<lparr>RelayStage := stage\<rparr>]\<rparr>"

definition example_payees :: "(address, string) gomap" where
  "example_payees = [(1, ''a''), (2, ''b'')]"

lemma example_named_once: "named_once example_payees"
  by (simp add: named_once_def example_payees_def)


theorem broker_halves_charged_twice_witness:
  "map ar_balance (get_or [] (buildAgentRows example_lib
     [[(example_paid 0 100)\<lparr>TxList := [example_payment\<lparr>BrokerStage := 1\<rparr>]\<rparr>],
      [(example_paid 0 200)\<lparr>TxList := [example_payment\<lparr>BrokerStage := 2\<rparr>]\<rparr>]] example_payees) ''a'') =
     [show_int (NormalInitBalance - 5), show_int (NormalInitBalance - 2 * 5)]"
  using broker_halves_charged_twice [OF example_named_once, of example_payment "''a''"
      "(example_paid 0 100)\<lparr>TxList := [example_payment\<lparr>BrokerStage := 1\<rparr>]\<rparr>"
      "(example_paid 0 200)\<lparr>TxList := [example_payment\<lparr>BrokerStage := 2\<rparr>]\<rparr>" example_lib]
  by (simp add: example_payees_def example_paid_def example_payment_def NewTransaction_def)

end
