(* ===== verification/AgentRun.thy ===== *)
theory AgentRun
  imports AgentFlow AgentCsv ChainRunner
begin

text \<open>
  The simulation loop (\<open>agentsupervisor/loop.go\<close>): a trace is compiled into a plan, the plan is run
  on a private chain, and the agents' API is asked for the next trace. The only state that a round
  leaves to the next is the registry file.
\<close>

section \<open>State\<close>

record RoundResult =
  rr_Round :: int
  rr_RecordCount :: int
  rr_TxCount :: int
  rr_OutputDir :: string
  rr_PlanPath :: string
  rr_ChainResultDir :: string

text \<open>
  What a run is given: the encoders, the chain (\<open>None\<close> for plans only), and for each round what the
  operating system does with its processes and the block stores that they leave. The API sees the
  results so far, the last of which is its argument.
\<close>

record 'f run_env =
  re_json :: agent_json
  re_link :: "ActionTxLink \<Rightarrow> string option"
  re_env :: agent_env
  re_abi :: "unit result"
  re_chain :: "('f runner_env \<times> ChainRunner) option"
  re_start :: "int \<Rightarrow> command \<Rightarrow> int result"
  re_events :: "int \<Rightarrow> event list"
  re_ctx :: "int \<Rightarrow> unit result"
  re_stores :: "int \<Rightarrow> BoltStore result list"
  re_summary :: "int \<times> string \<times> int \<times> RoundResult list \<Rightarrow> string option"

type_synonym agent_api = "RoundResult list \<Rightarrow> Record list result"

definition NoFeedback :: agent_api where
  "NoFeedback rounds = Inr []"

definition FixedRounds :: "int \<Rightarrow> RoundResult \<Rightarrow> bool" where
  "FixedRounds n prev \<longleftrightarrow> n \<le> rr_Round prev"

section \<open>A round\<close>

text \<open>The execution on the chain, after which the agents' files are written.\<close>

definition chain_round ::
    "'f run_env \<Rightarrow> Registry \<Rightarrow> RoundResult \<Rightarrow> RoundResult result option" where
  "chain_round R reg rr =
     (case re_chain R of
        None \<Rightarrow> Some (Inr rr)
      | Some (C, c) \<Rightarrow>
          (let n = rr_Round rr
           in case chain_Run C (re_start R n) (re_events R n) (re_ctx R n) c
                     \<lparr>rs_Round = n, rs_PlanPath = rr_PlanPath rr, rs_TxCount = rr_TxCount rr\<rparr> of
                None \<Rightarrow> None
              | Some (Inl e, _, _) \<Rightarrow> Some (Inl e)
              | Some (Inr outcome, _, _) \<Rightarrow>
                  map_option (\<lambda>r. bindR r (\<lambda>_. Inr (rr\<lparr>rr_ChainResultDir := co_ResultDir outcome\<rparr>)))
                    (WriteAgentCSVs (ae_lib (re_env R)) reg (re_stores R n))))"

text \<open>A round, with the registry file after it; \<open>None\<close> is a round that does not end.\<close>

definition run_round ::
    "'f run_env \<Rightarrow> Config \<Rightarrow> int \<Rightarrow> Record list \<Rightarrow> string option \<Rightarrow> (RoundResult result \<times> string option) option" where
  "run_round R cfg round records saved =
     (case bindR (NewAgentSupervisor (re_json R) (re_abi R) cfg (Inr saved)) (Process (re_env R) records) of
        Inl e \<Rightarrow> Some (Inl e, saved)
      | Inr s \<Rightarrow>
          (case Registry_Write (re_json R) (as_registry s) of
             Inl e \<Rightarrow> Some (Inl e, saved)
           | Inr reg \<Rightarrow>
               (case WriteResult (re_json R) (re_link R) (ae_lib (re_env R)) s of
                  Inl e \<Rightarrow> Some (Inl e, Some reg)
                | Inr _ \<Rightarrow>
                    let outDir = path_Join [ResultDir cfg, roundDirName round];
                        rr = \<lparr>rr_Round = round, rr_RecordCount = int (length records), rr_TxCount = int (length (as_txs s)),
                              rr_OutputDir = outDir, rr_PlanPath = path_Join [outDir, ''agent_transactions.jsonl''],
                              rr_ChainResultDir = []\<rparr>
                    in map_option (\<lambda>r. (r, Some reg)) (chain_round R (as_registry s) rr))))"

section \<open>The loop\<close>

partial_function (option) run_loop ::
    "'f run_env \<Rightarrow> Config \<Rightarrow> agent_api \<Rightarrow> (RoundResult \<Rightarrow> bool) \<Rightarrow> int \<Rightarrow> Record list \<Rightarrow> RoundResult list \<Rightarrow>
     string option \<Rightarrow> (unit result \<times> RoundResult list \<times> string option) option" where
  "run_loop R cfg api stop round records rounds saved =
     Option.bind (run_round R cfg round records saved) (\<lambda>(r, saved').
     case r of
       Inl e \<Rightarrow> Some (Inl e, rounds, saved')
     | Inr rr \<Rightarrow>
         (if stop rr then Some (Inr (), rounds @ [rr], saved')
          else case api (rounds @ [rr]) of
                 Inl e \<Rightarrow> Some (Inl e, rounds @ [rr], saved')
               | Inr records' \<Rightarrow>
                   if records' = [] then Some (Inr (), rounds @ [rr], saved')
                   else run_loop R cfg api stop (i64 (round + 1)) records' (rounds @ [rr]) saved'))"

definition writeRoundsSummary :: "'f run_env \<Rightarrow> Config \<Rightarrow> RoundResult list \<Rightarrow> unit result" where
  "writeRoundsSummary R cfg rounds =
     bindR (orErr ''encode rounds summary'' (re_summary R (Seed cfg, TracePath cfg, int (length rounds), rounds))) (\<lambda>_. Inr ())"

definition Runner_Run ::
    "'f run_env \<Rightarrow> Config \<Rightarrow> Record list \<Rightarrow> agent_api option \<Rightarrow> (RoundResult \<Rightarrow> bool) option \<Rightarrow> string option \<Rightarrow>
     (unit result \<times> RoundResult list \<times> string option) option" where
  "Runner_Run R cfg records api stop saved =
     (let api' = (case api of None \<Rightarrow> NoFeedback | Some a \<Rightarrow> a);
          stop' = (case stop of None \<Rightarrow> FixedRounds (if MaxRounds cfg < 1 then 1 else MaxRounds cfg) | Some c \<Rightarrow> c)
      in map_option (\<lambda>(r, rounds, saved'). (bindR r (\<lambda>_. writeRoundsSummary R cfg rounds), rounds, saved'))
           (run_loop R cfg api' stop' 1 records [] saved))"

section \<open>The loop ends\<close>

lemma run_round_result:
  "run_round R cfg round records saved = Some (Inr rr, saved') \<Longrightarrow> rr_Round rr = round \<and> rr_RecordCount rr = int (length records)"
  by (auto simp: run_round_def chain_round_def Let_def bindR_Inr_iff split: sum.splits option.splits prod.splits)

text \<open>One turn of the loop: it stops, or goes on with the trace of the API.\<close>

lemma run_loop_turn:
  assumes "run_round R cfg round records saved = Some (r, saved')"
  shows "run_loop R cfg api stop round records rounds saved =
    (case r of Inl e \<Rightarrow> Some (Inl e, rounds, saved')
     | Inr rr \<Rightarrow>
         if stop rr then Some (Inr (), rounds @ [rr], saved')
         else case api (rounds @ [rr]) of
                Inl e \<Rightarrow> Some (Inl e, rounds @ [rr], saved')
              | Inr records' \<Rightarrow>
                  if records' = [] then Some (Inr (), rounds @ [rr], saved')
                  else run_loop R cfg api stop (i64 (round + 1)) records' (rounds @ [rr]) saved')"
  by (subst run_loop.simps) (simp add: assms)

lemma run_loop_ends:
  assumes "\<And>round records saved. run_round R cfg round records saved \<noteq> None"
    and "round = int (length rounds) + 1" "round \<le> n" "n < 2 ^ 63"
    and "map rr_Round rounds = map (\<lambda>k. int k + 1) [0..<length rounds]"
  shows "\<exists>r rounds' saved'. run_loop R cfg api (FixedRounds n) round records rounds saved = Some (r, rounds', saved') \<and>
    int (length rounds') \<le> n \<and> map rr_Round rounds' = map (\<lambda>k. int k + 1) [0..<length rounds'] \<and>
    (r = Inr () \<longrightarrow> int (length rounds') = n \<or> api rounds' = Inr [])"
  using assms(2-5)
proof (induction "nat (n - round)" arbitrary: round records rounds saved rule: less_induct)
  case less
  obtain r saved' where r: "run_round R cfg round records saved = Some (r, saved')" using assms(1) by fastforce
  note turn = run_loop_turn [OF r, of api "FixedRounds n" rounds]
  show ?case
  proof (cases r)
    case (Inl e)
    then show ?thesis using turn less.prems by simp
  next
    case (Inr rr)
    then have rr: "rr_Round rr = round" using run_round_result r by blast
    let ?rounds = "rounds @ [rr]"
    have num: "map rr_Round ?rounds = map (\<lambda>k. int k + 1) [0..<length ?rounds]" "int (length ?rounds) \<le> n"
      using less.prems rr by simp_all
    show ?thesis
    proof (cases "n \<le> round")
      case True
      then have "run_loop R cfg api (FixedRounds n) round records rounds saved = Some (Inr (), ?rounds, saved')"
        using turn Inr rr by (simp add: FixedRounds_def)
      moreover have "int (length ?rounds) = n" using True less.prems(1,2) by simp
      ultimately show ?thesis using num by blast
    next
      case False
      show ?thesis
      proof (cases "api ?rounds")
        case (Inl e)
        then show ?thesis using turn Inr False rr num by (simp add: FixedRounds_def)
      next
        case next': (Inr records')
        show ?thesis
        proof (cases "records' = []")
          case True
          then show ?thesis using turn Inr False rr num next' by (simp add: FixedRounds_def)
        next
          case more: False
          have "i64 (round + 1) = round + 1" using False less.prems by (simp add: go_int in_i64_def)
          then have "run_loop R cfg api (FixedRounds n) round records rounds saved =
              run_loop R cfg api (FixedRounds n) (round + 1) records' ?rounds saved'"
            using turn Inr False rr next' more by (simp add: FixedRounds_def)
          then show ?thesis using less.hyps [of "round + 1" ?rounds records' saved'] False less.prems num by simp
        qed
      qed
    qed
  qed
qed

text \<open>C30: with the default end condition, a run whose rounds end does itself end, after at most the
  configured number of rounds (one, if that is not positive), which are numbered from one; a run
  that succeeds has made all its rounds, unless the API had no next trace.\<close>

theorem run_ends_within_max_rounds:
  assumes "\<forall>round records saved. run_round R cfg round records saved \<noteq> None" "in_i64 (MaxRounds cfg)"
  shows "\<exists>r rounds saved'. Runner_Run R cfg records (Some api) None saved = Some (r, rounds, saved') \<and>
    int (length rounds) \<le> max 1 (MaxRounds cfg) \<and> map rr_Round rounds = map (\<lambda>k. int k + 1) [0..<length rounds] \<and>
    (r = Inr () \<longrightarrow> int (length rounds) = max 1 (MaxRounds cfg) \<or> api rounds = Inr [])"
proof -
  let ?n = "max 1 (MaxRounds cfg)"
  obtain r rounds saved' where run: "run_loop R cfg api (FixedRounds ?n) 1 records [] saved = Some (r, rounds, saved')"
    "int (length rounds) \<le> ?n" "map rr_Round rounds = map (\<lambda>k. int k + 1) [0..<length rounds]"
    "r = Inr () \<longrightarrow> int (length rounds) = ?n \<or> api rounds = Inr []"
    using run_loop_ends [of R cfg 1 "[]" ?n api records saved] assms by (auto simp: in_i64_def)
  have "(if MaxRounds cfg < 1 then 1 else MaxRounds cfg) = ?n" by simp
  then have "Runner_Run R cfg records (Some api) None saved = Some (bindR r (\<lambda>_. writeRoundsSummary R cfg rounds), rounds, saved')"
    by (simp add: Runner_Run_def run(1))
  then show ?thesis using run(2-4) by (cases r) simp_all
qed

section \<open>The life of the agents\<close>

text \<open>What the registry file says: who is active, every agent under the DID of its name.\<close>

definition file_active :: "'f run_env \<Rightarrow> Config \<Rightarrow> string option \<Rightarrow> (string \<Rightarrow> bool) \<Rightarrow> bool" where
  "file_active R cfg saved A \<longleftrightarrow>
     (\<exists>reg. LoadRegistry (re_json R) (Inr saved) (Seed cfg) = Inr reg \<and>
        allocated (ae_lib (re_env R)) (Seed cfg) reg \<and> reg_active reg = A)"

lemma file_active_none: "file_active R cfg None (\<lambda>_. False)"
  by (simp add: file_active_def LoadRegistry_def reg_active_def fun_eq_iff)

lemma written_active:
  assumes "json_laws (re_json R)" "allocated (ae_lib (re_env R)) (Seed cfg) reg" "Registry_Write (re_json R) reg = Inr text"
  shows "file_active R cfg (Some text) (reg_active reg)"
proof -
  let ?L = "ae_lib (re_env R)"
  have ok: "reg_ok reg" using assms(2) by (simp add: allocated_def)
  obtain r where r: "LoadRegistry (re_json R) (Inr (Some text)) (Seed cfg) = Inr r" "reg_ok r" "reg_seed r = Seed cfg"
    "map_of (reg_agents r) = map_of (reg_agents reg)"
    using registry_reload [OF assms(1) ok assms(3), of "Seed cfg"] by blast
  have "reg_did ?L r i = allocatedDID ?L (Seed cfg) i" for i
  proof (cases "map_of (reg_agents reg) i")
    case None
    then show ?thesis using r(3,4) by (simp add: reg_did_def)
  next
    case (Some a)
    moreover have "reg_did ?L reg i = allocatedDID ?L (Seed cfg) i" using assms(2) by (simp add: allocated_def)
    ultimately show ?thesis using r(4) by (simp add: reg_did_def)
  qed
  moreover have "reg_active r = reg_active reg" using r(4) by (simp add: reg_active_def fun_eq_iff)
  ultimately show ?thesis using r(1,2) by (auto simp: file_active_def allocated_def)
qed

lemma round_life:
  assumes "agent_env_ok (re_env R) cfg contract" "json_laws (re_json R)" "file_active R cfg saved A"
    and "run_round R cfg round records saved = Some (Inr rr, saved')"
  shows "\<exists>A' is. life_run A records = Some (A', is) \<and> file_active R cfg saved' A' \<and> rr_TxCount rr = int (length is)"
proof -
  obtain s0 s where s: "NewAgentSupervisor (re_json R) (re_abi R) cfg (Inr saved) = Inr s0" "Process (re_env R) records s0 = Inr s"
    using assms(4) by (auto simp: run_round_def split: sum.splits) (auto simp: bindR_Inr_iff)
  obtain reg where reg: "Registry_Write (re_json R) (as_registry s) = Inr reg" "saved' = Some reg" "rr_TxCount rr = int (length (as_txs s))"
    using assms(4) s by (auto simp: run_round_def chain_round_def Let_def bindR_Inr_iff split: sum.splits option.splits prod.splits)
  have s0: "as_cfg s0 = cfg" "as_txs s0 = []" "allocated (ae_lib (re_env R)) (Seed cfg) (as_registry s0)" "reg_active (as_registry s0) = A"
    using s(1) assms(3) by (auto simp: NewAgentSupervisor_def file_active_def bindR_Inr_iff)
  have env: "agent_env_ok (re_env R) (as_cfg s0) contract" using assms(1) s0(1) by simp
  obtain A' "is" where life: "life_run A records = Some (A', is)" "reg_active (as_registry s) = A'"
    "allocated (ae_lib (re_env R)) (Seed cfg) (as_registry s)"
    "map tx_core (as_txs s) = map (intent_tx (re_env R) (Seed cfg) contract) is"
    using Process_life [OF env s0(3), of records] s(2) s0(2,4) by (auto split: option.splits)
  have "length (as_txs s) = length is" using map_eq_imp_length_eq [OF life(4)] .
  then show ?thesis using life written_active [OF assms(2) life(3) reg(1)] reg(2,3) by auto
qed

lemma life_run_append:
  "life_run A rs = Some (A', is) \<Longrightarrow> life_run A' rs' = Some (A'', is') \<Longrightarrow> life_run A (rs @ rs') = Some (A'', is @ is')"
  by (induction rs arbitrary: A "is") (auto split: option.splits)

text \<open>The traces of a run: the one it is given, and the answers of the API after every round but the last.\<close>

definition traces_of :: "agent_api \<Rightarrow> Record list \<Rightarrow> RoundResult list \<Rightarrow> Record list list \<Rightarrow> bool" where
  "traces_of api records rounds traces \<longleftrightarrow>
     length traces = length rounds \<and>
     (\<forall>k < length rounds. Inr (traces ! k) = (if k = 0 then Inr records else api (take k rounds)))"

lemma traces_of_snoc:
  "traces_of api r0 rounds traces \<Longrightarrow> Inr records = (if rounds = [] then Inr r0 else api rounds) \<Longrightarrow>
     traces_of api r0 (rounds @ [rr]) (traces @ [records])"
  by (auto simp: traces_of_def nth_append less_Suc_eq)

text \<open>What the rounds so far have done, in terms of one life.\<close>

definition lived ::
    "'f run_env \<Rightarrow> Config \<Rightarrow> agent_api \<Rightarrow> Record list \<Rightarrow> (string \<Rightarrow> bool) \<Rightarrow> RoundResult list \<Rightarrow> string option \<Rightarrow> bool" where
  "lived R cfg api r0 A0 rounds saved \<longleftrightarrow>
     (\<exists>traces A is. traces_of api r0 rounds traces \<and> life_run A0 (concat traces) = Some (A, is) \<and>
        file_active R cfg saved A \<and> sum_list (map rr_TxCount rounds) = int (length is))"

lemma round_lived:
  assumes "agent_env_ok (re_env R) cfg contract" "json_laws (re_json R)" "lived R cfg api r0 A0 rounds saved"
    and "run_round R cfg round records saved = Some (Inr rr, saved')" "Inr records = (if rounds = [] then Inr r0 else api rounds)"
  shows "lived R cfg api r0 A0 (rounds @ [rr]) saved'"
proof -
  obtain traces A "is" where t: "traces_of api r0 rounds traces" "life_run A0 (concat traces) = Some (A, is)"
    "file_active R cfg saved A" "sum_list (map rr_TxCount rounds) = int (length is)"
    using assms(3) by (auto simp: lived_def)
  obtain A' is' where r: "life_run A records = Some (A', is')" "file_active R cfg saved' A'" "rr_TxCount rr = int (length is')"
    using round_life [OF assms(1,2) t(3) assms(4)] by blast
  have "life_run A0 (concat (traces @ [records])) = Some (A', is @ is')" using life_run_append [OF t(2) r(1)] by simp
  moreover have "sum_list (map rr_TxCount (rounds @ [rr])) = int (length (is @ is'))" using t(4) r(3) by simp
  ultimately show ?thesis using traces_of_snoc [OF t(1) assms(5)] r(2) unfolding lived_def by blast
qed

lemma loop_lived:
  assumes "run_loop R cfg api stop round records rounds saved = Some res" "fst res = Inr ()"
    and "agent_env_ok (re_env R) cfg contract" "json_laws (re_json R)"
    and "lived R cfg api r0 A0 rounds saved" "Inr records = (if rounds = [] then Inr r0 else api rounds)"
  shows "lived R cfg api r0 A0 (fst (snd res)) (snd (snd res))"
  using assms
proof (induction rule: run_loop.raw_induct [rotated 1, consumes 1, case_names turn])
  case (turn loop R cfg api stop round records rounds saved res)
  obtain r saved' where r: "run_round R cfg round records saved = Some (r, saved')"
    using turn.hyps by (auto simp: bind_eq_Some_conv)
  show ?case
  proof (cases r)
    case (Inl e)
    then show ?thesis using turn.hyps turn.prems(1) r by auto
  next
    case (Inr rr)
    have now: "lived R cfg api r0 A0 (rounds @ [rr]) saved'"
      using round_lived [OF turn.prems(2,3,4) _ turn.prems(5)] r Inr by blast
    show ?thesis
    proof (cases "stop rr \<or> (\<exists>e. api (rounds @ [rr]) = Inl e) \<or> api (rounds @ [rr]) = Inr []")
      case True
      then show ?thesis using turn.hyps turn.prems(1) r Inr now by (auto split: if_splits)
    next
      case False
      then obtain records' where next': "api (rounds @ [rr]) = Inr records'" "records' \<noteq> []"
        by (cases "api (rounds @ [rr])") auto
      then have "loop R cfg api stop (i64 (round + 1)) records' (rounds @ [rr]) saved' = Some res"
        using turn.hyps r Inr False by simp
      then show ?thesis using turn.IH turn.prems(1,2,3) now next'(1) by simp
    qed
  qed
qed


section \<open>A run of two rounds\<close>

text \<open>Two agents join and one pays the other; in the second round, it leaves. The encoder knows two files.\<close>

definition example_saved :: "bool \<Rightarrow> Agent list" where
  "example_saved a = [\<lparr>ag_AgentID = ''a'', ag_DID = allocatedDID example_agent_lib 7 ''a'', ag_Active = a\<rparr>,
     \<lparr>ag_AgentID = ''b'', ag_DID = allocatedDID example_agent_lib 7 ''b'', ag_Active = True\<rparr>]"

definition example_saved_json :: agent_json where
  "example_saved_json =
     \<lparr>json_marshal = (\<lambda>as. if as = example_saved True then Some ''1'' else if as = example_saved False then Some ''2'' else None),
      json_unmarshal = (\<lambda>b. Some (example_saved (b = [CHR ''1'', char_of (10 :: nat)])))\<rparr>"

definition example_run :: "int run_env" where
  "example_run = \<lparr>re_json = example_saved_json, re_link = (\<lambda>l. Some []), re_env = example_agent_env, re_abi = Inr (),
     re_chain = None, re_start = (\<lambda>n cmd. Inr 0), re_events = (\<lambda>n. []), re_ctx = (\<lambda>n. Inr ()), re_stores = (\<lambda>n. []),
     re_summary = (\<lambda>s. Some [])\<rparr>"

definition example_leave :: "Record list" where
  "example_leave = [example_action ''a'' ''leave'' [] 0 4]"

definition example_api :: agent_api where
  "example_api rounds = Inr (if length rounds = 1 then example_leave else [])"

lemma example_round_1:
  "\<exists>rr. run_round example_run example_cfg 1 example_actions None = Some (Inr rr, Some [CHR ''1'', char_of (10 :: nat)]) \<and> rr_Round rr = 1"
proof -
  have "case run_round example_run example_cfg 1 example_actions None of
      Some (Inr rr, saved) \<Rightarrow> saved = Some [CHR ''1'', char_of (10 :: nat)] \<and> rr_Round rr = 1 | _ \<Rightarrow> False"
    by code_simp
  then show ?thesis by (auto split: option.splits prod.splits sum.splits)
qed

lemma example_round_2:
  "\<exists>rr. run_round example_run example_cfg 2 example_leave (Some [CHR ''1'', char_of (10 :: nat)]) =
     Some (Inr rr, Some [CHR ''2'', char_of (10 :: nat)]) \<and> rr_Round rr = 2"
proof -
  have "case run_round example_run example_cfg 2 example_leave (Some [CHR ''1'', char_of (10 :: nat)]) of
      Some (Inr rr, saved) \<Rightarrow> saved = Some [CHR ''2'', char_of (10 :: nat)] \<and> rr_Round rr = 2 | _ \<Rightarrow> False"
    by code_simp
  then show ?thesis by (auto split: option.splits prod.splits sum.splits)
qed

lemma example_Run:
  "\<exists>rounds. Runner_Run example_run example_cfg example_actions (Some example_api) (Some (FixedRounds 2)) None =
     Some (Inr (), rounds, Some [CHR ''2'', char_of (10 :: nat)]) \<and> length rounds = 2"
proof -
  obtain a where a: "run_round example_run example_cfg 1 example_actions None = Some (Inr a, Some [CHR ''1'', char_of (10 :: nat)])"
    "rr_Round a = 1" using example_round_1 by blast
  obtain b where b: "run_round example_run example_cfg 2 example_leave (Some [CHR ''1'', char_of (10 :: nat)]) =
      Some (Inr b, Some [CHR ''2'', char_of (10 :: nat)])" "rr_Round b = 2" using example_round_2 by blast
  have two: "i64 (1 + 1) = 2" by (simp add: go_int in_i64_def)
  have leave: "example_leave \<noteq> []" by (simp add: example_leave_def)
  have "run_loop example_run example_cfg example_api (FixedRounds 2) 1 example_actions [] None =
      run_loop example_run example_cfg example_api (FixedRounds 2) 2 example_leave [a] (Some [CHR ''1'', char_of (10 :: nat)])"
    unfolding run_loop_turn [OF a(1)] using a(2) two leave by (simp add: FixedRounds_def example_api_def)
  also have "\<dots> = Some (Inr (), [a, b], Some [CHR ''2'', char_of (10 :: nat)])"
    unfolding run_loop_turn [OF b(1)] using b(2) by (simp add: FixedRounds_def)
  finally show ?thesis by (simp add: Runner_Run_def writeRoundsSummary_def example_run_def)
qed

lemma example_run_ok: "agent_env_ok (re_env example_run) example_cfg 0" "json_laws (re_json example_run)"
proof -
  show "agent_env_ok (re_env example_run) example_cfg 0"
    using example_agent_ok(1) by (simp add: example_run_def example_sup_def)
  show "json_laws (re_json example_run)"
    by (auto simp: json_laws_def example_run_def example_saved_json_def split: if_splits)
qed

lemma example_two_lives:
  "life_run (\<lambda>_. False) (example_actions @ example_leave) =
     Some ((\<lambda>_. False)(''b'' := True), [Register ''a'' [], Register ''b'' [], Pay ''a'' ''b'' 5, Revoke ''a''])"
  by (simp add: example_actions_def example_leave_def example_action_def zero_Record_def life_step_def Let_def fun_eq_iff)

lemma all_less_two: "(\<forall>k < 2. P k) \<longleftrightarrow> P 0 \<and> P (1 :: nat)"
  by (auto simp: less_2_cases_iff)


theorem run_ends_within_max_rounds_witness:
  "\<exists>r rounds saved. Runner_Run example_run example_cfg example_actions (Some example_api) None None = Some (r, rounds, saved) \<and>
     int (length rounds) \<le> 1"
proof -
  have "\<forall>round records saved. run_round example_run example_cfg round records saved \<noteq> None"
    by (simp add: run_round_def chain_round_def example_run_def Let_def split: sum.split)
  moreover have "in_i64 (MaxRounds example_cfg)" "max 1 (MaxRounds example_cfg) = 1" by (simp_all add: example_cfg_def in_i64_def)
  ultimately show ?thesis using run_ends_within_max_rounds [of example_run example_cfg example_actions example_api None] by fastforce
qed

end
