(* ===== verification/Commands.thy ===== *)
theory Commands
  imports ShardContract SupervisorRun Startup AgentRun
begin

text \<open>
  The three programs (\<open>cmd/consensusnode\<close>, \<open>cmd/supervisor\<close>, \<open>cmd/agentemu\<close>): each reads its flags and
  files, sets up its parts and starts. A failure ends the program before anything was sent. Reading
  a file is a function of its path; waiting and profiling are left out.
\<close>

section \<open>Setting up\<close>

text \<open>The flags, the files and what opening the log and finding the topology give.\<close>

record cmd_env =
  cm_config :: string
  cm_ip_table :: string
  cm_account_addr :: string
  cm_node_id :: int
  cm_shard_id :: int
  cm_files :: "string \<Rightarrow> string result"
  cm_json :: "string \<Rightarrow> EmulatorConfig option"
  cm_yaml :: "string \<Rightarrow> EmulatorConfig option"
  cm_table :: "string \<Rightarrow> (int, (int, string) gomap) gomap option"
  cm_mkdir :: "string \<Rightarrow> unit result"
  cm_open :: "string \<Rightarrow> unit result"
  cm_retry :: "nat \<Rightarrow> (TopoGetter \<Rightarrow> unit result) \<Rightarrow> TopoGetter list \<Rightarrow> unit result"
  cm_topos :: "TopoGetter list"

definition load_config :: "cmd_env \<Rightarrow> EmulatorConfig result" where
  "load_config M = LoadEmulatorConfig (cm_json M) (cm_yaml M) (cm_config M) (cm_files M (cm_config M))"

text \<open>The steps that a node and the supervisor share.\<close>

definition set_up :: "cmd_env \<Rightarrow> (LocalParams \<times> EmulatorConfig \<times> p2p \<times> TopoGetter) result" where
  "set_up M =
     bindR (LoadLocalParams (cm_account_addr M) (cm_node_id M) (cm_shard_id M)) (\<lambda>lp.
     bindR (load_config M) (\<lambda>cfg.
     bindR (InitLogger (cm_mkdir M) (cm_open M) lp (sc_LogCfg (su_SystemCfg (cfg_Supervisor cfg)))) (\<lambda>_.
     bindR (PrepareNetworkByCfg (cm_retry M) (nw_CommunicationMode (cfg_Network cfg)) (cm_table M)
        (cm_files M (cm_ip_table M)) (lb_BootstrapPeer (nw_LibP2PConnCfg (cfg_Network cfg))) (cm_topos M)
        (sc_ShardNum (GlobalSys cfg)) (sc_NodeNum (GlobalSys cfg))
        (NodeInfo (LocalParams.lp_NodeID lp) (LocalParams.lp_ShardID lp))) (\<lambda>(p2p, nodeM).
     Inr (lp, cfg, p2p, nodeM)))))"

section \<open>The consensus node\<close>

text \<open>The settings that the operations of a shard read from the node's configuration.\<close>

definition shard_env_of ::
    "('db, 'd, 'tdb, 't, 'ns) chain_env \<Rightarrow> codec \<Rightarrow> TopoGetter \<Rightarrow> ConsensusNodeCfg \<Rightarrow> LocalParams \<Rightarrow>
     ('db, 'd, 'tdb, 't, 'ns) shard_env" where
  "shard_env_of C K r cfg lp =
     (let sys = bc_SystemCfg (cn_BlockchainCfg cfg)
      in \<lparr>s_chain = C, s_codec = K, s_resolver = r, s_ConsensusType = sc_ConsensusType sys,
          s_ShardNum = sc_ShardNum sys, s_NodeNum = sc_NodeNum sys, s_BlockSizeLimit = sc_BlockSizeLimit sys,
          s_ShardID = LocalParams.lp_ShardID lp, s_WalletAddr = LocalParams.lp_WalletAddr lp\<rparr>)"

text \<open>The stores that the node opens, and its CSV file.\<close>

record ('db, 'tdb) opened =
  op_state :: 'db
  op_loc :: "'tdb LocStore"
  op_block :: BoltStore
  op_csv :: "unit result"

definition consensus_main ::
    "cmd_env \<Rightarrow> ('db, 'd, 'tdb, 't, 'ns) chain_env \<Rightarrow> codec \<Rightarrow> (time \<Rightarrow> string) \<Rightarrow> (string list \<Rightarrow> unit result) \<Rightarrow> bytes \<Rightarrow>
     time \<Rightarrow> ('db, 'tdb) opened \<Rightarrow>
     (('db, 'd, 'tdb, 't, 'ns) shard_env \<times> ('db, 'tdb) shard_world node_env \<times> ('db, 'tdb) shard_world node) result" where
  "consensus_main M C K fmt_time write_line emptyRoot now st =
     bindR (set_up M) (\<lambda>(lp, cfg, p2p, nodeM).
     let node = cfg_Consensus cfg; S = shard_env_of C K nodeM node lp; bloom = bc_BloomFilterCfg (cn_BlockchainCfg node)
     in bindR (NewPBFTNode S now (LocalParams.lp_NodeID lp) (cn_BlockInterval node) (cn_TxPoolType node) emptyRoot
          (bf_BitsetLen bloom) (bf_FilterHashFunc bloom) (op_state st) (op_loc st) (op_block st) (op_csv st)) (\<lambda>(ops, n).
        Inr (S, \<lparr>e_codec = K, e_lib = c_lib C, e_fmt_time = fmt_time, e_write_line = write_line, e_ops = ops\<rparr>, n)))"

text \<open>A started node runs with the operations of its environment, as the node its flags name.\<close>

lemma consensus_main_started:
  assumes "consensus_main M C K ft wl er now st = Inr (S, E, n)" and "load_config M = Inr cfg"
  shows "shard_ops_of S (e_ops E) \<and> e_codec E = K \<and>
    pbftMeta n = newConsensusMeta (sc_NodeNum (GlobalSys cfg)) (cn_BlockInterval (cfg_Consensus cfg)) (cm_shard_id M) (cm_node_id M) now"
proof -
  obtain lp p2p t bl hf ops where lp: "LoadLocalParams (cm_account_addr M) (cm_node_id M) (cm_shard_id M) = Inr lp"
    and S: "S = shard_env_of C K t (cfg_Consensus cfg) lp" and E: "e_ops E = ops" "e_codec E = K"
    and new: "NewPBFTNode S now (LocalParams.lp_NodeID lp) (cn_BlockInterval (cfg_Consensus cfg)) (cn_TxPoolType (cfg_Consensus cfg)) er
      bl hf (op_state st) (op_loc st) (op_block st) (op_csv st) = Inr (ops, n)"
    using assms unfolding consensus_main_def set_up_def by (auto simp: bindR_Inr_iff Let_def)
  have "bc_SystemCfg (cn_BlockchainCfg (cfg_Consensus cfg)) = GlobalSys cfg"
    using config_systems_agree assms(2) unfolding load_config_def by blast
  then have "s_NodeNum S = sc_NodeNum (GlobalSys cfg)" by (simp add: S shard_env_of_def Let_def)
  moreover have "LocalParams.lp_NodeID lp = cm_node_id M" "LocalParams.lp_ShardID lp = cm_shard_id M"
    using lp by (auto simp: LoadLocalParams_def bindR_Inr_iff split: if_splits)
  moreover have "s_ShardID S = LocalParams.lp_ShardID lp" by (simp add: S shard_env_of_def Let_def)
  ultimately show ?thesis using NewPBFTNode_ops [OF new] NewPBFTNode_meta [OF new] E by simp
qed

text \<open>
  The honest nodes of a shard that were started with one configuration are the fresh system of
  theory Agreement, and agree.
\<close>

lemma started_nodes_agree:
  assumes start: "\<And>i. i \<in> members N - byz \<Longrightarrow>
      consensus_main (M i) (C i) (K i) (ft i) (wl i) (er i) (now i) (st i) = Inr (S i, E i, replicas s0 i)"
    and config: "\<And>i. i \<in> members N - byz \<Longrightarrow> load_config (M i) = Inr cfg \<and> cm_node_id (M i) = i \<and> cm_shard_id (M i) = sh \<and> codec_laws (K i)"
    and N: "sc_NodeNum (GlobalSys cfg) = N" "N = 3 * F + 1" "0 \<le> F" "F < 2 ^ 60" and byz: "int (card (byz \<inter> members N)) \<le> F"
    and s0: "sent s0 = (\<lambda>_. {})" "decisions s0 = (\<lambda>_. {})" and r: "reach E sh N byz s0 s"
    and d: "(vs, d) \<in> decisions s i" "(vs, d') \<in> decisions s j"
  shows "d = d'"
proof -
  have node: "shard_ops_of (S i) (e_ops (E i)) \<and> codec_laws (e_codec (E i)) \<and> (\<exists>b t. pbftMeta (replicas s0 i) = newConsensusMeta N b sh i t)"
    if "i \<in> members N - byz" for i
    using consensus_main_started [OF start [OF that]] config [OF that] N(1) by metis
  have "fresh sh N byz s0" using node s0 unfolding fresh_def by blast
  then show ?thesis using reach_agreement [OF _ _ r few_byzantine [OF N(2-4) byz] d] node shard_ops_contract by blast
qed

section \<open>The supervisor\<close>

text \<open>Its outcome is \<open>None\<close> while it runs.\<close>

definition com_env_of ::
    "lib \<Rightarrow> codec \<Rightarrow> (source_env \<Rightarrow> int \<Rightarrow> 'x \<Rightarrow> transaction list result \<times> 'x) \<Rightarrow> TopoGetter \<Rightarrow> SupervisorCfg \<Rightarrow> 'x com_env" where
  "com_env_of L K rd r cfg =
     \<lparr>ce_lib = L, ce_codec = K, ce_resolver = r, ce_ShardNum = sc_ShardNum (su_SystemCfg cfg), ce_TxNumber = su_TxNumber cfg,
      ce_TxInjectionSpeed = su_TxInjectionSpeed cfg, ce_EpochDuration = su_EpochDuration cfg, ce_read = rd\<rparr>"

definition supervisor_main ::
    "cmd_env \<Rightarrow> 'f floats \<Rightarrow> ('f \<Rightarrow> string) \<Rightarrow> lib \<Rightarrow> codec \<Rightarrow> (source_env \<Rightarrow> int \<Rightarrow> 'x \<Rightarrow> transaction list result \<times> 'x) \<Rightarrow> measure_env \<Rightarrow>
     time \<Rightarrow> 'x result \<Rightarrow> Manager result \<Rightarrow> unit result \<Rightarrow> unit result \<Rightarrow> unit result \<Rightarrow>
     ((tick_in \<times> WrappedMsg) list \<times> tick_in) list \<Rightarrow> unit result option \<times> sends" where
  "supervisor_main M F fmt2 L K rd MS now src bm csv out file' ticks =
     (case bindR (set_up M) (\<lambda>(lp, cfg, p2p, nodeM).
           let E = com_env_of L K rd nodeM (cfg_Supervisor cfg)
           in bindR (NewSupervisor F E (sc_ConsensusType (su_SystemCfg (cfg_Supervisor cfg))) now src bm csv out) (\<lambda>sv. Inr (E, sv))) of
        Inl e \<Rightarrow> (Some (Inl e), [])
      | Inr (E, sv) \<Rightarrow>
          (case Start F fmt2 E MS file' ticks sv of
             (Inl e, _, ms) \<Rightarrow> (Some (Inl e), ms)
           | (Inr None, _, ms) \<Rightarrow> (None, ms)
           | (Inr (Some _), _, ms) \<Rightarrow> (Some (Inr ()), ms)))"

section \<open>The agent emulator\<close>

text \<open>Building the two programs that a chain runs.\<close>

definition chain_Build ::
    "(string \<Rightarrow> unit result) \<Rightarrow> (string list \<Rightarrow> unit result) \<Rightarrow> 'f runner_env \<Rightarrow> ChainRunner \<Rightarrow> unit result" where
  "chain_Build mkdirAll exec R c =
     bindR (mkdirAll (path_Join [cr_ModuleRoot c, ''agentemu-bin''])) (\<lambda>_.
     foldR (\<lambda>_ (pkg, name).
        bindR (binaryPath R c name) (\<lambda>binPath. exec [''go'', ''build'', ''-o'', binPath, pkg]))
       () [(''./cmd/consensusnode'', ''consensusnode''), (''./cmd/supervisor'', ''supervisor'')])"

definition seconds :: "int \<Rightarrow> int" where
  "seconds n = i64 (n * 1000000000)"

definition chain_runner_of :: "Config \<Rightarrow> ChainRunner" where
  "chain_runner_of cfg =
     \<lparr>cr_ModuleRoot = ModuleRoot cfg, cr_BaseConfig = BlockEmulatorConfig cfg, cr_WorkRoot = ResultDir cfg,
      cr_RunTimeout = seconds (RunTimeoutSeconds cfg), cr_NodeExitGrace = seconds (NodeExitGraceSeconds cfg)\<rparr>"

definition agentemu_main ::
    "(string \<Rightarrow> Config option) \<Rightarrow> (string \<Rightarrow> probe option) \<Rightarrow> (string \<Rightarrow> string result) \<Rightarrow> (string \<Rightarrow> unit result) \<Rightarrow> (string list \<Rightarrow> unit result) \<Rightarrow>
     'f runner_env \<Rightarrow> 'f run_env \<Rightarrow> string \<Rightarrow> string option \<Rightarrow> (unit result \<times> RoundResult list \<times> string option) option" where
  "agentemu_main yaml json files mkdirAll exec C R configPath saved =
     (case bindR (LoadConfig yaml (files configPath)) (\<lambda>cfg.
           bindR (LoadTrace json (files (TracePath cfg))) (\<lambda>records.
           bindR (if ChainEnabled cfg then chain_Build mkdirAll exec C (chain_runner_of cfg) else Inr ()) (\<lambda>_.
           Inr (cfg, records)))) of
        Inl e \<Rightarrow> Some (Inl e, [], saved)
      | Inr (cfg, records) \<Rightarrow>
          Runner_Run (R\<lparr>re_chain := if ChainEnabled cfg then Some (C, chain_runner_of cfg) else None\<rparr>) cfg records None None saved)"

text \<open>
  The program gives no API to the runner, so it makes one round whatever \<open>MaxRounds\<close> is; it ends
  when that round does.
\<close>

lemma one_round:
  "Runner_Run R cfg records None None saved =
    (case run_round R cfg 1 records saved of
       None \<Rightarrow> None
     | Some (Inl e, saved') \<Rightarrow> Some (Inl e, [], saved')
     | Some (Inr rr, saved') \<Rightarrow> Some (writeRoundsSummary R cfg [rr], [rr], saved'))"
proof (cases "run_round R cfg 1 records saved")
  case None
  then show ?thesis by (simp add: Runner_Run_def run_loop.simps)
next
  case (Some it)
  obtain r saved' where r: "it = (r, saved')" by fastforce
  then show ?thesis
    using Some run_loop_turn [of R cfg 1 records saved r saved' NoFeedback "FixedRounds (if MaxRounds cfg < 1 then 1 else MaxRounds cfg)" "[]"]
    by (cases r) (simp_all add: Runner_Run_def NoFeedback_def)
qed

lemma agentemu_one_round:
  assumes "agentemu_main yaml json files mkdirAll exec C R path saved = Some (Inr (), rounds, saved')"
  shows "\<exists>rr. rounds = [rr] \<and> rr_Round rr = 1"
proof -
  obtain cfg records x where run: "Runner_Run (R\<lparr>re_chain := x\<rparr>) cfg records None None saved = Some (Inr (), rounds, saved')"
    using assms unfolding agentemu_main_def by (auto split: sum.splits)
  then show ?thesis using run_round_result unfolding one_round by (fastforce split: option.splits sum.splits prod.splits)
qed

end
