(* ===== verification/ShardFlow.thy ===== *)
theory ShardFlow
  imports ShardContract
begin

text \<open>
  Where transactions go. Packing a block, migrating the pool and committing a relay block move
  transactions between the pool, the block and the messages to other shards and to the
  supervisor; none is lost and none is duplicated.
\<close>

section \<open>The transactions messages carry\<close>

definition carried :: "codec \<Rightarrow> WrappedMsg \<Rightarrow> transaction multiset" where
  "carried K w =
     (if MsgType w = ''ReceiveTxs'' then
        (case dec_receive_txs K (Payload w) of None \<Rightarrow> {#} | Some txs \<Rightarrow> mset txs)
      else if MsgType w = ''BrokerCLPATxSendAgain'' then
        (case dec_tx_send_again K (Payload w) of None \<Rightarrow> {#} | Some txs \<Rightarrow> mset txs)
      else {#})"

definition delivered :: "codec \<Rightarrow> sends \<Rightarrow> transaction multiset" where
  "delivered K ms = sum_list (map (\<lambda>(d, w). carried K w) ms)"

lemma delivered_simps [simp]:
  "delivered K [] = {#}" "delivered K (a @ b) = delivered K a + delivered K b"
  "delivered K ((d, w) # ms) = carried K w + delivered K ms"
  by (simp_all add: delivered_def)

lemma update_new: "map_of m k = None \<Longrightarrow> AList.update k v m = m @ [(k, v)]"
  by (induction m) (auto split: if_splits)

lemma carried_receive:
  assumes "codec_laws K" "WrapMsg K (MReceiveTxs txs) = Inr w"
  shows "carried K w = mset txs"
  using assms(2) codec_lawsD(4) [OF assms(1)] by (auto simp: carried_def getMsgType_def)

lemma send_loop_delivers:
  assumes K: "codec_laws K"
  shows "leaders_ok r (k + length txs) \<Longrightarrow> foldR (wrap_txs_for K r) m (enumerate k txs) = Inr m' \<Longrightarrow>
     (\<And>i. i < length txs \<Longrightarrow> map_of m (the (map_of (leaders r) (int (k + i)))) = None) \<Longrightarrow>
     delivered K m' = delivered K m + mset (concat txs)"
proof (induction txs arbitrary: k m)
  case (Cons t txs)
  let ?ld = "\<lambda>i. the (map_of (leaders r) (int i))"
  from Cons.prems(2) obtain m1 where m1: "wrap_txs_for K r m (k, t) = Inr m1"
    "foldR (wrap_txs_for K r) m1 (enumerate (Suc k) txs) = Inr m'" by (auto simp: bindR_Inr_iff)
  have ok: "leaders_ok r (Suc k + length txs)" using Cons.prems(1) by simp
  have step: "delivered K m1 = delivered K m + mset t \<and> (\<forall>d. d \<noteq> ?ld k \<longrightarrow> map_of m1 d = map_of m d)"
  proof (cases "t = []")
    case True
    then show ?thesis using m1(1) by (simp add: wrap_txs_for_def)
  next
    case False
    then obtain l w where l: "map_of (leaders r) (int k) = Some l" "WrapMsg K (MReceiveTxs t) = Inr w"
      "m1 = AList.update l w m"
      using m1(1) by (auto simp: wrap_txs_for_def bindR_Inr_iff GetLeader_def)
    have "map_of m l = None" using Cons.prems(3) [of 0] l(1) by simp
    then have "delivered K m1 = delivered K m + mset t"
      using carried_receive [OF K l(2)] by (simp add: l(3) update_new)
    then show ?thesis by (simp add: l(1,3))
  qed
  have fresh: "map_of m1 (?ld (Suc k + i)) = None" if i: "i < length txs" for i
  proof -
    have "?ld (Suc k + i) \<noteq> ?ld k"
      using leaders_okD [OF Cons.prems(1), of k] leaders_okD(1) [OF Cons.prems(1), of "Suc k + i"] i
        leaders_okD(2) [OF Cons.prems(1), of "Suc k + i" k] by fastforce
    then show ?thesis using step Cons.prems(3) [of "Suc i"] i by simp
  qed
  show ?case using Cons.IH [OF ok m1(2) fresh] step by (simp add: ac_simps)
qed simp

lemma SendWrappedTxs2Shards_delivers:
  assumes "codec_laws K" "leaders_ok r (length txs)" "SendWrappedTxs2Shards K txs r = Inr ms"
  shows "delivered K ms = mset (concat txs)"
  using send_loop_delivers [OF assms(1), of r 0 txs "[]" ms] assms(2,3)
  by (simp add: SendWrappedTxs2Shards_def)

lemma send_buckets_delivers:
  assumes "codec_laws (s_codec E)" "leaders_ok (s_resolver E) (length txs)" "send_buckets E txs w = (Inr u, w', ms)"
  shows "w' = w \<and> delivered (s_codec E) ms = mset (concat txs)"
  using assms(3) SendWrappedTxs2Shards_delivers [OF assms(1,2)]
  by (auto simp: send_buckets_def act_simps elim!: liftA_bind_InrE)

lemma send_again_delivers:
  assumes "codec_laws (s_codec E)" "brokerCLPATxSendAgain E txs w = (Inr u, w', ms)"
  shows "w' = w \<and> delivered (s_codec E) ms = mset txs"
proof (cases "txs = []")
  case True
  then show ?thesis using assms(2) by (simp add: brokerCLPATxSendAgain_def act_simps)
next
  case False
  then show ?thesis using assms(2) codec_lawsD(9) [OF assms(1)]
    by (auto simp: brokerCLPATxSendAgain_def send_to_supervisor_def act_simps carried_def getMsgType_def
        elim!: liftA_bind_InrE)
qed

section \<open>Routing\<close>

lemma relay_route_conserves:
  assumes "getAccountLocationsInTxs C c txs0 = Inr locs"
  shows "set txs \<subseteq> set txs0 \<Longrightarrow> foldR (relay_route E locs) (bs, stay) txs = Inr (bs', stay') \<Longrightarrow>
     mset (concat bs') + mset stay' = mset (concat bs) + mset stay + mset txs \<and> length bs' = length bs"
proof (induction txs arbitrary: bs stay)
  case (Cons tx txs)
  then obtain acc where acc: "relay_route E locs (bs, stay) tx = Inr acc"
    "foldR (relay_route E locs) acc txs = Inr (bs', stay')" by (auto simp: bindR_Inr_iff)
  obtain bs1 stay1 where [simp]: "acc = (bs1, stay1)" by (cases acc)
  have "map_of locs (Sender tx) \<noteq> None" "map_of locs (Recipient tx) \<noteq> None"
    using getAccountLocationsInTxs_spec(1,2) [OF assms, of tx] Cons.prems(1) by auto
  then have "mset (concat bs1) + mset stay1 = mset (concat bs) + mset stay + {#tx#} \<and> length bs1 = length bs"
    using acc(1) bucket_add_mset bucket_add_length
    by (fastforce simp: relay_route_def Let_def bindR_Inr_iff split: if_splits option.splits)
  then show ?case using Cons.IH [of bs1 stay1] acc(2) Cons.prems(1) by (simp add: ac_simps)
qed simp

lemma to_dest_conserves:
  "foldR (\<lambda>acc tx. to_dest sh (dest tx) acc tx) ((bs, spv), stay) txs = Inr ((bs', spv'), stay') \<Longrightarrow>
     mset (concat bs') + mset spv' + mset stay' = mset (concat bs) + mset spv + mset stay + mset txs \<and>
     length bs' = length bs"
proof (induction txs arbitrary: bs spv stay)
  case (Cons tx txs)
  then obtain acc where acc: "to_dest sh (dest tx) ((bs, spv), stay) tx = Inr acc"
    "foldR (\<lambda>acc tx. to_dest sh (dest tx) acc tx) acc txs = Inr ((bs', spv'), stay')"
    by (auto simp: bindR_Inr_iff)
  obtain bs1 spv1 stay1 where [simp]: "acc = ((bs1, spv1), stay1)" by (metis prod.exhaust_sel)
  have "mset (concat bs1) + mset spv1 + mset stay1 = mset (concat bs) + mset spv + mset stay + {#tx#} \<and>
      length bs1 = length bs"
    using acc(1) bucket_add_mset bucket_add_length
    by (fastforce simp: to_dest_def bindR_Inr_iff split: if_splits)
  then show ?case using Cons.IH [of bs1 spv1 stay1] acc(2) by (simp add: ac_simps)
qed simp

lemma migrate_tx_relay_conserves:
  "foldR (migrate_tx_relay am) (bs, stay) txs = Inr (bs', stay') \<Longrightarrow>
     mset (concat bs') + mset stay' = mset (concat bs) + mset stay + mset txs \<and> length bs' = length bs"
proof (induction txs arbitrary: bs stay)
  case (Cons tx txs)
  then obtain acc where acc: "migrate_tx_relay am (bs, stay) tx = Inr acc"
    "foldR (migrate_tx_relay am) acc txs = Inr (bs', stay')" by (auto simp: bindR_Inr_iff)
  obtain bs1 stay1 where [simp]: "acc = (bs1, stay1)" by (cases acc)
  have "mset (concat bs1) + mset stay1 = mset (concat bs) + mset stay + {#tx#} \<and> length bs1 = length bs"
    using acc(1) bucket_add_mset bucket_add_length
    by (fastforce simp: migrate_tx_relay_def bindR_Inr_iff split: option.splits)
  then show ?case using Cons.IH [of bs1 stay1] acc(2) by (simp add: ac_simps)
qed simp

text \<open>
  The packing loop, for a route that conserves what it is given. \<open>g\<close> counts the transactions that
  leave, and \<open>I\<close> is any property of the accumulators that the route keeps.
\<close>

lemma pack_loop_conserves:
  assumes route: "\<And>txs locs acc acc'. getAccountLocationsInTxs (s_chain E) c txs = Inr locs \<Longrightarrow>
      foldR (route locs) acc txs = Inr acc' \<Longrightarrow> I (fst acc) \<Longrightarrow>
      g (fst acc') + mset (snd acc') = g (fst acc) + mset (snd acc) + mset txs \<and> I (fst acc')"
  shows "pack_loop E c route limit cur acc t = (Inr acc', t') \<Longrightarrow> I (fst acc) \<Longrightarrow>
     g (fst acc') + mset (snd acc') + mset (queue t') = g (fst acc) + mset (snd acc) + mset (queue t) \<and> I (fst acc')"
  using route
proof (induction E c route limit cur acc t arbitrary: acc' t' rule: pack_loop.induct)
  case (1 E c route limit cur acc t)
  note step = 1(4)
  show ?case
  proof (cases "limit \<le> cur")
    case True
    then show ?thesis using 1(2,3) by (simp add: pack_loop.simps)
  next
    case False
    obtain txs locs t1 where f: "fetchTxsAndAccountStates E c (i64 (limit - cur)) t = (Inr (txs, locs), t1)"
    proof (cases "fetchTxsAndAccountStates E c (i64 (limit - cur)) t")
      case (Pair r t1)
      then show ?thesis using that 1(2) False by (cases r) (auto simp: pack_loop.simps [of E c route limit cur acc t])
    qed
    note q = fetch_queue [OF f]
    show ?thesis
    proof (cases "txs = []")
      case True
      then show ?thesis using 1(2,3) False f q by (simp add: pack_loop.simps)
    next
      case ne: False
      obtain out iter where r: "foldR (route locs) (fst acc, []) txs = Inr (out, iter)"
      proof (cases "foldR (route locs) (fst acc, []) txs")
        case (Inl e)
        then show ?thesis using 1(2) False f ne by (simp add: pack_loop.simps [of E c route limit cur acc t])
      qed (use that in force)
      obtain inc where inc: "GetTxListSize (c_lib (s_chain E)) t1 iter = Inr inc"
      proof (cases "GetTxListSize (c_lib (s_chain E)) t1 iter")
        case (Inl e)
        then show ?thesis using 1(2) False f ne r by (simp add: pack_loop.simps [of E c route limit cur acc t])
      qed (use that in force)
      have rest: "pack_loop E c route limit (i64 (cur + inc)) (out, snd acc @ iter) t1 = (Inr acc', t')"
        using 1(2) False f ne r inc by (simp add: pack_loop.simps [of E c route limit cur acc t])
      have locs: "getAccountLocationsInTxs (s_chain E) c txs = Inr locs"
        using f ne by (auto simp: fetchTxsAndAccountStates_def bindR_Inr_iff split: sum.splits prod.splits if_splits)
      have one: "g out + mset iter = g (fst acc) + mset txs \<and> I out"
        using step [OF locs r] 1(3) by simp
      have "g (fst acc') + mset (snd acc') + mset (queue t') =
          g (fst (out, snd acc @ iter)) + mset (snd (out, snd acc @ iter)) + mset (queue t1) \<and> I (fst acc')"
        using 1(1) [OF False f [symmetric] refl refl ne r refl inc rest] one step by simp
      then show ?thesis using one q by (simp add: ac_simps)
    qed
  qed
qed

section \<open>Packing and migrating\<close>

text \<open>An action on the pool, and a read of the state.\<close>

lemma poolA_bind_InrE:
  assumes "bindA (poolA h) k w = (Inr y, w', ms)"
  obtains x t where "h (w_pool w) = (Inr x, t)" "k x (w\<lparr>w_pool := t\<rparr>) = (Inr y, w', ms)"
  using assms
  by (cases "h (w_pool w)") (auto simp: bindA_def zoomA_def stateA_def split: sum.splits prod.splits)

lemma poolA_InrE:
  assumes "poolA h w = (Inr x, w', ms)"
  obtains t where "h (w_pool w) = (Inr x, t)" "w' = w\<lparr>w_pool := t\<rparr>" "ms = []"
  using assms by (cases "h (w_pool w)") (auto simp: zoomA_def stateA_def)

lemma packValidTxsInRelay_conserves:
  assumes K: "codec_laws (s_codec E)" "leaders_ok (s_resolver E) (nat (s_ShardNum E))"
    and run: "packValidTxsInRelay E limit w = (Inr packed, w', ms)"
  shows "mset (queue (w_pool w)) = mset packed + delivered (s_codec E) ms + mset (queue (w_pool w')) \<and>
     w_chain w' = w_chain w \<and> w_amm w' = w_amm w"
proof -
  let ?K = "s_codec E"
  obtain bs t where p: "pack_loop E (w_chain w) (relay_route E) limit 0 (empty_buckets (s_ShardNum E), []) (w_pool w) = (Inr (bs, packed), t)"
    and send: "send_buckets E bs (w\<lparr>w_pool := t\<rparr>) = (Inr (), w', ms)"
    using run by (auto simp: packValidTxsInRelay_def act_simps elim!: poolA_InrE bindA_InrE)
  have "mset (concat bs) + mset packed + mset (queue t) = mset (queue (w_pool w)) \<and> length bs = nat (s_ShardNum E)"
    using pack_loop_conserves [of E "w_chain w" "relay_route E" "\<lambda>bs. length bs = nat (s_ShardNum E)" "\<lambda>bs. mset (concat bs)", OF _ p]
      relay_route_conserves by fastforce
  moreover have "w' = w\<lparr>w_pool := t\<rparr> \<and> delivered ?K ms = mset (concat bs)"
    using send send_buckets_delivers [OF K(1), of bs "w\<lparr>w_pool := t\<rparr>"] K(2) calculation
    by (auto simp: act_simps elim!: bindA_InrE)
  ultimately show ?thesis by (auto simp: ac_simps)
qed

lemma packValidTxsInBroker_conserves:
  assumes K: "codec_laws (s_codec E)" "leaders_ok (s_resolver E) (nat (s_ShardNum E))"
    and run: "packValidTxsInBroker E limit w = (Inr packed, w', ms)"
  shows "mset (queue (w_pool w)) = mset packed + delivered (s_codec E) ms + mset (queue (w_pool w')) \<and>
     w_chain w' = w_chain w \<and> w_amm w' = w_amm w"
proof -
  let ?K = "s_codec E"
  obtain bs spv t where p: "pack_loop E (w_chain w) (broker_route E) limit 0 ((empty_buckets (s_ShardNum E), []), []) (w_pool w) = (Inr ((bs, spv), packed), t)"
    and send: "thenA (send_buckets E bs) (brokerCLPATxSendAgain E spv) (w\<lparr>w_pool := t\<rparr>) = (Inr (), w', ms)"
    using run
    by (auto simp: packValidTxsInBroker_def act_simps run_bindA [of "send_buckets E bs" for bs] elim!: poolA_InrE bindA_InrE)
  have route: "mset (concat (fst (fst acc'))) + mset (snd (fst acc')) + mset (snd acc') =
      mset (concat (fst (fst acc))) + mset (snd (fst acc)) + mset (snd acc) + mset txs \<and>
      length (fst (fst acc')) = nat (s_ShardNum E)"
    if "foldR (broker_route E locs) acc txs = Inr acc'" "length (fst (fst acc)) = nat (s_ShardNum E)" for acc acc' locs txs
    using to_dest_conserves [of "s_ShardID E" "getTxDestLocByAccountState locs" "fst (fst acc)" "snd (fst acc)"
        "snd acc" txs "fst (fst acc')" "snd (fst acc')" "snd acc'"] that
    by (simp add: broker_route_def [abs_def])
  have "mset (concat bs) + mset spv + mset packed + mset (queue t) = mset (queue (w_pool w)) \<and> length bs = nat (s_ShardNum E)"
    using pack_loop_conserves [of E "w_chain w" "broker_route E" "\<lambda>a. length (fst a) = nat (s_ShardNum E)"
        "\<lambda>a. mset (concat (fst a)) + mset (snd a)", OF _ p] route by fastforce
  moreover have "w' = w\<lparr>w_pool := t\<rparr> \<and> delivered ?K ms = mset (concat bs) + mset spv"
    using send send_buckets_delivers [OF K(1), of bs "w\<lparr>w_pool := t\<rparr>"] K(2) calculation
      send_again_delivers [OF K(1), of spv "w\<lparr>w_pool := t\<rparr>"]
    by (auto simp: act_simps elim!: bindA_InrE)
  ultimately show ?thesis by (auto simp: ac_simps)
qed

lemma migrateTxsInRelay_conserves:
  assumes K: "codec_laws (s_codec E)" "leaders_ok (s_resolver E) (nat (s_ShardNum E))"
    and run: "migrateTxsInRelay E w = (Inr u, w', ms)"
  shows "mset (queue (w_pool w)) = delivered (s_codec E) ms + mset (queue (w_pool w')) \<and>
     w_chain w' = w_chain w \<and> w_amm w' = w_amm w"
proof -
  obtain txs t bs stay where p: "PackTxs (c_lib (s_chain E)) migratedTxNum (w_pool w) = (Inr txs, t)"
    and f: "foldR (migrate_tx_relay (w_amm w)) (empty_buckets (s_ShardNum E), []) txs = Inr (bs, stay)"
    and send: "send_buckets E bs (w\<lparr>w_pool := AddTxs stay t\<rparr>) = (Inr u, w', ms)"
    using run by (auto simp: migrateTxsInRelay_def addTxsA_def act_simps elim!: poolA_bind_InrE liftA_bind_InrE)
  have "mset (concat bs) + mset stay = mset txs \<and> length bs = nat (s_ShardNum E)"
    using migrate_tx_relay_conserves [OF f] by simp
  moreover have "w' = w\<lparr>w_pool := AddTxs stay t\<rparr> \<and> delivered (s_codec E) ms = mset (concat bs)"
    using send_buckets_delivers [OF K(1) _ send] K(2) calculation by simp
  ultimately show ?thesis using PackTxs_split [OF p] by (simp add: AddTxs_def ac_simps)
qed

lemma migrateTxsInBroker_conserves:
  assumes K: "codec_laws (s_codec E)" "leaders_ok (s_resolver E) (nat (s_ShardNum E))"
    and run: "migrateTxsInBroker E w = (Inr u, w', ms)"
  shows "mset (queue (w_pool w)) = delivered (s_codec E) ms + mset (queue (w_pool w')) \<and>
     w_chain w' = w_chain w \<and> w_amm w' = w_amm w"
proof -
  obtain txs t bs spv stay where p: "PackTxs (c_lib (s_chain E)) migratedTxNum (w_pool w) = (Inr txs, t)"
    and f: "foldR (\<lambda>acc tx. to_dest (s_ShardID E) (getMigratedTxDestLocInBroker E (w_amm w) tx) acc tx)
        ((empty_buckets (s_ShardNum E), []), []) txs = Inr ((bs, spv), stay)"
    and send: "thenA (send_buckets E bs) (brokerCLPATxSendAgain E spv) (w\<lparr>w_pool := AddTxs stay t\<rparr>) = (Inr u, w', ms)"
    using run by (auto simp: migrateTxsInBroker_def addTxsA_def act_simps elim!: poolA_bind_InrE liftA_bind_InrE)
  have "mset (concat bs) + mset spv + mset stay = mset txs \<and> length bs = nat (s_ShardNum E)"
    using to_dest_conserves [OF f] by simp
  moreover have "w' = w\<lparr>w_pool := AddTxs stay t\<rparr> \<and> delivered (s_codec E) ms = mset (concat bs) + mset spv"
    using send send_buckets_delivers [OF K(1), of bs "w\<lparr>w_pool := AddTxs stay t\<rparr>"] K(2) calculation
      send_again_delivers [OF K(1), of spv "w\<lparr>w_pool := AddTxs stay t\<rparr>"]
    by (auto elim!: bindA_InrE)
  ultimately show ?thesis using PackTxs_split [OF p]
    by (simp add: AddTxs_def ac_simps)
qed

text \<open>C4: packing the transactions of a block loses none and duplicates none: those of the pool are
  afterwards in the block, in a message to the leader of another shard or to the supervisor, or
  still in the pool; the chain and the migration metadata do not change.\<close>

theorem packValidTxs_conserves:
  assumes "codec_laws (s_codec E)" "leaders_ok (s_resolver E) (nat (s_ShardNum E))"
    and "packValidTxs E limit w = (Inr packed, w', ms)"
  shows "mset (queue (w_pool w)) = mset packed + delivered (s_codec E) ms + mset (queue (w_pool w')) \<and>
     w_chain w' = w_chain w \<and> w_amm w' = w_amm w"
  using packValidTxsInRelay_conserves [OF assms(1,2)] packValidTxsInBroker_conserves [OF assms(1,2)] assms(3)
  by (auto simp: packValidTxs_def split: if_splits)

text \<open>C5: the migration of the pool at an epoch change conserves the transactions: each is sent to its
  new shard or to the supervisor, or is still in the pool.\<close>

theorem migrateTxs_conserves:
  assumes "codec_laws (s_codec E)" "leaders_ok (s_resolver E) (nat (s_ShardNum E))"
    and "migrateTxs E w = (Inr (), w', ms)"
  shows "mset (queue (w_pool w)) = delivered (s_codec E) ms + mset (queue (w_pool w')) \<and>
     w_chain w' = w_chain w \<and> w_amm w' = w_amm w"
  using migrateTxsInRelay_conserves [OF assms(1,2)] migrateTxsInBroker_conserves [OF assms(1,2)] assms(3)
  by (auto simp: migrateTxs_def split: if_splits)

section \<open>Committing a relay block\<close>

lemma relay_splitTxs_filter:
  "relay_splitTxs txs = (filter (\<lambda>tx. RelayStage tx = 0) txs, filter (\<lambda>tx. RelayStage tx = 1) txs,
     filter (\<lambda>tx. RelayStage tx = 2) txs)"
proof -
  have "fold relay_split_step txs (a, b, c) = (a @ filter (\<lambda>tx. RelayStage tx = 0) txs,
      b @ filter (\<lambda>tx. RelayStage tx = 1) txs, c @ filter (\<lambda>tx. RelayStage tx = 2) txs)" for a b c
    by (induction txs arbitrary: a b c) (auto simp: relay_split_step_def)
  then show ?thesis by (simp add: relay_splitTxs_def)
qed

lemma relay_bucket_loop:
  assumes "\<And>tx. tx \<in> set txs \<Longrightarrow> map_of locs (Recipient tx) \<noteq> None"
  shows "foldR (relay_bucket locs) bs txs = Inr bs' \<Longrightarrow>
    (\<And>i tx. i < length bs \<Longrightarrow> tx \<in> set (bs ! i) \<Longrightarrow> map_of locs (Recipient tx) = Some (int i)) \<Longrightarrow>
    length bs' = length bs \<and>
    mset (concat bs') = mset (concat bs) + image_mset (\<lambda>tx. tx\<lparr>RelayStage := 2\<rparr>) (mset txs) \<and>
    (\<forall>i < length bs. \<forall>tx \<in> set (bs' ! i). map_of locs (Recipient tx) = Some (int i))"
  using assms
proof (induction txs arbitrary: bs)
  case (Cons t txs)
  obtain l where l: "map_of locs (Recipient t) = Some l" using Cons.prems(3) [of t] by auto
  obtain bs1 where bs1: "bucket_add bs l (t\<lparr>RelayStage := 2\<rparr>) = Inr bs1" "foldR (relay_bucket locs) bs1 txs = Inr bs'"
    using Cons.prems(1) relay_bucket_def [of locs bs t] l by (auto simp: bindR_Inr_iff)
  have len: "length bs1 = length bs" using bucket_add_length [OF bs1(1)] .
  have "map_of locs (Recipient tx) = Some (int i)" if "i < length bs1" "tx \<in> set (bs1 ! i)" for i tx
    using bucket_add_nth [OF bs1(1), of i] that len Cons.prems(2) l by (auto split: if_splits)
  from Cons.IH [OF bs1(2) this] Cons.prems(3) show ?case
    using bucket_add_mset [OF bs1(1)] len by simp
qed (simp add: Ball_def)

lemma send_entries:
  assumes K: "codec_laws K" and run: "SendWrappedTxs2Shards K txs r = Inr ms"
  shows "\<forall>(d, w) \<in> set ms. \<exists>i < length txs. map_of (leaders r) (int i) = Some d \<and> carried K w = mset (txs ! i)"
proof (rule foldR_invariant [OF run [unfolded SendWrappedTxs2Shards_def]])
  fix m m' it assume it: "it \<in> set (enumerate 0 txs)"
    and m: "\<forall>(d, w) \<in> set m. \<exists>i < length txs. map_of (leaders r) (int i) = Some d \<and> carried K w = mset (txs ! i)"
    and step: "wrap_txs_for K r m it = Inr m'"
  obtain i where i: "it = (i, txs ! i)" "i < length txs"
    using it by (auto simp: in_set_enumerate_eq prod_eq_iff)
  have upd: "set (AList.update d w m) \<subseteq> insert (d, w) (set m)" for d :: NodeInfo and w m
    by (induction m) auto
  show "\<forall>(d, w) \<in> set m'. \<exists>i < length txs. map_of (leaders r) (int i) = Some d \<and> carried K w = mset (txs ! i)"
  proof (cases "txs ! i = []")
    case True
    then show ?thesis using step m by (simp add: i wrap_txs_for_def)
  next
    case False
    then obtain l w where l: "map_of (leaders r) (int i) = Some l" "WrapMsg K (MReceiveTxs (txs ! i)) = Inr w"
      "m' = AList.update l w m"
      using step by (auto simp: i wrap_txs_for_def bindR_Inr_iff GetLeader_def)
    then show ?thesis using upd [of l w m] m carried_receive [OF K l(2)] i(2) by blast
  qed
qed simp

lemma chainA_InrE:
  assumes "chainA h w = (Inr x, w', ms)"
  obtains c where "h (w_chain w) = (Inr x, c)" "w' = w\<lparr>w_chain := c\<rparr>" "ms = []"
  using assms by (cases "h (w_chain w)") (auto simp: zoomA_def stateA_def)

lemma send_supervisor_quiet_carried:
  assumes "send_to_supervisor E msg w = (Inr u, w', ms)" "getMsgType msg \<notin> {''ReceiveTxs'', ''BrokerCLPATxSendAgain''}"
  shows "w' = w \<and> (\<forall>(d, m) \<in> set ms. carried K m = {#}) \<and> delivered K ms = {#}"
  using assms by (auto simp: send_to_supervisor_def act_simps carried_def elim!: liftA_bind_InrE)

text \<open>C6: when the leader commits a relay block, each of its first-stage relay transactions is sent
  exactly once, marked as second stage, to the leader of the shard where the recipient is located
  after the block.\<close>

theorem relay_commit_delivers:
  assumes K: "codec_laws (s_codec E)" "leaders_ok (s_resolver E) (nat (s_ShardNum E))"
    and run: "relay_BlockCommitAndDeliver E now True b w = (Inr (), w', ms)"
  shows "delivered (s_codec E) ms =
      image_mset (\<lambda>tx. tx\<lparr>RelayStage := 2\<rparr>) (filter_mset (\<lambda>tx. RelayStage tx = 1) (mset (TxList b))) \<and>
    (\<forall>d m tx. (d, m) \<in> set ms \<longrightarrow> tx \<in># carried (s_codec E) m \<longrightarrow>
       (\<exists>i. map_of (leaders (s_resolver E)) i = Some d \<and>
            getAccountLocations (s_chain E) (w_chain w') [Recipient tx] = Inr [i]))"
proof -
  let ?r1 = "filter (\<lambda>tx. RelayStage tx = 1) (TxList b)" and ?K = "s_codec E"
  obtain c o1 o2 where add: "chain_AddBlock (s_chain E) b (w_chain w) = (Inr (), c)"
    and info: "relay_deliverBlockInfo2Supervisor E now (filter (\<lambda>tx. RelayStage tx = 0) (TxList b)) ?r1
        (filter (\<lambda>tx. RelayStage tx = 2) (TxList b)) b (w\<lparr>w_chain := c\<rparr>) = (Inr (), w\<lparr>w_chain := c\<rparr>, o1)"
    and sent: "relay_sendRelayedTxs E b ?r1 (w\<lparr>w_chain := c\<rparr>) = (Inr (), w', o2)" and ms: "ms = o1 @ o2"
    using run send_supervisor_quiet_carried
    by (fastforce simp: relay_BlockCommitAndDeliver_def relay_splitTxs_filter relay_deliverBlockInfo2Supervisor_def
        act_simps getMsgType_def elim!: bindA_InrE chainA_InrE)
  obtain locs bs where locs: "getAccountLocationsInTxs (s_chain E) c (TxList b) = Inr locs"
    and bs: "foldR (relay_bucket locs) (empty_buckets (s_ShardNum E)) ?r1 = Inr bs"
    and sb: "send_buckets E bs (w\<lparr>w_chain := c\<rparr>) = (Inr (), w', o2)"
    using sent by (auto simp: relay_sendRelayedTxs_def elim!: readA_InrE liftA_bind_InrE)
  note spec = getAccountLocationsInTxs_spec [OF locs]
  have loop: "length bs = nat (s_ShardNum E) \<and>
      mset (concat bs) = image_mset (\<lambda>tx. tx\<lparr>RelayStage := 2\<rparr>) (mset ?r1) \<and>
      (\<forall>i < nat (s_ShardNum E). \<forall>tx \<in> set (bs ! i). map_of locs (Recipient tx) = Some (int i))"
    using relay_bucket_loop [OF _ bs] spec(2) by auto
  have w': "w' = w\<lparr>w_chain := c\<rparr>" "delivered ?K o2 = mset (concat bs)"
    using send_buckets_delivers [OF K(1) _ sb] K(2) loop by auto
  have quiet: "(\<forall>(d, m) \<in> set o1. carried ?K m = {#}) \<and> delivered ?K o1 = {#}"
    using info send_supervisor_quiet_carried
    by (fastforce simp: relay_deliverBlockInfo2Supervisor_def act_simps getMsgType_def)
  have "SendWrappedTxs2Shards ?K bs (s_resolver E) = Inr o2"
    using sb by (auto simp: send_buckets_def act_simps elim!: liftA_bind_InrE)
  note entries = send_entries [OF K(1) this]
  have "\<exists>i. map_of (leaders (s_resolver E)) i = Some d \<and> getAccountLocations (s_chain E) (w_chain w') [Recipient tx] = Inr [i]"
    if dm: "(d, m) \<in> set ms" "tx \<in># carried ?K m" for d m tx
  proof -
    have "(d, m) \<in> set o2" using dm quiet unfolding ms by fastforce
    then obtain i where "i < length bs" "map_of (leaders (s_resolver E)) (int i) = Some d" "carried ?K m = mset (bs ! i)"
      using entries by blast
    then show ?thesis using loop dm(2) spec(3) w'(1) by auto
  qed
  then show ?thesis using quiet w' loop by (auto simp: ms mset_filter)
qed

text \<open>
  The reference for the relay options of a block: the transactions kept are those whose stage is
  already determined and those whose sender is in this shard; a kept one that crosses shards is
  marked as first stage, with its hash.
\<close>

definition relay_keep :: "(address \<Rightarrow> int) \<Rightarrow> int \<Rightarrow> transaction \<Rightarrow> bool" where
  "relay_keep loc shard tx \<longleftrightarrow> RelayStage tx \<noteq> 0 \<or> loc (Sender tx) = shard"

definition relay_mark :: "lib \<Rightarrow> (address \<Rightarrow> int) \<Rightarrow> transaction \<Rightarrow> transaction" where
  "relay_mark L loc tx =
     (if RelayStage tx \<noteq> 0 \<or> loc (Sender tx) = loc (Recipient tx) then tx
      else tx\<lparr>RelayStage := 1, ROriginalHash := projr (tx_Hash L tx)\<rparr>)"

lemma relay_opt_loop:
  assumes "\<And>tx. tx \<in> set txs \<Longrightarrow> get_or 0 locs (Sender tx) = loc (Sender tx) \<and> get_or 0 locs (Recipient tx) = loc (Recipient tx)"
  shows "foldR (relay_opt_step E locs shard) acc txs = Inr mtxs \<Longrightarrow>
     mtxs = acc @ map (relay_mark (c_lib (s_chain E)) loc) (filter (relay_keep loc shard) txs) \<and>
     (\<forall>tx \<in> set txs. RelayStage tx \<noteq> 0 \<or> 0 \<le> loc (Sender tx) \<and> 0 \<le> loc (Recipient tx))"
  using assms
proof (induction txs arbitrary: acc)
  case (Cons tx txs)
  obtain acc1 where acc1: "relay_opt_step E locs shard acc tx = Inr acc1"
    "foldR (relay_opt_step E locs shard) acc1 txs = Inr mtxs" using Cons.prems(1) by (auto simp: bindR_Inr_iff)
  have "acc1 = acc @ map (relay_mark (c_lib (s_chain E)) loc) (filter (relay_keep loc shard) [tx]) \<and>
      (RelayStage tx \<noteq> 0 \<or> 0 \<le> loc (Sender tx) \<and> 0 \<le> loc (Recipient tx))"
    using acc1(1) Cons.prems(2) [of tx]
    by (auto simp: relay_opt_step_def relay_keep_def relay_mark_def Let_def bindR_Inr_iff split: if_splits)
  then show ?case using Cons.IH [OF acc1(2)] Cons.prems(2) by auto
qed simp

text \<open>C13: the block a leader proposes in relay mode holds, in the order of the pool, exactly the
  transactions that belong to its shard, with the ones that cross shards marked as first-stage
  relay transactions of their own hash.\<close>

theorem modifyTxRelayOpt_reference:
  assumes run: "modifyTxRelayOpt E txs c = Inr mtxs"
  shows "\<exists>loc. mtxs = map (relay_mark (c_lib (s_chain E)) loc) (filter (relay_keep loc (shardID c)) txs) \<and>
    (\<forall>tx \<in> set txs. getAccountLocations (s_chain E) c [Sender tx] = Inr [loc (Sender tx)] \<and>
                    getAccountLocations (s_chain E) c [Recipient tx] = Inr [loc (Recipient tx)])"
proof -
  obtain locs where locs: "getAccountLocationsInTxs (s_chain E) c txs = Inr locs"
    and loop: "foldR (relay_opt_step E locs (shardID c)) [] txs = Inr mtxs"
    using run by (auto simp: modifyTxRelayOpt_def bindR_Inr_iff)
  let ?loc = "get_or 0 locs"
  have "getAccountLocations (s_chain E) c [a] = Inr [?loc a]" if "map_of locs a \<noteq> None" for a
    using getAccountLocationsInTxs_spec(3) [OF locs, of a] that by (cases "map_of locs a") (simp_all add: get_or_def)
  then show ?thesis
    using relay_opt_loop [of txs locs ?loc, OF _ loop] getAccountLocationsInTxs_spec(1,2) [OF locs]
    by (intro exI [of _ ?loc]) auto
qed

section \<open>Examples\<close>

text \<open>Two shards; account 2 is in shard 0 and account 1 in shard 1.\<close>

definition example_here :: transaction where
  "example_here = NewTransaction 2 2 5 0 0 0"

definition example_there :: transaction where
  "example_there = NewTransaction 1 1 5 0 0 0"

definition example_relay :: transaction where
  "example_relay = (NewTransaction 2 1 5 0 0 0)\<lparr>RelayStage := 1, ROriginalHash := [3]\<rparr>"

definition example_relay_block :: block where
  "example_relay_block =
     NewBlock \<lparr>ParentBlockHash = [1], StateRoot = replicate 32 0, Number = 2, Type = 1, Miner = 0,
       h_CreateTime = 0, LocationRoot = [], TxRoot = [], Bloom = zero_Filter, MigratedAccountsRoot = []\<rparr>
       [example_relay] [] []"

definition example_info :: RelayBlockInfoMsg where
  "example_info = \<lparr>rb_InnerShardTxs = [], rb_Relay1Txs = [example_relay], rb_Relay2Txs = [], rb_Epoch = 0,
     rb_BlockProposeTime = 0, rb_BlockCommitTime = 0, rb_ShardID = 0\<rparr>"

definition example_flow_codec :: codec where
  "example_flow_codec = example_codec
     \<lparr>enc := (\<lambda>m. if m = MReceiveTxs [example_there] then Some [3]
                   else if m = MReceiveTxs [example_relay\<lparr>RelayStage := 2\<rparr>] then Some [4]
                   else if m = MRelayBlockInfo example_info then Some [5] else None),
      dec_receive_txs := (\<lambda>b. if b = [3] then Some [example_there]
                               else if b = [4] then Some [example_relay\<lparr>RelayStage := 2\<rparr>] else None),
      dec_relay_block_info := (\<lambda>b. if b = [5] then Some example_info else None)\<rparr>"

lemma example_flow_codec_laws: "codec_laws example_flow_codec"
  by (auto simp: codec_laws_def example_flow_codec_def split: message.splits)

definition example_flow :: "(unit, example_state, bytes \<Rightarrow> example_trie, example_trie, example_trie) shard_env" where
  "example_flow = example_shard
     \<lparr>s_codec := example_flow_codec, s_ShardNum := 2, s_ConsensusType := ''clpa_relay'',
      s_resolver := \<lparr>leaders = [(0, NodeInfo 0 0), (1, NodeInfo 0 1), (2147483647, NodeInfo 0 2147483647)],
                     shard2nodes = []\<rparr>\<rparr>"

definition example_flow_world :: "(unit, bytes \<Rightarrow> example_trie) shard_world" where
  "example_flow_world = example_world\<lparr>w_pool := \<lparr>queue = [example_here, example_there], pool_type = ''number''\<rparr>,
     w_amm := (NewAccMigrateMetadata 2 0)\<lparr>CurModifiedMap := [(1, 1)]\<rparr>\<rparr>"

lemma example_flow_ok: "codec_laws (s_codec example_flow)"
  "leaders_ok (s_resolver example_flow) (nat (s_ShardNum example_flow))"
  using example_flow_codec_laws by (auto simp: example_flow_def leaders_ok_def less_Suc_eq numeral_2_eq_2)

lemma two_buckets: "empty_buckets 2 = [[], []]"
  by (simp add: empty_buckets_def numeral_2_eq_2)

lemmas flow_run = example_flow_def example_flow_world_def example_world_def example_shard_def act_simps run_bindA
  zoomA_def stateA_def example_chain_defs chain_run example_here_def example_there_def example_relay_def
  NewTransaction_def DefaultAccountLoc_def send_buckets_def SendWrappedTxs2Shards_def wrap_txs_for_def
  GetLeader_def WrapMsg_def getMsgType_def two_buckets bucket_add_def

theorem packValidTxs_conserves_witness:
  "\<exists>w' ms. packValidTxs example_flow 10 example_flow_world = (Inr [example_here], w', ms) \<and>
     delivered (s_codec example_flow) ms = {#example_there#}"
proof -
  let ?C = "w_chain example_flow_world" and ?t = "\<lparr>queue = [], pool_type = ''number''\<rparr>"
  have f1: "fetchTxsAndAccountStates example_flow ?C 10 (w_pool example_flow_world) =
      (Inr ([example_here, example_there], [(2, 0), (1, 1)]), ?t)"
    by (simp add: fetchTxsAndAccountStates_def PackTxs_def packTxsByGivenNum_def flow_run)
  have f2: "fetchTxsAndAccountStates example_flow ?C 9 ?t = (Inr ([], []), ?t)"
    by (simp add: fetchTxsAndAccountStates_def PackTxs_def packTxsByGivenNum_def)
  have r: "foldR (relay_route example_flow [(2, 0), (1, 1)]) ([[], []], []) [example_here, example_there] =
      Inr ([[], [example_there]], [example_here])"
    by (simp add: relay_route_def flow_run)
  have g: "GetTxListSize (c_lib (s_chain example_flow)) ?t [example_here] = Inr 1"
    by (simp add: GetTxListSize_def getCurSizeOfNum_def)
  have wrap: "i64 10 = 10" "i64 1 = 1" "i64 9 = 9" by (simp_all add: i64_def)
  have "pack_loop example_flow ?C (relay_route example_flow) 10 1 ([[], [example_there]], [example_here]) ?t =
      (Inr ([[], [example_there]], [example_here]), ?t)"
    by (subst pack_loop.simps) (simp add: f2 wrap)
  then have loop: "pack_loop example_flow ?C (relay_route example_flow) 10 0 ([[], []], []) (w_pool example_flow_world) =
      (Inr ([[], [example_there]], [example_here]), ?t)"
    by (subst pack_loop.simps) (simp add: f1 r g wrap del: foldR.simps)
  have cfg: "s_ConsensusType example_flow = ''clpa_relay''" "s_ShardNum example_flow = 2"
    by (simp_all add: example_flow_def)
  have "\<exists>ms. send_buckets example_flow [[], [example_there]] w = (Inr (), w, ms)" for w
    by (simp add: send_buckets_def SendWrappedTxs2Shards_def wrap_txs_for_def GetLeader_def WrapMsg_def
        getMsgType_def example_flow_def example_flow_codec_def act_simps)
  then obtain ms where send: "send_buckets example_flow [[], [example_there]] (example_flow_world\<lparr>w_pool := ?t\<rparr>) =
      (Inr (), example_flow_world\<lparr>w_pool := ?t\<rparr>, ms)" by blast
  have run: "packValidTxs example_flow 10 example_flow_world = (Inr [example_here], example_flow_world\<lparr>w_pool := ?t\<rparr>, ms)"
    by (simp add: packValidTxs_def packValidTxsInRelay_def cfg two_buckets act_simps run_bindA zoomA_def
        stateA_def loop send)
  show ?thesis using packValidTxs_conserves [OF example_flow_ok run] run by (simp add: example_flow_world_def)
qed

theorem migrateTxs_conserves_witness:
  "\<exists>w' ms. migrateTxs example_flow example_flow_world = (Inr (), w', ms) \<and>
     {#example_here, example_there#} = delivered (s_codec example_flow) ms + mset (queue (w_pool w'))"
proof -
  obtain w' ms where run: "migrateTxs example_flow example_flow_world = (Inr (), w', ms)"
    by (simp add: migrateTxs_def migrateTxsInRelay_def flow_run PackTxs_def packTxsByGivenNum_def
        migratedTxNum_def migrate_tx_relay_def addTxsA_def example_flow_codec_def)
  show ?thesis
    using migrateTxs_conserves [OF example_flow_ok run] run by (simp add: example_flow_world_def)
qed

lemma example_distinct: "example_relay\<lparr>RelayStage := 2\<rparr> \<noteq> example_there"
  by (simp add: example_relay_def example_there_def NewTransaction_def)

lemma example_relay_added:
  "\<exists>c. chain_AddBlock example_env example_relay_block example_chain = (Inr (), c) \<and> shardID c = 0 \<and> epochID c = 0 \<and>
     getAccountLocationsInTxs example_env c [example_relay] = Inr [(2, 0), (1, 1)]"
proof -
  have locs: "getAccountLocationsInTxs example_env example_chain [example_relay] = Inr [(2, 0), (1, 1)]"
    by (simp add: example_chain_defs chain_run example_relay_def NewTransaction_def DefaultAccountLoc_def)
  have "\<exists>s. txExecute example_geth (getBlockCtxByBlock example_relay_block) [(2, 0), (1, 1)] 0 example_relay Map.empty = Inr s"
    by (simp add: example_run example_relay_def)
  then obtain s where s: "txExecute example_geth (getBlockCtxByBlock example_relay_block) [(2, 0), (1, 1)] 0 example_relay Map.empty = Inr s" ..
  have "\<exists>v. getVMExecutor example_env example_chain = Inr v \<and>
      calcStateModification example_env example_chain v example_relay_block = Inr (s, [], [])"
    using s locs by (simp add: getVMExecutor_def calcStateModification_def example_relay_block_def)
      (simp add: example_env_def example_chain_def example_genesis_def example_block_def example_geth_def)
  then obtain v where v: "getVMExecutor example_env example_chain = Inr v"
    "calcStateModification example_env example_chain v example_relay_block = Inr (s, [], [])" by blast
  let ?b = example_relay_block
  have env: "c_lib example_env = example_lib" "c_geth example_env = example_geth" "c_trie example_env = example_eth"
    "c_put example_env = example_put" by (simp_all add: example_env_def)
  have chain: "LocStorage example_chain = \<lparr>trieDB = (\<lambda>_. []), curStateRoot = []\<rparr>"
    "BlockStorage example_chain = \<lparr>bucketBlock = Some [([1], [1])], bucketBlockHeader = Some [([1], [1])], bucketNewestBlock = Some []\<rparr>"
    by (simp_all add: example_chain_def)
  have b: "Number ?b = 2" "header.truncate ?b = header.truncate example_next"
    by (simp_all add: example_relay_block_def example_next_def example_block_def)
  have "\<exists>c. chain_AddBlock example_env ?b example_chain = (Inr (), c)"
    by (simp add: chain_AddBlock_def updateTrieByBlock_def v b block_Hash_def header_Hash_def header_Encode_def
        block_Encode_def MAddKeyValuesAndCommit_def check_lengths_def update_all_def bolt_AddBlock_def
        bolt_Update_def put_in_def newestBlockKey_def Let_def env example_lib_def example_geth_def
        example_eth_def example_put_def chain)
  then obtain c where c: "chain_AddBlock example_env ?b example_chain = (Inr (), c)" by blast
  then show ?thesis
  proof (cases rule: chain_AddBlock_InrE)
    case (1 bHash blk hdr vme v' as ls db root loc st)
    have "as = []" "ls = []" using 1(4,5) v by simp_all
    then have "loc = \<lparr>trieDB = (\<lambda>_. [])([] := []), curStateRoot = []\<rparr>"
      using 1(6) by (simp add: MAddKeyValuesAndCommit_def check_lengths_def update_all_def example_env_def
          example_eth_def example_chain_def)
    then have "shardID c = 0 \<and> epochID c = 0 \<and> getAccountLocationsInTxs example_env c [example_relay] = Inr [(2, 0), (1, 1)]"
      by (simp add: 1(8) example_chain_def example_env_def example_eth_def getAccountLocationsInTxs_def
          getAccountLocations_def MGetValsByKeys_def keys_of_def Let_def example_relay_def NewTransaction_def DefaultAccountLoc_def)
    then show ?thesis using c by blast
  qed
qed

theorem relay_commit_delivers_witness:
  "\<exists>w' ms. relay_BlockCommitAndDeliver example_flow 0 True example_relay_block example_flow_world = (Inr (), w', ms) \<and>
     delivered (s_codec example_flow) ms = {#example_relay\<lparr>RelayStage := 2\<rparr>#}"
proof -
  obtain c where c: "chain_AddBlock example_env example_relay_block example_chain = (Inr (), c)" "shardID c = 0" "epochID c = 0"
    "getAccountLocationsInTxs example_env c [example_relay] = Inr [(2, 0), (1, 1)]" using example_relay_added by blast
  have block: "TxList example_relay_block = [example_relay]" "h_CreateTime example_relay_block = 0"
    by (simp_all add: example_relay_block_def)
  have stage: "RelayStage example_relay = 1" "Recipient example_relay = 1"
    by (simp_all add: example_relay_def NewTransaction_def)
  obtain w' ms where run: "relay_BlockCommitAndDeliver example_flow 0 True example_relay_block example_flow_world = (Inr (), w', ms)"
    by (simp add: relay_BlockCommitAndDeliver_def relay_splitTxs_filter relay_deliverBlockInfo2Supervisor_def
        relay_sendRelayedTxs_def relay_bucket_def block stage send_to_supervisor_def GetSupervisor_def
        SupervisorShardID_def example_flow_codec_def example_distinct example_info_def c
        example_flow_def example_flow_world_def example_world_def example_shard_def act_simps run_bindA
        zoomA_def stateA_def send_buckets_def SendWrappedTxs2Shards_def wrap_txs_for_def GetLeader_def
        WrapMsg_def getMsgType_def two_buckets bucket_add_def)
  show ?thesis
    using relay_commit_delivers [OF example_flow_ok run] run by (simp add: block stage)
qed

theorem modifyTxRelayOpt_reference_witness:
  "\<exists>mtxs. modifyTxRelayOpt example_flow [example_here, example_there] example_chain = Inr mtxs \<and> set mtxs \<subseteq> {example_here}"
proof -
  have run: "modifyTxRelayOpt example_flow [example_here, example_there] example_chain = Inr [example_here]"
    by (simp add: modifyTxRelayOpt_def relay_opt_step_def get_or_def flow_run)
  show ?thesis using modifyTxRelayOpt_reference [OF run] run by simp
qed

end
