(* ===== verification/ContractExec.thy ===== *)
theory ContractExec
  imports StateExec
begin

text \<open>
  The contract executor of the supervisor (\<open>pkg/contractexec/contractexec.go\<close>): it executes contract
  transactions without a chain, in batches of two hundred that it commits as blocks.
\<close>

section \<open>State\<close>

definition exec_blockNumberBias :: int where
  "exec_blockNumberBias = 20000000"

definition exec_blockGasLimit :: int where
  "exec_blockGasLimit = 1000000"

definition txCommitBatch :: int where
  "txCommitBatch = 200"

text \<open>The executor is \<open>None\<close> after it could not be renewed; \<open>ce_root\<close> is never written after the start.\<close>

record ('db, 'd) ContractExec =
  stateStore :: 'db
  ce_root :: bytes
  curVMExec :: "'d option"
  curBlockCtx :: BlockContext
  txCommitCnt :: int

text \<open>\<open>now\<close> is the clock, in nanoseconds.\<close>

definition exec_ctx :: "int \<Rightarrow> int \<Rightarrow> BlockContext" where
  "exec_ctx number now =
     \<lparr>Coinbase = 0, BlockNumber = number, Time = u64 (now div 1000000000), ctx_GasLimit = exec_blockGasLimit\<rparr>"

definition NewContractExec ::
    "('db, 'd) geth \<Rightarrow> bytes \<Rightarrow> int \<Rightarrow> 'db result \<Rightarrow> ('db, 'd) ContractExec result" where
  "NewContractExec G emptyRoot now store =
     bindR store (\<lambda>db.
     bindR (orErr ''new an vm executor failed'' (state_New G emptyRoot db)) (\<lambda>e.
     Inr \<lparr>stateStore = db, ce_root = emptyRoot, curVMExec = Some e, curBlockCtx = exec_ctx exec_blockNumberBias now,
          txCommitCnt = 0\<rparr>))"

section \<open>Operations\<close>

definition tryResetVMExecAndBlockCtx ::
    "('db, 'd) geth \<Rightarrow> int \<Rightarrow> 'd \<Rightarrow> ('db, 'd) ContractExec \<Rightarrow> unit result \<times> ('db, 'd) ContractExec" where
  "tryResetVMExecAndBlockCtx G now e c =
     (let n = i64 (txCommitCnt c + 1)
      in if n < txCommitBatch then (Inr (), c\<lparr>txCommitCnt := n\<rparr>)
         else
           let c1 = c\<lparr>txCommitCnt := 0\<rparr>
           in case state_Commit G e (u64 (BlockNumber (curBlockCtx c))) (stateStore c) of
                (None, db) \<Rightarrow> (Inl (Errorf ''vm executor commit failed''), c1\<lparr>stateStore := db\<rparr>)
              | (Some root, db) \<Rightarrow>
                  (case trie_Commit G root db of
                     (ok, db') \<Rightarrow>
                       let c2 = c1\<lparr>stateStore := db'\<rparr>
                       in if \<not> ok then (Inl (Errorf ''trie db commit failed''), c2)
                          else case state_New G root db' of
                            None \<Rightarrow> (Inl (Errorf ''new vm executor failed''), c2\<lparr>curVMExec := None\<rparr>)
                          | Some e' \<Rightarrow>
                              (Inr (), c2\<lparr>curVMExec := Some e',
                                 curBlockCtx := exec_ctx (BlockNumber (curBlockCtx c) + 1) now\<rparr>)))"

text \<open>A transaction; the state that a failed one leaves in the executor stays.\<close>

definition ContractTxExec ::
    "('db, 'd) geth \<Rightarrow> int \<Rightarrow> transaction \<Rightarrow> ('db, 'd) ContractExec \<Rightarrow> unit result \<times> ('db, 'd) ContractExec" where
  "ContractTxExec G now tx c =
     (if TxType tx \<noteq> CreateContractTxType \<and> TxType tx \<noteq> CallContractTxType then (Inl (Errorf ''not a contract tx''), c)
      else case curVMExec c of
        None \<Rightarrow> (Inl (Panic ''invalid memory address or nil pointer dereference''), c)
      | Some e \<Rightarrow>
          (case (if TxType tx = CreateContractTxType
                 then (case DeployContract G (curBlockCtx c) tx e of (r, e') \<Rightarrow> (bindR r (\<lambda>_. Inr ()), e'))
                 else (case CallContract G (curBlockCtx c) tx e of (r, e') \<Rightarrow> (bindR r (\<lambda>_. Inr ()), e'))) of
             (Inl err, e') \<Rightarrow> (Inl err, c\<lparr>curVMExec := Some e'\<rparr>)
           | (Inr _, e') \<Rightarrow> tryResetVMExecAndBlockCtx G now e' (c\<lparr>curVMExec := Some e'\<rparr>)))"

text \<open>A sequence of transactions, each at its time, with their outcomes.\<close>

fun exec_all ::
    "('db, 'd) geth \<Rightarrow> (int \<times> transaction) list \<Rightarrow> ('db, 'd) ContractExec \<Rightarrow> unit result list \<times> ('db, 'd) ContractExec" where
  "exec_all G [] c = ([], c)"
| "exec_all G ((now, tx) # txs) c =
     (case ContractTxExec G now tx c of (r, c1) \<Rightarrow> case exec_all G txs c1 of (rs, c2) \<Rightarrow> (r # rs, c2))"

section \<open>Batches\<close>

text \<open>A store that never fails to commit or to open a state.\<close>

definition store_works :: "('db, 'd) geth \<Rightarrow> bool" where
  "store_works G \<longleftrightarrow>
     (\<forall>d n db. fst (state_Commit G d n db) \<noteq> None) \<and> (\<forall>root db. fst (trie_Commit G root db)) \<and>
     (\<forall>root db. state_New G root db \<noteq> None)"

text \<open>The counter and the block number after \<open>n\<close> transactions.\<close>

definition batched :: "('db, 'd) ContractExec \<Rightarrow> int \<Rightarrow> bool" where
  "batched c n \<longleftrightarrow> curVMExec c \<noteq> None \<and> txCommitCnt c = n mod txCommitBatch \<and>
     BlockNumber (curBlockCtx c) = exec_blockNumberBias + n div txCommitBatch"

lemma batch_step:
  fixes n :: int
  shows "n mod 200 + 1 < 200 \<Longrightarrow> (n + 1) mod 200 = n mod 200 + 1 \<and> (n + 1) div 200 = n div 200"
    "\<not> n mod 200 + 1 < 200 \<Longrightarrow> (n + 1) mod 200 = 0 \<and> (n + 1) div 200 = n div 200 + 1"
proof -
  have n: "200 * (n div 200) + n mod 200 = n" "0 \<le> n mod 200" "n mod 200 < 200" by simp_all
  show "(n + 1) mod 200 = n mod 200 + 1 \<and> (n + 1) div 200 = n div 200" if "n mod 200 + 1 < 200"
  proof -
    have "n + 1 = 200 * (n div 200) + (n mod 200 + 1)" using n(1) by linarith
    then show ?thesis using that n(2) int_div_pos_eq [of "n + 1" 200] int_mod_pos_eq [of "n + 1" 200] by (meson add_nonneg_pos less_imp_le zero_less_one)
  qed
  show "(n + 1) mod 200 = 0 \<and> (n + 1) div 200 = n div 200 + 1" if "\<not> n mod 200 + 1 < 200"
  proof -
    have "n mod 200 = 199" using n(3) that by linarith
    then have "n = 200 * (n div 200) + 199" using n(1) by simp
    then have "n + 1 = 200 * (n div 200 + 1) + 0" by (simp only: distrib_left mult_1_right add_0_right)
    then show ?thesis using int_div_pos_eq [of "n + 1" 200 "n div 200 + 1" 0] int_mod_pos_eq [of "n + 1" 200 "n div 200 + 1" 0] by simp
  qed
qed

lemma reset_batched:
  assumes "store_works G" "batched c n" "0 \<le> n" "tryResetVMExecAndBlockCtx G now e c = (r, c')"
  shows "r = Inr () \<and> batched c' (n + 1)"
proof -
  have cnt: "txCommitCnt c = n mod 200" "BlockNumber (curBlockCtx c) = exec_blockNumberBias + n div 200" "curVMExec c \<noteq> None"
    using assms(2) by (simp_all add: batched_def txCommitBatch_def)
  have small: "i64 (txCommitCnt c + 1) = n mod 200 + 1"
    using pos_mod_bound [of 200 n] pos_mod_sign [of 200 n] by (simp add: cnt go_int in_i64_def)
  show ?thesis
  proof (cases "n mod 200 + 1 < 200")
    case True
    then show ?thesis
      using assms(4) small batch_step(1) [OF True] cnt
      by (auto simp: tryResetVMExecAndBlockCtx_def batched_def txCommitBatch_def Let_def)
  next
    case False
    obtain root db1 where commit: "state_Commit G e (u64 (BlockNumber (curBlockCtx c))) (stateStore c) = (Some root, db1)"
      using assms(1) unfolding store_works_def by (metis option.exhaust prod.collapse)
    obtain db2 where trie: "trie_Commit G root db1 = (True, db2)"
      using assms(1) unfolding store_works_def by (metis prod.collapse)
    obtain e2 where open': "state_New G root db2 = Some e2" using assms(1) by (fastforce simp: store_works_def)
    show ?thesis
      using assms(4) small False commit trie open' batch_step(2) [OF False] cnt
      by (auto simp: tryResetVMExecAndBlockCtx_def batched_def txCommitBatch_def Let_def exec_ctx_def)
  qed
qed

lemma exec_batched:
  assumes "store_works G" "batched c n" "0 \<le> n" "ContractTxExec G now tx c = (r, c')"
  shows "batched c' (if r = Inr () then n + 1 else n)"
proof (cases "TxType tx \<noteq> CreateContractTxType \<and> TxType tx \<noteq> CallContractTxType")
  case True
  then show ?thesis using assms(2,4) by (auto simp: ContractTxExec_def)
next
  case False
  obtain e where e: "curVMExec c = Some e" using assms(2) by (auto simp: batched_def)
  have keep: "batched (c\<lparr>curVMExec := Some e'\<rparr>) n" for e' using assms(2) by (simp add: batched_def)
  obtain r1 e1 where run: "(if TxType tx = CreateContractTxType
      then (case DeployContract G (curBlockCtx c) tx e of (r, e') \<Rightarrow> (bindR r (\<lambda>_. Inr ()), e'))
      else (case CallContract G (curBlockCtx c) tx e of (r, e') \<Rightarrow> (bindR r (\<lambda>_. Inr ()), e'))) = (r1, e1)"
    by fastforce
  have step: "ContractTxExec G now tx c =
      (case r1 of Inl err \<Rightarrow> (Inl err, c\<lparr>curVMExec := Some e1\<rparr>)
       | Inr _ \<Rightarrow> tryResetVMExecAndBlockCtx G now e1 (c\<lparr>curVMExec := Some e1\<rparr>))"
    using False run by (auto simp: ContractTxExec_def e)
  show ?thesis
  proof (cases r1)
    case (Inl err)
    then show ?thesis using step assms(4) keep by auto
  next
    case (Inr u)
    then have "tryResetVMExecAndBlockCtx G now e1 (c\<lparr>curVMExec := Some e1\<rparr>) = (r, c')" using step assms(4) by simp
    then show ?thesis using reset_batched [OF assms(1) keep assms(3)] by auto
  qed
qed

lemma exec_all_batched:
  assumes "store_works G" "batched c n" "0 \<le> n" "exec_all G txs c = (rs, c')"
  shows "batched c' (n + int (length (filter (\<lambda>r. r = Inr ()) rs)))"
  using assms(2-4)
proof (induction txs arbitrary: c n rs)
  case (Cons t txs)
  obtain now tx where t: "t = (now, tx)" by fastforce
  obtain r c1 where r: "ContractTxExec G now tx c = (r, c1)" by fastforce
  obtain rs' where rs: "exec_all G txs c1 = (rs', c')" "rs = r # rs'" using Cons.prems(3) t r by (auto split: prod.splits)
  have "batched c1 (if r = Inr () then n + 1 else n)" using exec_batched [OF assms(1) Cons.prems(1,2) r] .
  then show ?case using Cons.IH [OF _ _ rs(1)] Cons.prems(2) rs(2) by (fastforce simp: ac_simps split: if_splits)
qed simp


text \<open>A virtual machine that accepts every call.\<close>

definition calling_geth :: "(unit, example_state) geth" where
  "calling_geth = example_geth\<lparr>evm_Call := \<lambda>ctx a b code gas v s. (Some ([], 0), s)\<rparr>"

definition example_call :: transaction where
  "example_call = (NewTransaction 1 2 0 0 0 0)\<lparr>Data := [1]\<rparr>"


end
