(* ===== verification/ContractGen.thy ===== *)
theory ContractGen
  imports Paths TxSource
begin

text \<open>
  The generator of contract datasets (\<open>cmd/generatecontracttxfile/usetxt/main.go\<close>): a scenario of
  accounts, contracts, deployments and calls becomes the rows of a CSV file, which the CSV source
  of the supervisor replays. The Solidity compiler, the JSON package, the ABI encoder and the
  addresses of go-ethereum are parameters.
\<close>

section \<open>Text\<close>

text \<open>
  \<open>strings.ToLower\<close> and \<open>strings.ToUpper\<close>, where they are compared with ASCII words: besides the ASCII
  letters, only the dotless i and the long s become ASCII letters, both in upper case.
\<close>

definition ToLower :: "string \<Rightarrow> string" where
  "ToLower s = map lower s"

definition upper :: "char \<Rightarrow> char" where
  "upper c = (if CHR ''a'' \<le> c \<and> c \<le> CHR ''z'' then char_of (of_char c - 32 :: nat) else c)"

fun ToUpper :: "string \<Rightarrow> string" where
  "ToUpper [] = []"
| "ToUpper [c] = [upper c]"
| "ToUpper (c # d # cs) =
     (if c = char_of (197 :: nat) \<and> d = char_of (191 :: nat) then CHR ''S'' # ToUpper cs
      else if c = char_of (196 :: nat) \<and> d = char_of (177 :: nat) then CHR ''I'' # ToUpper cs
      else upper c # ToUpper (d # cs))"

text \<open>The white space, spelt out for evaluation.\<close>

lemma go_spaces_code [code]:
  "go_spaces = [[CHR 0x09], [CHR 0x0A], [CHR 0x0B], [CHR 0x0C], [CHR 0x0D], [CHR 0x20], [CHR 0xC2, CHR 0x85],
     [CHR 0xC2, CHR 0xA0], [CHR 0xE1, CHR 0x9A, CHR 0x80], [CHR 0xE2, CHR 0x80, CHR 0x80],
     [CHR 0xE2, CHR 0x80, CHR 0x81], [CHR 0xE2, CHR 0x80, CHR 0x82], [CHR 0xE2, CHR 0x80, CHR 0x83],
     [CHR 0xE2, CHR 0x80, CHR 0x84], [CHR 0xE2, CHR 0x80, CHR 0x85], [CHR 0xE2, CHR 0x80, CHR 0x86],
     [CHR 0xE2, CHR 0x80, CHR 0x87], [CHR 0xE2, CHR 0x80, CHR 0x88], [CHR 0xE2, CHR 0x80, CHR 0x89],
     [CHR 0xE2, CHR 0x80, CHR 0x8A], [CHR 0xE2, CHR 0x80, CHR 0xA8], [CHR 0xE2, CHR 0x80, CHR 0xA9],
     [CHR 0xE2, CHR 0x80, CHR 0xAF], [CHR 0xE2, CHR 0x81, CHR 0x9F], [CHR 0xE3, CHR 0x80, CHR 0x80]]"
  by code_simp

text \<open>\<open>strings.Fields\<close>: the parts between white space.\<close>

fun cut_field :: "string \<Rightarrow> string \<times> string" where
  "cut_field [] = ([], [])"
| "cut_field (c # cs) =
     (if find (starts_with (c # cs)) go_spaces \<noteq> None then ([], c # cs)
      else case cut_field cs of (w, rest) \<Rightarrow> (c # w, rest))"

lemma cut_field_split: "cut_field s = (w, rest) \<Longrightarrow> s = w @ rest"
  by (induction s arbitrary: w) (auto split: if_splits prod.splits)

function Fields :: "string \<Rightarrow> string list" where
  "Fields s =
     (case trim_with go_spaces s of
        [] \<Rightarrow> []
      | c # cs \<Rightarrow> (case cut_field cs of (w, rest) \<Rightarrow> (c # w) # Fields rest))"
  by pat_completeness auto

termination
proof (relation "measure length", goal_cases)
  case (2 s c cs w rest)
  obtain us where "s = concat us @ trim_with go_spaces s" using trim_with_suffix by blast
  then have "length (c # cs) \<le> length s" using 2(1) by (metis length_append le_add2)
  moreover have "length rest \<le> length cs" using cut_field_split 2 by (metis length_append le_add2)
  ultimately show ?case by simp
qed simp

declare Fields.simps [simp del]

text \<open>\<open>strings.SplitN(p, sep, 2)\<close> and \<open>strings.Split(s, sep)\<close> for a separator of one byte.\<close>

definition split_first :: "char \<Rightarrow> string \<Rightarrow> (string \<times> string) option" where
  "split_first sep p =
     (case dropWhile (\<lambda>c. c \<noteq> sep) p of [] \<Rightarrow> None | _ # v \<Rightarrow> Some (takeWhile (\<lambda>c. c \<noteq> sep) p, v))"

function split_all :: "char \<Rightarrow> string \<Rightarrow> string list" where
  "split_all sep s = (case split_first sep s of None \<Rightarrow> [s] | Some (a, rest) \<Rightarrow> a # split_all sep rest)"
  by pat_completeness auto

termination
proof (relation "measure (\<lambda>(sep, s). length s)", goal_cases)
  case (2 sep s x a rest)
  then have "\<exists>b. dropWhile (\<lambda>c. c \<noteq> sep) s = b # rest" by (auto simp: split_first_def split: list.splits)
  then have "length rest < length (dropWhile (\<lambda>c. c \<noteq> sep) s)" by auto
  then show ?case using length_dropWhile_le [of "\<lambda>c. c \<noteq> sep" s] by simp
qed simp

declare split_all.simps [simp del]

definition parseKV :: "string list \<Rightarrow> (string, string) gomap" where
  "parseKV parts =
     fold (\<lambda>p m. case split_first (CHR ''='') p of
                   None \<Rightarrow> m
                 | Some (k, v) \<Rightarrow> AList.update (ToLower (TrimSpace k)) (TrimSpace v) m) parts []"

definition splitParams :: "string \<Rightarrow> string list" where
  "splitParams s =
     (let t = TrimSpace s in if t = [] then [] else map TrimSpace (split_all (CHR ''|'') t))"

definition normalizeHex :: "string \<Rightarrow> string result" where
  "normalizeHex s =
     (let t = trim_prefix (trim_prefix (TrimSpace s) ''0x'') ''0X''
      in if t = [] then Inl (Errorf ''empty hex'')
         else let u = (if odd (length t) then CHR ''0'' # t else t)
              in bindR (DecodeString u) (\<lambda>_. Inr (''0x'' @ ToLower u)))"

definition bool01 :: "bool \<Rightarrow> string" where
  "bool01 b = (if b then ''1'' else ''0'')"

definition defaultStr :: "string \<Rightarrow> string \<Rightarrow> string" where
  "defaultStr s d = (if TrimSpace s = [] then d else s)"

section \<open>Scenarios\<close>

text \<open>The ABI is \<open>None\<close> until it is loaded, which is the zero value without methods.\<close>

record 'abi ContractDef =
  cd_Alias :: string
  SolPath :: string
  ContractName :: string
  ABIPath :: string
  BytecodePath :: string
  cd_ABI :: "'abi option"
  Bytecode :: string

record Step =
  Scenario :: string
  st_Type :: string
  st_ID :: string
  st_Contract :: string
  ContractRef :: string
  st_From :: string
  st_Function :: string
  Params :: "string list"
  st_GasLimit :: string
  st_Value :: string

record 'abi Program =
  Accounts :: "(string, string) gomap"
  Contracts :: "(string, 'abi ContractDef) gomap"
  Steps :: "Step list"

datatype abi_type = AddressTy | UintTy | IntTy | BoolTy | StringTy | BytesTy | OtherTy

datatype abi_arg = AAddr address | AInt int | ABool bool | AStr string | ABytes bytes

text \<open>
  go-ethereum: hexadecimal addresses, the address of a new contract, and the ABI of a contract: the
  types of a method's inputs and the call data. The compiler, its output (the raw ABI and the code
  of every contract, in the order in which Go visits the map), a JSON string and the field \<open>abi\<close>
  of an artifact.
\<close>

record 'abi gen_env =
  IsHexAddress :: "string \<Rightarrow> bool"
  HexToAddress :: "string \<Rightarrow> address"
  addr_Hex :: "address \<Rightarrow> string"
  CreateAddress :: "address \<Rightarrow> int \<Rightarrow> address"
  abi_JSON :: "string \<Rightarrow> 'abi option"
  abi_Inputs :: "'abi \<Rightarrow> string \<Rightarrow> abi_type list option"
  abi_Pack :: "'abi \<Rightarrow> string \<Rightarrow> abi_arg list \<Rightarrow> bytes option"
  run_solc :: "string list \<Rightarrow> string result"
  solc_output :: "string \<Rightarrow> (string \<times> string \<times> string) list option"
  json_string :: "string \<Rightarrow> string option"
  artifact_abi :: "string \<Rightarrow> string option"
  ReadFile :: "string \<Rightarrow> string result"

text \<open>One line, with the scenario it belongs to.\<close>

definition scenario_line :: "'abi gen_env \<Rightarrow> 'abi Program \<times> string \<Rightarrow> string \<Rightarrow> ('abi Program \<times> string) result" where
  "scenario_line V ps text =
     (case ps of (p, curScenario) \<Rightarrow>
        let l = TrimSpace text
        in if l = [] \<or> has_prefix l ''#'' then Inr ps
           else
             let fields = Fields l; cmd = ToUpper (hd fields)
             in if cmd = ''SCENARIO'' then
                  (if length fields < 2 then Inl (Errorf ''SCENARIO missing name'') else Inr (p, fields ! 1))
                else if cmd = ''ACCOUNT'' then
                  (if length fields \<noteq> 3 then Inl (Errorf ''ACCOUNT format error'')
                   else if \<not> IsHexAddress V (fields ! 2) then Inl (Errorf ''invalid account address'')
                   else Inr (p\<lparr>Accounts := AList.update (fields ! 1) (ToLower (fields ! 2)) (Accounts p)\<rparr>, curScenario))
                else if cmd = ''CONTRACT'' then
                  (if length fields < 3 then Inl (Errorf ''CONTRACT format error'')
                   else
                     let kv = parseKV (drop 2 fields); alias = fields ! 1
                     in Inr (p\<lparr>Contracts := AList.update alias
                               \<lparr>cd_Alias = alias, SolPath = get_or [] kv ''sol'', ContractName = get_or [] kv ''name'',
                                ABIPath = get_or [] kv ''abi'', BytecodePath = get_or [] kv ''bytecode'',
                                cd_ABI = None, Bytecode = []\<rparr> (Contracts p)\<rparr>, curScenario))
                else if cmd = ''DEPLOY'' \<or> cmd = ''CALL'' then
                  (let kv = parseKV (tl fields); ps = get_or [] kv ''params''
                   in Inr (p\<lparr>Steps := Steps p @
                             [\<lparr>Scenario = curScenario, st_Type = cmd, st_ID = get_or [] kv ''id'',
                               st_Contract = get_or [] kv ''contract'', ContractRef = get_or [] kv ''contract_ref'',
                               st_From = get_or [] kv ''from'', st_Function = get_or [] kv ''function'',
                               Params = (if ps \<noteq> [] then splitParams ps else []),
                               st_GasLimit = get_or [] kv ''gas'', st_Value = get_or [] kv ''value''\<rparr>]\<rparr>, curScenario))
                else Inl (Errorf ''unknown command''))"

definition parseScenarioTXT :: "'abi gen_env \<Rightarrow> string \<Rightarrow> ('abi Program \<times> string) result" where
  "parseScenarioTXT V path =
     bindR (ReadFile V path) (\<lambda>text.
     case scan_lines text of (ls, tooLong) \<Rightarrow>
       bindR (foldR (scenario_line V) (\<lparr>Accounts = [], Contracts = [], Steps = []\<rparr>, ''default'') ls) (\<lambda>(p, _).
       if tooLong then Inl (Errorf ''bufio.Scanner: token too long'') else Inr (p, path_Dir path)))"

section \<open>Loading contracts\<close>

definition has_suffix :: "string \<Rightarrow> string \<Rightarrow> bool" where
  "has_suffix s w \<longleftrightarrow> has_prefix (rev s) (rev w)"

definition selectContractKey :: "'abi ContractDef \<Rightarrow> (string \<times> string \<times> string) list \<Rightarrow> string result" where
  "selectContractKey c contracts =
     (let ks = map fst (filter (\<lambda>(k, abi, bin). TrimSpace bin \<noteq> []) contracts)
      in if ks = [] then Inl (Errorf ''no deployable contract found'')
         else if TrimSpace (ContractName c) \<noteq> [] then
           orErr ''contract not found in solc output'' (find (\<lambda>k. has_suffix k ('':'' @ ContractName c)) ks)
         else case find (\<lambda>k. has_suffix k ('':'' @ cd_Alias c)) ks of
                Some k \<Rightarrow> Inr k
              | None \<Rightarrow> if length ks = 1 then Inr (hd ks) else Inl (Errorf ''multiple deployable contracts found''))"

definition normalizeABIText :: "(string \<Rightarrow> string option) \<Rightarrow> string \<Rightarrow> string result" where
  "normalizeABIText unquote raw =
     (let s = TrimSpace raw
      in if s = [] \<or> s = ''null'' then Inl (Errorf ''empty abi'')
         else if has_prefix s [char_of (34 :: nat)] then
           bindR (orErr ''unmarshal'' (unquote raw)) (\<lambda>unq.
           if TrimSpace unq = [] then Inl (Errorf ''empty abi string'') else Inr (TrimSpace unq))
         else if has_prefix s ''['' \<or> has_prefix s ''{'' then Inr s
         else Inl (Errorf ''unknown abi format''))"

definition in_dir :: "string \<Rightarrow> string \<Rightarrow> string" where
  "in_dir rootDir p = (if path_IsAbs p then p else path_Join [rootDir, p])"

definition compileWithSolc ::
    "'abi gen_env \<Rightarrow> string \<Rightarrow> string \<Rightarrow> string \<Rightarrow> bool \<Rightarrow> 'abi ContractDef \<Rightarrow> 'abi ContractDef result" where
  "compileWithSolc V rootDir basePath includePath optimize c =
     (if TrimSpace (SolPath c) = [] then Inl (Errorf ''contract requires sol=...'')
      else
        let args = (if optimize then [''--optimize''] else []) @
                   (if TrimSpace basePath \<noteq> [] then [''--base-path'', basePath] else []) @
                   (if TrimSpace includePath \<noteq> [] then [''--include-path'', includePath] else []) @
                   [''--combined-json'', ''abi,bin'', in_dir rootDir (SolPath c)]
        in bindR (run_solc V args) (\<lambda>out.
           bindR (orErr ''parse solc output failed'' (solc_output V out)) (\<lambda>contracts.
           bindR (selectContractKey c contracts) (\<lambda>key.
           case get_or ([], []) contracts key of (raw, bin) \<Rightarrow>
             bindR (normalizeABIText (json_string V) raw) (\<lambda>abiText.
             if TrimSpace bin = [] then Inl (Errorf ''empty bin'')
             else bindR (orErr ''parse abi failed'' (abi_JSON V abiText)) (\<lambda>abi.
               Inr (c\<lparr>cd_ABI := Some abi, Bytecode := ''0x'' @ trim_prefix (ToLower (TrimSpace bin)) ''0x''\<rparr>)))))))"

definition loadArtifacts :: "'abi gen_env \<Rightarrow> string \<Rightarrow> 'abi ContractDef \<Rightarrow> 'abi ContractDef result" where
  "loadArtifacts V rootDir c =
     (if TrimSpace (ABIPath c) = [] \<or> TrimSpace (BytecodePath c) = [] then Inl (Errorf ''contract requires abi=... and bytecode=...'')
      else
        bindR (ReadFile V (in_dir rootDir (ABIPath c))) (\<lambda>abiBytes.
        bindR (if has_prefix (TrimSpace abiBytes) ''{''
               then bindR (orErr ''parse abi json failed'' (artifact_abi V abiBytes)) (\<lambda>raw. Inr (TrimSpace raw))
               else Inr (TrimSpace abiBytes)) (\<lambda>abiText.
        bindR (orErr ''parse abi failed'' (abi_JSON V abiText)) (\<lambda>abi.
        bindR (ReadFile V (in_dir rootDir (BytecodePath c))) (\<lambda>binBytes.
        bindR (normalizeHex binBytes) (\<lambda>bin.
        Inr (c\<lparr>cd_ABI := Some abi, Bytecode := bin\<rparr>)))))))"

section \<open>The generator\<close>

record Generator =
  rows :: "string list list"
  g_block :: int
  g_ts :: int
  bStep :: int
  tStep :: int
  nonceBySender :: "(string, int) gomap"
  deployedByID :: "(string, address) gomap"
  lastByContract :: "(string, address) gomap"
  deployID2Contract :: "(string, string) gomap"
  contractAddrSet :: "string list"

definition csvHeader :: "string list" where
  "csvHeader = [''blockNumber'', ''timestamp'', ''transactionHash'', ''from'', ''to'', ''toCreate'', ''fromIsContract'',
     ''toIsContract'', ''value'', ''gasLimit'', ''gasPrice'', ''gasUsed'', ''callingFunction'', ''isError'', ''eip2718type'',
     ''baseFeePerGas'', ''maxFeePerGas'', ''maxPriorityFeePerGas'']"

definition new_generator :: "int \<Rightarrow> int \<Rightarrow> int \<Rightarrow> int \<Rightarrow> Generator" where
  "new_generator startBlock startTS blockStep tsStep =
     \<lparr>rows = [csvHeader], g_block = startBlock, g_ts = startTS, bStep = blockStep, tStep = tsStep, nonceBySender = [],
      deployedByID = [], lastByContract = [], deployID2Contract = [], contractAddrSet = []\<rparr>"

definition resolveAddress :: "'abi gen_env \<Rightarrow> 'abi Program \<Rightarrow> Generator \<Rightarrow> string \<Rightarrow> address result" where
  "resolveAddress V prog g token =
     (let t = TrimSpace token
      in case map_of (Accounts prog) t of
           Some v \<Rightarrow> Inr (HexToAddress V v)
         | None \<Rightarrow>
             (case map_of (deployedByID g) t of
                Some a \<Rightarrow> Inr a
              | None \<Rightarrow> if IsHexAddress V t then Inr (HexToAddress V t) else Inl (Errorf ''cannot resolve address token'')))"

definition isContract :: "'abi gen_env \<Rightarrow> Generator \<Rightarrow> address \<Rightarrow> bool" where
  "isContract V g a \<longleftrightarrow> ToLower (addr_Hex V a) \<in> set (contractAddrSet g)"

text \<open>The row of a step; \<open>hash\<close> is its random transaction hash.\<close>

definition baseRow :: "bytes \<Rightarrow> Generator \<Rightarrow> string list" where
  "baseRow hash g =
     [show_int (g_block g), show_int (g_ts g), ''0x'' @ EncodeToString hash, '''', '''', ''None'', ''0'', ''0'', ''0'', ''100000'',
      ''0'', ''0'', ''None'', ''None'', ''None'', ''None'', ''None'', ''None'']"

definition gen_step :: "Generator \<Rightarrow> Generator" where
  "gen_step g = g\<lparr>g_block := i64 (g_block g + bStep g), g_ts := i64 (g_ts g + tStep g)\<rparr>"

definition execDeploy :: "'abi gen_env \<Rightarrow> 'abi Program \<Rightarrow> bytes \<Rightarrow> Step \<Rightarrow> Generator \<Rightarrow> Generator result" where
  "execDeploy V prog hash st g =
     bindR (orErr ''unknown contract'' (map_of (Contracts prog) (st_Contract st))) (\<lambda>c.
     bindR (resolveAddress V prog g (st_From st)) (\<lambda>from.
     let senderKey = ToLower (addr_Hex V from);
         nonce = get_or 0 (nonceBySender g) senderKey;
         contractAddr = CreateAddress V from nonce;
         row = (baseRow hash g)[3 := addr_Hex V from, 4 := ''None'', 5 := ToLower (addr_Hex V contractAddr),
                 6 := bool01 (isContract V g from), 7 := ''0'', 8 := defaultStr (st_Value st) ''0'',
                 9 := defaultStr (st_GasLimit st) ''2000000'', 12 := Bytecode c];
         g1 = g\<lparr>nonceBySender := AList.update senderKey (u64 (nonce + 1)) (nonceBySender g), rows := rows g @ [row],
                lastByContract := AList.update (st_Contract st) contractAddr (lastByContract g),
                contractAddrSet := List.insert (ToLower (addr_Hex V contractAddr)) (contractAddrSet g)\<rparr>;
         g2 = (if st_ID st \<noteq> []
               then g1\<lparr>deployedByID := AList.update (st_ID st) contractAddr (deployedByID g1),
                       deployID2Contract := AList.update (st_ID st) (st_Contract st) (deployID2Contract g1)\<rparr>
               else g1)
     in Inr (gen_step g2)))"

definition convertArg :: "'abi gen_env \<Rightarrow> 'abi Program \<Rightarrow> Generator \<Rightarrow> string \<Rightarrow> abi_type \<Rightarrow> abi_arg result" where
  "convertArg V prog g raw t =
     (case t of
        AddressTy \<Rightarrow> bindR (resolveAddress V prog g raw) (\<lambda>a. Inr (AAddr a))
      | UintTy \<Rightarrow> bindR (orErr ''invalid int'' (parse_int (TrimSpace raw))) (\<lambda>v. Inr (AInt v))
      | IntTy \<Rightarrow> bindR (orErr ''invalid int'' (parse_int (TrimSpace raw))) (\<lambda>v. Inr (AInt v))
      | BoolTy \<Rightarrow> (let s = ToLower (TrimSpace raw) in Inr (ABool (s = ''true'' \<or> s = ''1'')))
      | StringTy \<Rightarrow> Inr (AStr raw)
      | BytesTy \<Rightarrow> bindR (normalizeHex raw) (\<lambda>h. bindR (DecodeString (trim_prefix h ''0x'')) (\<lambda>bs. Inr (ABytes bs)))
      | OtherTy \<Rightarrow> Inl (Errorf ''unsupported abi type''))"

text \<open>The contract that a call means: its address and the name it was declared under.\<close>

definition call_target :: "Step \<Rightarrow> Generator \<Rightarrow> (address \<times> string) result" where
  "call_target st g =
     bindR (if ContractRef st \<noteq> []
            then bindR (orErr ''unknown contract_ref'' (map_of (deployedByID g) (ContractRef st))) (\<lambda>a.
                 Inr (a, get_or [] (deployID2Contract g) (ContractRef st)))
            else Inr (0, [])) (\<lambda>(to1, key).
     bindR (if st_Contract st \<noteq> []
            then (if to1 = 0
                  then bindR (orErr ''contract not deployed yet'' (map_of (lastByContract g) (st_Contract st))) (\<lambda>a.
                       Inr (a, st_Contract st))
                  else Inr (to1, st_Contract st))
            else Inr (to1, key)) (\<lambda>(to2, key).
     if key = [] then Inl (Errorf ''CALL requires contract or contract_ref'') else Inr (to2, key)))"

definition execCall :: "'abi gen_env \<Rightarrow> 'abi Program \<Rightarrow> bytes \<Rightarrow> Step \<Rightarrow> Generator \<Rightarrow> Generator result" where
  "execCall V prog hash st g =
     bindR (resolveAddress V prog g (st_From st)) (\<lambda>from.
     bindR (call_target st g) (\<lambda>(to, key).
     bindR (orErr ''unknown contract'' (map_of (Contracts prog) key)) (\<lambda>c.
     bindR (orErr ''method not found'' (Option.bind (cd_ABI c) (\<lambda>abi. abi_Inputs V abi (st_Function st)))) (\<lambda>ts.
     if length ts \<noteq> length (Params st) then Inl (Errorf ''params mismatch'')
     else
       bindR (mapR (\<lambda>(p, t). convertArg V prog g p t) (zip (Params st) ts)) (\<lambda>args.
       bindR (orErr ''abi pack failed'' (abi_Pack V (the (cd_ABI c)) (st_Function st) args)) (\<lambda>data.
       let row = (baseRow hash g)[3 := addr_Hex V from, 4 := ToLower (addr_Hex V to), 5 := ''None'',
                   6 := bool01 (isContract V g from), 7 := ''1'', 8 := defaultStr (st_Value st) ''0'',
                   9 := defaultStr (st_GasLimit st) ''100000'', 12 := ''0x'' @ EncodeToString data]
       in Inr (gen_step (g\<lparr>rows := rows g @ [row]\<rparr>))))))))"

definition exec_step :: "'abi gen_env \<Rightarrow> 'abi Program \<Rightarrow> (nat \<Rightarrow> bytes) \<Rightarrow> Generator \<Rightarrow> nat \<times> Step \<Rightarrow> Generator result" where
  "exec_step V prog hashes g ist =
     (case ist of (i, st) \<Rightarrow>
        if st_Type st = ''DEPLOY'' then execDeploy V prog (hashes i) st g
        else if st_Type st = ''CALL'' then execCall V prog (hashes i) st g
        else Inl (Errorf ''unknown type''))"

definition gen_run :: "'abi gen_env \<Rightarrow> 'abi Program \<Rightarrow> (nat \<Rightarrow> bytes) \<Rightarrow> Generator \<Rightarrow> Generator result" where
  "gen_run V prog hashes g = foldR (exec_step V prog hashes) g (enumerate 0 (Steps prog))"

text \<open>
  \<open>main\<close>: the rows of the dataset, or the error it ends with. The contracts are loaded in the order in
  which Go visits the map.
\<close>

definition gen_main ::
    "'abi gen_env \<Rightarrow> string \<Rightarrow> bool \<Rightarrow> (int \<times> int \<times> int \<times> int) \<Rightarrow> (string \<times> string \<times> bool) \<Rightarrow> (nat \<Rightarrow> bytes) \<Rightarrow>
     string list list result" where
  "gen_main V path useSolc start solc hashes =
     (case start of (startBlock, startTS, blockStep, tsStep) \<Rightarrow>
      case solc of (basePath, includePath, optimize) \<Rightarrow>
        if TrimSpace path = [] then Inl (Errorf ''usage'')
        else
          bindR (parseScenarioTXT V path) (\<lambda>(prog, rootDir).
          bindR (mapR (\<lambda>(alias, c). bindR (if useSolc then compileWithSolc V rootDir basePath includePath optimize c
                                            else loadArtifacts V rootDir c) (\<lambda>c'. Inr (alias, c'))) (Contracts prog)) (\<lambda>cs.
          bindR (gen_run V (prog\<lparr>Contracts := cs\<rparr>) hashes (new_generator startBlock startTS blockStep tsStep)) (\<lambda>g.
          Inr (rows g)))))"

end
