(* ===== verification/DatasetFlow.thy ===== *)
theory DatasetFlow
  imports ContractGen
begin

text \<open>
  What the dataset generator promises: the CSV source of the supervisor replays its rows as the
  transactions that the scenario means, every call goes to a contract that an earlier row creates,
  and the addresses of the contracts are those that the virtual machine will give them.
\<close>

section \<open>Hexadecimal text\<close>

lemma of_char_lower:
  "(of_char (lower c) :: nat) = (if 65 \<le> (of_char c :: nat) \<and> (of_char c :: nat) \<le> 90 then of_char c + 32 else of_char c)"
  by (simp add: lower_def less_eq_char_def)

lemma from_hex_char_nat:
  "from_hex_char c =
     (let n = of_char c
      in if 48 \<le> n \<and> n \<le> 57 then Some (n - 48) else if 97 \<le> n \<and> n \<le> 102 then Some (n - 87)
         else if 65 \<le> n \<and> n \<le> 70 then Some (n - 55) else None)"
  by (auto simp: from_hex_char_def less_eq_char_def Let_def)

lemma lower_hex_char: "from_hex_char (lower c) = from_hex_char c"
  by (auto simp: from_hex_char_nat Let_def of_char_lower)

lemma lower_iff: "lower c = CHR ''x'' \<longleftrightarrow> c = CHR ''x'' \<or> c = CHR ''X''" "lower c = CHR ''0'' \<longleftrightarrow> c = CHR ''0''"
proof -
  have eq: "c = d \<longleftrightarrow> (of_char c :: nat) = of_char d" for c d :: char by simp
  show "lower c = CHR ''x'' \<longleftrightarrow> c = CHR ''x'' \<or> c = CHR ''X''" "lower c = CHR ''0'' \<longleftrightarrow> c = CHR ''0''"
    unfolding eq of_char_lower by auto
qed

lemma DecodeString_lower: "DecodeString (ToLower s) = DecodeString s"
  by (induction s rule: DecodeString.induct) (simp_all add: ToLower_def lower_hex_char split: option.splits)

lemma of_char_hex_digit: "n < 16 \<Longrightarrow> (of_char (hex_digit n) :: nat) = (if n < 10 then 48 + n else 87 + n)"
proof -
  have "\<forall>n \<in> set [0..<16]. (of_char (hex_digit n) :: nat) = (if n < 10 then 48 + n else 87 + n)" by code_simp
  then show "n < 16 \<Longrightarrow> ?thesis" by simp
qed

lemma lower_digit:
  assumes "from_hex_char c = Some n"
  shows "n < 16 \<and> lower c = hex_digit n"
proof -
  have n: "n < 16" using assms by (auto simp: from_hex_char_nat Let_def split: if_splits)
  then have "(of_char (lower c) :: nat) = of_char (hex_digit n)"
    using assms by (auto simp: of_char_hex_digit of_char_lower from_hex_char_nat Let_def split: if_splits)
  then show ?thesis using n by simp
qed

lemma unat_small: "m < 256 \<Longrightarrow> unat (word_of_nat m :: 8 word) = m"
  by (simp add: unsigned_of_nat take_bit_nat_eq_self)

lemma Encode_Decode: "DecodeString s = Inr bs \<Longrightarrow> ToLower s = EncodeToString bs"
proof (induction s arbitrary: bs rule: DecodeString.induct)
  case (3 c d cs)
  then obtain h l bs' where h: "from_hex_char c = Some h" "from_hex_char d = Some l" "DecodeString cs = Inr bs'"
    "bs = word_of_nat (16 * h + l) # bs'"
    by (auto simp: bindR_Inr_iff split: option.splits)
  have small: "h < 16" "l < 16" and low: "lower c = hex_digit h" "lower d = hex_digit l"
    using lower_digit h(1,2) by blast+
  have "unat (word_of_nat (16 * h + l) :: 8 word) = 16 * h + l" using small by (intro unat_small) simp
  then show ?case using 3(1) [OF refl h(1,2,3)] h(4) small low
    by (simp add: ToLower_def EncodeToString_def)
qed (simp_all add: ToLower_def EncodeToString_def)

text \<open>What \<open>normalizeHex\<close> returns is the text of a non-empty byte string.\<close>

lemma normalizeHex_encodes: "normalizeHex s = Inr h \<Longrightarrow> \<exists>bs. bs \<noteq> [] \<and> h = ''0x'' @ EncodeToString bs"
proof -
  assume run: "normalizeHex s = Inr h"
  obtain u bs where u: "u \<noteq> []" "DecodeString u = Inr bs" "h = ''0x'' @ ToLower u"
    using run by (auto simp: normalizeHex_def Let_def bindR_Inr_iff split: if_splits)
  then have "bs \<noteq> []" using DecodeString_length by fastforce
  then show ?thesis using u Encode_Decode by blast
qed

lemma Hex2Addr_lower:
  assumes "ToLower s = ''0x'' @ EncodeToString (bytes_of_addr a)"
  shows "Hex2Addr s = Inr a"
proof -
  obtain c d rest where s: "s = c # d # rest" "lower c = CHR ''0''" "lower d = CHR ''x''"
    "ToLower rest = EncodeToString (bytes_of_addr a)"
    using assms by (auto simp: ToLower_def map_eq_Cons_conv)
  have "DecodeString rest = Inr (bytes_of_addr a)"
    using DecodeString_lower [of rest] unfolding s(4) DecodeString_EncodeToString by simp
  then show ?thesis using s(1-3) by (auto simp: Hex2Addr_def Hex2Bytes_def has_prefix_def lower_iff)
qed

section \<open>What a scenario means\<close>

datatype gen_intent =
    Deploys address bytes int address
  | Invokes address address bytes int

definition gen_tx :: "time \<Rightarrow> int \<Rightarrow> gen_intent \<Rightarrow> transaction" where
  "gen_tx now n it =
     (case it of
        Deploys src code v _ \<Rightarrow> (NewTransaction src EmptyAccountAddr v 0 (u64 n) now)\<lparr>Data := code\<rparr>
      | Invokes src to data v \<Rightarrow> (NewTransaction src to v 0 (u64 n) now)\<lparr>Data := data\<rparr>)"

definition deployed_by :: "address \<Rightarrow> gen_intent list \<Rightarrow> nat" where
  "deployed_by a its = length (filter (\<lambda>it. case it of Deploys src _ _ _ \<Rightarrow> src = a | _ \<Rightarrow> False) its)"

definition created :: "gen_intent list \<Rightarrow> address set" where
  "created its = {a. \<exists>src code v. Deploys src code v a \<in> set its}"

text \<open>
  An intent after others: a contract gets the address of its creator's nonce, which counts its
  deployments; a call goes to a contract created before.
\<close>

definition follows :: "'abi gen_env \<Rightarrow> gen_intent list \<Rightarrow> gen_intent \<Rightarrow> bool" where
  "follows V its it \<longleftrightarrow>
     (case it of
        Deploys src code v new \<Rightarrow> new = CreateAddress V src (u64 (int (deployed_by src its)))
      | Invokes src to data v \<Rightarrow> to \<in> created its)"

definition coherent :: "'abi gen_env \<Rightarrow> gen_intent list \<Rightarrow> bool" where
  "coherent V its \<longleftrightarrow> (\<forall>i < length its. follows V (take i its) (its ! i))"

lemma coherent_snoc: "coherent V its \<Longrightarrow> follows V its it \<Longrightarrow> coherent V (its @ [it])"
  by (auto simp: coherent_def nth_append less_Suc_eq)

text \<open>
  What is used of go-ethereum: the checksummed form of an address has its hexadecimal digits, in
  whatever case, and call data begins with a selector.
\<close>

definition gen_laws :: "'abi gen_env \<Rightarrow> bool" where
  "gen_laws V \<longleftrightarrow>
     (\<forall>a. ToLower (addr_Hex V a) = ''0x'' @ EncodeToString (bytes_of_addr a)) \<and>
     (\<forall>abi f args data. abi_Pack V abi f args = Some data \<longrightarrow> data \<noteq> [])"

text \<open>Every contract has been loaded with a code.\<close>

definition has_code :: "'abi ContractDef \<Rightarrow> bool" where
  "has_code c \<longleftrightarrow> (\<exists>code. code \<noteq> [] \<and> Bytecode c = ''0x'' @ EncodeToString code)"

definition coded :: "'abi Program \<Rightarrow> bool" where
  "coded prog \<longleftrightarrow> (\<forall>k c. map_of (Contracts prog) k = Some c \<longrightarrow> has_code c)"

text \<open>What a step means: the code of the contract it names, or the packed call of its function.\<close>

definition step_means :: "'abi gen_env \<Rightarrow> 'abi Program \<Rightarrow> Step \<Rightarrow> gen_intent \<Rightarrow> bool" where
  "step_means V prog st it \<longleftrightarrow>
     (let val = (case parse_int (defaultStr (st_Value st) ''0'') of None \<Rightarrow> 0 | Some v \<Rightarrow> v)
      in case it of
           Deploys src code v new \<Rightarrow> st_Type st = ''DEPLOY'' \<and> v = val \<and>
             (\<exists>c. map_of (Contracts prog) (st_Contract st) = Some c \<and> Bytecode c = ''0x'' @ EncodeToString code)
         | Invokes src to data v \<Rightarrow> st_Type st = ''CALL'' \<and> v = val \<and>
             (\<exists>key c abi args. (st_Contract st \<noteq> [] \<longrightarrow> key = st_Contract st) \<and> map_of (Contracts prog) key = Some c \<and>
                cd_ABI c = Some abi \<and> abi_Pack V abi (st_Function st) args = Some data))"

text \<open>The row of an intent.\<close>

definition row_of :: "'abi gen_env \<Rightarrow> string list \<Rightarrow> gen_intent \<Rightarrow> bool" where
  "row_of V row it \<longleftrightarrow> length row = 18 \<and>
     (case it of
        Deploys src code v new \<Rightarrow> row ! 3 = addr_Hex V src \<and> row ! 4 = ''None'' \<and> row ! 5 = ToLower (addr_Hex V new) \<and>
          (parse_int (row ! 8) = Some v \<or> parse_int (row ! 8) = None) \<and> code \<noteq> [] \<and> row ! 12 = ''0x'' @ EncodeToString code
      | Invokes src to data v \<Rightarrow> row ! 3 = addr_Hex V src \<and> row ! 4 = ToLower (addr_Hex V to) \<and> row ! 5 = ''None'' \<and>
          (parse_int (row ! 8) = Some v \<or> parse_int (row ! 8) = None) \<and> data \<noteq> [] \<and> row ! 12 = ''0x'' @ EncodeToString data)"

lemma EqualFold_Nil: "EqualFold s [] \<longleftrightarrow> s = []"
  by (simp add: EqualFold_def)

lemma hex_not_none:
  assumes "bs \<noteq> []"
  shows "\<not> EqualFold (''0x'' @ EncodeToString bs) ''none'' \<and> \<not> EqualFold (''0x'' @ EncodeToString bs) ''0x''"
proof -
  have "EncodeToString bs \<noteq> []" using assms length_EncodeToString [of bs] by (metis length_0_conv mult_is_0 zero_neq_numeral)
  then show ?thesis by (auto simp: EqualFold_def lower_def)
qed

lemma bytes_of_addr_not_Nil [simp]: "bytes_of_addr a \<noteq> []"
proof -
  have "length (bytes_of_addr a) = 20" by (simp add: bytes_of_addr_def)
  then show ?thesis by fastforce
qed

lemma none_none: "EqualFold ''None'' ''none''"
  by code_simp

text \<open>A row is read as the transaction it means.\<close>

lemma row_read:
  assumes laws: "gen_laws V" and row: "row_of V row it" and ne: "row ! 3 \<noteq> row ! 4" and val: "parse_int (row ! 8) \<noteq> None"
  shows "csv_line2Tx now row n False = Inr (gen_tx now n it)"
proof -
  have hex: "ToLower (addr_Hex V a) = ''0x'' @ EncodeToString (bytes_of_addr a)" for a using laws by (simp add: gen_laws_def)
  have addr: "Hex2Addr (addr_Hex V a) = Inr a" "Hex2Addr (ToLower (addr_Hex V a)) = Inr a" for a
    using Hex2Addr_lower hex Hex2Addr_roundtrip [of a] by simp_all
  have low: "ToLower (addr_Hex V a) \<noteq> []" "\<not> EqualFold (ToLower (addr_Hex V a)) ''none''" for a
    unfolding hex using hex_not_none [of "bytes_of_addr a"] by simp_all
  show ?thesis
  proof (cases it)
    case (Deploys src code v new)
    then have r: "length row = 18" "row ! 3 = addr_Hex V src" "row ! 4 = ''None''" "row ! 5 = ToLower (addr_Hex V new)"
      "parse_int (row ! 8) = Some v" "code \<noteq> []" "row ! 12 = ''0x'' @ EncodeToString code"
      using row val by (auto simp: row_of_def)
    show ?thesis
      unfolding csv_line2Tx_def Let_def r(2-5,7) addr
      using r(1) hex_not_none [OF r(6)] none_none low
      by (simp add: Hex2Bytes_roundtrip [simplified] gen_tx_def Deploys orErr_def)
  next
    case (Invokes src to data v)
    then have r: "length row = 18" "row ! 3 = addr_Hex V src" "row ! 4 = ToLower (addr_Hex V to)" "row ! 5 = ''None''"
      "parse_int (row ! 8) = Some v" "data \<noteq> []" "row ! 12 = ''0x'' @ EncodeToString data"
      using row val by (auto simp: row_of_def)
    have "addr_Hex V src \<noteq> ToLower (addr_Hex V to)" using ne r(2,3) by simp
    then show ?thesis
      unfolding csv_line2Tx_def Let_def r(2-5,7) addr
      using r(1) hex_not_none [OF r(6)] none_none low
      by (simp add: Hex2Bytes_roundtrip [simplified] gen_tx_def Invokes orErr_def)
  qed
qed

section \<open>The generator keeps the meaning\<close>

definition gen_inv :: "'abi gen_env \<Rightarrow> gen_intent list \<Rightarrow> Generator \<Rightarrow> bool" where
  "gen_inv V its g \<longleftrightarrow>
     (\<exists>rs. rows g = csvHeader # rs \<and> list_all2 (row_of V) rs its) \<and> coherent V its \<and>
     (\<forall>a. get_or 0 (nonceBySender g) (ToLower (addr_Hex V a)) = u64 (int (deployed_by a its))) \<and>
     (\<forall>k a. map_of (deployedByID g) k = Some a \<longrightarrow> a \<in> created its) \<and>
     (\<forall>k a. map_of (lastByContract g) k = Some a \<longrightarrow> a \<in> created its)"

lemma gen_inv_new: "gen_inv V [] (new_generator b t bs ts)"
  by (simp add: gen_inv_def new_generator_def coherent_def deployed_by_def u64_def get_or_def)

lemma gen_step_keeps [simp]:
  "rows (gen_step g) = rows g" "nonceBySender (gen_step g) = nonceBySender g" "deployedByID (gen_step g) = deployedByID g"
  "lastByContract (gen_step g) = lastByContract g"
  by (simp_all add: gen_step_def)

lemma addr_Hex_inj: "gen_laws V \<Longrightarrow> ToLower (addr_Hex V a) = ToLower (addr_Hex V b) \<longleftrightarrow> a = b"
  using Hex2Addr_lower by (metis gen_laws_def sum.inject(2))

lemma baseRow_length [simp]: "length (baseRow h g) = 18"
  by (simp add: baseRow_def)

lemma created_snoc: "created its \<subseteq> created (its @ [it])"
  by (auto simp: created_def)

lemma deploy_inv:
  assumes laws: "gen_laws V" and prog: "coded prog" and inv: "gen_inv V its g" and run: "execDeploy V prog h st g = Inr g'"
    and "st_Type st = ''DEPLOY''"
  shows "\<exists>it. gen_inv V (its @ [it]) g' \<and> step_means V prog st it"
proof -
  obtain c src where c: "map_of (Contracts prog) (st_Contract st) = Some c" "resolveAddress V prog g (st_From st) = Inr src"
    using run by (auto simp: execDeploy_def bindR_Inr_iff orErr_def split: option.splits)
  obtain code where code: "code \<noteq> []" "Bytecode c = ''0x'' @ EncodeToString code" using prog c(1) by (auto simp: coded_def has_code_def)
  let ?nonce = "get_or 0 (nonceBySender g) (ToLower (addr_Hex V src))"
  let ?new = "CreateAddress V src ?nonce" let ?val = "defaultStr (st_Value st) ''0''"
  let ?it = "Deploys src code (case parse_int ?val of None \<Rightarrow> 0 | Some v \<Rightarrow> v) ?new"
  obtain rs where rs: "rows g = csvHeader # rs" "list_all2 (row_of V) rs its" and coh: "coherent V its"
    and nonce: "\<And>a. get_or 0 (nonceBySender g) (ToLower (addr_Hex V a)) = u64 (int (deployed_by a its))"
    and ids: "\<And>k a. map_of (deployedByID g) k = Some a \<Longrightarrow> a \<in> created its"
    and last: "\<And>k a. map_of (lastByContract g) k = Some a \<Longrightarrow> a \<in> created its"
    using inv unfolding gen_inv_def by blast
  let ?row = "(baseRow h g)[3 := addr_Hex V src, 4 := ''None'', 5 := ToLower (addr_Hex V ?new),
                 6 := bool01 (isContract V g src), 7 := ''0'', 8 := ?val,
                 9 := defaultStr (st_GasLimit st) ''2000000'', 12 := Bytecode c]"
  have g': "rows g' = rows g @ [?row]"
    "nonceBySender g' = AList.update (ToLower (addr_Hex V src)) (u64 (?nonce + 1)) (nonceBySender g)"
    "lastByContract g' = AList.update (st_Contract st) ?new (lastByContract g)"
    "deployedByID g' = (if st_ID st \<noteq> [] then AList.update (st_ID st) ?new (deployedByID g) else deployedByID g)"
    using run c by (auto simp: execDeploy_def Let_def orErr_def)
  have row: "row_of V ?row ?it" using code by (auto simp: row_of_def split: option.splits)
  have rows': "rows g' = csvHeader # (rs @ [?row])" "list_all2 (row_of V) (rs @ [?row]) (its @ [?it])"
    using g'(1) rs row by (auto intro: list_all2_appendI)
  have coh': "coherent V (its @ [?it])" by (rule coherent_snoc [OF coh]) (simp add: follows_def nonce)
  have nonce': "get_or 0 (nonceBySender g') (ToLower (addr_Hex V a)) = u64 (int (deployed_by a (its @ [?it])))" for a
  proof (cases "a = src")
    case True
    have "u64 (u64 (int (deployed_by src its)) + 1) = u64 (int (deployed_by src its) + 1)" by (simp add: u64_def mod_simps)
    then show ?thesis using True g'(2) nonce by (simp add: deployed_by_def ac_simps)
  next
    case False
    then show ?thesis using g'(2) nonce addr_Hex_inj [OF laws] by (simp add: deployed_by_def)
  qed
  have new: "?new \<in> created (its @ [?it])" by (auto simp: created_def)
  have "\<And>k a. map_of (deployedByID g') k = Some a \<Longrightarrow> a \<in> created (its @ [?it])"
    "\<And>k a. map_of (lastByContract g') k = Some a \<Longrightarrow> a \<in> created (its @ [?it])"
    using g'(3,4) ids last new created_snoc [of its ?it] by (auto split: if_splits)
  then have "gen_inv V (its @ [?it]) g'" unfolding gen_inv_def using rows' coh' nonce' by blast
  moreover have "step_means V prog st ?it" using c(1) code assms(5) by (simp add: step_means_def)
  ultimately show ?thesis by blast
qed

lemma call_target_created:
  assumes "gen_inv V its g" "call_target st g = Inr (to, key)"
  shows "to \<in> created its"
proof -
  have "\<And>k a. map_of (deployedByID g) k = Some a \<Longrightarrow> a \<in> created its"
    "\<And>k a. map_of (lastByContract g) k = Some a \<Longrightarrow> a \<in> created its"
    using assms(1) unfolding gen_inv_def by blast+
  then show ?thesis
    using assms(2) by (auto simp: call_target_def bindR_Inr_iff orErr_def split: if_splits option.splits)
qed

lemma call_inv:
  assumes laws: "gen_laws V" and inv: "gen_inv V its g" and run: "execCall V prog h st g = Inr g'"
    and "st_Type st = ''CALL''"
  shows "\<exists>it. gen_inv V (its @ [it]) g' \<and> step_means V prog st it"
proof -
  let ?row = "\<lambda>src to data. (baseRow h g)[3 := addr_Hex V src, 4 := ToLower (addr_Hex V to), 5 := ''None'',
       6 := bool01 (isContract V g src), 7 := ''1'', 8 := defaultStr (st_Value st) ''0'',
       9 := defaultStr (st_GasLimit st) ''100000'', 12 := ''0x'' @ EncodeToString data]"
  obtain src to key c ts args data where r: "call_target st g = Inr (to, key)" "map_of (Contracts prog) key = Some c"
    "Option.bind (cd_ABI c) (\<lambda>abi. abi_Inputs V abi (st_Function st)) = Some ts"
    "abi_Pack V (the (cd_ABI c)) (st_Function st) args = Some data"
    "g' = gen_step (g\<lparr>rows := rows g @ [?row src to data]\<rparr>)"
    using run by (simp only: execCall_def bindR_Inr_iff Let_def orErr_def)
      (elim exE conjE, simp split: prod.splits if_splits option.splits add: bindR_Inr_iff, blast)
  have key: "st_Contract st \<noteq> [] \<Longrightarrow> key = st_Contract st"
    using r(1) by (auto simp: call_target_def bindR_Inr_iff orErr_def split: if_splits option.splits)
  obtain abi where "cd_ABI c = Some abi" using r(3) by (auto simp: bind_eq_Some_conv)
  then have m: "(st_Contract st \<noteq> [] \<longrightarrow> key = st_Contract st) \<and> map_of (Contracts prog) key = Some c \<and> cd_ABI c = Some abi \<and>
      abi_Pack V abi (st_Function st) args = Some data" using key r(2,4) by simp
  have c: "call_target st g = Inr (to, key)" "data \<noteq> []" "rows g' = rows g @ [?row src to data]"
    "nonceBySender g' = nonceBySender g" "deployedByID g' = deployedByID g" "lastByContract g' = lastByContract g"
    using r laws by (auto simp: gen_laws_def)
  let ?val = "defaultStr (st_Value st) ''0''"
  let ?it = "Invokes src to data (case parse_int ?val of None \<Rightarrow> 0 | Some v \<Rightarrow> v)"
  obtain rs where rs: "rows g = csvHeader # rs" "list_all2 (row_of V) rs its" and coh: "coherent V its"
    and nonce: "\<And>a. get_or 0 (nonceBySender g) (ToLower (addr_Hex V a)) = u64 (int (deployed_by a its))"
    and ids: "\<And>k a. map_of (deployedByID g) k = Some a \<Longrightarrow> a \<in> created its"
    and last: "\<And>k a. map_of (lastByContract g) k = Some a \<Longrightarrow> a \<in> created its"
    using inv unfolding gen_inv_def by blast
  let ?last = "last (rows g')"
  have row: "row_of V ?last ?it" unfolding c(3) using c(2) by (auto simp: row_of_def split: option.splits)
  have rows': "rows g' = csvHeader # (rs @ [?last])" "list_all2 (row_of V) (rs @ [?last]) (its @ [?it])"
    using c(3) rs row by (auto intro: list_all2_appendI)
  have coh': "coherent V (its @ [?it])"
    by (rule coherent_snoc [OF coh]) (simp add: follows_def call_target_created [OF inv c(1)])
  have "deployed_by a (its @ [?it]) = deployed_by a its" for a by (simp add: deployed_by_def)
  then have "gen_inv V (its @ [?it]) g'" unfolding gen_inv_def
    using rows' coh' nonce ids last created_snoc [of its ?it] unfolding c(4-6) by auto
  moreover have "step_means V prog st ?it" using m assms(4) by (auto simp: step_means_def)
  ultimately show ?thesis by blast
qed

lemma step_inv:
  assumes "gen_laws V" "coded prog" "gen_inv V its g" "exec_step V prog hashes g (i, st) = Inr g'"
  shows "\<exists>it. gen_inv V (its @ [it]) g' \<and> step_means V prog st it"
proof (cases "st_Type st = ''DEPLOY''")
  case True
  then show ?thesis using deploy_inv [OF assms(1-3) _ True] assms(4) by (simp add: exec_step_def)
next
  case False
  then have "execCall V prog (hashes i) st g = Inr g'" "st_Type st = ''CALL''"
    using assms(4) by (auto simp: exec_step_def split: if_splits)
  then show ?thesis using call_inv [OF assms(1,3)] by blast
qed

lemma run_inv:
  assumes "gen_laws V" "coded prog" "gen_inv V its g" "foldR (exec_step V prog hashes) g (enumerate n steps) = Inr g'"
  shows "\<exists>its'. gen_inv V (its @ its') g' \<and> list_all2 (step_means V prog) steps its'"
  using assms(3,4)
proof (induction steps arbitrary: its g n)
  case Nil
  then show ?case by (intro exI [of _ "[]"]) simp
next
  case (Cons st steps)
  obtain g1 where g1: "exec_step V prog hashes g (n, st) = Inr g1" "foldR (exec_step V prog hashes) g1 (enumerate (Suc n) steps) = Inr g'"
    using Cons.prems(2) by (auto simp: bindR_Inr_iff)
  obtain it where it: "gen_inv V (its @ [it]) g1" "step_means V prog st it"
    using step_inv [OF assms(1,2) Cons.prems(1) g1(1)] by blast
  obtain its' where "gen_inv V ((its @ [it]) @ its') g'" "list_all2 (step_means V prog) steps its'"
    using Cons.IH [OF it(1) g1(2)] by blast
  then show ?case using it(2) by (intro exI [of _ "it # its'"]) simp
qed

text \<open>Reading rows that are all transactions.\<close>

lemma u64_i64: "u64 (i64 x) = u64 x"
  by (simp add: u64_def i64_def mod_simps)

lemma csv_read_all:
  assumes "gen_laws V" "list_all2 (row_of V) rs its" "\<forall>row \<in> set rs. row ! 3 \<noteq> row ! 4 \<and> parse_int (row ! 8) \<noteq> None"
    and "u64 (csv_count ds) = u64 k" "\<not> csv_exclude ds"
  shows "\<exists>ds'. csv_read now (length rs) ds (map Inr rs) ret =
    (Inr (ret @ map (\<lambda>(i, it). gen_tx now (k + int i) it) (enumerate 0 its)), ds')"
  using assms(2-5)
proof (induction rs its arbitrary: ds k ret rule: list_all2_induct)
  case (Cons row rs it its)
  have "csv_line2Tx now row (csv_count ds) False = Inr (gen_tx now (csv_count ds) it)"
    using row_read [OF assms(1) Cons.hyps(1)] Cons.prems(1) by simp
  moreover have "gen_tx now (csv_count ds) it = gen_tx now k it" using Cons.prems(2) by (simp add: gen_tx_def split: gen_intent.splits)
  ultimately have line: "csv_line2Tx now row (csv_count ds) (csv_exclude ds) = Inr (gen_tx now k it)" using Cons.prems(3) by simp
  let ?ds = "ds\<lparr>csv_count := i64 (csv_count ds + 1)\<rparr>"
  have "u64 (csv_count ?ds) = u64 (k + 1)" using Cons.prems(2) by (simp add: u64_i64) (metis mod_add_cong u64_def)
  then obtain ds' where "csv_read now (length rs) ?ds (map Inr rs) (ret @ [gen_tx now k it]) =
      (Inr ((ret @ [gen_tx now k it]) @ map (\<lambda>(i, it). gen_tx now (k + 1 + int i) it) (enumerate 0 its)), ds')"
    using Cons.IH [of ?ds "k + 1" "ret @ [gen_tx now k it]"] Cons.prems(1,3) by auto
  moreover have "map (\<lambda>(i, it). gen_tx now (k + int i) it) (enumerate 1 its) = map (\<lambda>(i, it). gen_tx now (k + 1 + int i) it) (enumerate 0 its)"
    by (rule nth_equalityI) (simp_all add: nth_enumerate_eq ac_simps)
  ultimately show ?case using line by simp
qed simp

lemma run_replays:
  assumes "gen_laws V" "coded prog" "gen_run V prog hashes (new_generator b t bs ts) = Inr g"
    and "\<forall>row \<in> set (tl (rows g)). row ! 3 \<noteq> row ! 4 \<and> parse_int (row ! 8) \<noteq> None"
  shows "\<exists>its ds ds'. list_all2 (step_means V prog) (Steps prog) its \<and> coherent V its \<and>
    NewCSVSource (Inr (map Inr (rows g))) False = Inr ds \<and>
    csv_ReadTxs now (int (length its)) ds = (Inr (map (\<lambda>(i, it). gen_tx now (1 + int i) it) (enumerate 0 its)), ds')"
proof -
  obtain its where its: "gen_inv V its g" "list_all2 (step_means V prog) (Steps prog) its"
    using run_inv [OF assms(1,2) gen_inv_new] assms(3) unfolding gen_run_def by fastforce
  obtain rs where rs: "rows g = csvHeader # rs" "list_all2 (row_of V) rs its" "coherent V its" using its(1) unfolding gen_inv_def by blast
  let ?ds = "\<lparr>csv_count = 1, csv_rest = map Inr rs, csv_done = False, csv_exclude = False\<rparr>"
  have good: "\<forall>row \<in> set rs. row ! 3 \<noteq> row ! 4 \<and> parse_int (row ! 8) \<noteq> None" using assms(4) rs(1) by simp
  obtain ds' where "csv_read now (length rs) ?ds (map Inr rs) [] =
      (Inr ([] @ map (\<lambda>(i, it). gen_tx now (1 + int i) it) (enumerate 0 its)), ds')"
    using csv_read_all [OF assms(1) rs(2) good, of ?ds 1 now "[]"] by auto
  then have "csv_ReadTxs now (int (length its)) ?ds = (Inr (map (\<lambda>(i, it). gen_tx now (1 + int i) it) (enumerate 0 its)), ds')"
    using list_all2_lengthD [OF rs(2)] by (simp add: csv_ReadTxs_def)
  moreover have "NewCSVSource (Inr (map Inr (rows g))) False = Inr ?ds" by (simp add: NewCSVSource_def rs(1))
  ultimately show ?thesis using its(2) rs(3) by blast
qed

text \<open>In artifact mode, every contract that was loaded has a code.\<close>

lemma loadArtifacts_code: "loadArtifacts V rootDir c = Inr c' \<Longrightarrow> has_code c'"
  using normalizeHex_encodes by (fastforce simp: has_code_def loadArtifacts_def Let_def bindR_Inr_iff split: if_splits)

lemma loaded_coded:
  "mapR (\<lambda>(alias, c). bindR (loadArtifacts V rootDir c) (\<lambda>c'. Inr (alias, c'))) m = Inr m' \<Longrightarrow> coded (prog\<lparr>Contracts := m'\<rparr>)"
  by (induction m arbitrary: m') (auto simp: coded_def bindR_Inr_iff dest!: loadArtifacts_code split: if_splits)


section \<open>Example\<close>

definition example_lines :: "string list" where
  "example_lines = [''# accounts'', ''ACCOUNT a 0x01'', ''CONTRACT c abi=x bytecode=y'', ''deploy id=k contract=c from=a'',
     ''CALL contract_ref=k from=a function=f value=7'']"

definition example_gen :: "unit gen_env" where
  "example_gen = \<lparr>IsHexAddress = (\<lambda>s. s = ''0x01''), HexToAddress = (\<lambda>s. 1), addr_Hex = (\<lambda>a. ''0x'' @ EncodeToString (bytes_of_addr a)),
     CreateAddress = (\<lambda>a n. a + 1 + word_of_int n), abi_JSON = (\<lambda>s. Some ()), abi_Inputs = (\<lambda>abi f. Some []),
     abi_Pack = (\<lambda>abi f args. Some [1, 2, 3, 4]), run_solc = (\<lambda>args. Inl (Errorf ''solc'')), solc_output = (\<lambda>s. None),
     json_string = (\<lambda>s. None), artifact_abi = (\<lambda>s. None),
     ReadFile = (\<lambda>p. Inr (if p = ''s'' then concat (map (\<lambda>l. l @ [newline]) example_lines) else ''6001''))\<rparr>"

lemma ToLower_hex: "ToLower (EncodeToString bs) = EncodeToString bs"
  using Encode_Decode DecodeString_EncodeToString by blast

lemma example_gen_laws: "gen_laws example_gen"
proof -
  have "ToLower (''0x'' @ s) = ''0x'' @ ToLower s" for s by (simp add: ToLower_def lower_def)
  then show ?thesis by (simp add: gen_laws_def example_gen_def ToLower_hex)
qed

lemma example_scan: "scan_lines (concat (map (\<lambda>l. l @ [newline]) example_lines)) = (example_lines, False)"
proof (rule scan_lines_roundtrip)
  have "\<forall>l \<in> set example_lines. newline \<notin> set l \<and> length l < 100 \<and> dropCR l = l" by code_simp
  then show "newline \<notin> set l \<and> length l < maxTokenSize \<and> dropCR l = l" if "l \<in> set example_lines" for l
    using that by (auto simp: maxTokenSize_def dest!: bspec)
qed

text \<open>The scenario as it is parsed: two steps, which the generator can execute.\<close>

definition example_parsed :: "(unit Program \<times> string) result" where
  "example_parsed = foldR (scenario_line example_gen) (\<lparr>Accounts = [], Contracts = [], Steps = []\<rparr>, ''default'') example_lines"

lemma example_parse: "\<exists>prog scen. example_parsed = Inr (prog, scen) \<and> parseScenarioTXT example_gen ''s'' = Inr (prog, ''.'') \<and>
    length (Steps prog) = 2"
proof -
  have "case example_parsed of Inl e \<Rightarrow> False | Inr (prog, scen) \<Rightarrow> length (Steps prog) = 2" by code_simp
  then obtain prog scen where p: "example_parsed = Inr (prog, scen)" "length (Steps prog) = 2" by (auto split: sum.splits)
  have "ReadFile example_gen ''s'' = Inr (concat (map (\<lambda>l. l @ [newline]) example_lines))" by (simp add: example_gen_def)
  moreover have "path_Dir ''s'' = ''.''" by code_simp
  ultimately show ?thesis using p by (simp add: parseScenarioTXT_def example_scan example_parsed_def)
qed

lemma example_dataset:
  "\<exists>out. gen_main example_gen ''s'' False (1, 0, 1, 3) ('''', '''', True) (\<lambda>i. []) = Inr out \<and>
     (\<forall>row \<in> set (tl out). row ! 3 \<noteq> row ! 4 \<and> parse_int (row ! 8) \<noteq> None)"
proof -
  let ?out = "bindR example_parsed (\<lambda>(prog, _).
     bindR (mapR (\<lambda>(alias, c). bindR (loadArtifacts example_gen ''.'' c) (\<lambda>c'. Inr (alias, c'))) (Contracts prog)) (\<lambda>cs.
     bindR (gen_run example_gen (prog\<lparr>Contracts := cs\<rparr>) (\<lambda>i. []) (new_generator 1 0 1 3)) (\<lambda>g. Inr (rows g))))"
  have run: "case ?out of Inl e \<Rightarrow> False | Inr out \<Rightarrow> (\<forall>row \<in> set (tl out). row ! 3 \<noteq> row ! 4 \<and> parse_int (row ! 8) \<noteq> None)"
    by code_simp
  obtain prog scen where p: "example_parsed = Inr (prog, scen)" "parseScenarioTXT example_gen ''s'' = Inr (prog, ''.'')"
    using example_parse by blast
  have trim: "TrimSpace ''s'' \<noteq> []" by code_simp
  have "gen_main example_gen ''s'' False (1, 0, 1, 3) ('''', '''', True) (\<lambda>i. []) = ?out"
    unfolding p(1) gen_main_def using trim by (simp add: p(2))
  then show ?thesis using run by (auto split: sum.splits)
qed


end
