(* ===== verification/Spec2Isabelle.thy ===== *)
theory Spec2Isabelle
  imports Proposal CatchUp BlockStore Commands ShardFlow Partition SupervisorRun AgentRun ContractExec DatasetFlow Startup
begin

text \<open>
  A verification development for BlockEmulator-X and its agent emulator: an emulator of sharded
  blockchains written in Go. The repository builds three programs. A \<^emph>\<open>consensus node\<close> replicates the
  chain of one shard by PBFT, executes transactions and migrates accounts between shards. The
  \<^emph>\<open>supervisor\<close> injects transactions, repartitions the accounts, plays the broker and measures. The
  \<^emph>\<open>agent emulator\<close> compiles traces of agent actions into transaction plans, runs a private chain on
  them and reads the blocks back.

  \<^bold>\<open>How code is modelled.\<close> A struct is a record with the names of its fields, an operation a function of
  the same name (a suffix or prefix tells it from a name of the library). An error or a panic is an
  \<open>Inl\<close> of \<open>result\<close>, with the innermost message; a method that changes its receiver before it fails
  returns the state beside the result (\<open>act\<close> in theory Act, or a pair). Messages that are sent are
  a list. Signed and unsigned 64-bit integers are integers that \<open>i64\<close> and \<open>u64\<close> wrap, \<open>big.Int\<close> is an
  integer, a 256-bit balance wraps by \<open>u256\<close>; times and durations are nanoseconds. A Go map is an
  association list with distinct keys (\<open>gomap\<close>); where the code iterates over a map and the order
  matters, the order is an argument. Loops that may not end are \<open>partial_function (option)\<close>, where
  \<open>None\<close> is the loop that runs for ever.

  Code outside the repository is a parameter: hash functions, gob, RLP, JSON, CSV and YAML codecs
  (record \<open>lib\<close> in CoreTypes and its likes), go-ethereum's state database and EVM (\<open>geth\<close> in
  StateExec), the key-value stores, floating-point arithmetic, process start, clocks and random
  picks. What a theorem needs of them (a decoder undoes its encoder, a hash has 32 bytes) is a named
  hypothesis, and the theorem's witness instantiates the parameter with a concrete function.

  \<^bold>\<open>The theories.\<close>
  \<^item> Prelude, Format, Scan, Act: integers, results and panics, slices and maps; hexadecimal and
    decimal text; lines and white space; methods with effects and their Hoare-style rules.
  \<^item> CoreTypes, TxPool, Message: \<open>pkg/core\<close> (accounts, transactions, blocks, the Bloom filter),
    \<open>pkg/core/txpool\<close>, \<open>pkg/message\<close> and \<open>pkg/nodetopo\<close>.
  \<^item> GoHeap, MsgPool, PbftMeta, Node: \<open>consensus/pbft\<close>: container/heap, the message pool, the metadata
    of a round, the handlers and the loop of a node. Agreement puts honest replicas running \<open>tick\<close>
    and an adversary who controls the network and F nodes into one step relation and shows that no
    two honest replicas decide differently; the node's interface to its shard is the locale
    \<open>shard_contract\<close>, which ShardContract interprets for all four kinds of node. Liveness shows
    progress in the locale \<open>round_contract\<close>: honest replicas that get the proposal and the votes of
    one another end the round; Proposal adds the leader: the block it proposes is valid for the
    others, reaches them and is committed. CatchUp follows a replica that lags behind to the leader's history.
  \<^item> Partition: \<open>pkg/partition\<close>: account locations, the transaction graph, the CLPA algorithm.
  \<^item> StateExec, Storage, Chain: \<open>pkg/chain\<close> and \<open>pkg/storage\<close>. StateExec refines the execution of
    transfers, relay and broker halves to an abstract ledger; Storage relates the block store to the
    history it holds; BlockStore states the store's interface as the locale \<open>block_store\<close> and shows
    that the store passes the repository's compliance tests; Chain generates, validates and adds
    blocks over both.
  \<^item> Migration, TxBlockOp, ShardOps: \<open>consensus/pbft/migration\<close>, \<open>insideop\<close>, \<open>outsideop\<close>. ShardFlow shows
    that packing, migrating and relaying lose and duplicate no transaction.
  \<^item> Broker, TxSource, Committee, BrokerCommittee, Measure, Supervisor: \<open>pkg/broker\<close> and \<open>supervisor\<close>.
    The committee is the locale \<open>committee_contract\<close>; SupervisorRun interprets it for the four
    committees and concludes that a supervisor injects what it is configured to.
  \<^item> AgentTrace, AgentRegistry, AgentPlan, AgentCsv, Paths, ChainRunner, AgentRun: \<open>agentsupervisor\<close>.
    AgentFlow refines the agent supervisor to an abstract machine of agent lives; AgentRun carries
    the refinement over the rounds of a run.
  \<^item> ContractExec, ContractGen: \<open>pkg/contractexec\<close>, which replays contract transactions against the EVM,
    and \<open>cmd/generatecontracttxfile\<close>, which compiles a scenario into a dataset. DatasetFlow shows that
    the CSV source of TxSource replays a generated dataset as the scenario means.
  \<^item> Network, LibP2P, LoadNetwork, Startup: \<open>pkg/network\<close>, \<open>cmd/loadnetwork\<close>, and the configuration, log
    and CSV files of a node (\<open>config\<close>, \<open>pkg/logger\<close>, \<open>pkg/csvwrite\<close>). A network is the connections of
    all nodes; LoadNetwork shows that the address table the chain runner writes yields a topology
    that is ready and a network that delivers, and that the topology over libp2p is ready when all
    nodes have registered. Commands composes the parts to the three programs of \<open>cmd\<close>; the nodes it
    starts are those of Agreement.

  \<^bold>\<open>What the properties show.\<close> Agreement and progress of the replicas (C1, C2) and catching up (C3);
  conservation of transactions and money (C4 to C9); that what is stored is read back (C10, C15,
  C16); the books of the partition (C11, C12); relay options and blocks agree with reference
  definitions and pass validation (C13, C14); migration epochs (C17 to C20); the size of quorums
  (C21); brokers, statistics and the supervisor (C22 to C25); contract datasets and their execution
  (C26, C27); agents and the chains they run (C28 to C37, C40); the network (C38, C39). Those of
  kind error state what the code does where it does not do what it should.

  \<^bold>\<open>Fuel and bounds.\<close> Loops over slices and maps are structural. A loop that drains a queue (\<open>read_loop\<close>
  of GoHeap, the message pool) counts down from its length, and a node's stages within a tick from
  three: both are shown to be enough. Loops that follow links (\<open>walk_blocks\<close>), retry (the sources)
  or wait (\<open>run_loop\<close>) are partial functions, with theorems that say when they return. Theorems that
  need room in an integer say so (\<open>in_i64\<close>).

  \<^bold>\<open>Not modelled.\<close> Setting up gRPC servers and the hosts, relays, hash tables and peer discovery of
  libp2p, and the generated code of gRPC (\<open>pkg/network\<close>): calls of third-party code; what a connection
  does with a message is modelled. Printing of logs and of the use of resources (\<open>pkg/logger\<close>).
  Opening and closing files and databases, parsing of flags, running the compiler.
\<close>

end
